(* ===== verification/Py_Base.thy ===== *)
theory Py_Base
  imports Complex_Main "HOL-Library.AList"
begin

text \<open>
  The fragment of Python the library's modules are written in: exceptions, sequencing,
  \<open>try\<close>/\<open>except\<close>/\<open>finally\<close>, \<open>for\<close> loops, and the insertion-ordered \<open>dict\<close>.

  A Python function that can raise and that works on mutable state is a value of type
  \<open>('s, 'a) py\<close>: it takes the state and returns the exception raised or the value
  returned, together with the state it leaves behind (an exception does not undo
  assignments).  Exceptions of the library (\<open>psutil/_common.py\<close>) keep their fields;
  for the exceptions of Python itself only the class is kept, with the errno of an
  \<open>OSError\<close>, because no handler of the source looks at anything else.
\<close>

named_theorems py_run "execution of the Python statements"
named_theorems pres_intros "relations kept by the Python statements"

section \<open>Exceptions\<close>

datatype oserror =
    EPERM | ENOENT | ESRCH | ECHILD | EACCES | ENODEV | EINVAL | ENFILE | EMFILE | ENOSYS
  | ENAMETOOLONG | EFAULT | EOVERFLOW | EDEADLK | ENOTDIR | EOTHER int

datatype exn =
    OSError oserror
  | WinError oserror int
  | ValueError | KeyError | IndexError | TypeError | AttributeError | AssertionError
  | ZeroDivisionError | OverflowError | StructError | RuntimeError | NotImplementedError | ImportError
  | Ipv6UnsupportedError
  | NoSuchProcess "int option" "string option" string
  | ZombieProcess int "string option" "int option" string
  | AccessDenied "int option" "string option" string
  | TimeoutExpired rat "int option" "string option"
  | CextZombieProcessError | CextTimeoutExpired | CextTimeoutAbandoned

text \<open>
  An \<open>OSError\<close> has an errno, and on Windows it may have the code of the Windows API as well
  (\<open>WinError\<close>, its attribute \<open>winerror\<close>).  The last three are raised by the C extension.
\<close>

text \<open>Python's subclasses of \<open>OSError\<close>, by errno.\<close>

fun is_FileNotFoundError :: "exn \<Rightarrow> bool" where
  "is_FileNotFoundError (OSError e) = (e = ENOENT)"
| "is_FileNotFoundError (WinError e w) = (e = ENOENT)"
| "is_FileNotFoundError _ = False"

fun is_ProcessLookupError :: "exn \<Rightarrow> bool" where
  "is_ProcessLookupError (OSError e) = (e = ESRCH)"
| "is_ProcessLookupError (WinError e w) = (e = ESRCH)"
| "is_ProcessLookupError _ = False"

fun is_PermissionError :: "exn \<Rightarrow> bool" where
  "is_PermissionError (OSError e) = (e = EPERM \<or> e = EACCES)"
| "is_PermissionError (WinError e w) = (e = EPERM \<or> e = EACCES)"
| "is_PermissionError _ = False"

fun is_ChildProcessError :: "exn \<Rightarrow> bool" where
  "is_ChildProcessError (OSError e) = (e = ECHILD)"
| "is_ChildProcessError (WinError e w) = (e = ECHILD)"
| "is_ChildProcessError _ = False"

fun is_OSError :: "exn \<Rightarrow> bool" where
  "is_OSError (OSError e) = True"
| "is_OSError (WinError e w) = True"
| "is_OSError _ = False"

fun errno_of :: "exn \<Rightarrow> oserror option" where
  "errno_of (OSError e) = Some e"
| "errno_of (WinError e w) = Some e"
| "errno_of _ = None"

section \<open>Statements\<close>

type_synonym ('s, 'a) py = "'s \<Rightarrow> (exn + 'a) \<times> 's"

definition ret :: "'a \<Rightarrow> ('s, 'a) py" where
  "ret x = (\<lambda>s. (Inr x, s))"

definition raise :: "exn \<Rightarrow> ('s, 'a) py" where
  "raise e = (\<lambda>s. (Inl e, s))"

definition bnd :: "('s, 'a) py \<Rightarrow> ('a \<Rightarrow> ('s, 'b) py) \<Rightarrow> ('s, 'b) py" where
  "bnd m f = (\<lambda>s. case m s of (Inl e, s') \<Rightarrow> (Inl e, s') | (Inr x, s') \<Rightarrow> f x s')"

text \<open>
  \<open>try_else m h k\<close> is \<open>try: x = m  except: h  else: k(x)\<close>: the handler does not
  cover \<open>k\<close>.  A handler gets every exception and re-raises those its \<open>except\<close> clauses
  do not name.
\<close>

definition try_else ::
  "('s, 'a) py \<Rightarrow> (exn \<Rightarrow> ('s, 'b) py) \<Rightarrow> ('a \<Rightarrow> ('s, 'b) py) \<Rightarrow> ('s, 'b) py" where
  "try_else m h k = (\<lambda>s. case m s of (Inl e, s') \<Rightarrow> h e s' | (Inr x, s') \<Rightarrow> k x s')"

definition try_except :: "('s, 'a) py \<Rightarrow> (exn \<Rightarrow> ('s, 'a) py) \<Rightarrow> ('s, 'a) py" where
  "try_except m h = try_else m h ret"

definition try_finally :: "('s, 'a) py \<Rightarrow> ('s, unit) py \<Rightarrow> ('s, 'a) py" where
  "try_finally m fin = (\<lambda>s. case m s of (r, s') \<Rightarrow>
     (case fin s' of (Inl e, s'') \<Rightarrow> (Inl e, s'') | (Inr _, s'') \<Rightarrow> (r, s'')))"

definition gets :: "('s \<Rightarrow> 'a) \<Rightarrow> ('s, 'a) py" where
  "gets f = (\<lambda>s. (Inr (f s), s))"

definition modify :: "('s \<Rightarrow> 's) \<Rightarrow> ('s, unit) py" where
  "modify f = (\<lambda>s. (Inr (), f s))"

definition liftE :: "exn + 'a \<Rightarrow> ('s, 'a) py" where
  "liftE r = (\<lambda>s. (r, s))"

definition of_option :: "exn \<Rightarrow> 'a option \<Rightarrow> exn + 'a" where
  "of_option e x = (case x of None \<Rightarrow> Inl e | Some y \<Rightarrow> Inr y)"

definition assert_py :: "bool \<Rightarrow> ('s, unit) py" where
  "assert_py b = (if b then ret () else raise AssertionError)"

text \<open>\<open>for x in xs: acc = body(x, acc)\<close>; an exception leaves the loop.\<close>

fun for_each :: "'a list \<Rightarrow> ('a \<Rightarrow> 'b \<Rightarrow> ('s, 'b) py) \<Rightarrow> 'b \<Rightarrow> ('s, 'b) py" where
  "for_each [] f acc = ret acc"
| "for_each (x # xs) f acc = bnd (f x acc) (for_each xs f)"

text \<open>\<open>[f(x) for x in xs]\<close> where \<open>f\<close> may raise, without and with state.\<close>

fun mapE :: "('a \<Rightarrow> exn + 'b) \<Rightarrow> 'a list \<Rightarrow> exn + 'b list" where
  "mapE f [] = Inr []"
| "mapE f (x # xs) =
     (case f x of Inl e \<Rightarrow> Inl e
      | Inr y \<Rightarrow> (case mapE f xs of Inl e \<Rightarrow> Inl e | Inr ys \<Rightarrow> Inr (y # ys)))"

definition bindE :: "exn + 'a \<Rightarrow> ('a \<Rightarrow> exn + 'b) \<Rightarrow> exn + 'b" where
  "bindE r f = (case r of Inl e \<Rightarrow> Inl e | Inr x \<Rightarrow> f x)"

section \<open>Running statements\<close>

lemma ret_run [simp, py_run]: "ret x s = (Inr x, s)"
  by (simp add: ret_def)

lemma raise_run [simp, py_run]: "raise e s = (Inl e, s)"
  by (simp add: raise_def)

lemma bnd_run [simp, py_run]:
  "bnd m f s = (case m s of (Inl e, s') \<Rightarrow> (Inl e, s') | (Inr x, s') \<Rightarrow> f x s')"
  by (simp add: bnd_def)

lemma try_else_run [simp, py_run]:
  "try_else m h k s = (case m s of (Inl e, s') \<Rightarrow> h e s' | (Inr x, s') \<Rightarrow> k x s')"
  by (simp add: try_else_def)

lemma try_except_run [simp, py_run]:
  "try_except m h s = (case m s of (Inl e, s') \<Rightarrow> h e s' | (Inr x, s') \<Rightarrow> (Inr x, s'))"
  by (auto simp add: try_except_def split: prod.splits sum.splits)

lemma try_finally_run [simp, py_run]:
  "try_finally m fin s = (case m s of (r, s') \<Rightarrow>
     (case fin s' of (Inl e, s'') \<Rightarrow> (Inl e, s'') | (Inr _, s'') \<Rightarrow> (r, s'')))"
  by (simp add: try_finally_def)

lemma gets_run [simp, py_run]: "gets f s = (Inr (f s), s)"
  by (simp add: gets_def)

lemma modify_run [simp, py_run]: "modify f s = (Inr (), f s)"
  by (simp add: modify_def)

lemma liftE_run [simp, py_run]: "liftE r s = (r, s)"
  by (simp add: liftE_def)

lemma assert_py_run [simp, py_run]:
  "assert_py b s = (if b then (Inr (), s) else (Inl AssertionError, s))"
  by (simp add: assert_py_def)

lemma of_option_simps [simp, py_run]:
  "of_option e (Some y) = Inr y" "of_option e None = Inl e"
  by (simp_all add: of_option_def)

lemma bindE_simps [simp, py_run]: "bindE (Inr x) f = f x" "bindE (Inl e) f = Inl e"
  by (simp_all add: bindE_def)

lemma of_option_eq_Inr [simp]: "of_option e x = Inr y \<longleftrightarrow> x = Some y"
  by (cases x) simp_all

lemma bindE_eq_Inr: "bindE r f = Inr y \<longleftrightarrow> (\<exists>x. r = Inr x \<and> f x = Inr y)"
  by (cases r) simp_all

lemma bndE [elim!]:
  assumes "bnd m f s = (Inr y, t)"
  obtains x s' where "m s = (Inr x, s')" "f x s' = (Inr y, t)"
  using assms by (auto split: prod.splits sum.splits)

text \<open>Rules to take a successful run apart (with \<open>simp del: bnd_run\<close>).\<close>

lemma bnd_Inr: "bnd m f s = (Inr y, t) \<longleftrightarrow> (\<exists>x s'. m s = (Inr x, s') \<and> f x s' = (Inr y, t))"
  by (auto split: prod.splits sum.splits)

lemma bnd_Inl: "bnd m f s = (Inl e, t) \<longleftrightarrow>
    m s = (Inl e, t) \<or> (\<exists>x s'. m s = (Inr x, s') \<and> f x s' = (Inl e, t))"
  by (auto split: prod.splits sum.splits)

lemma try_else_Inr: "try_else m h k s = (Inr y, t) \<longleftrightarrow>
    (\<exists>x s'. m s = (Inr x, s') \<and> k x s' = (Inr y, t)) \<or> (\<exists>e s'. m s = (Inl e, s') \<and> h e s' = (Inr y, t))"
  by (auto split: prod.splits sum.splits)

text \<open>Sequencing is associative and \<open>ret\<close> is its unit, as in any semantics of statements.\<close>

lemma bnd_assoc: "bnd (bnd m f) g = bnd m (\<lambda>x. bnd (f x) g)"
  by (rule ext) (auto split: prod.splits sum.splits)

lemma bnd_ret: "bnd m ret = m"
  by (rule ext) (auto split: prod.splits sum.splits)

lemma ret_bnd: "bnd (ret x) f = f x"
  by (rule ext) simp

lemma for_each_append:
  "for_each (xs @ ys) f acc = bnd (for_each xs f acc) (for_each ys f)"
proof (induction xs arbitrary: acc)
  case Nil
  show ?case by (simp add: ret_bnd)
next
  case (Cons x xs)
  have "for_each (xs @ ys) f = (\<lambda>a. bnd (for_each xs f a) (for_each ys f))"
    using Cons.IH by (rule ext)
  then show ?case by (simp only: append_Cons for_each.simps bnd_assoc)
qed

lemma mapE_Inr_length: "mapE f xs = Inr ys \<Longrightarrow> length ys = length xs"
  by (induction xs arbitrary: ys) (auto split: sum.splits)

lemma mapE_map: "(\<And>x. x \<in> set xs \<Longrightarrow> f x = Inr (g x)) \<Longrightarrow> mapE f xs = Inr (map g xs)"
  by (induction xs) auto

section \<open>Relations between the state before and after\<close>

text \<open>
  \<open>pres R m\<close>: however \<open>m\<close> ends, the state it leaves is related by \<open>R\<close> to the state it
  got.  For a reflexive and transitive \<open>R\<close> every statement keeps \<open>pres R\<close>; \<open>R\<close> is
  used for what an operation does not touch and for what only grows.
\<close>

definition pres :: "('s \<Rightarrow> 's \<Rightarrow> bool) \<Rightarrow> ('s, 'a) py \<Rightarrow> bool" where
  "pres R m \<longleftrightarrow> (\<forall>s. R s (snd (m s)))"

lemma presD: "pres R m \<Longrightarrow> m s = (r, s') \<Longrightarrow> R s s'"
  unfolding pres_def by (metis snd_conv)

lemma presI: "(\<And>s r s'. m s = (r, s') \<Longrightarrow> R s s') \<Longrightarrow> pres R m"
  unfolding pres_def by (metis prod.collapse)

locale preserved =
  fixes R :: "'s \<Rightarrow> 's \<Rightarrow> bool"
  assumes R_refl: "R s s"
    and R_trans: "R s t \<Longrightarrow> R t u \<Longrightarrow> R s u"
begin

lemma pres_ret [pres_intros]: "pres R (ret x)"
  by (simp add: pres_def R_refl)

lemma pres_raise [pres_intros]: "pres R (raise e)"
  by (simp add: pres_def R_refl)

lemma pres_gets [pres_intros]: "pres R (gets f)"
  by (simp add: pres_def R_refl)

lemma pres_liftE [pres_intros]: "pres R (liftE r)"
  by (simp add: pres_def R_refl)

lemma pres_assert [pres_intros]: "pres R (assert_py b)"
  by (simp add: pres_def R_refl)

lemma pres_modify: "(\<And>s. R s (f s)) \<Longrightarrow> pres R (modify f)"
  by (simp add: pres_def)

lemma pres_try_else [pres_intros]:
  assumes m: "pres R m" and h: "\<And>e. pres R (h e)" and k: "\<And>x. pres R (k x)"
  shows "pres R (try_else m h k)"
proof (rule presI)
  fix s r t
  assume run: "try_else m h k s = (r, t)"
  obtain q s' where q: "m s = (q, s')" by (cases "m s")
  have "R s s'" using m q by (rule presD)
  moreover have "R s' t"
    using run q by (cases q) (auto intro: presD [OF h] presD [OF k])
  ultimately show "R s t" by (rule R_trans)
qed

lemma pres_bnd [pres_intros]:
  assumes "pres R m" "\<And>x. pres R (f x)"
  shows "pres R (bnd m f)"
proof -
  have "bnd m f = try_else m raise f"
    by (rule ext) (simp split: prod.splits sum.splits)
  then show ?thesis using assms by (simp add: pres_try_else pres_raise)
qed

lemma pres_try_except [pres_intros]:
  assumes "pres R m" "\<And>e. pres R (h e)"
  shows "pres R (try_except m h)"
  unfolding try_except_def using assms by (intro pres_try_else pres_ret)

lemma pres_try_finally [pres_intros]:
  assumes m: "pres R m" and fin: "pres R fin"
  shows "pres R (try_finally m fin)"
proof (rule presI)
  fix s r t
  assume run: "try_finally m fin s = (r, t)"
  obtain q s' where q: "m s = (q, s')" by (cases "m s")
  obtain q' s'' where q': "fin s' = (q', s'')" by (cases "fin s'")
  have "R s s'" using m q by (rule presD)
  moreover have "R s' s''" using fin q' by (rule presD)
  moreover have "t = s''" using run q q' by (auto split: sum.splits)
  ultimately show "R s t" by (blast intro: R_trans)
qed

lemma pres_if [pres_intros]: "pres R m \<Longrightarrow> pres R m' \<Longrightarrow> pres R (if b then m else m')"
  by simp

lemma pres_for_each [pres_intros]:
  assumes "\<And>x a. pres R (f x a)"
  shows "pres R (for_each xs f a)"
  by (induction xs arbitrary: a) (auto intro!: pres_ret pres_bnd assms)

end

section \<open>Dictionaries\<close>

text \<open>
  A \<open>dict\<close> is an association list in insertion order, as Python keeps it:
  \<open>d[k] = v\<close> replaces the value in place or appends (\<open>AList.update\<close>), \<open>del d[k]\<close>
  removes the entry (\<open>AList.delete\<close>), \<open>d[k]\<close> and \<open>d.get(k)\<close> read it (\<open>map_of\<close>).
\<close>

type_synonym ('k, 'v) dict = "('k \<times> 'v) list"

abbreviation dict_keys :: "('k, 'v) dict \<Rightarrow> 'k list" where
  "dict_keys d \<equiv> map fst d"

abbreviation dict_ok :: "('k, 'v) dict \<Rightarrow> bool" where
  "dict_ok d \<equiv> distinct (map fst d)"

definition dict_get :: "('k, 'v) dict \<Rightarrow> 'k \<Rightarrow> 'v \<Rightarrow> 'v" where
  "dict_get d k v = (case map_of d k of None \<Rightarrow> v | Some x \<Rightarrow> x)"

lemma dict_ok_update: "dict_ok d \<Longrightarrow> dict_ok (AList.update k v d)"
  by (rule distinct_update)

lemma dict_ok_delete: "dict_ok d \<Longrightarrow> dict_ok (AList.delete k d)"
  by (rule distinct_delete)

lemma map_of_update [simp]: "map_of (AList.update k v d) = (map_of d)(k \<mapsto> v)"
  by (rule update_conv')

lemma map_of_delete [simp]: "map_of (AList.delete k d) = (map_of d)(k := None)"
  by (rule delete_conv')

lemma dict_get_update [simp]:
  "dict_get (AList.update k v d) k' x = (if k' = k then v else dict_get d k' x)"
  by (simp add: dict_get_def)

lemma dict_get_delete [simp]:
  "dict_get (AList.delete k d) k' x = (if k' = k then x else dict_get d k' x)"
  by (simp add: dict_get_def)

lemma dict_get_Nil [simp]: "dict_get [] k x = x"
  by (simp add: dict_get_def)

lemma set_keys_update [simp]: "set (map fst (AList.update k v d)) = insert k (set (map fst d))"
  using dom_update [of k v d] by (simp add: dom_map_of_conv_image_fst)

lemma keys_update_same: "k \<in> set (map fst d) \<Longrightarrow> map fst (AList.update k v d) = map fst d"
  by (induction d) auto

lemma keys_update_new: "k \<notin> set (map fst d) \<Longrightarrow> AList.update k v d = d @ [(k, v)]"
  by (induction d) auto

end
