(* ===== verification/Py_Float.thy ===== *)
theory Py_Float
  imports Py_Base "HOL-Library.Log_Nat"
begin

text \<open>
  Python floats.  A finite IEEE-754 double is the rational number it denotes, and every
  operation rounds its exact result to the nearest double, ties to even (\<open>fl\<close>), with a
  53-bit significand and subnormals below \<open>2 powi (-1022)\<close>.  Infinities, NaN and the
  sign of zero are not modelled: a result of at least \<open>2 powi 1024\<close> (where Python has
  \<open>inf\<close> or \<open>OverflowError\<close>) is kept as a number.

  The facts about bounds are proved for any rounding that is monotone and exact on small
  integers (locale \<open>rounding\<close>) and then for \<open>fl\<close>.
\<close>

type_synonym flt = rat

section \<open>Rounding to an integer, half to even\<close>

definition rhe :: "rat \<Rightarrow> int" where
  "rhe x = (let f = \<lfloor>x\<rfloor>; d = x - of_int f in
     if d < 1 / 2 then f else if d > 1 / 2 then f + 1 else if even f then f else f + 1)"

lemma rhe_of_int [simp]: "rhe (of_int n) = n"
  by (simp add: rhe_def)

lemma rhe_numeral [simp]: "rhe (numeral n) = numeral n" and rhe_0 [simp]: "rhe 0 = 0"
    and rhe_1 [simp]: "rhe 1 = 1"
  using rhe_of_int [of "numeral n"] rhe_of_int [of 0] rhe_of_int [of 1] by simp_all

lemma rhe_bounds: "\<lfloor>x\<rfloor> \<le> rhe x" and rhe_bounds_le: "rhe x \<le> \<lfloor>x\<rfloor> + 1"
  by (auto simp: rhe_def Let_def)

lemma rhe_mono:
  assumes "x \<le> y"
  shows "rhe x \<le> rhe y"
proof (cases "\<lfloor>x\<rfloor> = \<lfloor>y\<rfloor>")
  case True
  then show ?thesis using assms by (auto simp: rhe_def Let_def)
next
  case False
  with assms have "\<lfloor>x\<rfloor> + 1 \<le> \<lfloor>y\<rfloor>" using floor_mono [OF assms] by linarith
  then show ?thesis using rhe_bounds_le [of x] rhe_bounds [of y] by linarith
qed

lemma rhe_nonneg: "0 \<le> x \<Longrightarrow> 0 \<le> rhe x"
  using rhe_mono [of 0 x] rhe_of_int [of 0] by simp

section \<open>Rounding to a double\<close>

text \<open>\<open>bexp x\<close> is the exponent of the leading bit of a positive \<open>x\<close>.\<close>

definition bexp :: "rat \<Rightarrow> int" where
  "bexp x = (case quotient_of x of (p, q) \<Rightarrow>
     (let e = bitlen p - bitlen q in if 2 powi e \<le> x then e else e - 1))"

definition fexp :: "rat \<Rightarrow> int" where
  "fexp x = max (bexp x - 52) (- 1074)"

definition fl :: "rat \<Rightarrow> flt" where
  "fl x = (if x = 0 then 0
     else (let e = fexp \<bar>x\<bar> in sgn x * (of_int (rhe (\<bar>x\<bar> / 2 powi e)) * 2 powi e)))"


lemma bitlen_rat:
  assumes "0 < p"
  shows "(2::rat) powi (bitlen p - 1) \<le> of_int p" "of_int p < (2::rat) powi (bitlen p)"
proof -
  have b: "1 \<le> bitlen p"
    using assms bitlen_eq_zero_iff [of p] bitlen_nonneg [of p] by linarith
  have "2 ^ nat (bitlen p - 1) \<le> p" "p < 2 ^ nat (bitlen p)"
    using bitlen_bounds [OF assms] by simp_all
  then have "(of_int (2 ^ nat (bitlen p - 1)) :: rat) \<le> of_int p"
    and "(of_int p :: rat) < of_int (2 ^ nat (bitlen p))"
    by (simp_all only: of_int_le_iff of_int_less_iff)
  with b show "(2::rat) powi (bitlen p - 1) \<le> of_int p" "of_int p < (2::rat) powi (bitlen p)"
    by (simp_all add: power_int_def)
qed

lemma powi2_pos [simp]: "0 < (2::rat) powi e"
  by (simp add: zero_less_power_int)

lemma powi2_le_iff [simp]: "(2::rat) powi a \<le> 2 powi b \<longleftrightarrow> a \<le> b"
  by (metis linorder_not_less one_less_numeral_iff order_less_imp_le power_int_increasing
      power_int_strict_increasing semiring_norm(76) order.strict_iff_not)

lemma bexp_bounds:
  assumes "0 < x"
  shows "2 powi (bexp x) \<le> x" "x < 2 powi (bexp x + 1)"
proof -
  obtain p q where pq: "quotient_of x = (p, q)" by (cases "quotient_of x")
  have q: "0 < q" using pq by (rule quotient_of_denom_pos)
  have x: "x = of_int p / of_int q" using pq by (rule quotient_of_div)
  have p: "0 < p" using assms q unfolding x by (simp add: zero_less_divide_iff)
  let ?e = "bitlen p - bitlen q"
  have "(2::rat) powi (bitlen p - 1 - bitlen q) = 2 powi (bitlen p - 1) / 2 powi (bitlen q)"
    by (simp add: power_int_diff)
  also have "\<dots> \<le> of_int p / of_int q"
    using bitlen_rat [OF p] bitlen_rat [OF q] p q by (intro frac_le) auto
  finally have lo: "2 powi (?e - 1) \<le> x" by (simp add: x algebra_simps)
  have "of_int p / of_int q < (2::rat) powi (bitlen p) / 2 powi (bitlen q - 1)"
    using bitlen_rat [OF p] bitlen_rat [OF q] p q by (intro frac_less) auto
  also have "\<dots> = 2 powi (bitlen p - (bitlen q - 1))"
    by (simp add: power_int_diff)
  finally have hi: "x < 2 powi (?e + 1)" by (simp add: x algebra_simps)
  have "bexp x = (if 2 powi ?e \<le> x then ?e else ?e - 1)"
    by (simp add: bexp_def pq Let_def)
  with lo hi show "2 powi (bexp x) \<le> x" "x < 2 powi (bexp x + 1)"
    by (auto split: if_splits)
qed

lemma bexp_mono: "0 < x \<Longrightarrow> x \<le> y \<Longrightarrow> bexp x \<le> bexp y"
proof -
  assume "0 < x" "x \<le> y"
  then have "2 powi (bexp x) < (2::rat) powi (bexp y + 1)"
    using bexp_bounds(1) [of x] bexp_bounds(2) [of y] by linarith
  then show ?thesis by (metis linorder_not_less powi2_le_iff zle_add1_eq_le)
qed

text \<open>The significand of a rounded number: below \<open>2 ^ 53\<close>, or the next power of two.\<close>

lemma fl_pos_eq: "0 < x \<Longrightarrow> fl x = of_int (rhe (x / 2 powi (fexp x))) * 2 powi (fexp x)"
  by (simp add: fl_def Let_def)

lemma fl_upper:
  assumes "0 < x"
  shows "fl x \<le> 2 powi (fexp x + 53)"
proof -
  have "x < 2 powi (fexp x + 53)"
  proof -
    have "bexp x + 1 \<le> fexp x + 53" by (simp add: fexp_def)
    then have "(2::rat) powi (bexp x + 1) \<le> 2 powi (fexp x + 53)" by simp
    with bexp_bounds(2) [OF assms] show ?thesis by linarith
  qed
  then have "x / 2 powi (fexp x) \<le> of_int (2 ^ 53)"
    by (simp add: field_simps power_int_add)
  then have "rhe (x / 2 powi (fexp x)) \<le> 2 ^ 53"
    using rhe_mono rhe_of_int by metis
  then have "(of_int (rhe (x / 2 powi (fexp x))) :: rat) \<le> 2 ^ 53"
    by (metis of_int_le_iff of_int_numeral of_int_power)
  then show ?thesis
    using assms by (simp add: fl_pos_eq power_int_add mult.commute)
qed

lemma fl_lower:
  assumes "0 < x" and "fexp x = bexp x - 52"
  shows "2 powi (bexp x) \<le> fl x"
proof -
  have e: "(2::rat) powi (bexp x) = 2 powi (fexp x) * 2 ^ 52"
    using assms(2) power_int_add [of "2::rat" "fexp x" 52] by simp
  have "of_int (2 ^ 52) \<le> x / 2 powi (fexp x)"
    using bexp_bounds(1) [OF assms(1)] by (simp add: e field_simps)
  then have "2 ^ 52 \<le> rhe (x / 2 powi (fexp x))"
    using rhe_mono rhe_of_int by metis
  then have "2 ^ 52 \<le> (of_int (rhe (x / 2 powi (fexp x))) :: rat)"
    by (metis of_int_le_iff of_int_numeral of_int_power)
  then show ?thesis
    using assms(1) by (simp add: fl_pos_eq e mult.commute)
qed

lemma fl_zero [simp]: "fl 0 = 0"
  by (simp add: fl_def)

lemma fl_minus: "fl (- x) = - fl x"
  by (simp add: fl_def Let_def)

lemma fl_nonneg: "0 \<le> x \<Longrightarrow> 0 \<le> fl x"
  by (cases "x = 0") (auto simp: fl_pos_eq intro!: mult_nonneg_nonneg rhe_nonneg)

lemma fl_mono_pos:
  assumes x: "0 < x" and le: "x \<le> y"
  shows "fl x \<le> fl y"
proof (cases "fexp x = fexp y")
  case True
  have "x / 2 powi (fexp y) \<le> y / 2 powi (fexp y)"
    using le by (simp add: divide_right_mono)
  then have "rhe (x / 2 powi (fexp y)) \<le> rhe (y / 2 powi (fexp y))" by (rule rhe_mono)
  with True x le show ?thesis by (simp add: fl_pos_eq)
next
  case False
  have "fexp x \<le> fexp y"
    using bexp_mono [OF x le] by (simp add: fexp_def)
  with False have lt: "fexp x < fexp y" by simp
  then have fy: "fexp y = bexp y - 52" by (auto simp: fexp_def)
  have "fl x \<le> 2 powi (fexp x + 53)" using x by (rule fl_upper)
  also have "\<dots> \<le> 2 powi (bexp y)" using lt fy by simp
  also have "\<dots> \<le> fl y" using x le fy by (intro fl_lower) auto
  finally show ?thesis .
qed

lemma fl_mono: "x \<le> y \<Longrightarrow> fl x \<le> fl y"
proof -
  assume le: "x \<le> y"
  consider "0 < x" | "x \<le> 0" "0 \<le> y" | "y < 0" by linarith
  then show ?thesis
  proof cases
    case 1
    then show ?thesis using le by (rule fl_mono_pos)
  next
    case 2
    then have "fl x \<le> 0" using fl_nonneg [of "- x"] by (simp add: fl_minus)
    also have "0 \<le> fl y" using 2 by (simp add: fl_nonneg)
    finally show ?thesis .
  next
    case 3
    then have "fl (- y) \<le> fl (- x)" using le by (intro fl_mono_pos) auto
    then show ?thesis by (simp add: fl_minus)
  qed
qed

text \<open>Integers of up to 53 bits are doubles.\<close>

lemma fl_of_int_pos:
  assumes "0 < n" "n < 2 ^ 53"
  shows "fl (of_int n) = of_int n"
proof -
  let ?x = "of_int n :: rat"
  have x: "0 < ?x" using assms(1) by simp
  have "n + 1 \<le> 2 ^ 53" using assms(2) by simp
  then have "?x < 2 powi 53"
    using assms(2) by (metis of_int_less_iff of_int_numeral of_int_power power_int_numeral)
  then have "2 powi (bexp ?x) < (2::rat) powi 53"
    using bexp_bounds(1) [OF x] by linarith
  then have "bexp ?x \<le> 52" by (metis linorder_not_less powi2_le_iff zle_add1_eq_le one_plus_numeral
        add.commute semiring_norm(5) semiring_norm(8) numeral_plus_one)
  then have e: "fexp ?x \<le> 0" by (simp add: fexp_def)
  then have "(2::rat) powi (- fexp ?x) = of_int (2 ^ nat (- fexp ?x))"
    by (simp add: power_int_def)
  then have "?x / 2 powi (fexp ?x) = of_int (n * 2 ^ nat (- fexp ?x))"
    by (simp add: power_int_minus divide_inverse)
  then have "rhe (?x / 2 powi (fexp ?x)) = n * 2 ^ nat (- fexp ?x)"
    by (metis rhe_of_int)
  then have "of_int (rhe (?x / 2 powi (fexp ?x))) = ?x / 2 powi (fexp ?x)"
    using \<open>?x / 2 powi (fexp ?x) = _\<close> by simp
  then show ?thesis using x by (simp add: fl_pos_eq)
qed

lemma fl_of_int: "\<bar>n\<bar> < 2 ^ 53 \<Longrightarrow> fl (of_int n) = of_int n"
  using fl_of_int_pos [of n] fl_of_int_pos [of "- n"] fl_minus [of "of_int n"]
  by (cases "n = 0"; cases "0 < n") auto


section \<open>Arithmetic on floats\<close>

text \<open>
  Python's operators.  An \<open>int\<close> operand is first converted to a float; \<open>/\<close> between two
  ints is correctly rounded; \<open>round(x, 1)\<close> rounds the exact decimal value half to even
  and then takes the nearest double; \<open>int(x)\<close> truncates.
\<close>

definition fadd :: "flt \<Rightarrow> flt \<Rightarrow> flt" where "fadd a b = fl (a + b)"
definition fsub :: "flt \<Rightarrow> flt \<Rightarrow> flt" where "fsub a b = fl (a - b)"
definition fmul :: "flt \<Rightarrow> flt \<Rightarrow> flt" where "fmul a b = fl (a * b)"

definition fdiv :: "flt \<Rightarrow> flt \<Rightarrow> exn + flt" where
  "fdiv a b = (if b = 0 then Inl ZeroDivisionError else Inr (fl (a / b)))"

definition fint :: "int \<Rightarrow> flt" where "fint i = fl (of_int i)"

definition fround1 :: "flt \<Rightarrow> flt" where
  "fround1 x = fl (of_int (rhe (x * 10)) / 10)"

definition trunc_int :: "flt \<Rightarrow> int" where
  "trunc_int x = (if 0 \<le> x then \<lfloor>x\<rfloor> else \<lceil>x\<rceil>)"

section \<open>What every rounding gives\<close>

locale rounding =
  fixes r :: "rat \<Rightarrow> rat"
  assumes r_mono: "x \<le> y \<Longrightarrow> r x \<le> r y"
    and r_int: "\<bar>n\<bar> < 2 ^ 53 \<Longrightarrow> r (of_int n) = of_int n"
begin

lemma r_0 [simp]: "r 0 = 0" and r_1 [simp]: "r 1 = 1" and r_100 [simp]: "r 100 = 100"
  using r_int [of 0] r_int [of 1] r_int [of 100] by simp_all

lemma r_nonneg: "0 \<le> x \<Longrightarrow> 0 \<le> r x"
  using r_mono [of 0 x] by simp

lemma r_nonpos: "x \<le> 0 \<Longrightarrow> r x \<le> 0"
  using r_mono [of x 0] by simp

lemma r_le_100: "x \<le> 100 \<Longrightarrow> r x \<le> 100"
  using r_mono [of x 100] by simp

lemma r_le_1: "x \<le> 1 \<Longrightarrow> r x \<le> 1"
  using r_mono [of x 1] by simp

text \<open>A rounded ratio of a part to the whole, times 100, is a percentage.\<close>

lemma percent_bounds:
  assumes "0 \<le> a" "a \<le> b" "0 < b"
  shows "0 \<le> r (r (a / b) * 100)" "r (r (a / b) * 100) \<le> 100"
proof -
  have "0 \<le> r (a / b)" using assms by (intro r_nonneg) simp
  moreover have "r (a / b) \<le> 1" using assms by (intro r_le_1) (simp add: divide_le_eq)
  ultimately show "0 \<le> r (r (a / b) * 100)" "r (r (a / b) * 100) \<le> 100"
    by (simp_all add: r_nonneg r_le_100)
qed

lemma percent_mono:
  assumes "a \<le> a'" "0 < b"
  shows "r (r (a / b) * 100) \<le> r (r (a' / b) * 100)"
  using assms by (intro r_mono mult_right_mono) (auto intro: r_mono divide_right_mono)

lemma round1_bounds:
  assumes "0 \<le> x" "x \<le> 100"
  shows "0 \<le> r (of_int (rhe (x * 10)) / 10)" "r (of_int (rhe (x * 10)) / 10) \<le> 100"
proof -
  have "0 \<le> rhe (x * 10)" using assms by (intro rhe_nonneg) simp
  moreover have "rhe (x * 10) \<le> 1000"
    using rhe_mono [of "x * 10" "of_int 1000"] assms by simp
  ultimately show "0 \<le> r (of_int (rhe (x * 10)) / 10)"
    "r (of_int (rhe (x * 10)) / 10) \<le> 100"
    by (auto intro!: r_nonneg r_le_100 simp: divide_le_eq)
qed

end

interpretation fl: rounding fl
  by unfold_locales (auto intro: fl_mono fl_of_int)

lemma fround1_bounds: "0 \<le> x \<Longrightarrow> x \<le> 100 \<Longrightarrow> 0 \<le> fround1 x \<and> fround1 x \<le> 100"
  using fl.round1_bounds by (simp add: fround1_def)

lemma fround1_mono: "x \<le> y \<Longrightarrow> fround1 x \<le> fround1 y"
  unfolding fround1_def by (intro fl_mono divide_right_mono) (auto intro: rhe_mono)

lemma fint_mono: "i \<le> j \<Longrightarrow> fint i \<le> fint j"
  unfolding fint_def by (rule fl_mono) simp

lemma fint_0 [simp]: "fint 0 = 0"
  by (simp add: fint_def)

lemma fint_nonneg: "0 \<le> i \<Longrightarrow> 0 \<le> fint i"
  using fint_mono [of 0 i] by simp

lemma fint_exact: "\<bar>n\<bar> < 2 ^ 53 \<Longrightarrow> fint n = of_int n"
  by (simp add: fint_def fl_of_int)

lemma fint_pos: "0 < i \<Longrightarrow> 0 < fint i"
proof -
  assume "0 < i"
  then have "fint 1 \<le> fint i" by (intro fint_mono) simp
  moreover have "fint 1 = 1" using fint_exact [of 1] by simp
  ultimately show ?thesis by simp
qed

lemma fround1_0 [simp]: "fround1 0 = 0"
  using rhe_of_int [of 0] by (simp add: fround1_def)

lemma trunc_int_of_int [simp]: "trunc_int (of_int n) = n"
  by (simp add: trunc_int_def)

end
