(* ===== verification/Py_Str.thy ===== *)
theory Py_Str
  imports Py_Float "HOL-Library.Sublist"
begin

text \<open>
  Python's \<open>bytes\<close> and \<open>str\<close>.  Both are \<open>string\<close>, a list of characters of one byte: a
  file read in text mode is decoded with the file system encoding and
  \<open>surrogateescape\<close>, which is injective, so the model keeps the bytes.  Whitespace is
  the ASCII whitespace of \<open>bytes.split\<close> (blank, tab, newline, vertical tab, form feed,
  carriage return).
\<close>

section \<open>Characters\<close>

definition ws :: "char \<Rightarrow> bool" where
  "ws c \<longleftrightarrow> c \<in> {CHR '' '', CHR 0x09, CHR 0x0A, CHR 0x0B, CHR 0x0C, CHR 0x0D}"

definition is_digit :: "char \<Rightarrow> bool" where
  "is_digit c \<longleftrightarrow> 48 \<le> (of_char c :: nat) \<and> (of_char c :: nat) \<le> 57"

definition to_lower :: "char \<Rightarrow> char" where
  "to_lower c = (let n = (of_char c :: nat) in if 65 \<le> n \<and> n \<le> 90 then char_of (n + 32) else c)"

definition to_upper :: "char \<Rightarrow> char" where
  "to_upper c = (let n = (of_char c :: nat) in if 97 \<le> n \<and> n \<le> 122 then char_of (n - 32) else c)"

abbreviation nl :: char where "nl \<equiv> CHR 0x0A"
abbreviation nul :: char where "nul \<equiv> CHR 0x00"

definition str_lower :: "string \<Rightarrow> string" where "str_lower = map to_lower"
definition str_upper :: "string \<Rightarrow> string" where "str_upper = map to_upper"

definition str_isdigit :: "string \<Rightarrow> bool" where
  "str_isdigit s \<longleftrightarrow> s \<noteq> [] \<and> list_all is_digit s"

section \<open>Prefixes, suffixes, searching, slicing\<close>

definition startswith :: "string \<Rightarrow> string \<Rightarrow> bool" where
  "startswith s p \<longleftrightarrow> take (length p) s = p"

definition endswith :: "string \<Rightarrow> string \<Rightarrow> bool" where
  "endswith s p \<longleftrightarrow> startswith (rev s) (rev p)"

text \<open>\<open>s.find(c)\<close> and \<open>s.rfind(c)\<close> for one character: -1 when absent.\<close>

fun find_char :: "char \<Rightarrow> string \<Rightarrow> int" where
  "find_char c [] = -1"
| "find_char c (x # xs) =
     (if x = c then 0 else let i = find_char c xs in if i < 0 then -1 else i + 1)"

fun rfind_char :: "char \<Rightarrow> string \<Rightarrow> int" where
  "rfind_char c [] = -1"
| "rfind_char c (x # xs) =
     (let i = rfind_char c xs in if 0 \<le> i then i + 1 else if x = c then 0 else -1)"

text \<open>\<open>s.find(p)\<close> for a string: the position of the first occurrence.\<close>

fun find_sub :: "string \<Rightarrow> string \<Rightarrow> nat option" where
  "find_sub p [] = (if p = [] then Some 0 else None)"
| "find_sub p (x # xs) =
     (if startswith (x # xs) p then Some 0 else map_option Suc (find_sub p xs))"

definition contains :: "string \<Rightarrow> string \<Rightarrow> bool" where
  "contains s p \<longleftrightarrow> find_sub p s \<noteq> None"

text \<open>\<open>s[i:j]\<close> and \<open>s[i:]\<close>, negative indices counted from the end.\<close>

definition norm_index :: "'a list \<Rightarrow> int \<Rightarrow> nat" where
  "norm_index s i = (let n = int (length s) in nat (if i < 0 then max 0 (i + n) else min i n))"

definition slice :: "'a list \<Rightarrow> int \<Rightarrow> int \<Rightarrow> 'a list" where
  "slice s i j = drop (norm_index s i) (take (norm_index s j) s)"

definition slice_from :: "'a list \<Rightarrow> int \<Rightarrow> 'a list" where
  "slice_from s i = drop (norm_index s i) s"

text \<open>\<open>xs[i]\<close>: negative indices count from the end, out of range raises.\<close>

definition item :: "'a list \<Rightarrow> int \<Rightarrow> exn + 'a" where
  "item xs i = (let pos = i + (if i < 0 then int (length xs) else 0) in
     if pos < 0 \<or> int (length xs) \<le> pos then Inl IndexError else Inr (xs ! nat pos))"

section \<open>Stripping and splitting\<close>

definition lstrip :: "string \<Rightarrow> string" where "lstrip s = dropWhile ws s"
definition rstrip :: "string \<Rightarrow> string" where "rstrip s = rev (dropWhile ws (rev s))"
definition strip :: "string \<Rightarrow> string" where "strip s = rstrip (lstrip s)"

text \<open>\<open>s.split()\<close>: the maximal runs of non-blank characters.\<close>

fun split_acc :: "string \<Rightarrow> string \<Rightarrow> string list" where
  "split_acc cur [] = (if cur = [] then [] else [rev cur])"
| "split_acc cur (c # cs) =
     (if ws c then (if cur = [] then split_acc [] cs else rev cur # split_acc [] cs)
      else split_acc (c # cur) cs)"

definition split_ws :: "string \<Rightarrow> string list" where
  "split_ws s = split_acc [] s"

text \<open>\<open>s.split(None, n)\<close>: at most \<open>n\<close> words, then what is left without its leading blanks.\<close>

fun split_ws_max :: "nat \<Rightarrow> string \<Rightarrow> string list" where
  "split_ws_max 0 s = (let t = lstrip s in if t = [] then [] else [t])"
| "split_ws_max (Suc n) s =
     (let t = lstrip s in
      if t = [] then []
      else takeWhile (\<lambda>c. \<not> ws c) t # split_ws_max n (dropWhile (\<lambda>c. \<not> ws c) t))"

text \<open>\<open>s.split(c)\<close> for a one-character separator: empty fields are kept.\<close>

fun split_on :: "char \<Rightarrow> string \<Rightarrow> string list" where
  "split_on c [] = [[]]"
| "split_on c (x # xs) =
     (if x = c then [] # split_on c xs
      else (case split_on c xs of [] \<Rightarrow> [[x]] | t # ts \<Rightarrow> (x # t) # ts))"

text \<open>\<open>s.split(c, 1)\<close> and \<open>s.partition(c)\<close>: \<open>None\<close> when the separator is absent.\<close>

definition split1 :: "char \<Rightarrow> string \<Rightarrow> (string \<times> string) option" where
  "split1 c s = (if c \<in> set s
     then Some (takeWhile (\<lambda>x. x \<noteq> c) s, tl (dropWhile (\<lambda>x. x \<noteq> c) s)) else None)"

text \<open>\<open>s.split(p)\<close> for a separator of several characters.\<close>

function split_str :: "string \<Rightarrow> string \<Rightarrow> string list" where
  "split_str p s =
     (if p = [] then [s]
      else (case find_sub p s of None \<Rightarrow> [s]
            | Some i \<Rightarrow> take i s # split_str p (drop (i + length p) s)))"
  by pat_completeness auto
termination
  by (relation "measure (\<lambda>(p, s). length s)")
     (auto, metis add_eq_0_iff_both_eq_0 diff_less find_sub.simps(1) length_0_conv
       length_greater_0_conv neq0_conv option.distinct(1) zero_less_iff_neq_zero)

declare split_str.simps [simp del]

fun join :: "string \<Rightarrow> string list \<Rightarrow> string" where
  "join sep [] = []"
| "join sep [x] = x"
| "join sep (x # y # zs) = x @ sep @ join sep (y # zs)"

text \<open>Iterating over a file: its lines, each with its newline.\<close>

fun lines_acc :: "string \<Rightarrow> string \<Rightarrow> string list" where
  "lines_acc cur [] = (if cur = [] then [] else [rev cur])"
| "lines_acc cur (c # cs) =
     (if c = nl then rev (c # cur) # lines_acc [] cs else lines_acc (c # cur) cs)"

definition lines :: "string \<Rightarrow> string list" where "lines s = lines_acc [] s"

text \<open>\<open>f.readline()\<close> on a file just opened: empty at the end of the file.\<close>

definition readline :: "string \<Rightarrow> string" where
  "readline s = (case lines s of [] \<Rightarrow> [] | l # _ \<Rightarrow> l)"


section \<open>Numbers\<close>

text \<open>
  \<open>int(s, base)\<close>: surrounding blanks, a sign, an optional prefix for base 8 and 16, and
  digits that may be grouped with single underscores.
\<close>

definition digit_val :: "int \<Rightarrow> char \<Rightarrow> int option" where
  "digit_val b c = (let n = (of_char c :: int);
     v = (if 48 \<le> n \<and> n \<le> 57 then n - 48 else if 97 \<le> n \<and> n \<le> 122 then n - 87
          else if 65 \<le> n \<and> n \<le> 90 then n - 55 else 99)
   in if v < b then Some v else None)"

fun digits_val :: "int \<Rightarrow> int \<Rightarrow> bool \<Rightarrow> string \<Rightarrow> int option" where
  "digits_val b acc d [] = (if d then Some acc else None)"
| "digits_val b acc d (c # cs) =
     (if c = CHR ''_'' then (if d then digits_val b acc False cs else None)
      else (case digit_val b c of None \<Rightarrow> None | Some v \<Rightarrow> digits_val b (acc * b + v) True cs))"

definition drop_base_prefix :: "int \<Rightarrow> string \<Rightarrow> string" where
  "drop_base_prefix b s = (case s of
      z # x # r \<Rightarrow>
        (if z = CHR ''0'' \<and> (b = 16 \<and> x \<in> {CHR ''x'', CHR ''X''} \<or> b = 8 \<and> x \<in> {CHR ''o'', CHR ''O''})
         then (case r of y # r' \<Rightarrow> (if y = CHR ''_'' then r' else r) | [] \<Rightarrow> r) else s)
    | _ \<Rightarrow> s)"

definition split_sign :: "string \<Rightarrow> int \<times> string" where
  "split_sign s = (case s of c # r \<Rightarrow>
      (if c = CHR ''-'' then (-1, r) else if c = CHR ''+'' then (1, r) else (1, s)) | [] \<Rightarrow> (1, s))"

definition py_int_base :: "int \<Rightarrow> string \<Rightarrow> exn + int" where
  "py_int_base b s = (case split_sign (strip s) of (sg, r) \<Rightarrow>
     of_option ValueError (map_option (\<lambda>v. sg * v) (digits_val b 0 False (drop_base_prefix b r))))"

definition py_int :: "string \<Rightarrow> exn + int" where
  "py_int s = py_int_base 10 s"

text \<open>
  \<open>float(s)\<close> for the decimal literals the kernel prints: digits with an optional
  fraction and exponent.  The spellings of infinity and NaN are not modelled (they are
  a \<open>ValueError\<close> here).
\<close>

definition is_numchar :: "char \<Rightarrow> bool" where
  "is_numchar c \<longleftrightarrow> is_digit c \<or> c = CHR ''_''"

definition py_float :: "string \<Rightarrow> exn + flt" where
  "py_float s = (case split_sign (strip s) of (sg, r) \<Rightarrow>
     let ip = takeWhile is_numchar r; r1 = dropWhile is_numchar r;
         fp = (case r1 of c # t \<Rightarrow> (if c = CHR ''.'' then takeWhile is_numchar t else []) | [] \<Rightarrow> []);
         r2 = (case r1 of c # t \<Rightarrow> (if c = CHR ''.'' then dropWhile is_numchar t else r1) | [] \<Rightarrow> []);
         iv = (if ip = [] then Some 0 else digits_val 10 0 False ip);
         fv = (if fp = [] then Some 0 else digits_val 10 0 False fp);
         fn = length (filter is_digit fp);
         ev = (case r2 of [] \<Rightarrow> Some 0
               | c # t \<Rightarrow> (if c = CHR ''e'' \<or> c = CHR ''E''
                   then (case split_sign t of (es, et) \<Rightarrow> map_option (\<lambda>v. es * v) (digits_val 10 0 False et))
                   else None))
     in if ip = [] \<and> fp = [] then Inl ValueError
        else (case (iv, fv, ev) of
          (Some i, Some f, Some e) \<Rightarrow>
            Inr (fl (of_int sg * (of_int i + of_int f / 10 ^ fn) * 10 powi e))
        | _ \<Rightarrow> Inl ValueError))"

text \<open>\<open>str(n)\<close> for an integer.\<close>

definition digit_char :: "nat \<Rightarrow> char" where
  "digit_char d = char_of (d + 48)"

fun nat_str :: "nat \<Rightarrow> string" where
  "nat_str n = (if n < 10 then [digit_char n] else nat_str (n div 10) @ [digit_char (n mod 10)])"

declare nat_str.simps [simp del]

definition int_str :: "int \<Rightarrow> string" where
  "int_str i = (if i < 0 then CHR ''-'' # nat_str (nat (- i)) else nat_str (nat i))"

text \<open>Hexadecimal digits, lower case.\<close>

definition hex_digit :: "nat \<Rightarrow> char" where
  "hex_digit d = (if d < 10 then char_of (48 + d) else char_of (87 + d))"

fun hex_str :: "nat \<Rightarrow> string" where
  "hex_str n = (if n < 16 then [hex_digit n] else hex_str (n div 16) @ [hex_digit (n mod 16)])"

declare hex_str.simps [simp del]

section \<open>Facts about strings\<close>

lemma startswith_append [simp]: "startswith (p @ s) p"
  by (simp add: startswith_def)

lemma startswith_iff: "startswith s p \<longleftrightarrow> (\<exists>t. s = p @ t)"
  by (metis append_eq_conv_conj startswith_def)

lemma startswith_simps [simp]:
  "startswith s []" "startswith [] (c # cs) = False"
  "startswith (x # xs) (c # cs) \<longleftrightarrow> x = c \<and> startswith xs cs"
  by (auto simp: startswith_def)

lemma endswith_iff: "endswith s p \<longleftrightarrow> (\<exists>t. s = t @ p)"
  by (metis endswith_def rev_append rev_rev_ident startswith_iff)

lemma endswith_char: "endswith s [c] \<longleftrightarrow> s \<noteq> [] \<and> last s = c"
  by (cases s rule: rev_cases) (auto simp: endswith_iff)

lemma rfind_char_notin: "c \<notin> set s \<Longrightarrow> rfind_char c s = -1"
  by (induction s) auto

lemma rfind_char_last: "c \<notin> set t \<Longrightarrow> rfind_char c (s @ c # t) = int (length s)"
  by (induction s) (auto simp: rfind_char_notin Let_def)

lemma find_char_notin: "c \<notin> set s \<Longrightarrow> find_char c s = -1"
  by (induction s) auto

lemma find_char_first: "c \<notin> set s \<Longrightarrow> find_char c (s @ c # t) = int (length s)"
  by (induction s) (auto simp: Let_def)

lemma find_char_pos_ne: "\<not> find_char c s \<le> 0 \<Longrightarrow> s \<noteq> []"
  by auto

lemma slice_from_append [simp]: "slice_from (s @ t) (int (length s)) = t"
  by (simp add: slice_from_def norm_index_def)

lemma slice_from_len: "n = int (length s) \<Longrightarrow> slice_from (s @ t) n = t"
  by simp

lemma slice_mid: "i = int (length s) \<Longrightarrow> j = int (length s + length t) \<Longrightarrow> slice (s @ t @ u) i j = t"
  by (simp add: slice_def norm_index_def)

lemma item_nth: "0 \<le> i \<Longrightarrow> i < int (length xs) \<Longrightarrow> item xs i = Inr (xs ! nat i)"
  by (simp add: item_def Let_def)

lemma item_err: "int (length xs) \<le> i \<Longrightarrow> item xs i = Inl IndexError"
  by (simp add: item_def Let_def)

subsection \<open>Words\<close>

definition word_ok :: "string \<Rightarrow> bool" where
  "word_ok w \<longleftrightarrow> w \<noteq> [] \<and> list_all (\<lambda>c. \<not> ws c) w"

lemma split_acc_word:
  "list_all (\<lambda>c. \<not> ws c) w \<Longrightarrow> split_acc cur (w @ s) = split_acc (rev w @ cur) s"
  by (induction w arbitrary: cur) auto

lemma split_ws_word_blank:
  assumes "word_ok w" "ws c"
  shows "split_ws (w @ c # s) = w # split_ws s"
  using assms by (auto simp: split_ws_def split_acc_word word_ok_def)

lemma split_ws_word: "word_ok w \<Longrightarrow> split_ws w = [w]"
  using split_acc_word [of w "[]" "[]"] by (auto simp: split_ws_def word_ok_def)

lemma split_ws_blank: "ws c \<Longrightarrow> split_ws (c # s) = split_ws s"
  by (simp add: split_ws_def)

lemma split_ws_Nil [simp]: "split_ws [] = []"
  by (simp add: split_ws_def)

lemma split_ws_blanks: "list_all ws b \<Longrightarrow> split_ws (b @ s) = split_ws s"
  by (induction b) (auto simp: split_ws_blank)

text \<open>Splitting what was joined with blanks gives the words back.\<close>

lemma split_ws_join:
  assumes "list_all word_ok xs" "ws c"
  shows "split_ws (join [c] xs) = xs"
  using assms
proof (induction "[c]" xs rule: join.induct)
  case (2 x)
  then show ?case by (simp add: split_ws_word)
next
  case (3 x y zs)
  then show ?case by (simp add: split_ws_word_blank)
qed simp

lemma split_ws_join_newline:
  assumes "list_all word_ok xs" "ws c" "ws d"
  shows "split_ws (join [c] xs @ [d]) = xs"
  using assms
proof (induction "[c]" xs rule: join.induct)
  case 1
  then show ?case by (simp add: split_ws_blank)
next
  case (2 x)
  then show ?case using split_ws_word_blank [of x d "[]"] by simp
next
  case (3 x y zs)
  then show ?case by (simp add: split_ws_word_blank)
qed

lemma split_acc_no_ws: "list_all (\<lambda>c. \<not> ws c) cur \<Longrightarrow> list_all word_ok (split_acc cur s)"
proof (induction s arbitrary: cur)
  case Nil
  then show ?case by (simp add: word_ok_def)
next
  case (Cons c s)
  have w: "cur \<noteq> [] \<Longrightarrow> word_ok (rev cur)"
    using Cons.prems by (simp add: word_ok_def)
  have "list_all word_ok (split_acc [] s)" by (rule Cons.IH) simp
  moreover have "\<not> ws c \<Longrightarrow> list_all word_ok (split_acc (c # cur) s)"
    using Cons.prems by (intro Cons.IH) simp
  ultimately show ?case using w by simp
qed

lemma split_ws_word_ok: "w \<in> set (split_ws s) \<Longrightarrow> word_ok w"
  using split_acc_no_ws [of "[]" s] by (simp add: split_ws_def list_all_iff)

subsection \<open>Fields\<close>

lemma split_on_ne [simp]: "split_on c s \<noteq> []"
  by (cases s) (auto split: list.splits)

lemma split_on_notin: "c \<notin> set s \<Longrightarrow> split_on c s = [s]"
  by (induction s) auto

lemma split_on_append: "c \<notin> set s \<Longrightarrow> split_on c (s @ c # t) = s # split_on c t"
  by (induction s) auto

lemma split_on_join:
  assumes "xs \<noteq> []" "\<forall>x \<in> set xs. c \<notin> set x"
  shows "split_on c (join [c] xs) = xs"
  using assms
  by (induction "[c]" xs rule: join.induct) (auto simp: split_on_notin split_on_append)

lemma join_split_on: "join [c] (split_on c s) = s"
proof (induction s)
  case (Cons x xs)
  have cons: "join [c] ((x # t) # ts) = x # join [c] (t # ts)" for t ts
    by (cases ts) simp_all
  show ?case
    using Cons.IH cons by (cases "split_on c xs") (auto simp: neq_Nil_conv)
qed simp

lemma split_on_no_sep: "t \<in> set (split_on c s) \<Longrightarrow> c \<notin> set t"
  by (induction s arbitrary: t) (auto split: if_splits list.splits)

lemma split1_append: "c \<notin> set s \<Longrightarrow> split1 c (s @ c # t) = Some (s, t)"
  by (auto simp: split1_def takeWhile_append dropWhile_append)

subsection \<open>Lines\<close>

lemma lines_acc_concat: "concat (lines_acc cur s) = rev cur @ s"
  by (induction cur s rule: lines_acc.induct) auto

lemma concat_lines: "concat (lines s) = s"
  by (simp add: lines_def lines_acc_concat)

lemma lines_acc_line: "nl \<notin> set l \<Longrightarrow> lines_acc cur (l @ nl # s) = (rev cur @ l @ [nl]) # lines_acc [] s"
  by (induction l arbitrary: cur) auto

lemma lines_Nil [simp]: "lines [] = []"
  by (simp add: lines_def)

lemma lines_line: "nl \<notin> set l \<Longrightarrow> lines (l @ nl # s) = (l @ [nl]) # lines s"
  using lines_acc_line [of l "[]" s] by (simp add: lines_def)

lemma lines_concat:
  "\<forall>l \<in> set ls. nl \<notin> set l \<Longrightarrow> lines (concat (map (\<lambda>l. l @ [nl]) ls)) = map (\<lambda>l. l @ [nl]) ls"
  by (induction ls) (auto simp: lines_line)


subsection \<open>Stripping\<close>

lemma lstrip_word: "word_ok w \<Longrightarrow> lstrip (w @ s) = w @ s"
  by (cases w) (auto simp: lstrip_def word_ok_def)

lemma rstrip_word: "word_ok w \<Longrightarrow> rstrip (s @ w) = s @ w"
  by (cases w rule: rev_cases) (auto simp: rstrip_def word_ok_def)

lemma strip_word [simp]: "word_ok w \<Longrightarrow> strip w = w"
  using lstrip_word [of w "[]"] rstrip_word [of w "[]"] by (simp add: strip_def)

lemma rstrip_blanks: "list_all ws b \<Longrightarrow> rstrip (s @ b) = rstrip s"
  by (induction b rule: rev_induct) (simp_all add: rstrip_def)

lemma lstrip_blanks: "list_all ws b \<Longrightarrow> lstrip (b @ s) = lstrip s"
  by (induction b) (simp_all add: lstrip_def)

lemma strip_word_blanks: "word_ok w \<Longrightarrow> list_all ws a \<Longrightarrow> list_all ws b \<Longrightarrow> strip (a @ w @ b) = w"
  using rstrip_word [of w "[]"] by (simp add: strip_def lstrip_blanks lstrip_word rstrip_blanks)

subsection \<open>Numbers print and parse\<close>

lemma of_char_digit_char: "d < 10 \<Longrightarrow> of_char (digit_char d) = d + 48"
  by (simp add: digit_char_def)

lemma is_digit_digit_char: "d < 10 \<Longrightarrow> is_digit (digit_char d)"
  by (simp add: is_digit_def of_char_digit_char)

lemma nat_str_digits: "nat_str n \<noteq> [] \<and> list_all is_digit (nat_str n)"
proof (induction n rule: nat_str.induct)
  case (1 n)
  then show ?case
    by (cases "n < 10") (simp_all add: nat_str.simps [of n] is_digit_digit_char)
qed

lemma is_digit_not_ws: "is_digit c \<Longrightarrow> \<not> ws c"
  by (auto simp: is_digit_def ws_def)

lemma is_digit_not_special:
  "is_digit c \<Longrightarrow> c \<noteq> CHR ''-'' \<and> c \<noteq> CHR ''+'' \<and> c \<noteq> CHR ''_'' \<and> c \<noteq> CHR '','' \<and> c \<noteq> CHR '':'' \<and> c \<noteq> CHR ''/'' \<and> c \<noteq> nul \<and> c \<noteq> nl"
  by (auto simp: is_digit_def)

lemma word_ok_digits: "s \<noteq> [] \<Longrightarrow> list_all is_digit s \<Longrightarrow> word_ok s"
  unfolding word_ok_def by (auto simp: list_all_iff dest: is_digit_not_ws)

lemma word_ok_nat_str [simp]: "word_ok (nat_str n)"
  using nat_str_digits by (intro word_ok_digits) auto

lemma of_char_int: "(of_char c :: int) = int (of_char c)"
  by (cases c) (simp add: of_char_def)

lemma digit_val_digit: "is_digit c \<Longrightarrow> digit_val 10 c = Some (of_char c - 48)"
  by (auto simp: digit_val_def is_digit_def of_char_int Let_def)

lemma digits_val_digits:
  "list_all is_digit s \<Longrightarrow> s \<noteq> [] \<or> d \<Longrightarrow>
   digits_val 10 acc d s = Some (foldl (\<lambda>a c. a * 10 + (of_char c - 48)) acc s)"
  by (induction s arbitrary: acc d) (auto simp: digit_val_digit dest: is_digit_not_special)

lemma foldl_nat_str: "foldl (\<lambda>a c. a * 10 + (of_char c - 48)) 0 (nat_str n) = int n"
proof (induction n rule: nat_str.induct)
  case (1 k)
  have "int k = int (k div 10) * 10 + int (k mod 10)" by (simp add: zdiv_int zmod_int)
  then show ?case using 1
    by (cases "k < 10") (simp_all add: nat_str.simps [of k] of_char_int of_char_digit_char)
qed

lemma digits_val_nat_str: "digits_val 10 0 False (nat_str n) = Some (int n)"
  using nat_str_digits [of n] by (simp add: digits_val_digits foldl_nat_str)

lemma split_sign_digits: "list_all is_digit s \<Longrightarrow> split_sign s = (1, s)"
  by (cases s) (auto simp: split_sign_def dest: is_digit_not_special)

lemma drop_base_prefix_10 [simp]: "drop_base_prefix 10 s = s"
  by (auto simp: drop_base_prefix_def split: list.splits)

lemma strip_minus_digits: "s \<noteq> [] \<Longrightarrow> list_all is_digit s \<Longrightarrow> strip (CHR ''-'' # s) = CHR ''-'' # s"
proof -
  assume "s \<noteq> []" "list_all is_digit s"
  then have "word_ok s" by (rule word_ok_digits)
  moreover have "\<not> ws (CHR ''-'')" by (simp add: ws_def)
  ultimately show ?thesis by (intro strip_word) (simp add: word_ok_def)
qed

theorem py_int_int_str [simp]: "py_int (int_str i) = Inr i"
proof (cases "i < 0")
  case True
  then show ?thesis
    using nat_str_digits [of "nat (- i)"]
    by (simp add: int_str_def py_int_def py_int_base_def strip_minus_digits split_sign_def
        digits_val_nat_str)
next
  case False
  then show ?thesis
    using nat_str_digits [of "nat i"]
    by (simp add: int_str_def py_int_def py_int_base_def split_sign_digits digits_val_nat_str)
qed

lemma word_ok_int_str [simp]: "word_ok (int_str i)"
proof (cases "i < 0")
  case True
  have "word_ok (nat_str (nat (- i)))" by simp
  with True show ?thesis by (simp add: int_str_def word_ok_def ws_def)
qed (simp add: int_str_def)

lemma set_nat_str: "c \<in> set (nat_str n) \<Longrightarrow> is_digit c"
  using nat_str_digits [of n] by (simp add: list_all_iff)

lemma set_int_str: "c \<in> set (int_str i) \<Longrightarrow> is_digit c \<or> c = CHR ''-''"
  by (auto simp: int_str_def split: if_splits dest: set_nat_str)

lemma int_str_inj: "int_str i = int_str j \<longleftrightarrow> i = j"
  by (metis py_int_int_str sum.inject(2))

lemma str_isdigit_nat_str: "str_isdigit (nat_str n)"
  using nat_str_digits by (simp add: str_isdigit_def)

end
