(* ===== verification/Py_Regex.thy ===== *)
theory Py_Regex
  imports Py_Str
begin

text \<open>
  The regular expressions of the Linux module.  Each is a sequence of character classes,
  single or starred, with unnested groups, so a pattern is a list of atoms and matching is
  the leftmost, greedy, backtracking match of Python's \<open>re\<close>.
\<close>

datatype ratom = RCls "char \<Rightarrow> bool" | RStar "char \<Rightarrow> bool" | ROpen | RClose

text \<open>
  \<open>rmatch as g s\<close> matches the pattern at the start of \<open>s\<close>; \<open>g\<close> is the text of the open
  group, if any, newest character first.  The result is the captured groups and the rest.
\<close>

definition gadd :: "char \<Rightarrow> string option \<Rightarrow> string option" where
  "gadd c g = map_option (\<lambda>t. c # t) g"

function rmatch :: "ratom list \<Rightarrow> string option \<Rightarrow> string \<Rightarrow> (string list \<times> string) option" where
  "rmatch [] g s = Some ([], s)"
| "rmatch (ROpen # as) g s = rmatch as (Some []) s"
| "rmatch (RClose # as) g s =
     (case rmatch as None s of None \<Rightarrow> None
      | Some (cs, r) \<Rightarrow> Some ((case g of None \<Rightarrow> [] | Some t \<Rightarrow> rev t) # cs, r))"
| "rmatch (RCls p # as) g [] = None"
| "rmatch (RCls p # as) g (c # s) = (if p c then rmatch as (gadd c g) s else None)"
| "rmatch (RStar p # as) g [] = rmatch as g []"
| "rmatch (RStar p # as) g (c # s) =
     (if p c then (case rmatch (RStar p # as) (gadd c g) s of
        Some x \<Rightarrow> Some x | None \<Rightarrow> rmatch as g (c # s))
      else rmatch as g (c # s))"
  by pat_completeness auto
termination
  by (relation "measures [\<lambda>(as, g, s). length as + length s, \<lambda>(as, g, s). length as]") auto

text \<open>\<open>re.search\<close>: the first position where the pattern matches.\<close>

fun rsearch :: "ratom list \<Rightarrow> string \<Rightarrow> (string list \<times> string) option" where
  "rsearch as [] = rmatch as None []"
| "rsearch as (c # s) =
     (case rmatch as None (c # s) of Some x \<Rightarrow> Some x | None \<Rightarrow> rsearch as s)"

text \<open>\<open>re.findall\<close>: the groups of the successive non-overlapping matches.\<close>

function rfindall :: "ratom list \<Rightarrow> string \<Rightarrow> string list list" where
  "rfindall as s = (case s of [] \<Rightarrow> []
     | c # t \<Rightarrow> (case rmatch as None s of
         None \<Rightarrow> rfindall as t
       | Some (cs, r) \<Rightarrow> cs # rfindall as (if length r < length s then r else t)))"
  by pat_completeness auto
termination by (relation "measure (\<lambda>(as, s). length s)") (auto split: if_splits)

declare rfindall.simps [simp del]

text \<open>A search with \<open>^\<close> under \<open>re.MULTILINE\<close>: only at the start or after a newline.\<close>

fun rsearch_bol :: "bool \<Rightarrow> ratom list \<Rightarrow> string \<Rightarrow> (string list \<times> string) option" where
  "rsearch_bol bol as [] = (if bol then rmatch as None [] else None)"
| "rsearch_bol bol as (c # s) =
     (case (if bol then rmatch as None (c # s) else None) of
        Some x \<Rightarrow> Some x | None \<Rightarrow> rsearch_bol (c = nl) as s)"

text \<open>Building patterns: a literal, \<open>x+\<close>, \<open>(\<dots>)\<close>, \<open>\d\<close>, \<open>\s\<close> and \<open>.\<close>.\<close>

definition rlit :: "string \<Rightarrow> ratom list" where
  "rlit s = map (\<lambda>c. RCls (\<lambda>x. x = c)) s"

definition rplus :: "(char \<Rightarrow> bool) \<Rightarrow> ratom list" where
  "rplus p = [RCls p, RStar p]"

definition rgroup :: "ratom list \<Rightarrow> ratom list" where
  "rgroup as = ROpen # as @ [RClose]"

definition rdot :: "char \<Rightarrow> bool" where
  "rdot c \<longleftrightarrow> c \<noteq> nl"

section \<open>Facts\<close>

lemma rmatch_lit:
  "rmatch (rlit l @ as) None s = (if startswith s l then rmatch as None (drop (length l) s) else None)"
proof (induction l arbitrary: s)
  case Nil
  show ?case by (simp add: rlit_def)
next
  case (Cons c l)
  then show ?case by (cases s) (auto simp: rlit_def gadd_def)
qed

text \<open>A starred class takes the whole run of its characters if what follows then matches.\<close>

lemma rmatch_star_run:
  assumes "list_all p w" "s = [] \<or> \<not> p (hd s)"
    and "rmatch as (map_option (\<lambda>t. rev w @ t) g) s = Some x"
  shows "rmatch (RStar p # as) g (w @ s) = Some x"
  using assms
proof (induction w arbitrary: g)
  case Nil
  then have "rmatch as g s = Some x" by (cases g) simp_all
  with Nil.prems(2) show ?case by (cases s) auto
next
  case (Cons c w)
  have "rmatch (RStar p # as) (gadd c g) (w @ s) = Some x"
    using Cons.prems by (intro Cons.IH) (auto simp: gadd_def option.map_comp comp_def)
  with Cons.prems(1) show ?case by simp
qed

lemma rmatch_plus_run:
  assumes "list_all p w" "w \<noteq> []" "s = [] \<or> \<not> p (hd s)"
    and "rmatch as (map_option (\<lambda>t. rev w @ t) g) s = Some x"
  shows "rmatch (rplus p @ as) g (w @ s) = Some x"
proof -
  obtain c v where w: "w = c # v" using assms(2) by (cases w) auto
  have "rmatch (RStar p # as) (gadd c g) (v @ s) = Some x"
    using assms w by (intro rmatch_star_run) (auto simp: gadd_def option.map_comp comp_def)
  then show ?thesis using assms(1) w by (simp add: rplus_def)
qed

text \<open>A captured run of digits (or of any class).\<close>

lemma rmatch_group_run:
  assumes "list_all p w" "w \<noteq> []" "s = [] \<or> \<not> p (hd s)" "rmatch as None s = Some (cs, r)"
  shows "rmatch (rgroup (rplus p) @ as) None (w @ s) = Some (w # cs, r)"
proof -
  have "rmatch (rplus p @ RClose # as) (Some []) (w @ s) = Some (w # cs, r)"
    using assms by (intro rmatch_plus_run) auto
  then show ?thesis by (simp add: rgroup_def)
qed

lemma rsearch_here: "rmatch as None s = Some x \<Longrightarrow> rsearch as s = Some x"
  by (cases s) simp_all

text \<open>A pattern starting with a literal is searched for past text that does not hold it.\<close>

lemma rsearch_lit_skip:
  assumes "\<And>i. i < length pre \<Longrightarrow> \<not> startswith (drop i pre @ s) l"
  shows "rsearch (rlit l @ as) (pre @ s) = rsearch (rlit l @ as) s"
  using assms
proof (induction pre)
  case (Cons c pre)
  have "\<not> startswith ((c # pre) @ s) l" using Cons.prems [of 0] by simp
  moreover have "rsearch (rlit l @ as) (pre @ s) = rsearch (rlit l @ as) s"
    using Cons.prems by (intro Cons.IH) (metis Suc_less_eq drop_Suc_Cons length_Cons)
  ultimately show ?case by (simp add: rmatch_lit)
qed simp

end
