(* ===== verification/Sys.thy ===== *)
theory Sys
  imports Py_Regex
begin

text \<open>
  The operating system and the compiled helpers, as a parameter of the model.  Nothing is
  assumed of them: every call may answer anything, and may answer differently each time,
  because its answer depends on the list of calls made so far (newest first).  So a file
  can change or vanish between two reads and time passes as the oracle likes.  Code of the
  C extension module (\<open>psutil/arch\<close>) is behind the same interface.  What a module asks once,
  when it is imported, is a constant of the oracle (the last fields).

  \<open>sys\<close> is the part of the program state every module shares: the oracle, which no
  operation changes, the history of the calls made, and the writable constant
  \<open>psutil.PROCFS_PATH\<close> that \<open>get_procfs_path()\<close> reads.
\<close>

datatype syscall =
    SRead string | SListdir string | SReadlink string | SStat string | SLexists string
  | SAccess string | SGlob string | SRealpath string | SStatvfs string
  | SGetpid | SKill int int | SWaitpid int int | SNow | STime | SSleep flt
  | SPidfdOpen int | SPoll int "int option" | SClose int
  | SKqueue | SKevent int "flt option" | SKqClose
  | SNprocOnline | SSysinfo | SIfMtu string | SIfFlags string | SIfDuplex string
  | SMounts string | SUsers | SIfAddrs
  | SPrlimitGet int int | SPrlimitSet int int int int
  | SPriorityGet int | SPrioritySet int int
  | SAffinityGet int | SAffinitySet int "int list"
  | SIoprioGet int | SIoprioSet int int int
  | SCheckPid int | SGetpwuid int | SWalk string
  | SAccessX string | SLoadavg | SHeapInfo | SHeapTrim | SSpawn "string list"
  | SExt string "int list" "string list" | SExtSet string "int list" "string list"

record stat_result =
  st_isreg :: bool
  st_dev :: "int \<times> int"
  st_rdev :: int

record statvfs_result =
  f_blocks :: int
  f_bfree :: int
  f_bavail :: int
  f_frsize :: int

type_synonym 'a answer = "syscall list \<Rightarrow> 'a"

record os =
  os_read :: "(string \<Rightarrow> oserror + string) answer"
  os_listdir :: "(string \<Rightarrow> oserror + string list) answer"
  os_readlink :: "(string \<Rightarrow> oserror + string) answer"
  os_stat :: "(string \<Rightarrow> oserror + stat_result) answer"
  os_lexists :: "(string \<Rightarrow> bool) answer"
  os_access :: "(string \<Rightarrow> bool) answer"
  os_glob :: "(string \<Rightarrow> string list) answer"
  os_realpath :: "(string \<Rightarrow> string) answer"
  os_statvfs :: "(string \<Rightarrow> oserror + statvfs_result) answer"
  os_getpid :: "int answer"
  os_kill :: "(int \<Rightarrow> int \<Rightarrow> oserror + unit) answer"
  os_waitpid :: "(int \<Rightarrow> int \<Rightarrow> oserror + (int \<times> int)) answer"
  os_now :: "flt answer"
  os_time :: "flt answer"
  os_pidfd_open :: "(int \<Rightarrow> oserror + int) answer"
  os_poll :: "(int \<Rightarrow> int option \<Rightarrow> bool) answer"
  os_kqueue :: "(oserror + unit) answer"
  os_kevent :: "(int \<Rightarrow> flt option \<Rightarrow> oserror + bool) answer"
  os_nproc_online :: "(exn + int) answer"
  os_sysinfo :: "(int \<times> int \<times> int) answer"
  os_if_mtu :: "(string \<Rightarrow> oserror + int) answer"
  os_if_flags :: "(string \<Rightarrow> oserror + string list) answer"
  os_if_duplex :: "(string \<Rightarrow> oserror + (int \<times> int)) answer"
  os_mounts :: "(string \<Rightarrow> oserror + (string \<times> string \<times> string \<times> string) list) answer"
  os_users :: "(string \<times> string option \<times> string option \<times> flt \<times> int option) list answer"
  os_if_addrs :: "(string \<times> int \<times> string option \<times> string option \<times> string option \<times> string option) list answer"
  os_prlimit_get :: "(int \<Rightarrow> int \<Rightarrow> oserror + (int \<times> int)) answer"
  os_prlimit_set :: "(int \<Rightarrow> int \<Rightarrow> int \<Rightarrow> int \<Rightarrow> oserror + unit) answer"
  os_priority_get :: "(int \<Rightarrow> oserror + int) answer"
  os_priority_set :: "(int \<Rightarrow> int \<Rightarrow> oserror + unit) answer"
  os_affinity_get :: "(int \<Rightarrow> oserror + int list) answer"
  os_affinity_set :: "(int \<Rightarrow> int list \<Rightarrow> exn + unit) answer"
  os_ioprio_get :: "(int \<Rightarrow> oserror + (int \<times> int)) answer"
  os_ioprio_set :: "(int \<Rightarrow> int \<Rightarrow> int \<Rightarrow> oserror + unit) answer"
  os_check_pid :: "(int \<Rightarrow> exn + unit) answer"
  os_getpwuid :: "(int \<Rightarrow> string option) answer"
  os_walk :: "(string \<Rightarrow> (string \<times> string list) list) answer"
  os_access_x :: "(string \<Rightarrow> bool) answer"
  os_loadavg :: "(oserror + (flt \<times> flt \<times> flt)) answer"
  os_heap_info :: "(exn + (int \<times> int)) answer"
  os_spawn :: "(string list \<Rightarrow> exn + int) answer"
  os_pagesize :: int
  os_clock_ticks :: int
  os_little_endian :: bool
  os_has_smaps :: bool
  os_has_smaps_rollup :: bool
  os_has_ipv6 :: bool
  os_ntop_ipv6 :: bool
  os_has_pwd :: bool
  os_blocks :: "(syscall \<Rightarrow> bool) answer"

record sys =
  sys_os :: os
  hist :: "syscall list"
  procfs_path :: string

definition get_procfs_path :: "('z sys_scheme, string) py" where
  "get_procfs_path = gets procfs_path"

section \<open>Making a call\<close>

definition sys_ask :: "syscall \<Rightarrow> (os \<Rightarrow> 'a answer) \<Rightarrow> ('z sys_scheme, 'a) py" where
  "sys_ask c f = (\<lambda>s. (Inr (f (sys_os s) (hist s)), s\<lparr>hist := c # hist s\<rparr>))"

definition sys_try :: "syscall \<Rightarrow> (os \<Rightarrow> (exn + 'a) answer) \<Rightarrow> ('z sys_scheme, 'a) py" where
  "sys_try c f = bnd (sys_ask c f) liftE"

definition os_err :: "oserror + 'a \<Rightarrow> exn + 'a" where
  "os_err r = (case r of Inl e \<Rightarrow> Inl (OSError e) | Inr x \<Rightarrow> Inr x)"

definition sys_call :: "syscall \<Rightarrow> (os \<Rightarrow> (oserror + 'a) answer) \<Rightarrow> ('z sys_scheme, 'a) py" where
  "sys_call c f = sys_try c (\<lambda>os h. os_err (f os h))"

definition read_file :: "string \<Rightarrow> ('z sys_scheme, string) py" where
  "read_file p = sys_call (SRead p) (\<lambda>os h. os_read os h p)"

definition listdir :: "string \<Rightarrow> ('z sys_scheme, string list) py" where
  "listdir p = sys_call (SListdir p) (\<lambda>os h. os_listdir os h p)"

definition os_readlink_call :: "string \<Rightarrow> ('z sys_scheme, string) py" where
  "os_readlink_call p = sys_call (SReadlink p) (\<lambda>os h. os_readlink os h p)"

definition stat_call :: "string \<Rightarrow> ('z sys_scheme, stat_result) py" where
  "stat_call p = sys_call (SStat p) (\<lambda>os h. os_stat os h p)"

definition lexists :: "string \<Rightarrow> ('z sys_scheme, bool) py" where
  "lexists p = sys_ask (SLexists p) (\<lambda>os h. os_lexists os h p)"

definition access_call :: "string \<Rightarrow> ('z sys_scheme, bool) py" where
  "access_call p = sys_ask (SAccess p) (\<lambda>os h. os_access os h p)"

definition glob_call :: "string \<Rightarrow> ('z sys_scheme, string list) py" where
  "glob_call p = sys_ask (SGlob p) (\<lambda>os h. os_glob os h p)"

definition monotonic :: "('z sys_scheme, flt) py" where
  "monotonic = sys_ask SNow os_now"

definition wall_time :: "('z sys_scheme, flt) py" where
  "wall_time = sys_ask STime os_time"

definition sleep_call :: "flt \<Rightarrow> ('z sys_scheme, unit) py" where
  "sleep_call t = sys_ask (SSleep t) (\<lambda>os h. ())"

text \<open>\<open>os.path.exists(p)\<close>: a \<open>stat\<close> that does not raise.\<close>

definition path_exists :: "string \<Rightarrow> ('z sys_scheme, bool) py" where
  "path_exists p = try_else (stat_call p)
     (\<lambda>e. if is_OSError e then ret False else raise e) (\<lambda>_. ret True)"

text \<open>\<open>os.path.isfile(p)\<close>.\<close>

definition path_isfile :: "string \<Rightarrow> ('z sys_scheme, bool) py" where
  "path_isfile p = try_else (stat_call p)
     (\<lambda>e. if is_OSError e then ret False else raise e) (\<lambda>st. ret (st_isreg st))"

text \<open>A constant a module computed when it was imported.\<close>

definition sys_const :: "(os \<Rightarrow> 'a) \<Rightarrow> ('z sys_scheme, 'a) py" where
  "sys_const f = gets (\<lambda>s. f (sys_os s))"

lemma os_err_simps [simp]: "os_err (Inl e) = Inl (OSError e)" "os_err (Inr x) = Inr x"
  by (simp_all add: os_err_def)

lemma os_err_eq_Inr [simp]: "os_err r = Inr x \<longleftrightarrow> r = Inr x"
  by (cases r) simp_all

lemma sys_ask_run [simp, py_run]:
  "sys_ask c f s = (Inr (f (sys_os s) (hist s)), s\<lparr>hist := c # hist s\<rparr>)"
  by (simp add: sys_ask_def)

lemma sys_try_run [simp, py_run]:
  "sys_try c f s = (f (sys_os s) (hist s), s\<lparr>hist := c # hist s\<rparr>)"
  by (simp add: sys_try_def)

lemma sys_call_run [simp, py_run]:
  "sys_call c f s = (os_err (f (sys_os s) (hist s)), s\<lparr>hist := c # hist s\<rparr>)"
  by (simp add: sys_call_def)

lemmas sys_defs [py_run] =
  read_file_def listdir_def os_readlink_call_def stat_call_def lexists_def access_call_def
  glob_call_def monotonic_def wall_time_def sleep_call_def path_exists_def path_isfile_def

section \<open>What an operation leaves alone\<close>

text \<open>
  \<open>confined A\<close>: the oracle and every field outside \<open>sys\<close> are unchanged, and the calls
  made are all in \<open>A\<close>.
\<close>

definition confined :: "syscall set \<Rightarrow> 'z sys_scheme \<Rightarrow> 'z sys_scheme \<Rightarrow> bool" where
  "confined A s t \<longleftrightarrow> sys_os t = sys_os s \<and> procfs_path t = procfs_path s
     \<and> sys.more t = sys.more s \<and> (\<exists>d. hist t = d @ hist s \<and> set d \<subseteq> A)"

lemma confined_refl: "confined A s s"
  by (simp add: confined_def)

lemma confined_trans: "confined A s t \<Longrightarrow> confined A t u \<Longrightarrow> confined A s u"
  by (fastforce simp: confined_def)

interpretation wn: preserved "confined A" for A
  by unfold_locales (auto intro: confined_refl confined_trans)

lemma confined_mono: "confined A s t \<Longrightarrow> A \<subseteq> B \<Longrightarrow> confined B s t"
  by (fastforce simp: confined_def)

lemma pres_confined_mono: "pres (confined A) m \<Longrightarrow> A \<subseteq> B \<Longrightarrow> pres (confined B) m"
  unfolding pres_def using confined_mono by blast

lemma confined_call: "c \<in> A \<Longrightarrow> confined A s (s\<lparr>hist := c # hist s\<rparr>)"
  by (simp add: confined_def)

lemma pres_sys_ask [pres_intros]: "c \<in> A \<Longrightarrow> pres (confined A) (sys_ask c f)"
  by (simp add: pres_def confined_call)

lemma pres_sys_try [pres_intros]: "c \<in> A \<Longrightarrow> pres (confined A) (sys_try c f)"
  by (simp add: pres_def confined_call)

lemma pres_sys_call [pres_intros]: "c \<in> A \<Longrightarrow> pres (confined A) (sys_call c f)"
  by (simp add: pres_def confined_call)

text \<open>The calls that change nothing outside the caller.\<close>

fun read_only :: "syscall \<Rightarrow> bool" where
  "read_only (SKill _ _) = False"
| "read_only (SPrlimitSet _ _ _ _) = False"
| "read_only (SPrioritySet _ _) = False"
| "read_only (SAffinitySet _ _) = False"
| "read_only (SIoprioSet _ _ _) = False"
| "read_only (SWaitpid _ _) = False"
| "read_only SHeapTrim = False"
| "read_only (SSpawn _) = False"
| "read_only (SExtSet _ _ _) = False"
| "read_only _ = True"

abbreviation read_calls :: "syscall set" where
  "read_calls \<equiv> {c. read_only c}"

lemma pres_sys_reads [pres_intros]:
  "pres (confined read_calls) (read_file p)" "pres (confined read_calls) (listdir p)"
  "pres (confined read_calls) (os_readlink_call p)" "pres (confined read_calls) (stat_call p)"
  "pres (confined read_calls) (lexists p)" "pres (confined read_calls) (access_call p)"
  "pres (confined read_calls) (glob_call p)" "pres (confined read_calls) monotonic"
  "pres (confined read_calls) wall_time" "pres (confined read_calls) (sleep_call t)"
  unfolding sys_defs by (auto intro!: pres_intros)

lemma get_procfs_path_run [simp, py_run]: "get_procfs_path s = (Inr (procfs_path s), s)"
  by (simp add: get_procfs_path_def)

lemma pres_get_procfs_path [pres_intros]: "pres (confined A) get_procfs_path"
  unfolding get_procfs_path_def by (intro pres_intros)

lemma sys_const_run [simp, py_run]: "sys_const f s = (Inr (f (sys_os s)), s)"
  by (simp add: sys_const_def)

lemma pres_sys_const [pres_intros]: "pres (confined A) (sys_const f)"
  unfolding sys_const_def by (intro pres_intros)

lemma pres_path_exists [pres_intros]: "pres (confined read_calls) (path_exists p)"
  unfolding path_exists_def by (intro pres_intros)

lemma pres_path_isfile [pres_intros]: "pres (confined read_calls) (path_isfile p)"
  unfolding path_isfile_def by (intro pres_intros)

section \<open>An oracle to start from\<close>

text \<open>
  A system where nothing is there, on which the witnesses build concrete ones by
  overriding the answers they need.
\<close>

definition null_os :: os where
  "null_os = \<lparr>
     os_read = (\<lambda>h p. Inl ENOENT), os_listdir = (\<lambda>h p. Inl ENOENT),
     os_readlink = (\<lambda>h p. Inl ENOENT), os_stat = (\<lambda>h p. Inl ENOENT),
     os_lexists = (\<lambda>h p. False), os_access = (\<lambda>h p. False), os_glob = (\<lambda>h p. []),
     os_realpath = (\<lambda>h p. p), os_statvfs = (\<lambda>h p. Inl ENOENT), os_getpid = (\<lambda>h. 1),
     os_kill = (\<lambda>h p g. Inl ESRCH), os_waitpid = (\<lambda>h p f. Inl ECHILD),
     os_now = (\<lambda>h. of_nat (length h)), os_time = (\<lambda>h. of_nat (length h)),
     os_pidfd_open = (\<lambda>h p. Inl ESRCH), os_poll = (\<lambda>h f t. False),
     os_kqueue = (\<lambda>h. Inl ENOSYS), os_kevent = (\<lambda>h p t. Inl ENOSYS),
     os_nproc_online = (\<lambda>h. Inr 1), os_sysinfo = (\<lambda>h. (0, 0, 1)),
     os_if_mtu = (\<lambda>h n. Inl ENODEV), os_if_flags = (\<lambda>h n. Inl ENODEV),
     os_if_duplex = (\<lambda>h n. Inl ENODEV), os_mounts = (\<lambda>h p. Inl ENOENT),
     os_users = (\<lambda>h. []), os_if_addrs = (\<lambda>h. []),
     os_prlimit_get = (\<lambda>h p r. Inl ESRCH), os_prlimit_set = (\<lambda>h p r a b. Inl ESRCH),
     os_priority_get = (\<lambda>h p. Inl ESRCH), os_priority_set = (\<lambda>h p v. Inl ESRCH),
     os_affinity_get = (\<lambda>h p. Inl ESRCH), os_affinity_set = (\<lambda>h p c. Inl (OSError ESRCH)),
     os_ioprio_get = (\<lambda>h p. Inl ESRCH), os_ioprio_set = (\<lambda>h p c v. Inl ESRCH),
     os_check_pid = (\<lambda>h p. Inr ()), os_getpwuid = (\<lambda>h u. None),
     os_walk = (\<lambda>h p. []),
     os_access_x = (\<lambda>h p. False), os_loadavg = (\<lambda>h. Inr (0, 0, 0)), os_heap_info = (\<lambda>h. Inr (0, 0)),
     os_spawn = (\<lambda>h a. Inl (OSError ENOENT)), 
     os_pagesize = 4096, os_clock_ticks = 100, os_little_endian = True, os_has_smaps = True,
     os_has_smaps_rollup = True, os_has_ipv6 = True, os_ntop_ipv6 = True, os_has_pwd = True,
     os_blocks = (\<lambda>h c. False) \<rparr>"

definition null_sys :: sys where
  "null_sys = \<lparr>sys_os = null_os, hist = [], procfs_path = ''/proc''\<rparr>"

lemma null_sys_simps [simp]:
  "sys_os null_sys = null_os" "hist null_sys = []" "procfs_path null_sys = ''/proc''"
  by (simp_all add: null_sys_def)

end
