(* ===== verification/Common_Utils.thy ===== *)
theory Common_Utils
  imports Sys
begin

text \<open>
  \<open>psutil/_common.py\<close>: the exception classes, the percentages, the strict file tests,
  the environment block parser, \<open>cat\<close>, \<open>bytes2human\<close> and \<open>hilite\<close>.
\<close>

section \<open>Exceptions\<close>

text \<open>The constructors: \<open>msg or default\<close>, so an empty message is replaced as well.\<close>

definition or_default :: "string option \<Rightarrow> string \<Rightarrow> string" where
  "or_default m d = (case m of None \<Rightarrow> d | Some x \<Rightarrow> if x = [] then d else x)"

definition mk_NoSuchProcess_opt :: "int option \<Rightarrow> string option \<Rightarrow> string option \<Rightarrow> exn" where
  "mk_NoSuchProcess_opt pid name msg = NoSuchProcess pid name (or_default msg ''process no longer exists'')"

text \<open>With a pid, as everywhere but for Windows services.\<close>

definition mk_NoSuchProcess :: "int \<Rightarrow> string option \<Rightarrow> string option \<Rightarrow> exn" where
  "mk_NoSuchProcess pid = mk_NoSuchProcess_opt (Some pid)"

definition mk_ZombieProcess ::
  "int \<Rightarrow> string option \<Rightarrow> int option \<Rightarrow> string option \<Rightarrow> exn" where
  "mk_ZombieProcess pid name ppid msg =
     ZombieProcess pid name ppid (or_default msg (''PID still exists but it'' @ [CHR 0x27] @ ''s a zombie''))"

definition mk_AccessDenied :: "int option \<Rightarrow> string option \<Rightarrow> string option \<Rightarrow> exn" where
  "mk_AccessDenied pid name msg = AccessDenied pid name (or_default msg [])"

definition mk_TimeoutExpired :: "flt \<Rightarrow> int option \<Rightarrow> string option \<Rightarrow> exn" where
  "mk_TimeoutExpired seconds pid name = TimeoutExpired seconds pid name"

text \<open>The class hierarchy: \<open>except NoSuchProcess\<close> also catches \<open>ZombieProcess\<close>.\<close>

fun is_ZombieProcess :: "exn \<Rightarrow> bool" where
  "is_ZombieProcess (ZombieProcess _ _ _ _) = True"
| "is_ZombieProcess _ = False"

fun is_NoSuchProcess :: "exn \<Rightarrow> bool" where
  "is_NoSuchProcess (NoSuchProcess _ _ _) = True"
| "is_NoSuchProcess (ZombieProcess _ _ _ _) = True"
| "is_NoSuchProcess _ = False"

fun is_AccessDenied :: "exn \<Rightarrow> bool" where
  "is_AccessDenied (AccessDenied _ _ _) = True"
| "is_AccessDenied _ = False"

fun is_TimeoutExpired :: "exn \<Rightarrow> bool" where
  "is_TimeoutExpired (TimeoutExpired _ _ _) = True"
| "is_TimeoutExpired _ = False"

text \<open>
  \<open>__reduce__\<close>: the class is rebuilt from these arguments when an exception is unpickled.
\<close>

fun exn_reduce_rebuild :: "exn \<Rightarrow> exn" where
  "exn_reduce_rebuild (NoSuchProcess pid name msg) = mk_NoSuchProcess_opt pid name (Some msg)"
| "exn_reduce_rebuild (ZombieProcess pid name ppid msg) = mk_ZombieProcess pid name ppid (Some msg)"
| "exn_reduce_rebuild (AccessDenied pid name msg) = mk_AccessDenied pid name (Some msg)"
| "exn_reduce_rebuild (TimeoutExpired secs pid name) = mk_TimeoutExpired secs pid name"
| "exn_reduce_rebuild e = e"

text \<open>
  \<open>Error._infodict\<close>: the attributes that are true, and a pid even when it is 0.  Python
  values of the attributes, and what \<open>getattr(self, name, None)\<close> gives for each class.
\<close>

datatype attr_value = AvInt int | AvStr string | AvSecs flt | AvNone

fun attr_true :: "attr_value \<Rightarrow> bool" where
  "attr_true (AvInt i) = (i \<noteq> 0)"
| "attr_true (AvStr s) = (s \<noteq> [])"
| "attr_true (AvSecs t) = (t \<noteq> 0)"
| "attr_true AvNone = False"

definition av_str :: "string option \<Rightarrow> attr_value" where
  "av_str x = (case x of None \<Rightarrow> AvNone | Some s \<Rightarrow> AvStr s)"

definition av_int :: "int option \<Rightarrow> attr_value" where
  "av_int x = (case x of None \<Rightarrow> AvNone | Some s \<Rightarrow> AvInt s)"

fun error_attr :: "exn \<Rightarrow> string \<Rightarrow> attr_value" where
  "error_attr (NoSuchProcess pid name msg) a =
     (if a = ''pid'' then av_int pid else if a = ''name'' then av_str name
      else if a = ''msg'' then AvStr msg else AvNone)"
| "error_attr (ZombieProcess pid name ppid msg) a =
     (if a = ''pid'' then AvInt pid else if a = ''ppid'' then av_int ppid
      else if a = ''name'' then av_str name else if a = ''msg'' then AvStr msg else AvNone)"
| "error_attr (AccessDenied pid name msg) a =
     (if a = ''pid'' then av_int pid else if a = ''name'' then av_str name
      else if a = ''msg'' then AvStr msg else AvNone)"
| "error_attr (TimeoutExpired secs pid name) a =
     (if a = ''pid'' then av_int pid else if a = ''name'' then av_str name
      else if a = ''seconds'' then AvSecs secs else AvNone)"
| "error_attr _ a = AvNone"

definition infodict :: "exn \<Rightarrow> string list \<Rightarrow> (string, attr_value) dict" where
  "infodict e attrs = fold (\<lambda>name info. let value = error_attr e name in
     if attr_true value \<or> (name = ''pid'' \<and> value = AvInt 0)
     then AList.update name value info else info) attrs []"

lemma is_psutil_reduce: "is_NoSuchProcess (exn_reduce_rebuild e) = is_NoSuchProcess e"
  by (cases e) (auto simp: mk_NoSuchProcess_opt_def mk_ZombieProcess_def mk_AccessDenied_def mk_TimeoutExpired_def)

section \<open>Percentages\<close>

text \<open>\<open>round(x, n)\<close> for a float and \<open>n \<ge> 0\<close>.\<close>

definition fround :: "nat \<Rightarrow> flt \<Rightarrow> flt" where
  "fround n x = fl (of_int (rhe (x * 10 ^ n)) / 10 ^ n)"

lemma fround_1 [simp]: "fround (Suc 0) x = fround1 x"
  by (simp add: fround_def fround1_def)

definition usage_percent :: "int \<Rightarrow> int \<Rightarrow> nat option \<Rightarrow> flt" where
  "usage_percent used tot ndigits =
     (case fdiv (fint used) (fint tot) of
        Inl _ \<Rightarrow> 0
      | Inr q \<Rightarrow> (let r = fmul q 100 in case ndigits of None \<Rightarrow> r | Some n \<Rightarrow> fround n r))"

lemma usage_percent_bounds:
  assumes "0 \<le> used" "used \<le> tot"
  shows "0 \<le> usage_percent used tot (Some 1) \<and> usage_percent used tot (Some 1) \<le> 100"
proof (cases "tot = 0")
  case True
  then show ?thesis by (simp add: usage_percent_def fdiv_def)
next
  case False
  with assms have pos: "0 < fint tot" by (intro fint_pos) simp
  have "0 \<le> fint used" "fint used \<le> fint tot"
    using assms by (auto intro: fint_nonneg fint_mono)
  from fl.percent_bounds [OF this pos] pos show ?thesis
    by (simp add: usage_percent_def fdiv_def fmul_def fround1_bounds)
qed

lemma usage_percent_mono:
  assumes "u \<le> u'" "0 < tot"
  shows "usage_percent u tot (Some 1) \<le> usage_percent u' tot (Some 1)"
proof -
  have pos: "0 < fint tot" using assms(2) by (rule fint_pos)
  have "fint u \<le> fint u'" using assms(1) by (rule fint_mono)
  from fl.percent_mono [OF this pos] pos show ?thesis
    by (simp add: usage_percent_def fdiv_def fmul_def fround1_mono)
qed

section \<open>Strict file tests\<close>

definition isfile_strict :: "string \<Rightarrow> ('z sys_scheme, bool) py" where
  "isfile_strict path = try_else (stat_call path)
     (\<lambda>e. if is_PermissionError e then raise e else if is_OSError e then ret False else raise e)
     (\<lambda>st. ret (st_isreg st))"

definition path_exists_strict :: "string \<Rightarrow> ('z sys_scheme, bool) py" where
  "path_exists_strict path = try_else (stat_call path)
     (\<lambda>e. if is_PermissionError e then raise e else if is_OSError e then ret False else raise e)
     (\<lambda>_. ret True)"

lemma pres_isfile_strict [pres_intros]: "pres (confined read_calls) (isfile_strict p)"
  unfolding isfile_strict_def by (intro pres_intros)

lemma pres_path_exists_strict [pres_intros]: "pres (confined read_calls) (path_exists_strict p)"
  unfolding path_exists_strict_def by (intro pres_intros)

section \<open>Reading a file\<close>

text \<open>\<open>cat(fname)\<close> and \<open>cat(fname, fallback=...)\<close>; \<open>bcat\<close> is the same on bytes.\<close>

definition cat :: "string \<Rightarrow> ('z sys_scheme, string) py" where
  "cat fname = read_file fname"

definition cat_fallback :: "string \<Rightarrow> 'a \<Rightarrow> (string \<Rightarrow> 'a) \<Rightarrow> ('z sys_scheme, 'a) py" where
  "cat_fallback fname fallback f = try_else (read_file fname)
     (\<lambda>e. if is_OSError e then ret fallback else raise e) (\<lambda>data. ret (f data))"

definition bcat :: "string \<Rightarrow> ('z sys_scheme, string) py" where
  "bcat fname = cat fname"

definition bcat_opt :: "string \<Rightarrow> ('z sys_scheme, string option) py" where
  "bcat_opt fname = cat_fallback fname None Some"

definition cat_str :: "string \<Rightarrow> string \<Rightarrow> ('z sys_scheme, string) py" where
  "cat_str fname fallback = cat_fallback fname fallback id"

lemma pres_cat [pres_intros]:
  "pres (confined read_calls) (cat p)" "pres (confined read_calls) (bcat p)"
  "pres (confined read_calls) (cat_fallback p d f)" "pres (confined read_calls) (bcat_opt p)"
  "pres (confined read_calls) (cat_str p d)"
  unfolding cat_def bcat_def cat_fallback_def bcat_opt_def cat_str_def
  by (intro pres_intros)+

section \<open>The environment block\<close>

text \<open>
  \<open>parse_environ_block(data)\<close>.  The loop variable is the block from \<open>pos\<close> on, so
  \<open>data.find(chr(0), pos) <= pos\<close> is \<open>find_char nul rest \<le> 0\<close>.
\<close>

function environ_loop :: "bool \<Rightarrow> string \<Rightarrow> (string, string) dict \<Rightarrow> (string, string) dict" where
  "environ_loop windows rest d =
     (let next_pos = find_char nul rest in
      if next_pos \<le> 0 then d
      else let entry = take (nat next_pos) rest;
               equal_pos = find_char (CHR ''='') entry;
               key = take (nat equal_pos) entry;
               key' = (if windows then str_upper key else key);
               value = drop (nat equal_pos + 1) entry;
               d2 = (if 0 < equal_pos then AList.update key' value d else d)
           in environ_loop windows (drop (nat next_pos + 1) rest) d2)"
  by pat_completeness auto
termination
  by (relation "measure (\<lambda>(w, rest, d). length rest)") (auto dest!: find_char_pos_ne intro: diff_less)

declare environ_loop.simps [simp del]

definition parse_environ_block :: "bool \<Rightarrow> string \<Rightarrow> (string, string) dict" where
  "parse_environ_block windows data = environ_loop windows data []"

text \<open>The block the kernel builds, one \<open>KEY=value\<close> entry after another.\<close>

definition environ_entry :: "string \<times> string \<Rightarrow> string" where
  "environ_entry kv = fst kv @ CHR ''='' # snd kv @ [nul]"

definition env_ok :: "string \<times> string \<Rightarrow> bool" where
  "env_ok kv \<longleftrightarrow> fst kv \<noteq> [] \<and> CHR ''='' \<notin> set (fst kv) \<and> nul \<notin> set (fst kv) \<and> nul \<notin> set (snd kv)"

lemma environ_loop_stop: "rest = [] \<or> hd rest = nul \<Longrightarrow> environ_loop w rest d = d"
  by (subst environ_loop.simps) (cases rest; auto)

lemma environ_loop_entry:
  assumes "env_ok kv"
  shows "environ_loop False (environ_entry kv @ rest) d
       = environ_loop False rest (AList.update (fst kv) (snd kv) d)"
proof -
  obtain k v where kv: "kv = (k, v)" by (cases kv)
  define e where "e = k @ CHR ''='' # v"
  have n: "find_char nul (e @ nul # rest) = int (length e)"
    using assms kv by (intro find_char_first) (simp add: env_ok_def e_def)
  have eq: "find_char (CHR ''='') e = int (length k)"
    unfolding e_def using assms kv by (intro find_char_first) (simp add: env_ok_def)
  have k: "0 < length k" using assms kv by (simp add: env_ok_def)
  have "environ_entry kv @ rest = e @ nul # rest" by (simp add: environ_entry_def kv e_def)
  moreover have "environ_loop False (e @ nul # rest) d
      = environ_loop False rest (AList.update k v d)"
    using k by (subst environ_loop.simps) (simp add: n Let_def eq, simp add: e_def)
  ultimately show ?thesis by (simp add: kv)
qed

lemma environ_loop_entries:
  assumes "list_all env_ok env"
  shows "environ_loop False (concat (map environ_entry env) @ rest) d
       = environ_loop False rest (fold (\<lambda>kv acc. AList.update (fst kv) (snd kv) acc) env d)"
  using assms by (induction env arbitrary: d) (simp_all add: environ_loop_entry)

lemma fold_update_new:
  "distinct (map fst d @ map fst env) \<Longrightarrow>
   fold (\<lambda>kv acc. AList.update (fst kv) (snd kv) acc) env d = d @ env"
  by (induction env arbitrary: d) (auto simp: keys_update_new)

text \<open>
  Parsing the environment block of a process gives back exactly the variables the
  block was built from, in order, and ignores whatever follows the terminating null byte.
\<close>

theorem parse_environ_roundtrip:
  assumes "list_all env_ok env" and "distinct (map fst env)" and "rest = [] \<or> hd rest = nul"
  shows "parse_environ_block False (concat (map environ_entry env) @ rest) = env"
  using assms fold_update_new [of "[]" env]
  by (simp add: parse_environ_block_def environ_loop_entries environ_loop_stop)

theorem parse_environ_roundtrip_witness:
  "parse_environ_block False
     (concat (map environ_entry [(''HOME'', ''/root''), (''EMPTY'', []), (''OPTS'', ''a=b'')]) @ nul # ''junk=1'')
   = [(''HOME'', ''/root''), (''EMPTY'', []), (''OPTS'', ''a=b'')]"
  by (rule parse_environ_roundtrip) (simp_all add: env_ok_def)

section \<open>Human readable sizes\<close>

text \<open>\<open>f'{x:.1f}'\<close>: the exact decimal value, half to even.\<close>

definition fmt1 :: "flt \<Rightarrow> string" where
  "fmt1 x = (let k = rhe (x * 10); a = \<bar>k\<bar> in
     (if x < 0 then ''-'' else []) @ int_str (a div 10) @ CHR ''.'' # int_str (a mod 10))"

definition symbols :: "string list" where
  "symbols = [''B'', ''K'', ''M'', ''G'', ''T'', ''P'', ''E'', ''Z'', ''Y'']"

definition symbol_prefix :: "nat \<Rightarrow> int" where
  "symbol_prefix i = 2 ^ (i * 10)"

text \<open>The loop over \<open>reversed(symbols[1:])\<close>: the index of the largest unit not above \<open>|n|\<close>.\<close>

fun pick_symbol :: "int \<Rightarrow> nat \<Rightarrow> nat" where
  "pick_symbol n 0 = 0"
| "pick_symbol n (Suc i) = (if symbol_prefix (Suc i) \<le> \<bar>n\<bar> then Suc i else pick_symbol n i)"

definition bytes2human :: "int \<Rightarrow> string" where
  "bytes2human n = (let i = pick_symbol n 8 in
     (if i = 0 then fmt1 (fint n) else fmt1 (fl (fint n / fint (symbol_prefix i)))) @ symbols ! i)"

lemma pick_symbol_le: "pick_symbol n k \<le> k"
  by (induction k) auto

lemma pick_symbol_ge: "0 < pick_symbol n k \<Longrightarrow> symbol_prefix (pick_symbol n k) \<le> \<bar>n\<bar>"
  by (induction k) (auto split: if_splits)

lemma pick_symbol_lt:
  "pick_symbol n k < j \<Longrightarrow> j \<le> k \<Longrightarrow> \<bar>n\<bar> < symbol_prefix j"
  by (induction k) (auto split: if_splits simp: le_Suc_eq)

text \<open>
  \<open>bytes2human\<close> picks the largest unit that is not above the number: the number is
  at least one such unit and below one of the next larger unit.
\<close>

theorem bytes2human_unit:
  "\<exists>i \<le> 8. bytes2human n = (if i = 0 then fmt1 (fint n)
       else fmt1 (fl (fint n / fint (2 ^ (10 * i))))) @ symbols ! i
     \<and> (i = 0 \<or> 2 ^ (10 * i) \<le> \<bar>n\<bar>) \<and> (i = 8 \<or> \<bar>n\<bar> < 2 ^ (10 * (i + 1)))"
proof (intro exI [of _ "pick_symbol n 8"] conjI)
  show "bytes2human n = (if pick_symbol n 8 = 0 then fmt1 (fint n)
       else fmt1 (fl (fint n / fint (2 ^ (10 * pick_symbol n 8))))) @ symbols ! pick_symbol n 8"
    by (simp add: bytes2human_def Let_def symbol_prefix_def mult.commute)
  show "pick_symbol n 8 = 0 \<or> 2 ^ (10 * pick_symbol n 8) \<le> \<bar>n\<bar>"
    using pick_symbol_ge [of n 8] by (auto simp: symbol_prefix_def mult.commute)
  show "pick_symbol n 8 = 8 \<or> \<bar>n\<bar> < 2 ^ (10 * (pick_symbol n 8 + 1))"
  proof (cases "pick_symbol n 8 = 8")
    case False
    then have "pick_symbol n 8 + 1 \<le> 8" using pick_symbol_le [of n 8] by linarith
    then show ?thesis
      using pick_symbol_lt [of n 8 "pick_symbol n 8 + 1"] by (simp add: symbol_prefix_def algebra_simps)
  qed simp
qed (rule pick_symbol_le)

section \<open>Colours\<close>

definition colors :: "(string option, string) dict" where
  "colors = [(Some ''blue'', ''34''), (Some ''brown'', ''33''), (Some ''darkgrey'', ''30''),
    (Some ''green'', ''32''), (Some ''grey'', ''37''), (Some ''lightblue'', ''36''),
    (Some ''red'', ''31''), (Some ''violet'', ''35''), (Some ''yellow'', ''93''), (None, ''29'')]"

text \<open>\<open>supports\<close> is \<open>term_supports_colors(force_color)\<close>.\<close>

definition hilite :: "bool \<Rightarrow> string \<Rightarrow> string option \<Rightarrow> bool \<Rightarrow> exn + string" where
  "hilite supports s color bold =
     (if \<not> supports then Inr s
      else (case map_of colors color of
          None \<Rightarrow> Inl ValueError
        | Some c \<Rightarrow> (let attr = [c] @ (if bold then [''1''] else []) in
            Inr ([CHR 0x1B, CHR ''[''] @ join '';'' attr @ ''m'' @ s @ [CHR 0x1B] @ ''[0m''))))"

definition term_supports_colors :: "bool \<Rightarrow> bool \<Rightarrow> bool \<Rightarrow> bool \<Rightarrow> bool" where
  "term_supports_colors windows force_color isatty has_fileno =
     (if windows then False else if force_color then True
      else if \<not> isatty then False else has_fileno)"

end
