(* ===== verification/Wrap_Numbers.thy ===== *)
theory Wrap_Numbers
  imports Common_Utils
begin

text \<open>
  \<open>_WrapNumbers\<close> of \<open>psutil/_common.py\<close>: kernel counters that overflow restart from
  zero; this class adds what was lost at each restart, so that the numbers handed to the
  caller never decrease.  The three dictionaries of the object are the three fields of
  \<open>wn_state\<close>; \<open>reminders\<close> and \<open>reminder_keys\<close> are per name a \<open>defaultdict\<close>, so
  that reading a missing entry creates it.
\<close>

type_synonym 'k remkey = "'k \<times> nat"
type_synonym 'k counters = "('k, int list) dict"

record 'k wn_state =
  wn_cache :: "(string, 'k counters) dict"
  wn_reminders :: "(string, ('k remkey, int) dict) dict"
  wn_reminder_keys :: "(string, ('k, 'k remkey list) dict) dict"

definition wn_init :: "'k wn_state" where
  "wn_init = \<lparr>wn_cache = [], wn_reminders = [], wn_reminder_keys = []\<rparr>"

text \<open>\<open>d[k]\<close> on a dict.\<close>

definition dict_at :: "('k, 'v) dict \<Rightarrow> 'k \<Rightarrow> ('s, 'v) py" where
  "dict_at d k = liftE (of_option KeyError (map_of d k))"

definition add_dict :: "'k counters \<Rightarrow> string \<Rightarrow> ('k wn_state, unit) py" where
  "add_dict input_dict name =
     bnd (gets (\<lambda>s. name \<notin> set (dict_keys (wn_cache s)))) (\<lambda>a. bnd (assert_py a) (\<lambda>_.
     bnd (gets (\<lambda>s. name \<notin> set (dict_keys (wn_reminders s)))) (\<lambda>b. bnd (assert_py b) (\<lambda>_.
     bnd (gets (\<lambda>s. name \<notin> set (dict_keys (wn_reminder_keys s)))) (\<lambda>c. bnd (assert_py c) (\<lambda>_.
     modify (\<lambda>s. s\<lparr>wn_cache := AList.update name input_dict (wn_cache s),
                   wn_reminders := AList.update name [] (wn_reminders s),
                   wn_reminder_keys := AList.update name [] (wn_reminder_keys s)\<rparr>)))))))"

text \<open>\<open>self.reminders[name][remkey]\<close>, which creates the entry with 0.\<close>

definition rem_of :: "'k wn_state \<Rightarrow> string \<Rightarrow> ('k remkey, int) dict" where
  "rem_of s name = dict_get (wn_reminders s) name []"

definition remk_of :: "'k wn_state \<Rightarrow> string \<Rightarrow> ('k, 'k remkey list) dict" where
  "remk_of s name = dict_get (wn_reminder_keys s) name []"

definition set_rem :: "string \<Rightarrow> ('k remkey, int) dict \<Rightarrow> 'k wn_state \<Rightarrow> 'k wn_state" where
  "set_rem name r s = s\<lparr>wn_reminders := AList.update name r (wn_reminders s)\<rparr>"

definition set_remk :: "string \<Rightarrow> ('k, 'k remkey list) dict \<Rightarrow> 'k wn_state \<Rightarrow> 'k wn_state" where
  "set_remk name r s = s\<lparr>wn_reminder_keys := AList.update name r (wn_reminder_keys s)\<rparr>"

definition get_reminder :: "string \<Rightarrow> 'k remkey \<Rightarrow> ('k wn_state, int) py" where
  "get_reminder name remkey =
     bnd (gets (\<lambda>s. dict_get (rem_of s name) remkey 0)) (\<lambda>v.
     bnd (modify (\<lambda>s. set_rem name (AList.update remkey v (rem_of s name)) s)) (\<lambda>_. ret v))"

definition add_reminder :: "string \<Rightarrow> 'k remkey \<Rightarrow> int \<Rightarrow> ('k wn_state, unit) py" where
  "add_reminder name remkey old_value =
     modify (\<lambda>s. set_rem name
       (AList.update remkey (dict_get (rem_of s name) remkey 0 + old_value) (rem_of s name)) s)"

text \<open>\<open>self.reminder_keys[name][key].add(remkey)\<close>: a set, kept as a list without repetition.\<close>

definition add_reminder_key :: "string \<Rightarrow> 'k remkey \<Rightarrow> ('k wn_state, unit) py" where
  "add_reminder_key name remkey =
     modify (\<lambda>s. set_remk name (AList.update (fst remkey)
        (List.insert remkey (dict_get (remk_of s name) (fst remkey) [])) (remk_of s name)) s)"

definition del_reminder :: "string \<Rightarrow> 'k remkey \<Rightarrow> ('k wn_state, unit) py" where
  "del_reminder name remkey =
     bnd (gets (\<lambda>s. rem_of s name)) (\<lambda>r.
     bnd (dict_at r remkey) (\<lambda>_. modify (set_rem name (AList.delete remkey r))))"

definition drop_gone_key :: "string \<Rightarrow> 'k \<Rightarrow> unit \<Rightarrow> ('k wn_state, unit) py" where
  "drop_gone_key name gone_key _ =
     bnd (gets (\<lambda>s. dict_get (remk_of s name) gone_key [])) (\<lambda>remkeys.
     bnd (for_each remkeys (\<lambda>remkey _. del_reminder name remkey) ()) (\<lambda>_.
     modify (\<lambda>s. set_remk name (AList.delete gone_key (remk_of s name)) s)))"

definition remove_dead_reminders :: "'k counters \<Rightarrow> string \<Rightarrow> ('k wn_state, unit) py" where
  "remove_dead_reminders input_dict name =
     bnd (gets wn_cache) (\<lambda>c. bnd (dict_at c name) (\<lambda>old_dict.
     (let gone_keys = filter (\<lambda>k. k \<notin> set (dict_keys input_dict)) (dict_keys old_dict) in
      for_each gone_keys (drop_gone_key name) ())))"

text \<open>The loop over the fields of one entry; \<open>bits\<close> is built in order.\<close>

definition run_field ::
  "string \<Rightarrow> 'k \<Rightarrow> int list \<Rightarrow> int list \<Rightarrow> nat \<Rightarrow> int list \<Rightarrow> ('k wn_state, int list) py" where
  "run_field name key input_tuple old_tuple i bits =
     bnd (liftE (item input_tuple (int i))) (\<lambda>input_value.
     bnd (liftE (item old_tuple (int i))) (\<lambda>old_value.
     bnd (if input_value < old_value
          then bnd (add_reminder name (key, i) old_value) (\<lambda>_. add_reminder_key name (key, i))
          else ret ()) (\<lambda>_.
     bnd (get_reminder name (key, i)) (\<lambda>r. ret (bits @ [input_value + r])))))"

definition run_key ::
  "string \<Rightarrow> 'k counters \<Rightarrow> 'k \<times> int list \<Rightarrow> 'k counters \<Rightarrow> ('k wn_state, 'k counters) py" where
  "run_key name old_dict kv new_dict =
     (case map_of old_dict (fst kv) of
        None \<Rightarrow> ret (AList.update (fst kv) (snd kv) new_dict)
      | Some old_tuple \<Rightarrow>
          bnd (for_each [0..<length (snd kv)] (run_field name (fst kv) (snd kv) old_tuple) [])
            (\<lambda>bits. ret (AList.update (fst kv) bits new_dict)))"

definition wn_run :: "'k counters \<Rightarrow> string \<Rightarrow> ('k wn_state, 'k counters) py" where
  "wn_run input_dict name =
     bnd (gets (\<lambda>s. name \<notin> set (dict_keys (wn_cache s)))) (\<lambda>first.
     if first then bnd (add_dict input_dict name) (\<lambda>_. ret input_dict)
     else bnd (remove_dead_reminders input_dict name) (\<lambda>_.
       bnd (gets wn_cache) (\<lambda>c. bnd (dict_at c name) (\<lambda>old_dict.
       bnd (for_each input_dict (run_key name old_dict) []) (\<lambda>new_dict.
       bnd (modify (\<lambda>s. s\<lparr>wn_cache := AList.update name input_dict (wn_cache s)\<rparr>)) (\<lambda>_.
       ret new_dict))))))"

text \<open>\<open>cache_clear()\<close> and \<open>cache_clear(name)\<close>.\<close>

definition cache_clear :: "string option \<Rightarrow> 'k wn_state \<Rightarrow> 'k wn_state" where
  "cache_clear name s = (case name of
      None \<Rightarrow> wn_init
    | Some n \<Rightarrow> s\<lparr>wn_cache := AList.delete n (wn_cache s),
                  wn_reminders := AList.delete n (wn_reminders s),
                  wn_reminder_keys := AList.delete n (wn_reminder_keys s)\<rparr>)"

definition cache_info :: "'k wn_state \<Rightarrow> (string, 'k counters) dict
     \<times> (string, ('k remkey, int) dict) dict \<times> (string, ('k, 'k remkey list) dict) dict" where
  "cache_info s = (wn_cache s, wn_reminders s, wn_reminder_keys s)"

text \<open>\<open>wrap_numbers(input_dict, name)\<close>, under the lock of the module's only instance.\<close>

definition wrap_numbers :: "'k counters \<Rightarrow> string \<Rightarrow> ('k wn_state, 'k counters) py" where
  "wrap_numbers input_dict name = wn_run input_dict name"


section \<open>The offsets\<close>

definition off_of :: "'k wn_state \<Rightarrow> string \<Rightarrow> 'k remkey \<Rightarrow> int" where
  "off_of s name rk = dict_get (rem_of s name) rk 0"

definition keys_of :: "'k wn_state \<Rightarrow> string \<Rightarrow> 'k \<Rightarrow> 'k remkey list" where
  "keys_of s name k = dict_get (remk_of s name) k []"

text \<open>
  What the two dictionaries say together: every recorded reminder key belongs to its entry
  and has a reminder, and every offset that matters is recorded.
\<close>

definition wn_core :: "'k wn_state \<Rightarrow> string \<Rightarrow> bool" where
  "wn_core s name \<longleftrightarrow>
     (\<forall>k. distinct (keys_of s name k))
   \<and> (\<forall>k rk. rk \<in> set (keys_of s name k) \<longrightarrow> fst rk = k \<and> map_of (rem_of s name) rk \<noteq> None)
   \<and> (\<forall>rk. off_of s name rk \<noteq> 0 \<longrightarrow> rk \<in> set (keys_of s name (fst rk)))"

text \<open>The part of the state that belongs to other names, and the cache, are left alone.\<close>

definition same_rest :: "string \<Rightarrow> 'k wn_state \<Rightarrow> 'k wn_state \<Rightarrow> bool" where
  "same_rest name s t \<longleftrightarrow> wn_cache t = wn_cache s
     \<and> (\<forall>n. n \<noteq> name \<longrightarrow> rem_of t n = rem_of s n \<and> remk_of t n = remk_of s n)"

lemma same_rest_refl: "same_rest name s s"
  by (simp add: same_rest_def)

lemma same_rest_trans: "same_rest name s t \<Longrightarrow> same_rest name t u \<Longrightarrow> same_rest name s u"
  by (simp add: same_rest_def)

lemma set_rem_simps [simp]:
  "rem_of (set_rem n r s) n' = (if n' = n then r else rem_of s n')"
  "remk_of (set_rem n r s) n' = remk_of s n'"
  "wn_cache (set_rem n r s) = wn_cache s"
  "rem_of (set_remk n q s) n' = rem_of s n'"
  "remk_of (set_remk n q s) n' = (if n' = n then q else remk_of s n')"
  "wn_cache (set_remk n q s) = wn_cache s"
  by (auto simp: rem_of_def remk_of_def set_rem_def set_remk_def)

lemma dict_at_run [simp]:
  "dict_at d k s = (case map_of d k of None \<Rightarrow> (Inl KeyError, s) | Some v \<Rightarrow> (Inr v, s))"
  by (simp add: dict_at_def split: option.splits)

section \<open>One field\<close>

definition wrapped :: "int list \<Rightarrow> int list \<Rightarrow> nat \<Rightarrow> int" where
  "wrapped new old i = (if i < length new \<and> new ! i < old ! i then old ! i else 0)"

lemma off_of_map: "off_of s name rk = (case map_of (rem_of s name) rk of None \<Rightarrow> 0 | Some v \<Rightarrow> v)"
  by (simp add: off_of_def dict_get_def)

lemma wn_core_touch:
  assumes "wn_core s name"
    and "map_of (rem_of t name) = (map_of (rem_of s name))(rk \<mapsto> off_of s name rk)"
    and "keys_of t name = keys_of s name"
  shows "wn_core t name" "off_of t name = off_of s name"
proof -
  show off: "off_of t name = off_of s name"
    by (rule ext) (simp add: off_of_map [of t] assms(2), simp add: off_of_map)
  show "wn_core t name"
    using assms(1) unfolding wn_core_def off assms(3) by (simp add: assms(2))
qed

lemma wn_core_wrap:
  assumes "wn_core s name"
    and "map_of (rem_of t name) = (map_of (rem_of s name))(rk \<mapsto> v)"
    and "keys_of t name = (keys_of s name)(fst rk := List.insert rk (keys_of s name (fst rk)))"
  shows "wn_core t name" "off_of t name = (off_of s name)(rk := v)"
proof -
  show off: "off_of t name = (off_of s name)(rk := v)"
    by (rule ext) (simp add: off_of_map [of t] assms(2), simp add: off_of_map)
  show "wn_core t name"
    using assms(1) unfolding wn_core_def off assms(3) by (auto simp: assms(2))
qed

text \<open>
  One field: it appends the input plus the new offset, and the new offset is the old one
  plus what was lost at a restart.
\<close>

lemma run_field_ok:
  assumes core: "wn_core s name" and i: "i < length inp" "i < length old"
  obtains t where
    "run_field name key inp old i bits s = (Inr (bits @ [inp ! i + off_of t name (key, i)]), t)"
    "wn_core t name" "same_rest name s t"
    "off_of t name = (off_of s name)((key, i) := off_of s name (key, i) + wrapped inp old i)"
proof -
  have items: "item inp (int i) = Inr (inp ! i)" "item old (int i) = Inr (old ! i)"
    using i by (simp_all add: item_nth)
  let ?rk = "(key, i)" and ?v = "off_of s name (key, i) + old ! i"
  show ?thesis
  proof (cases "inp ! i < old ! i")
    case True
    define t where "t = snd (run_field name key inp old i bits s)"
    have run: "run_field name key inp old i bits s = (Inr (bits @ [inp ! i + ?v]), t)"
      using True items by (simp add: t_def run_field_def add_reminder_def add_reminder_key_def
          get_reminder_def off_of_def)
    have m: "map_of (rem_of t name) = (map_of (rem_of s name))(?rk \<mapsto> ?v)"
      using True items by (simp add: t_def run_field_def add_reminder_def add_reminder_key_def
          get_reminder_def off_of_def fun_eq_iff)
    have k: "keys_of t name = (keys_of s name)(fst ?rk := List.insert ?rk (keys_of s name (fst ?rk)))"
      using True items by (simp add: t_def run_field_def add_reminder_def add_reminder_key_def
          get_reminder_def keys_of_def fun_eq_iff)
    have "same_rest name s t"
      using True items by (simp add: t_def run_field_def add_reminder_def add_reminder_key_def
          get_reminder_def same_rest_def)
    moreover note wn_core_wrap [OF core m k]
    ultimately show ?thesis
      using run True i by (intro that [of t]) (simp_all add: wrapped_def)
  next
    case False
    define t where "t = snd (run_field name key inp old i bits s)"
    have run: "run_field name key inp old i bits s = (Inr (bits @ [inp ! i + off_of s name ?rk]), t)"
      using False items by (simp add: t_def run_field_def get_reminder_def off_of_def)
    have m: "map_of (rem_of t name) = (map_of (rem_of s name))(?rk \<mapsto> off_of s name ?rk)"
      using False items by (simp add: t_def run_field_def get_reminder_def off_of_def)
    have k: "keys_of t name = keys_of s name"
      using False items by (simp add: t_def run_field_def get_reminder_def keys_of_def fun_eq_iff)
    have "same_rest name s t"
      using False items by (simp add: t_def run_field_def get_reminder_def same_rest_def)
    moreover note wn_core_touch [OF core m k]
    ultimately show ?thesis
      using run False i by (intro that [of t]) (simp_all add: wrapped_def)
  qed
qed

section \<open>One entry\<close>

lemma run_fields_ok:
  assumes "wn_core s name" "n \<le> length inp" "n \<le> length old"
  shows "\<exists>t. for_each [0..<n] (run_field name key inp old) [] s
       = (Inr (map (\<lambda>i. inp ! i + off_of t name (key, i)) [0..<n]), t)
     \<and> wn_core t name \<and> same_rest name s t
     \<and> (\<forall>rk. off_of t name rk = off_of s name rk
          + (if fst rk = key \<and> snd rk < n then wrapped inp old (snd rk) else 0))"
  using assms
proof (induction n)
  case 0
  then show ?case by (simp add: same_rest_refl)
next
  case (Suc n)
  then obtain t where t: "for_each [0..<n] (run_field name key inp old) [] s
       = (Inr (map (\<lambda>i. inp ! i + off_of t name (key, i)) [0..<n]), t)"
    and core: "wn_core t name" and rest: "same_rest name s t"
    and off: "\<forall>rk. off_of t name rk = off_of s name rk
          + (if fst rk = key \<and> snd rk < n then wrapped inp old (snd rk) else 0)"
    by auto
  obtain u where u: "\<And>bits. run_field name key inp old n bits t
       = (Inr (bits @ [inp ! n + off_of u name (key, n)]), u)"
    and core': "wn_core u name" and rest': "same_rest name t u"
    and off': "off_of u name = (off_of t name)((key, n) := off_of t name (key, n) + wrapped inp old n)"
  proof -
    let ?b = "map (\<lambda>i. inp ! i + off_of t name (key, i)) [0..<n]"
    obtain u where u: "run_field name key inp old n [] t
       = (Inr ([] @ [inp ! n + off_of u name (key, n)]), u)"
      and props: "wn_core u name" "same_rest name t u"
        "off_of u name = (off_of t name)((key, n) := off_of t name (key, n) + wrapped inp old n)"
      using run_field_ok [OF core, of n inp old key "[]"] Suc.prems by auto
    have "run_field name key inp old n bits t
       = (Inr (bits @ [inp ! n + off_of u name (key, n)]), u)" for bits
      using u by (auto simp: run_field_def split: sum.splits if_splits prod.splits)
    then show thesis using props by (intro that)
  qed
  have "map (\<lambda>i. inp ! i + off_of t name (key, i)) [0..<n] = map (\<lambda>i. inp ! i + off_of u name (key, i)) [0..<n]"
    by (simp add: off')
  then have "for_each [0..<Suc n] (run_field name key inp old) [] s
      = (Inr (map (\<lambda>i. inp ! i + off_of u name (key, i)) [0..<Suc n]), u)"
    by (simp add: for_each_append t u)
  moreover have "same_rest name s u" using rest rest' by (rule same_rest_trans)
  moreover have "off_of u name rk = off_of s name rk
          + (if fst rk = key \<and> snd rk < Suc n then wrapped inp old (snd rk) else 0)" for rk
    using off by (cases rk) (auto simp: off' less_Suc_eq)
  ultimately show ?case using core' by blast
qed

text \<open>
  The offset an entry has after a call, given the entry's previous and new values, and the
  numbers it then reports.
\<close>

definition new_off :: "'k counters \<Rightarrow> 'k counters \<Rightarrow> ('k remkey \<Rightarrow> int) \<Rightarrow> 'k remkey \<Rightarrow> int" where
  "new_off old inp off rk = (case (map_of inp (fst rk), map_of old (fst rk)) of
      (Some t, Some u) \<Rightarrow> off rk + wrapped t u (snd rk)
    | _ \<Rightarrow> 0)"

definition report :: "('k remkey \<Rightarrow> int) \<Rightarrow> 'k \<times> int list \<Rightarrow> 'k \<times> int list" where
  "report off kv = (fst kv, map (\<lambda>i. snd kv ! i + off (fst kv, i)) [0..<length (snd kv)])"

text \<open>The precondition of a call: same width and non-negative numbers, as the kernel gives.\<close>

definition widths_ok :: "'k counters \<Rightarrow> 'k counters \<Rightarrow> bool" where
  "widths_ok old inp \<longleftrightarrow> (\<forall>k t u. map_of inp k = Some t \<longrightarrow> map_of old k = Some u \<longrightarrow> length t \<le> length u)"

lemma run_keys_ok:
  assumes "wn_core s name" "distinct (map fst (pre @ kvs))"
    and "\<forall>kv \<in> set kvs. \<forall>u. map_of old (fst kv) = Some u \<longrightarrow> length (snd kv) \<le> length u"
    and "\<forall>kv \<in> set kvs. map_of old (fst kv) = None \<longrightarrow> (\<forall>i. off_of s name (fst kv, i) = 0)"
  shows "\<exists>t. for_each kvs (run_key name old) pre s = (Inr (pre @ map (report (off_of t name)) kvs), t)
     \<and> wn_core t name \<and> same_rest name s t
     \<and> (\<forall>rk. off_of t name rk = off_of s name rk
          + (case (map_of kvs (fst rk), map_of old (fst rk)) of
               (Some t, Some u) \<Rightarrow> wrapped t u (snd rk) | _ \<Rightarrow> 0))"
  using assms
proof (induction kvs arbitrary: pre s)
  case Nil
  then show ?case by (simp add: same_rest_refl)
next
  case (Cons kv kvs)
  obtain key inp where kv: "kv = (key, inp)" by (cases kv)
  have key_new: "key \<notin> set (map fst pre)" and key_kvs: "key \<notin> fst ` set kvs"
    using Cons.prems(2) kv by auto
  obtain u where u: "run_key name old kv pre s = (Inr (pre @ [report (off_of u name) kv]), u)"
    and core: "wn_core u name" and rest: "same_rest name s u"
    and off: "\<forall>rk. off_of u name rk = off_of s name rk + (if fst rk = key
               then (case map_of old key of Some prev \<Rightarrow> wrapped inp prev (snd rk) | None \<Rightarrow> 0) else 0)"
  proof (cases "map_of old key")
    case None
    have "report (off_of s name) kv = kv"
      using Cons.prems(4) None kv by (auto simp: report_def intro!: nth_equalityI)
    then have "run_key name old kv pre s = (Inr (pre @ [report (off_of s name) kv]), s)"
      using None kv key_new by (simp add: run_key_def keys_update_new)
    with Cons.prems(1) None show ?thesis by (intro that [of s]) (auto simp: same_rest_refl)
  next
    case (Some prev)
    have "length inp \<le> length prev" using Cons.prems(3) kv Some by auto
    then obtain t where "for_each [0..<length inp] (run_field name key inp prev) [] s
       = (Inr (map (\<lambda>i. inp ! i + off_of t name (key, i)) [0..<length inp]), t)"
      and "wn_core t name" "same_rest name s t"
      and offt: "\<forall>rk. off_of t name rk = off_of s name rk
          + (if fst rk = key \<and> snd rk < length inp then wrapped inp prev (snd rk) else 0)"
      using run_fields_ok [OF Cons.prems(1), of "length inp" inp prev key] by auto
    moreover from offt have "\<forall>rk. off_of t name rk = off_of s name rk + (if fst rk = key
               then (case map_of old key of Some prev \<Rightarrow> wrapped inp prev (snd rk) | None \<Rightarrow> 0) else 0)"
      using Some by (auto simp: wrapped_def)
    ultimately show ?thesis
      using Some kv key_new by (intro that [of t]) (simp_all add: run_key_def report_def keys_update_new)
  qed
  have "\<exists>t. for_each kvs (run_key name old) (pre @ [report (off_of u name) kv]) u
        = (Inr ((pre @ [report (off_of u name) kv]) @ map (report (off_of t name)) kvs), t)
     \<and> wn_core t name \<and> same_rest name u t
     \<and> (\<forall>rk. off_of t name rk = off_of u name rk
          + (case (map_of kvs (fst rk), map_of old (fst rk)) of
               (Some t, Some u) \<Rightarrow> wrapped t u (snd rk) | _ \<Rightarrow> 0))"
  proof (rule Cons.IH [OF core])
    show "distinct (map fst ((pre @ [report (off_of u name) kv]) @ kvs))"
      using Cons.prems(2) by (simp add: report_def)
    show "\<forall>kv \<in> set kvs. \<forall>u. map_of old (fst kv) = Some u \<longrightarrow> length (snd kv) \<le> length u"
      using Cons.prems(3) by simp
    show "\<forall>kv \<in> set kvs. map_of old (fst kv) = None \<longrightarrow> (\<forall>i. off_of u name (fst kv, i) = 0)"
      using Cons.prems(4) off key_kvs by auto
  qed
  then obtain t where t: "for_each kvs (run_key name old) (pre @ [report (off_of u name) kv]) u
        = (Inr ((pre @ [report (off_of u name) kv]) @ map (report (off_of t name)) kvs), t)"
     and core': "wn_core t name" and rest': "same_rest name u t"
     and off': "\<forall>rk. off_of t name rk = off_of u name rk
          + (case (map_of kvs (fst rk), map_of old (fst rk)) of
               (Some t, Some u) \<Rightarrow> wrapped t u (snd rk) | _ \<Rightarrow> 0)"
    by blast
  have nk: "map_of kvs key = None" using key_kvs by (simp add: map_of_eq_None_iff)
  have "report (off_of u name) kv = report (off_of t name) kv"
    using off' nk kv by (simp add: report_def)
  then have "for_each (kv # kvs) (run_key name old) pre s
       = (Inr (pre @ map (report (off_of t name)) (kv # kvs)), t)"
    using u t by simp
  moreover have "off_of t name rk = off_of s name rk
          + (case (map_of (kv # kvs) (fst rk), map_of old (fst rk)) of
               (Some t, Some u) \<Rightarrow> wrapped t u (snd rk) | _ \<Rightarrow> 0)" for rk
    using spec [OF off, of rk] spec [OF off', of rk] nk kv by (auto split: option.splits)
  ultimately show ?case using core' same_rest_trans [OF rest rest'] by blast
qed


section \<open>Entries that disappear\<close>

lemma del_reminders_ok:
  assumes "distinct rks" "\<forall>rk \<in> set rks. map_of (rem_of s name) rk \<noteq> None"
  shows "\<exists>t. for_each rks (\<lambda>rk _. del_reminder name rk) () s = (Inr (), t)
     \<and> same_rest name s t \<and> remk_of t name = remk_of s name
     \<and> map_of (rem_of t name) = (map_of (rem_of s name)) |` (- set rks)"
  using assms
proof (induction rks arbitrary: s)
  case Nil
  then show ?case by (simp add: same_rest_refl)
next
  case (Cons rk rks)
  define u where "u = set_rem name (AList.delete rk (rem_of s name)) s"
  have u: "del_reminder name rk s = (Inr (), u)"
    using Cons.prems(2) by (auto simp: del_reminder_def u_def)
  have "\<forall>rk \<in> set rks. map_of (rem_of u name) rk \<noteq> None"
    using Cons.prems by (auto simp: u_def)
  then obtain t where t: "for_each rks (\<lambda>rk _. del_reminder name rk) () u = (Inr (), t)"
     "same_rest name u t" "remk_of t name = remk_of u name"
     "map_of (rem_of t name) = (map_of (rem_of u name)) |` (- set rks)"
    using Cons.IH [of u] Cons.prems(1) by auto
  moreover have "same_rest name s u" by (simp add: u_def same_rest_def)
  moreover have "(map_of (rem_of u name)) |` (- set rks) = (map_of (rem_of s name)) |` (- set (rk # rks))"
    by (rule ext) (simp add: u_def restrict_map_def)
  ultimately show ?case using u by (auto simp: u_def intro: same_rest_trans)
qed

lemma drop_gone_key_ok:
  assumes "wn_core s name"
  shows "\<exists>t. drop_gone_key name k () s = (Inr (), t) \<and> wn_core t name \<and> same_rest name s t
     \<and> (\<forall>rk. off_of t name rk = (if fst rk = k then 0 else off_of s name rk))"
proof -
  let ?rks = "keys_of s name k"
  have d: "distinct ?rks" "\<forall>rk \<in> set ?rks. map_of (rem_of s name) rk \<noteq> None"
    using assms unfolding wn_core_def by blast+
  obtain u where u: "for_each ?rks (\<lambda>rk _. del_reminder name rk) () s = (Inr (), u)"
     "same_rest name s u" "remk_of u name = remk_of s name"
     "map_of (rem_of u name) = (map_of (rem_of s name)) |` (- set ?rks)"
    using del_reminders_ok [OF d] by blast
  define t where "t = set_remk name (AList.delete k (remk_of u name)) u"
  have run: "drop_gone_key name k () s = (Inr (), t)"
    using u(1) by (simp add: drop_gone_key_def t_def keys_of_def)
  have keys: "keys_of t name k' = (if k' = k then [] else keys_of s name k')" for k'
    using u(3) by (simp add: keys_of_def t_def)
  have rem: "map_of (rem_of t name) = (map_of (rem_of s name)) |` (- set ?rks)"
    using u(4) by (simp add: t_def)
  have own: "rk \<in> set (keys_of s name k') \<Longrightarrow> fst rk = k'" for rk k'
    using assms unfolding wn_core_def by blast
  have zero: "off_of s name rk = 0" if "fst rk = k" "rk \<notin> set ?rks" for rk
    using assms that unfolding wn_core_def by blast
  have off: "off_of t name rk = (if fst rk = k then 0 else off_of s name rk)" for rk
    using zero [of rk] own [of rk k]
    by (auto simp: off_of_map [of t] rem restrict_map_def off_of_map [of s] split: option.splits)
  have "wn_core t name"
    unfolding wn_core_def keys off rem
  proof (intro conjI allI impI)
    fix k' rk
    assume "rk \<in> set (if k' = k then [] else keys_of s name k')"
    then have a: "k' \<noteq> k" "rk \<in> set (keys_of s name k')" by (auto split: if_splits)
    then have "fst rk = k'" "map_of (rem_of s name) rk \<noteq> None"
      using assms unfolding wn_core_def by blast+
    moreover have "rk \<notin> set ?rks" using own a \<open>fst rk = k'\<close> by blast
    ultimately show "fst rk = k'" "(map_of (rem_of s name) |` (- set ?rks)) rk \<noteq> None"
      by (simp_all add: restrict_map_def)
  qed (use assms in \<open>auto simp: wn_core_def split: if_splits\<close>)
  moreover have "same_rest name s t" using u(2) by (simp add: t_def same_rest_def)
  ultimately show ?thesis using run off by blast
qed

lemma drop_gone_keys_ok:
  assumes "wn_core s name"
  shows "\<exists>t. for_each gone (drop_gone_key name) () s = (Inr (), t) \<and> wn_core t name
     \<and> same_rest name s t
     \<and> (\<forall>rk. off_of t name rk = (if fst rk \<in> set gone then 0 else off_of s name rk))"
  using assms
proof (induction gone arbitrary: s)
  case Nil
  then show ?case by (simp add: same_rest_refl)
next
  case (Cons k gone)
  obtain u where u: "drop_gone_key name k () s = (Inr (), u)" "wn_core u name" "same_rest name s u"
     "\<forall>rk. off_of u name rk = (if fst rk = k then 0 else off_of s name rk)"
    using drop_gone_key_ok [OF Cons.prems] by blast
  obtain t where "for_each gone (drop_gone_key name) () u = (Inr (), t)" "wn_core t name"
     "same_rest name u t"
     "\<forall>rk. off_of t name rk = (if fst rk \<in> set gone then 0 else off_of u name rk)"
    using Cons.IH [OF u(2)] by blast
  with u show ?case by (auto intro: same_rest_trans)
qed

section \<open>A call\<close>

text \<open>
  What holds between two calls with a name that is in the cache: the dictionaries agree, and
  an entry absent from the last call has no offset.
\<close>

definition wn_inv :: "'k wn_state \<Rightarrow> string \<Rightarrow> 'k counters \<Rightarrow> bool" where
  "wn_inv s name old \<longleftrightarrow> map_of (wn_cache s) name = Some old \<and> dict_ok old \<and> wn_core s name
     \<and> (\<forall>rk. off_of s name rk \<noteq> 0 \<longrightarrow> fst rk \<in> set (dict_keys old))"

text \<open>A name is in all three dictionaries or in none.\<close>

definition wn_names :: "'k wn_state \<Rightarrow> bool" where
  "wn_names s \<longleftrightarrow> (\<forall>n. n \<notin> set (dict_keys (wn_cache s)) \<longrightarrow>
     map_of (wn_reminders s) n = None \<and> map_of (wn_reminder_keys s) n = None)"

lemma wn_run_first:
  assumes "wn_names s" "name \<notin> set (dict_keys (wn_cache s))" "dict_ok inp"
  shows "\<exists>t. wn_run inp name s = (Inr inp, t) \<and> wn_inv t name inp \<and> (\<forall>rk. off_of t name rk = 0)"
proof -
  have n: "name \<notin> set (dict_keys (wn_reminders s))" "name \<notin> set (dict_keys (wn_reminder_keys s))"
    using assms(1,2) by (auto simp: wn_names_def map_of_eq_None_iff)
  define t where "t = s\<lparr>wn_cache := AList.update name inp (wn_cache s),
     wn_reminders := AList.update name [] (wn_reminders s),
     wn_reminder_keys := AList.update name [] (wn_reminder_keys s)\<rparr>"
  have "wn_run inp name s = (Inr inp, t)"
    using assms(2) n by (simp add: wn_run_def add_dict_def t_def)
  moreover have "rem_of t name = []" "remk_of t name = []"
    by (simp_all add: rem_of_def remk_of_def t_def)
  then have "off_of t name rk = 0" "keys_of t name k = []" for rk k
    by (simp_all add: off_of_def keys_of_def)
  moreover from this have "wn_inv t name inp"
    using assms(3) by (simp add: wn_inv_def wn_core_def) (simp add: t_def)
  ultimately show ?thesis by blast
qed

lemma wn_run_next:
  assumes inv: "wn_inv s name old" and inp: "dict_ok inp" and w: "widths_ok old inp"
  shows "\<exists>t. wn_run inp name s = (Inr (map (report (off_of t name)) inp), t) \<and> wn_inv t name inp
     \<and> off_of t name = new_off old inp (off_of s name)"
proof -
  have old: "map_of (wn_cache s) name = Some old" and core: "wn_core s name"
    and zero: "\<And>rk. fst rk \<notin> set (dict_keys old) \<Longrightarrow> off_of s name rk = 0"
    using inv unfolding wn_inv_def by blast+
  let ?gone = "filter (\<lambda>k. k \<notin> set (dict_keys inp)) (dict_keys old)"
  obtain u where u: "for_each ?gone (drop_gone_key name) () s = (Inr (), u)" "wn_core u name"
     "same_rest name s u"
     "\<forall>rk. off_of u name rk = (if fst rk \<in> set ?gone then 0 else off_of s name rk)"
    using drop_gone_keys_ok [OF core] by blast
  have offu: "off_of u name rk = (if fst rk \<in> set (dict_keys inp) then off_of s name rk else 0)" for rk
    using spec [OF u(4), of rk] zero [of rk] by auto
  have cu: "map_of (wn_cache u) name = Some old" using u(3) old by (simp add: same_rest_def)
  have "\<exists>t. for_each inp (run_key name old) [] u = (Inr ([] @ map (report (off_of t name)) inp), t)
     \<and> wn_core t name \<and> same_rest name u t
     \<and> (\<forall>rk. off_of t name rk = off_of u name rk
          + (case (map_of inp (fst rk), map_of old (fst rk)) of
               (Some t, Some u) \<Rightarrow> wrapped t u (snd rk) | _ \<Rightarrow> 0))"
  proof (rule run_keys_ok [OF u(2)])
    show "distinct (map fst ([] @ inp))" using inp by simp
    show "\<forall>kv \<in> set inp. \<forall>u. map_of old (fst kv) = Some u \<longrightarrow> length (snd kv) \<le> length u"
      using w inp unfolding widths_ok_def by (metis map_of_is_SomeI prod.collapse)
    show "\<forall>kv \<in> set inp. map_of old (fst kv) = None \<longrightarrow> (\<forall>i. off_of u name (fst kv, i) = 0)"
      using zero by (auto simp: offu map_of_eq_None_iff image_iff)
  qed
  then obtain v where v: "for_each inp (run_key name old) [] u = (Inr (map (report (off_of v name)) inp), v)"
     "wn_core v name" "same_rest name u v"
     "\<forall>rk. off_of v name rk = off_of u name rk
          + (case (map_of inp (fst rk), map_of old (fst rk)) of
               (Some t, Some u) \<Rightarrow> wrapped t u (snd rk) | _ \<Rightarrow> 0)"
    by auto
  define t where "t = v\<lparr>wn_cache := AList.update name inp (wn_cache v)\<rparr>"
  have ot: "off_of t name = off_of v name" and kt: "keys_of t name = keys_of v name"
    and rt: "rem_of t name = rem_of v name"
    by (simp_all add: off_of_def keys_of_def rem_of_def remk_of_def t_def fun_eq_iff)
  have nn: "name \<in> set (dict_keys (wn_cache s))" using old by (force dest: map_of_SomeD)
  have run: "wn_run inp name s = (Inr (map (report (off_of t name)) inp), t)"
    using nn old u(1) cu v(1)
    by (simp add: wn_run_def remove_dead_reminders_def ot) (simp add: t_def)
  have off: "off_of t name = new_off old inp (off_of s name)"
  proof
    fix rk :: "'a remkey"
    have "map_of inp (fst rk) = None \<longleftrightarrow> fst rk \<notin> set (dict_keys inp)"
      "map_of old (fst rk) = None \<longleftrightarrow> fst rk \<notin> set (dict_keys old)"
      by (simp_all add: map_of_eq_None_iff)
    then show "off_of t name rk = new_off old inp (off_of s name) rk"
      using spec [OF v(4), of rk] offu [of rk] zero [of rk]
      unfolding ot new_off_def by (cases "map_of inp (fst rk)"; cases "map_of old (fst rk)") simp_all
  qed
  have "wn_core t name" using v(2) unfolding wn_core_def ot kt rt by blast
  moreover have "map_of (wn_cache t) name = Some inp" by (simp add: t_def)
  moreover have "off_of t name rk \<noteq> 0 \<longrightarrow> fst rk \<in> set (dict_keys inp)" for rk
    unfolding off new_off_def by (force dest: map_of_SomeD split: option.splits)
  ultimately have "wn_inv t name inp" using inp by (simp add: wn_inv_def)
  with run off show ?thesis by blast
qed


section \<open>Sequences of calls\<close>

text \<open>Successive calls under one name; the result is the report of the last one.\<close>

fun wn_calls :: "string \<Rightarrow> 'k counters list \<Rightarrow> 'k counters \<Rightarrow> ('k wn_state, 'k counters) py" where
  "wn_calls name [] out = ret out"
| "wn_calls name (inp # inps) out = bnd (wrap_numbers inp name) (wn_calls name inps)"

text \<open>
  The specification, with no state: the offset of a counter after the snapshots
  \<open>h\<close> (newest first) is the sum of the values it had just before each of its restarts
  since the entry last appeared.
\<close>

fun lost :: "'k counters list \<Rightarrow> 'k remkey \<Rightarrow> int" where
  "lost [] rk = 0"
| "lost [x] rk = 0"
| "lost (new # old # h) rk = new_off old new (lost (old # h)) rk"

text \<open>Successive snapshots are well formed: distinct names and tuples that do not get longer.\<close>

fun snapshots_ok :: "'k counters list \<Rightarrow> bool" where
  "snapshots_ok [] = True"
| "snapshots_ok [x] = dict_ok x"
| "snapshots_ok (x # y # zs) = (dict_ok x \<and> widths_ok x y \<and> snapshots_ok (y # zs))"

lemma wn_calls_next:
  assumes "wn_inv s name old" "snapshots_ok (old # inps)" "inps \<noteq> []"
    and "off_of s name = lost (old # h)"
  shows "\<exists>t. wn_calls name inps out s = (Inr (map (report (off_of t name)) (last inps)), t)
       \<and> wn_inv t name (last inps) \<and> off_of t name = lost (rev inps @ old # h)"
  using assms
proof (induction inps arbitrary: s old h out)
  case (Cons inp inps)
  have ok: "dict_ok inp" "widths_ok old inp" "snapshots_ok (inp # inps)"
    using Cons.prems(2) by (cases inps; simp)+
  obtain u where u: "wn_run inp name s = (Inr (map (report (off_of u name)) inp), u)"
    "wn_inv u name inp" "off_of u name = new_off old inp (off_of s name)"
    using wn_run_next [OF Cons.prems(1) ok(1,2)] by blast
  have offu: "off_of u name = lost (inp # old # h)"
    by (rule ext) (simp add: u(3) Cons.prems(4))
  show ?case
  proof (cases "inps = []")
    case True
    then show ?thesis using u(1,2) offu by (simp add: wrap_numbers_def del: lost.simps)
  next
    case False
    obtain t where "wn_calls name inps (map (report (off_of u name)) inp) u
         = (Inr (map (report (off_of t name)) (last inps)), t)"
      "wn_inv t name (last inps)" "off_of t name = lost (rev inps @ inp # old # h)"
      using Cons.IH [OF u(2) ok(3) False offu] by blast
    then show ?thesis using u(1) False by (simp add: wrap_numbers_def)
  qed
qed simp

lemma wn_calls_ok:
  assumes "wn_names s" and "name \<notin> set (dict_keys (wn_cache s))"
    and "snapshots_ok inps" and "inps \<noteq> []"
  obtains t where "wn_calls name inps out s = (Inr (map (report (off_of t name)) (last inps)), t)"
    and "wn_inv t name (last inps)" and "off_of t name = lost (rev inps)"
proof -
  obtain inp rest where inps: "inps = inp # rest" using assms(4) by (cases inps) auto
  have ok: "dict_ok inp" using assms(3) inps by (cases rest) auto
  obtain u where u: "wn_run inp name s = (Inr inp, u)" "wn_inv u name inp" "\<forall>rk. off_of u name rk = 0"
    using wn_run_first [OF assms(1,2) ok] by blast
  have off: "off_of u name = lost [inp]" using u(3) by (simp add: fun_eq_iff)
  have id: "map (report (off_of u name)) xs = xs" for xs :: "'a counters"
    using u(3) by (intro map_idI) (simp add: report_def map_nth split: prod.splits)
  show thesis
  proof (cases "rest = []")
    case True
    then show thesis using u(1,2) off id [of inp] by (intro that [of u]) (simp_all add: inps wrap_numbers_def)
  next
    case False
    from wn_calls_next [OF u(2) _ False off, of inp] assms(3) u(1) inps False
    show thesis using that by (auto simp: wrap_numbers_def)
  qed
qed

text \<open>
  C27: whatever the sequence of snapshots handed to \<open>wrap_numbers\<close> under a name that is not
  in its cache, the last call reports each counter plus the sum of the values it had before
  each restart since its entry appeared: the three dictionaries implement the stateless
  specification \<open>lost\<close>.
\<close>

theorem wrap_numbers_refines_lost:
  assumes "wn_names s" and "name \<notin> set (dict_keys (wn_cache s))"
    and "snapshots_ok inps" and "inps \<noteq> []"
  shows "\<exists>t. wn_calls name inps out s = (Inr (map (report (lost (rev inps))) (last inps)), t)
     \<and> wn_inv t name (last inps)"
  using wn_calls_ok [OF assms] by metis

theorem wrap_numbers_refines_lost_witness:
  "\<exists>t. wn_calls ''net'' [[(''eth0'', [100, 5])], [(''eth0'', [10, 7])], [(''eth0'', [4, 8])]] [] wn_init
     = (Inr [(''eth0'', [114, 8])], t) \<and> wn_inv t ''net'' [(''eth0'', [4, 8])]"
proof -
  let ?h = "[[(''eth0'', [100, 5])], [(''eth0'', [10, 7])], [(''eth0'', [4, 8])]] :: string counters list"
  have "\<exists>t. wn_calls ''net'' ?h [] wn_init = (Inr (map (report (lost (rev ?h))) (last ?h)), t)
     \<and> wn_inv t ''net'' (last ?h)"
    by (rule wrap_numbers_refines_lost) (auto simp: wn_names_def wn_init_def widths_ok_def)
  moreover have "map (report (lost (rev ?h))) (last ?h) = [(''eth0'', [114, 8])]"
    by (simp add: report_def new_off_def wrapped_def upt_rec)
  ultimately show ?thesis by simp
qed

lemma map_of_report:
  "map_of (map (report f) xs) key = map_option (\<lambda>v. map (\<lambda>i. v ! i + f (key, i)) [0..<length v]) (map_of xs key)"
  by (induction xs) (auto simp: report_def)

lemma snapshots_ok_append: "snapshots_ok (xs @ [x, y]) \<longleftrightarrow> snapshots_ok (xs @ [x]) \<and> dict_ok y \<and> widths_ok x y"
proof (induction xs)
  case (Cons a xs)
  then show ?case by (cases xs) auto
qed auto

lemma report_increases:
  assumes "widths_ok old new" and "map_of old key = Some t" and "map_of new key = Some v"
    and "i < length v" and "0 \<le> v ! i"
  shows "length v \<le> length t" and "t ! i + off (key, i) \<le> v ! i + new_off old new off (key, i)"
  using assms by (auto simp: widths_ok_def new_off_def wrapped_def)

text \<open>
  C30: the numbers handed to the caller never decrease.  After any sequence of calls under a
  name that starts out of the cache, take two calls in a row, the last with numbers that are
  not negative: neither fails, each reports the entries it was given, and an entry in both
  reports is reported the second time with every number at least as high as the first time,
  however often its counters restarted.
\<close>

theorem wrap_numbers_never_decreases:
  assumes "wn_names s" and "name \<notin> set (dict_keys (wn_cache s))"
    and "snapshots_ok (inps @ [old, new])"
    and "\<forall>v \<in> snd ` set new. \<forall>x \<in> set v. 0 \<le> x"
  shows "\<exists>out1 t1 out2 t2. wn_calls name (inps @ [old]) [] s = (Inr out1, t1)
     \<and> wrap_numbers new name t1 = (Inr out2, t2)
     \<and> dict_keys out1 = dict_keys old \<and> dict_keys out2 = dict_keys new
     \<and> (\<forall>key u v. map_of out1 key = Some u \<longrightarrow> map_of out2 key = Some v \<longrightarrow>
          length v \<le> length u \<and> (\<forall>i < length v. u ! i \<le> v ! i))"
proof -
  have ok: "snapshots_ok (inps @ [old])" "dict_ok new" "widths_ok old new"
    using assms(3) by (simp_all add: snapshots_ok_append)
  obtain t1 where t1: "wn_calls name (inps @ [old]) [] s = (Inr (map (report (off_of t1 name)) old), t1)"
    and inv: "wn_inv t1 name old"
    using wn_calls_ok [OF assms(1,2) ok(1)] by (metis last_snoc snoc_eq_iff_butlast)
  obtain t2 where t2: "wn_run new name t1 = (Inr (map (report (off_of t2 name)) new), t2)"
    and off: "off_of t2 name = new_off old new (off_of t1 name)"
    using wn_run_next [OF inv ok(2,3)] by blast
  have "length v \<le> length u \<and> (\<forall>i < length v. u ! i \<le> v ! i)"
    if out: "map_of (map (report (off_of t1 name)) old) key = Some u"
      "map_of (map (report (off_of t2 name)) new) key = Some v" for key u v
  proof -
    obtain a b where ab: "map_of old key = Some a" "map_of new key = Some b"
      and u: "u = map (\<lambda>i. a ! i + off_of t1 name (key, i)) [0..<length a]"
      and v: "v = map (\<lambda>i. b ! i + off_of t2 name (key, i)) [0..<length b]"
      using out by (auto simp: map_of_report)
    have "b \<in> snd ` set new" using map_of_SomeD [OF ab(2)] by force
    then have pos: "0 \<le> b ! i" if "i < length b" for i using assms(4) that nth_mem by blast
    have len: "length b \<le> length a" using ok(3) ab by (auto simp: widths_ok_def)
    then show ?thesis
      using report_increases(2) [OF ok(3) ab] pos unfolding u v off by auto
  qed
  moreover have "dict_keys (map (report f) xs) = dict_keys xs" for f and xs :: "'a counters"
    by (simp add: report_def comp_def)
  ultimately show ?thesis using t1 t2 by (auto simp: wrap_numbers_def)
qed

theorem wrap_numbers_never_decreases_witness:
  "\<exists>out1 t1 out2 t2. wn_calls ''net'' [[(''eth0'', [90])], [(''eth0'', [20])]] [] wn_init = (Inr out1, t1)
     \<and> wrap_numbers [(''eth0'', [3])] ''net'' t1 = (Inr out2, t2)
     \<and> dict_keys out1 = [''eth0''] \<and> dict_keys out2 = [''eth0'']
     \<and> (\<forall>key u v. map_of out1 key = Some u \<longrightarrow> map_of out2 key = Some v \<longrightarrow>
          length v \<le> length u \<and> (\<forall>i < length v. u ! i \<le> v ! i))"
  using wrap_numbers_never_decreases [of wn_init "''net''" "[[(''eth0'', [90])]]" "[(''eth0'', [20])]" "[(''eth0'', [3])]"]
  by (simp add: wn_names_def wn_init_def widths_ok_def)

text \<open>Other names are not touched by a call, and \<open>cache_clear\<close> forgets exactly one name.\<close>

lemma cache_clear_forgets:
  "name \<notin> set (dict_keys (wn_cache (cache_clear (Some name) s)))"
  "n \<noteq> name \<Longrightarrow> map_of (wn_cache (cache_clear (Some name) s)) n = map_of (wn_cache s) n"
  "n \<noteq> name \<Longrightarrow> rem_of (cache_clear (Some name) s) n = rem_of s n"
  by (simp_all add: cache_clear_def rem_of_def delete_keys)

end
