(* ===== verification/Memoize.thy ===== *)
theory Memoize
  imports Common_Utils
begin

text \<open>
  \<open>memoize_when_activated\<close> of \<open>psutil/_common.py\<close>.  The object's \<open>_cache\<close> attribute is a
  dict from functions to results, or is missing when the cache is not active.  Each
  memoized function has its own slot in it: \<open>look\<close> reads the slot and \<open>store\<close> fills it.
\<close>

definition memoize ::
  "('s \<Rightarrow> bool) \<Rightarrow> ('s \<Rightarrow> 'a option) \<Rightarrow> ('a \<Rightarrow> 's \<Rightarrow> 's) \<Rightarrow> ('s, 'a) py \<Rightarrow> ('s, 'a) py" where
  "memoize has_cache look store f =
     bnd (gets (\<lambda>s. if has_cache s then Some (look s) else None)) (\<lambda>c. case c of
         None \<Rightarrow> f
       | Some (Some r) \<Rightarrow> ret r
       | Some None \<Rightarrow> bnd f (\<lambda>r.
           bnd (modify (\<lambda>s. if has_cache s then store r s else s)) (\<lambda>_. ret r)))"

text \<open>
  What a slot must do: a stored result is found again, storing does not switch the cache
  off, and an empty cache holds nothing.
\<close>

locale memo_slot =
  fixes has_cache :: "'s \<Rightarrow> bool"
    and look :: "'s \<Rightarrow> 'a option"
    and store :: "'a \<Rightarrow> 's \<Rightarrow> 's"
    and activate :: "'s \<Rightarrow> 's"
    and deactivate :: "'s \<Rightarrow> 's"
  assumes look_store: "has_cache s \<Longrightarrow> look (store r s) = Some r"
    and has_store: "has_cache s \<Longrightarrow> has_cache (store r s)"
    and has_activate: "has_cache (activate s)"
    and look_activate: "look (activate s) = None"
    and has_deactivate: "\<not> has_cache (deactivate s)"
begin

abbreviation memo :: "('s, 'a) py \<Rightarrow> ('s, 'a) py" where
  "memo \<equiv> memoize has_cache look store"

lemma memo_off: "\<not> has_cache s \<Longrightarrow> memo f s = f s"
  by (simp add: memoize_def)

lemma memo_hit: "has_cache s \<Longrightarrow> look s = Some r \<Longrightarrow> memo f s = (Inr r, s)"
  by (simp add: memoize_def)

lemma memo_miss:
  assumes "has_cache s" "look s = None" "f s = (Inr r, t)"
  shows "memo f s = (Inr r, if has_cache t then store r t else t)"
  using assms by (simp add: memoize_def)

lemma memo_error: "look s = None \<Longrightarrow> f s = (Inl e, t) \<Longrightarrow> memo f s = (Inl e, t)"
  by (simp add: memoize_def)

text \<open>
  The second call: as long as the cache is active it returns the first call's result and
  does nothing else, in particular no system call.
\<close>

lemma memo_again:
  assumes "has_cache s" "memo f s = (Inr r, t)" "has_cache t"
  shows "memo g t = (Inr r, t)"
proof (cases "look s")
  case (Some x)
  then show ?thesis using assms memo_hit [OF assms(1) Some, of f] memo_hit [OF assms(1) Some, of g]
    by simp
next
  case None
  obtain q u where f: "f s = (q, u)" by (cases "f s")
  show ?thesis
  proof (cases q)
    case (Inl e)
    then show ?thesis using memo_error [OF None, of f e u] f assms(2) by simp
  next
    case (Inr x)
    then have "memo f s = (Inr x, if has_cache u then store x u else u)"
      using assms(1) None f by (simp add: memo_miss)
    then have "x = r" "t = (if has_cache u then store r u else u)" using assms(2) by auto
    with assms(3) have "has_cache u" "t = store r u" by (auto split: if_splits)
    then show ?thesis using assms(3) by (intro memo_hit) (auto simp: look_store)
  qed
qed

text \<open>Leaving the block forgets: after it the function is called again.\<close>

lemma memo_after_exit: "memo f (deactivate s) = f (deactivate s)"
  by (rule memo_off) (rule has_deactivate)

lemma memo_after_enter: "f (activate s) = (Inr r, t) \<Longrightarrow> fst (memo f (activate s)) = Inr r"
  using memo_miss [OF has_activate look_activate] by simp

end

end
