(* ===== verification/Ntuples.thy ===== *)
theory Ntuples
  imports Common_Utils
begin

text \<open>
  \<open>psutil/_enums.py\<close> and \<open>psutil/_ntuples.py\<close>: the string enums as
  datatypes, with the members of every platform, the integer enums as their numbers, and the named tuples as records whose
  fields carry a short prefix for the tuple; where the fields depend on the platform
  these are the tuples of the Linux build.  Socket families and types are integers, as
  the \<open>IntEnum\<close> members of the \<open>socket\<close> module compare and hash like their numbers.
\<close>

section \<open>Enums\<close>

datatype ProcessStatus =
    STATUS_DEAD | STATUS_DISK_SLEEP | STATUS_IDLE | STATUS_LOCKED | STATUS_PARKED
  | STATUS_RUNNING | STATUS_SLEEPING | STATUS_STOPPED | STATUS_SUSPENDED
  | STATUS_TRACING_STOP | STATUS_WAITING | STATUS_WAKE_KILL | STATUS_WAKING | STATUS_ZOMBIE

fun status_str :: "ProcessStatus \<Rightarrow> string" where
  "status_str STATUS_DEAD = ''dead''"
| "status_str STATUS_DISK_SLEEP = ''disk-sleep''"
| "status_str STATUS_IDLE = ''idle''"
| "status_str STATUS_LOCKED = ''locked''"
| "status_str STATUS_PARKED = ''parked''"
| "status_str STATUS_RUNNING = ''running''"
| "status_str STATUS_SLEEPING = ''sleeping''"
| "status_str STATUS_STOPPED = ''stopped''"
| "status_str STATUS_SUSPENDED = ''suspended''"
| "status_str STATUS_TRACING_STOP = ''tracing-stop''"
| "status_str STATUS_WAITING = ''waiting''"
| "status_str STATUS_WAKE_KILL = ''wake-kill''"
| "status_str STATUS_WAKING = ''waking''"
| "status_str STATUS_ZOMBIE = ''zombie''"

datatype ConnectionStatus =
    CONN_CLOSE | CONN_CLOSE_WAIT | CONN_CLOSING | CONN_ESTABLISHED | CONN_FIN_WAIT1
  | CONN_FIN_WAIT2 | CONN_LAST_ACK | CONN_LISTEN | CONN_NONE | CONN_SYN_RECV
  | CONN_SYN_SENT | CONN_TIME_WAIT | CONN_DELETE_TCB | CONN_BOUND | CONN_IDLE

datatype NicDuplex = NIC_DUPLEX_FULL | NIC_DUPLEX_HALF | NIC_DUPLEX_UNKNOWN

definition POWER_TIME_UNKNOWN :: int where "POWER_TIME_UNKNOWN = -1"
definition POWER_TIME_UNLIMITED :: int where "POWER_TIME_UNLIMITED = -2"

definition IOPRIO_CLASS_NONE :: int where "IOPRIO_CLASS_NONE = 0"
definition IOPRIO_CLASS_RT :: int where "IOPRIO_CLASS_RT = 1"
definition IOPRIO_CLASS_BE :: int where "IOPRIO_CLASS_BE = 2"
definition IOPRIO_CLASS_IDLE :: int where "IOPRIO_CLASS_IDLE = 3"

text \<open>The \<open>socket\<close> constants of Linux.\<close>

definition AF_UNIX :: int where "AF_UNIX = 1"
definition AF_INET :: int where "AF_INET = 2"
definition AF_INET6 :: int where "AF_INET6 = 10"
definition AF_LINK :: int where "AF_LINK = 17"
definition SOCK_STREAM :: int where "SOCK_STREAM = 1"
definition SOCK_DGRAM :: int where "SOCK_DGRAM = 2"

lemmas sock_defs = AF_UNIX_def AF_INET_def AF_INET6_def AF_LINK_def SOCK_STREAM_def SOCK_DGRAM_def

section \<open>Named tuples\<close>

record sswap =
  sw_total :: int
  sw_used :: int
  sw_free :: int
  sw_percent :: flt
  sw_sin :: int
  sw_sout :: int

record sdiskusage =
  du_total :: int
  du_used :: int
  du_free :: int
  du_percent :: flt

record sdiskio =
  dio_read_count :: int
  dio_write_count :: int
  dio_read_bytes :: int
  dio_write_bytes :: int
  dio_read_time :: int
  dio_write_time :: int
  dio_read_merged_count :: int
  dio_write_merged_count :: int
  dio_busy_time :: int

record sdiskpart =
  dp_device :: string
  dp_mountpoint :: string
  dp_fstype :: string
  dp_opts :: string

record snetio =
  nio_bytes_sent :: int
  nio_bytes_recv :: int
  nio_packets_sent :: int
  nio_packets_recv :: int
  nio_errin :: int
  nio_errout :: int
  nio_dropin :: int
  nio_dropout :: int

record pheap =
  ph_heap_used :: int
  ph_mmap_used :: int

record suser =
  us_name :: string
  us_terminal :: "string option"
  us_host :: "string option"
  us_started :: flt
  us_pid :: "int option"

record snicstats =
  ns_isup :: bool
  ns_duplex :: NicDuplex
  ns_speed :: int
  ns_mtu :: int
  ns_flags :: string

record snicaddr =
  na_family :: int
  na_address :: "string option"
  na_netmask :: "string option"
  na_broadcast :: "string option"
  na_ptp :: "string option"

record scputimes =
  ct_user :: flt
  ct_system :: flt
  ct_idle :: flt
  ct_nice :: flt
  ct_iowait :: flt
  ct_irq :: flt
  ct_softirq :: flt
  ct_steal :: flt
  ct_guest :: flt
  ct_guest_nice :: flt

record scpustats =
  cs_ctx_switches :: "int option"
  cs_interrupts :: "int option"
  cs_soft_interrupts :: "int option"
  cs_syscalls :: int

record scpufreq =
  cf_current :: flt
  cf_min :: "flt option"
  cf_max :: "flt option"

record shwtemp =
  ht_label :: string
  ht_current :: "flt option"
  ht_high :: "flt option"
  ht_critical :: "flt option"

record sbattery =
  bat_percent :: flt
  bat_secsleft :: int
  bat_power_plugged :: "bool option"

record sfan =
  fan_label :: string
  fan_current :: int

record svmem =
  vm_total :: int
  vm_available :: int
  vm_percent :: flt
  vm_used :: int
  vm_free :: int
  vm_active :: int
  vm_inactive :: int
  vm_buffers :: int
  vm_cached :: int
  vm_shared :: int
  vm_slab :: int

record pcputimes =
  pct_user :: flt
  pct_system :: flt
  pct_children_user :: flt
  pct_children_system :: flt
  pct_iowait :: flt

record popenfile =
  of_path :: string
  of_fd :: int
  of_position :: int
  of_mode :: string
  of_flags :: int

record pthread =
  th_id :: int
  th_user_time :: flt
  th_system_time :: flt

record pids3 =
  ids_real :: int
  ids_effective :: int
  ids_saved :: int

record pio =
  pio_read_count :: int
  pio_write_count :: int
  pio_read_bytes :: int
  pio_write_bytes :: int
  pio_read_chars :: int
  pio_write_chars :: int

record pionice =
  ion_ioclass :: int
  ion_value :: int

record pctxsw =
  cx_voluntary :: int
  cx_involuntary :: int

record ppagefaults =
  pf_minor :: int
  pf_major :: int

record pfootprint =
  fp_uss :: int
  fp_pss :: int
  fp_swap :: int

record pmem =
  pm_rss :: int
  pm_vms :: int
  pm_shared :: int
  pm_text :: int
  pm_data :: int

text \<open>A socket end point: nothing, an Internet address, or a UNIX path.\<close>

datatype endpoint = NoEnd | Addr string int | UnixPath string

record sconn =
  cn_fd :: int
  cn_family :: int
  cn_type :: int
  cn_laddr :: endpoint
  cn_raddr :: endpoint
  cn_status :: ConnectionStatus
  cn_pid :: "int option"

text \<open>
  \<open>pmmap_ext\<close> and \<open>pmmap_grouped\<close> are a path with ten counters in the order of their
  fields (\<open>rss\<close>, \<open>size\<close>, \<open>pss\<close>, \<open>shared_clean\<close>, \<open>shared_dirty\<close>, \<open>private_clean\<close>,
  \<open>private_dirty\<close>, \<open>referenced\<close>, \<open>anonymous\<close>, \<open>swap\<close>), which the code only ever adds
  up by position; the ungrouped one also has the address range and the permissions.
\<close>

record pmmap_grouped =
  mm_path :: string
  mm_nums :: "int list"

record pmmap_ext =
  mx_addr :: string
  mx_perms :: string
  mx_path :: string
  mx_nums :: "int list"

text \<open>\<open>pmem_ex\<close>: \<open>pmem\<close> and the metrics of the status file.\<close>

record pmem_ex = pmem +
  px_peak_rss :: int
  px_peak_vms :: int
  px_rss_anon :: int
  px_rss_file :: int
  px_rss_shmem :: int
  px_swap :: int
  px_hugetlb :: int

record pfullmem = pmem +
  pfull_uss :: int
  pfull_pss :: int
  pfull_swap :: int

text \<open>The fields of a \<open>scputimes\<close> in order, as iterating over the tuple gives them.\<close>

definition ct_list :: "scputimes \<Rightarrow> flt list" where
  "ct_list t = [ct_user t, ct_system t, ct_idle t, ct_nice t, ct_iowait t, ct_irq t,
     ct_softirq t, ct_steal t, ct_guest t, ct_guest_nice t]"

text \<open>\<open>scputimes(*xs)\<close>: a tuple is built from exactly ten numbers.\<close>

definition ct_make :: "flt list \<Rightarrow> exn + scputimes" where
  "ct_make xs = (case xs of
      [a, b, c, d, e, f, g, h, i, j] \<Rightarrow> Inr \<lparr>ct_user = a, ct_system = b, ct_idle = c, ct_nice = d,
         ct_iowait = e, ct_irq = f, ct_softirq = g, ct_steal = h, ct_guest = i, ct_guest_nice = j\<rparr>
    | _ \<Rightarrow> Inl TypeError)"

lemma ct_make_list [simp]: "ct_make (ct_list t) = Inr t"
  by (cases t) (simp add: ct_make_def ct_list_def)

lemma ct_list_make:
  assumes "length xs = 10"
  shows "\<exists>t. ct_make xs = Inr t \<and> ct_list t = xs"
proof -
  obtain a b c d e f g h i j where "xs = [a, b, c, d, e, f, g, h, i, j]"
    using assms by (auto simp: numeral_eq_Suc length_Suc_conv)
  then show ?thesis by (simp add: ct_make_def ct_list_def)
qed

lemma length_ct_list [simp]: "length (ct_list t) = 10"
  by (simp add: ct_list_def)

lemma ct_list_inj: "ct_list s = ct_list t \<longleftrightarrow> s = t"
  by (metis ct_make_list sum.inject(2))

end
