(* ===== verification/Posix_Wait.thy ===== *)
theory Posix_Wait
  imports Ntuples Memoize
begin

text \<open>
  \<open>psutil/_psposix.py\<close>: whether a pid exists, decoding of exit statuses, and the three
  ways of waiting for a process: polling \<open>waitpid\<close> with a growing interval
  (\<open>wait_pid_posix\<close>), \<open>pidfd_open\<close> with \<open>poll\<close>, and \<open>kqueue\<close>.  A wait may go on for
  ever, so its result is an \<open>option\<close>: \<open>None\<close> is a wait that never returns.
\<close>

section \<open>System calls\<close>

definition kill_call :: "int \<Rightarrow> int \<Rightarrow> ('z sys_scheme, unit) py" where
  "kill_call pid sig = sys_call (SKill pid sig) (\<lambda>os h. os_kill os h pid sig)"

definition waitpid_call :: "int \<Rightarrow> int \<Rightarrow> ('z sys_scheme, int \<times> int) py" where
  "waitpid_call pid flags = sys_call (SWaitpid pid flags) (\<lambda>os h. os_waitpid os h pid flags)"

definition pidfd_open_call :: "int \<Rightarrow> ('z sys_scheme, int) py" where
  "pidfd_open_call pid = sys_call (SPidfdOpen pid) (\<lambda>os h. os_pidfd_open os h pid)"

definition poll_call :: "int \<Rightarrow> int option \<Rightarrow> ('z sys_scheme, bool) py" where
  "poll_call fd t = sys_ask (SPoll fd t) (\<lambda>os h. os_poll os h fd t)"

definition close_call :: "int \<Rightarrow> ('z sys_scheme, unit) py" where
  "close_call fd = sys_ask (SClose fd) (\<lambda>os h. ())"

definition kqueue_call :: "('z sys_scheme, unit) py" where
  "kqueue_call = sys_call SKqueue os_kqueue"

definition kevent_call :: "int \<Rightarrow> flt option \<Rightarrow> ('z sys_scheme, bool) py" where
  "kevent_call pid t = sys_call (SKevent pid t) (\<lambda>os h. os_kevent os h pid t)"

definition kq_close_call :: "('z sys_scheme, unit) py" where
  "kq_close_call = sys_ask SKqClose (\<lambda>os h. ())"

text \<open>
  A result that may not be there: \<open>None\<close> is a call, or a loop, that never returns.
  \<open>os_blocks\<close> says which calls do not return at the point they are made; \<open>waitpid\<close>, \<open>poll\<close>
  and \<open>kevent\<close> are calls that can block.
\<close>

type_synonym ('s, 'a) result = "((exn + 'a) \<times> 's) option"

definition may_block :: "syscall \<Rightarrow> ('z sys_scheme, 'a) py \<Rightarrow> 'z sys_scheme \<Rightarrow> ('z sys_scheme, 'a) result" where
  "may_block c m s = (if os_blocks (sys_os s) (hist s) c then None else Some (m s))"

definition waitpid_d :: "int \<Rightarrow> int \<Rightarrow> 'z sys_scheme \<Rightarrow> ('z sys_scheme, int \<times> int) result" where
  "waitpid_d pid flags = may_block (SWaitpid pid flags) (waitpid_call pid flags)"

definition poll_d :: "int \<Rightarrow> int option \<Rightarrow> 'z sys_scheme \<Rightarrow> ('z sys_scheme, bool) result" where
  "poll_d fd t = may_block (SPoll fd t) (poll_call fd t)"

definition kevent_d :: "int \<Rightarrow> flt option \<Rightarrow> 'z sys_scheme \<Rightarrow> ('z sys_scheme, bool) result" where
  "kevent_d pid t = may_block (SKevent pid t) (kevent_call pid t)"

lemma may_block_cases: "may_block c m s = None \<or> may_block c m s = Some (m s)"
  and may_block_runs: "\<not> os_blocks (sys_os s) (hist s) c \<Longrightarrow> may_block c m s = Some (m s)"
  by (simp_all add: may_block_def)

lemmas posix_calls = kill_call_def waitpid_call_def pidfd_open_call_def poll_call_def
  close_call_def kqueue_call_def kevent_call_def kq_close_call_def

section \<open>Does the pid exist\<close>

definition posix_pid_exists :: "int \<Rightarrow> ('z sys_scheme, bool) py" where
  "posix_pid_exists pid =
     (if pid = 0 then ret True
      else try_else (kill_call pid 0)
        (\<lambda>e. if is_ProcessLookupError e then ret False
             else if is_PermissionError e then ret True else raise e)
        (\<lambda>_. ret True))"

section \<open>Exit statuses\<close>

text \<open>\<open>NegSignal(num)\<close> is an integer enum: the member equals its number.\<close>

definition negsig_to_enum :: "int \<Rightarrow> int" where
  "negsig_to_enum num = num"

text \<open>The macros of \<open>waitpid(2)\<close> on Linux.\<close>

definition WIFEXITED :: "int \<Rightarrow> bool" where "WIFEXITED st \<longleftrightarrow> st mod 128 = 0"
definition WEXITSTATUS :: "int \<Rightarrow> int" where "WEXITSTATUS st = (st div 256) mod 256"
definition WIFSIGNALED :: "int \<Rightarrow> bool" where "WIFSIGNALED st \<longleftrightarrow> st mod 128 \<noteq> 0 \<and> st mod 128 \<noteq> 127"
definition WTERMSIG :: "int \<Rightarrow> int" where "WTERMSIG st = st mod 128"

definition convert_exit_code :: "int \<Rightarrow> exn + int" where
  "convert_exit_code status =
     (if WIFEXITED status then Inr (WEXITSTATUS status)
      else if WIFSIGNALED status then Inr (negsig_to_enum (- WTERMSIG status))
      else Inl ValueError)"

lemmas status_defs = convert_exit_code_def WIFEXITED_def WEXITSTATUS_def WIFSIGNALED_def
  WTERMSIG_def negsig_to_enum_def

text \<open>
  The status the kernel encodes for a process that called \<open>exit(code)\<close>, and for one a
  signal killed, with or without a core dump.
\<close>

definition exited_status :: "int \<Rightarrow> int" where "exited_status code = (code mod 256) * 256"
definition signaled_status :: "int \<Rightarrow> bool \<Rightarrow> int" where
  "signaled_status sig core = sig + (if core then 128 else 0)"

text \<open>
  \<open>convert_exit_code\<close> recovers how the process ended: the exit code modulo 256, or the
  negated number of the signal that killed it, with or without a core dump, for every
  signal number the status can hold; the two never mix.
\<close>

theorem convert_exit_code_roundtrip:
  "convert_exit_code (exited_status code) = Inr (code mod 256)
   \<and> (1 \<le> sig \<and> sig \<le> 126 \<longrightarrow> convert_exit_code (signaled_status sig core) = Inr (- sig))
   \<and> (convert_exit_code st = Inr c \<longrightarrow> (0 \<le> c) = WIFEXITED st)"
proof (intro conjI impI)
  show "convert_exit_code (exited_status code) = Inr (code mod 256)"
  proof -
    have "(c * 256) mod 128 = 0" for c :: int
    proof -
      have "c * 256 = 128 * (2 * c)" by simp
      then show ?thesis by (metis mod_mult_self1_is_0)
    qed
    then show ?thesis by (simp add: status_defs exited_status_def)
  qed
next
  assume s: "1 \<le> sig \<and> sig \<le> 126"
  then have "(sig + (if core then 128 else 0)) mod 128 = sig" by (cases core) auto
  with s show "convert_exit_code (signaled_status sig core) = Inr (- sig)"
    by (simp add: status_defs signaled_status_def)
next
  assume "convert_exit_code st = Inr c"
  then show "(0 \<le> c) = WIFEXITED st"
    by (auto simp: status_defs split: if_splits)
qed

theorem convert_exit_code_roundtrip_witness:
  "convert_exit_code (exited_status 3) = Inr 3 \<and> convert_exit_code (signaled_status 15 True) = Inr (- 15)
   \<and> (0 \<le> (3::int)) = WIFEXITED 768"
  using convert_exit_code_roundtrip [of 3 15 True 768 3]
  by (simp add: status_defs exited_status_def signaled_status_def)

section \<open>Polling\<close>

definition wait_interval :: flt where "wait_interval = fl (1 / 10000)"
definition max_interval :: flt where "max_interval = fl (4 / 100)"
definition WNOHANG :: int where "WNOHANG = 1"

text \<open>The number \<open>TimeoutExpired(timeout)\<close> carries.\<close>

definition secs_of :: "flt option \<Rightarrow> flt" where
  "secs_of timeout = (case timeout of None \<Rightarrow> 0 | Some t \<Rightarrow> t)"

text \<open>The closure \<open>sleep_or_timeout\<close>: it raises, or sleeps and returns the next interval.\<close>

definition sleep_or_timeout :: "flt option \<Rightarrow> flt option \<Rightarrow> flt \<Rightarrow> ('z sys_scheme, flt) py" where
  "sleep_or_timeout timeout stop_at interval =
     bnd (if timeout = Some 0 then ret True
          else (case stop_at of None \<Rightarrow> ret False
                | Some t \<Rightarrow> bnd monotonic (\<lambda>now. ret (t \<le> now)))) (\<lambda>expired.
     if expired then raise (mk_TimeoutExpired (secs_of timeout) None None)
     else bnd (sleep_call interval) (\<lambda>_. ret (min (fmul interval 2) max_interval)))"

text \<open>\<open>while _pid_exists(pid): interval = sleep_or_timeout(interval)\<close>, then \<open>return None\<close>.\<close>

partial_function (option) poll_gone ::
  "int \<Rightarrow> flt option \<Rightarrow> flt option \<Rightarrow> flt \<Rightarrow> 'z sys_scheme \<Rightarrow> ('z sys_scheme, int option) result" where
  "poll_gone pid timeout stop_at interval s =
     (case posix_pid_exists pid s of
        (Inl e, s1) \<Rightarrow> Some (Inl e, s1)
      | (Inr alive, s1) \<Rightarrow>
          if \<not> alive then Some (Inr None, s1)
          else (case sleep_or_timeout timeout stop_at interval s1 of
                  (Inl e, s2) \<Rightarrow> Some (Inl e, s2)
                | (Inr interval', s2) \<Rightarrow> poll_gone pid timeout stop_at interval' s2))"

partial_function (option) wait_loop ::
  "int \<Rightarrow> flt option \<Rightarrow> flt option \<Rightarrow> int \<Rightarrow> flt \<Rightarrow> 'z sys_scheme \<Rightarrow> ('z sys_scheme, int option) result" where
  "wait_loop pid timeout stop_at flags interval s =
     (case waitpid_d pid flags s of
        None \<Rightarrow> None
      | Some (Inl e, s1) \<Rightarrow>
          if is_ChildProcessError e then poll_gone pid timeout stop_at interval s1
          else Some (Inl e, s1)
      | Some (Inr (retpid, status), s1) \<Rightarrow>
          if retpid = 0
          then (case sleep_or_timeout timeout stop_at interval s1 of
                  (Inl e, s2) \<Rightarrow> Some (Inl e, s2)
                | (Inr interval', s2) \<Rightarrow> wait_loop pid timeout stop_at flags interval' s2)
          else Some (case convert_exit_code status of Inl e \<Rightarrow> Inl e | Inr c \<Rightarrow> Inr (Some c), s1))"

definition wait_pid_posix :: "int \<Rightarrow> flt option \<Rightarrow> 'z sys_scheme \<Rightarrow> ('z sys_scheme, int option) result" where
  "wait_pid_posix pid timeout s =
     (case timeout of
        None \<Rightarrow> wait_loop pid timeout None 0 wait_interval s
      | Some t \<Rightarrow>
          if t = 0 then wait_loop pid timeout None WNOHANG wait_interval s
          else (case monotonic s of
              (Inl e, s1) \<Rightarrow> Some (Inl e, s1)
            | (Inr now, s1) \<Rightarrow> wait_loop pid timeout (Some (fadd now t)) WNOHANG wait_interval s1))"

section \<open>Waiting on a file descriptor\<close>

text \<open>\<open>_waitpid\<close>: the process is supposed to be gone already.\<close>

definition reap :: "int \<Rightarrow> flt option \<Rightarrow> 'z sys_scheme \<Rightarrow> ('z sys_scheme, int option) result" where
  "reap pid timeout s =
     (case waitpid_d pid 0 s of
        None \<Rightarrow> None
      | Some (Inl e, s1) \<Rightarrow> if is_ChildProcessError e then wait_pid_posix pid timeout s1 else Some (Inl e, s1)
      | Some (Inr (retpid, status), s1) \<Rightarrow>
          if retpid = 0 then Some (Inl AssertionError, s1)
          else Some (case convert_exit_code status of Inl e \<Rightarrow> Inl e | Inr c \<Rightarrow> Inr (Some c), s1))"

text \<open>\<open>try: \<dots> finally: m\<close> around a statement that may not return.\<close>

definition finally_d :: "('s, 'a) result \<Rightarrow> ('s, unit) py \<Rightarrow> ('s, 'a) result" where
  "finally_d r m = (case r of None \<Rightarrow> None
     | Some (q, s) \<Rightarrow> (case m s of (Inl e, t) \<Rightarrow> Some (Inl e, t) | (Inr _, t) \<Rightarrow> Some (q, t)))"

definition wait_pid_pidfd_open :: "int \<Rightarrow> flt option \<Rightarrow> 'z sys_scheme \<Rightarrow> ('z sys_scheme, int option) result" where
  "wait_pid_pidfd_open pid timeout s =
     (case pidfd_open_call pid s of
        (Inl e, s1) \<Rightarrow> wait_pid_posix pid timeout s1
      | (Inr pidfd, s1) \<Rightarrow>
          finally_d
            (let timeout_ms = map_option (\<lambda>t. trunc_int (fmul t 1000)) timeout in
             case poll_d pidfd timeout_ms s1 of
               None \<Rightarrow> None
             | Some (Inl e, s2) \<Rightarrow> Some (Inl e, s2)
             | Some (Inr events, s2) \<Rightarrow>
                 if \<not> events then Some (Inl (mk_TimeoutExpired (secs_of timeout) None None), s2)
                 else reap pid timeout s2)
            (close_call pidfd))"

definition wait_pid_kqueue :: "int \<Rightarrow> flt option \<Rightarrow> 'z sys_scheme \<Rightarrow> ('z sys_scheme, int option) result" where
  "wait_pid_kqueue pid timeout s =
     (case kqueue_call s of
        (Inl e, s1) \<Rightarrow> wait_pid_posix pid timeout s1
      | (Inr _, s1) \<Rightarrow>
          finally_d
            (case kevent_d pid timeout s1 of
               None \<Rightarrow> None
             | Some (Inl e, s2) \<Rightarrow>
                 if errno_of e \<in> {Some EACCES, Some EPERM, Some ESRCH}
                 then wait_pid_posix pid timeout s2 else Some (Inl e, s2)
             | Some (Inr events, s2) \<Rightarrow>
                 if \<not> events then Some (Inl (mk_TimeoutExpired (secs_of timeout) None None), s2)
                 else reap pid timeout s2)
            kq_close_call)"

text \<open>
  \<open>can_use_pidfd_open()\<close> and \<open>can_use_kqueue()\<close>; both are cached for the life of the
  program, so \<open>wait_pid\<close> takes their results.  \<open>supported\<close> is the \<open>hasattr\<close> test; the call of
  \<open>kevent\<close> here has the timeout 0 and does not block.
\<close>

definition can_use_pidfd_open :: "bool \<Rightarrow> ('z sys_scheme, bool) py" where
  "can_use_pidfd_open supported =
     (if \<not> supported then ret False
      else bnd (sys_ask SGetpid os_getpid) (\<lambda>me.
        try_else (pidfd_open_call me)
          (\<lambda>e. if is_OSError e then ret (errno_of e \<in> {Some EMFILE, Some ENFILE}) else raise e)
          (\<lambda>pidfd. bnd (close_call pidfd) (\<lambda>_. ret True))))"

definition can_use_kqueue :: "bool \<Rightarrow> ('z sys_scheme, bool) py" where
  "can_use_kqueue supported =
     (if \<not> supported then ret False
      else try_else kqueue_call
        (\<lambda>e. if is_OSError e then ret (errno_of e \<in> {Some EMFILE, Some ENFILE}) else raise e)
        (\<lambda>_. try_finally
           (try_else (bnd (sys_ask SGetpid os_getpid) (\<lambda>me. kevent_call me (Some 0)))
              (\<lambda>e. if is_OSError e then ret (errno_of e \<in> {Some EMFILE, Some ENFILE}) else raise e)
              (\<lambda>_. ret True))
           kq_close_call))"

definition wait_pid :: "bool \<Rightarrow> bool \<Rightarrow> int \<Rightarrow> flt option \<Rightarrow> 'z sys_scheme \<Rightarrow> ('z sys_scheme, int option) result" where
  "wait_pid can_pidfd can_kqueue pid timeout s =
     (if \<not> 0 < pid \<or> (\<exists>t \<in> set_option timeout. t < 0) then Some (Inl AssertionError, s)
      else if can_pidfd then wait_pid_pidfd_open pid timeout s
      else if can_kqueue then wait_pid_kqueue pid timeout s
      else wait_pid_posix pid timeout s)"


section \<open>What a wait does and returns\<close>

text \<open>
  The calls a polling wait may make: \<open>waitpid\<close> with the flags, the null signal, reading the
  clock, and sleeping at most \<open>max_interval\<close>.
\<close>

definition poll_calls :: "int \<Rightarrow> int \<Rightarrow> syscall set" where
  "poll_calls pid flags = {SWaitpid pid flags, SKill pid 0, SNow} \<union> {SSleep x | x. 0 \<le> x \<and> x \<le> max_interval}"

definition wait_flags :: "flt option \<Rightarrow> int" where
  "wait_flags timeout = (if timeout = None then 0 else WNOHANG)"

text \<open>
  The contract of a polling wait.  A timeout was asked for and, unless it was zero, the
  clock had reached the deadline when it was last read; an exit code comes from a status
  that \<open>waitpid\<close> returned for the process; \<open>None\<close> means the null signal found no such
  process.
\<close>

definition polled ::
  "int \<Rightarrow> flt option \<Rightarrow> flt option \<Rightarrow> int \<Rightarrow> 'z sys_scheme \<Rightarrow> (exn + int option) \<times> 'z sys_scheme \<Rightarrow> bool" where
  "polled pid timeout stop_at flags s q = (case q of (r, t) \<Rightarrow>
     confined (poll_calls pid flags) s t \<and>
     (case r of
        Inl e \<Rightarrow> is_TimeoutExpired e \<longrightarrow> (\<exists>x. timeout = Some x \<and> e = TimeoutExpired x None None
          \<and> (x \<noteq> 0 \<longrightarrow> (\<exists>T h. stop_at = Some T \<and> hist t = SNow # h \<and> T \<le> os_now (sys_os s) h)))
      | Inr None \<Rightarrow> \<exists>d. hist t = SKill pid 0 # d @ hist s \<and> os_kill (sys_os s) (d @ hist s) pid 0 = Inl ESRCH
      | Inr (Some c) \<Rightarrow> \<exists>d w st. hist t = SWaitpid pid flags # d @ hist s
          \<and> os_waitpid (sys_os s) (d @ hist s) pid flags = Inr (w, st) \<and> w \<noteq> 0 \<and> convert_exit_code st = Inr c))"

lemma polled_cases:
  assumes "polled pid timeout stop_at flags s (r, t)"
  shows "confined (poll_calls pid flags) s t"
    and "r = Inl e \<Longrightarrow> is_TimeoutExpired e \<Longrightarrow> \<exists>x. timeout = Some x \<and> e = TimeoutExpired x None None
          \<and> (x \<noteq> 0 \<longrightarrow> (\<exists>T h. stop_at = Some T \<and> hist t = SNow # h \<and> T \<le> os_now (sys_os s) h))"
    and "r = Inr None \<Longrightarrow> \<exists>d. hist t = SKill pid 0 # d @ hist s \<and> os_kill (sys_os s) (d @ hist s) pid 0 = Inl ESRCH"
    and "r = Inr (Some c) \<Longrightarrow> \<exists>d w st. hist t = SWaitpid pid flags # d @ hist s
          \<and> os_waitpid (sys_os s) (d @ hist s) pid flags = Inr (w, st) \<and> w \<noteq> 0 \<and> convert_exit_code st = Inr c"
  using assms by (simp_all add: polled_def)

lemma polled_from:
  assumes "confined (poll_calls pid flags) s u" "polled pid timeout stop_at flags u q"
  shows "polled pid timeout stop_at flags s q"
proof -
  obtain r t where q: "q = (r, t)" by (cases q)
  obtain d0 where os: "sys_os u = sys_os s" "hist u = d0 @ hist s" using assms(1) by (auto simp: confined_def)
  have d0: "x @ d0 @ hist s = (x @ d0) @ hist s" for x by simp
  have "confined (poll_calls pid flags) u t" using assms(2) q by (simp add: polled_def)
  with assms(1) have "confined (poll_calls pid flags) s t" by (rule confined_trans)
  then show ?thesis using assms(2) unfolding polled_def q prod.case os d0
    by (cases r) (auto split: option.splits)
qed

lemma max_interval_bounds: "0 \<le> max_interval" "wait_interval \<le> max_interval" "0 \<le> wait_interval"
  unfolding max_interval_def wait_interval_def by (auto intro!: fl_mono fl_nonneg)

lemma sleep_or_timeout_ok:
  assumes "sleep_or_timeout timeout stop_at iv s = (r, t)"
    and "0 \<le> iv" "iv \<le> max_interval" and "timeout = None \<longrightarrow> stop_at = None"
    and "timeout = Some 0 \<longrightarrow> stop_at = None"
  shows "confined (poll_calls pid flags) s t"
    and "r = Inl e \<Longrightarrow> (\<exists>x. timeout = Some x \<and> e = TimeoutExpired x None None
          \<and> (x \<noteq> 0 \<longrightarrow> (\<exists>T h. stop_at = Some T \<and> hist t = SNow # h \<and> T \<le> os_now (sys_os s) h)))"
    and "r = Inr iv' \<Longrightarrow> 0 \<le> iv' \<and> iv' \<le> max_interval"
proof -
  have nn: "0 \<le> fmul iv 2" using assms(2) by (simp add: fmul_def fl_nonneg)
  show "confined (poll_calls pid flags) s t"
    using assms by (auto simp: sleep_or_timeout_def sys_defs confined_def poll_calls_def
        split: if_splits option.splits)
  show "r = Inl e \<Longrightarrow> (\<exists>x. timeout = Some x \<and> e = TimeoutExpired x None None
          \<and> (x \<noteq> 0 \<longrightarrow> (\<exists>T h. stop_at = Some T \<and> hist t = SNow # h \<and> T \<le> os_now (sys_os s) h)))"
    using assms by (auto simp: sleep_or_timeout_def sys_defs mk_TimeoutExpired_def secs_of_def
        split: if_splits option.splits)
  show "r = Inr iv' \<Longrightarrow> 0 \<le> iv' \<and> iv' \<le> max_interval"
    using assms nn max_interval_bounds
    by (auto simp: sleep_or_timeout_def sys_defs split: if_splits option.splits)
qed

lemma kill0_confined: "confined (poll_calls pid flags) s (s\<lparr>hist := SKill pid 0 # hist s\<rparr>)"
  by (rule confined_call) (simp add: poll_calls_def)

lemma waitpid_confined: "confined (poll_calls pid flags) s (s\<lparr>hist := SWaitpid pid flags # hist s\<rparr>)"
  by (rule confined_call) (simp add: poll_calls_def)

lemma posix_pid_exists_cases:
  assumes "posix_pid_exists pid s = (r, t)" "0 < pid"
  shows "t = s\<lparr>hist := SKill pid 0 # hist s\<rparr>"
    and "r = Inl e \<Longrightarrow> \<not> is_TimeoutExpired e"
    and "r = Inr False \<Longrightarrow> os_kill (sys_os s) (hist s) pid 0 = Inl ESRCH"
proof -
  obtain q where q: "os_kill (sys_os s) (hist s) pid 0 = q" by simp
  show "t = s\<lparr>hist := SKill pid 0 # hist s\<rparr>" "r = Inl e \<Longrightarrow> \<not> is_TimeoutExpired e"
    "r = Inr False \<Longrightarrow> os_kill (sys_os s) (hist s) pid 0 = Inl ESRCH"
    using assms q by (cases q; auto simp: posix_pid_exists_def posix_calls split: if_splits)+
qed

text \<open>What holds at the head of both loops.\<close>

definition loop_pre :: "int \<Rightarrow> flt option \<Rightarrow> flt option \<Rightarrow> flt \<Rightarrow> bool" where
  "loop_pre pid timeout stop_at iv \<longleftrightarrow> 0 < pid \<and> 0 \<le> iv \<and> iv \<le> max_interval
     \<and> (timeout = None \<or> timeout = Some 0 \<longrightarrow> stop_at = None)"

lemma sleep_step:
  assumes sl: "sleep_or_timeout timeout stop_at iv s = (r, t)" and pre: "loop_pre pid timeout stop_at iv"
    and su: "confined (poll_calls pid flags) u s" and os: "sys_os s = sys_os u"
  shows "case r of Inl e \<Rightarrow> polled pid timeout stop_at flags u (Inl e, t)
      | Inr iv' \<Rightarrow> loop_pre pid timeout stop_at iv' \<and> confined (poll_calls pid flags) u t"
proof -
  have p: "0 \<le> iv" "iv \<le> max_interval" "timeout = None \<longrightarrow> stop_at = None"
    "timeout = Some 0 \<longrightarrow> stop_at = None"
    using pre by (auto simp: loop_pre_def)
  note ok = sleep_or_timeout_ok [OF sl p]
  have ut: "confined (poll_calls pid flags) u t" using su ok(1) by (rule confined_trans)
  show ?thesis
  proof (cases r)
    case (Inl e)
    with ok(2) [OF Inl] ut os show ?thesis by (auto simp: polled_def)
  next
    case (Inr iv')
    with ok(3) [OF Inr] ut pre show ?thesis by (simp add: loop_pre_def)
  qed
qed

lemma poll_gone_polled:
  assumes ret: "poll_gone pid timeout stop_at iv s = Some q" and "loop_pre pid timeout stop_at iv"
  shows "polled pid timeout stop_at flags s q"
proof -
  have "loop_pre pid timeout stop_at iv \<longrightarrow> polled pid timeout stop_at flags s q"
  proof (rule poll_gone.raw_induct [where P = "\<lambda>pid timeout stop_at iv s q.
      loop_pre pid timeout stop_at iv \<longrightarrow> polled pid timeout stop_at flags s q", OF _ ret], rule impI)
    fix f :: "int \<Rightarrow> flt option \<Rightarrow> flt option \<Rightarrow> flt \<Rightarrow> 'a sys_scheme \<Rightarrow> ('a sys_scheme, int option) result"
    fix pid timeout stop_at iv and s :: "'a sys_scheme" and q
    assume IH: "\<And>pid timeout stop_at iv s q. f pid timeout stop_at iv s = Some q \<Longrightarrow>
        loop_pre pid timeout stop_at iv \<longrightarrow> polled pid timeout stop_at flags s q"
      and eq: "(case posix_pid_exists pid s of (Inl e, s1) \<Rightarrow> Some (Inl e, s1)
        | (Inr alive, s1) \<Rightarrow> if \<not> alive then Some (Inr None, s1)
          else (case sleep_or_timeout timeout stop_at iv s1 of (Inl e, s2) \<Rightarrow> Some (Inl e, s2)
                | (Inr interval', s2) \<Rightarrow> f pid timeout stop_at interval' s2)) = Some q"
      and pre: "loop_pre pid timeout stop_at iv"
    have pid: "0 < pid" using pre by (simp add: loop_pre_def)
    obtain r s1 where r: "posix_pid_exists pid s = (r, s1)" by (cases "posix_pid_exists pid s")
    note ex = posix_pid_exists_cases [OF r pid]
    have c1: "confined (poll_calls pid flags) s s1" by (simp add: ex(1) kill0_confined)
    have o1: "sys_os s1 = sys_os s" by (simp add: ex(1))
    consider (err) e where "r = Inl e" | (gone) "r = Inr False" | (alive) "r = Inr True"
      by (cases r) auto
    then show "polled pid timeout stop_at flags s q"
    proof cases
      case err
      then show ?thesis using eq r c1 ex(2) [OF err] by (auto simp: polled_def)
    next
      case gone
      then show ?thesis using eq r c1 ex(3) [OF gone] by (auto simp: polled_def ex(1))
    next
      case alive
      obtain r2 s2 where r2: "sleep_or_timeout timeout stop_at iv s1 = (r2, s2)"
        by (cases "sleep_or_timeout timeout stop_at iv s1")
      note st = sleep_step [OF r2 pre c1 o1]
      show ?thesis
      proof (cases r2)
        case (Inl e)
        then show ?thesis using st eq r r2 alive by auto
      next
        case (Inr iv')
        then have "f pid timeout stop_at iv' s2 = Some q" using eq r r2 alive by simp
        with IH st Inr have "polled pid timeout stop_at flags s2 q" by auto
        then show ?thesis using st Inr by (auto intro: polled_from)
      qed
    qed
  qed
  then show ?thesis using assms(2) by blast
qed

lemma waitpid_call_run:
  "waitpid_call pid flags s
     = (os_err (os_waitpid (sys_os s) (hist s) pid flags), s\<lparr>hist := SWaitpid pid flags # hist s\<rparr>)"
  by (simp add: posix_calls)

lemma waitpid_d_run:
  "waitpid_d pid flags s = (if os_blocks (sys_os s) (hist s) (SWaitpid pid flags) then None
     else Some (os_err (os_waitpid (sys_os s) (hist s) pid flags), s\<lparr>hist := SWaitpid pid flags # hist s\<rparr>))"
  by (simp add: waitpid_d_def may_block_def waitpid_call_run)

lemma wait_loop_polled:
  assumes ret: "wait_loop pid timeout stop_at flags iv s = Some q" and "loop_pre pid timeout stop_at iv"
  shows "polled pid timeout stop_at flags s q"
proof -
  have "loop_pre pid timeout stop_at iv \<longrightarrow> polled pid timeout stop_at flags s q"
  proof (rule wait_loop.raw_induct [where P = "\<lambda>pid timeout stop_at flags iv s q.
      loop_pre pid timeout stop_at iv \<longrightarrow> polled pid timeout stop_at flags s q", OF _ ret], rule impI)
    fix f :: "int \<Rightarrow> flt option \<Rightarrow> flt option \<Rightarrow> int \<Rightarrow> flt \<Rightarrow> 'a sys_scheme \<Rightarrow> ('a sys_scheme, int option) result"
    fix pid timeout stop_at flags iv and s :: "'a sys_scheme" and q
    assume IH: "\<And>pid timeout stop_at flags iv s q. f pid timeout stop_at flags iv s = Some q \<Longrightarrow>
        loop_pre pid timeout stop_at iv \<longrightarrow> polled pid timeout stop_at flags s q"
      and eq: "(case waitpid_d pid flags s of
          None \<Rightarrow> None
        | Some (Inl e, s1) \<Rightarrow> if is_ChildProcessError e then poll_gone pid timeout stop_at iv s1
            else Some (Inl e, s1)
        | Some (Inr (retpid, status), s1) \<Rightarrow>
            if retpid = 0
            then (case sleep_or_timeout timeout stop_at iv s1 of (Inl e, s2) \<Rightarrow> Some (Inl e, s2)
                  | (Inr interval', s2) \<Rightarrow> f pid timeout stop_at flags interval' s2)
            else Some (case convert_exit_code status of Inl e \<Rightarrow> Inl e | Inr c \<Rightarrow> Inr (Some c), s1))
          = Some q"
      and pre: "loop_pre pid timeout stop_at iv"
    define s1 where "s1 = s\<lparr>hist := SWaitpid pid flags # hist s\<rparr>"
    have c1: "confined (poll_calls pid flags) s s1" by (simp add: s1_def waitpid_confined)
    have o1: "sys_os s1 = sys_os s" by (simp add: s1_def)
    have no: "\<not> os_blocks (sys_os s) (hist s) (SWaitpid pid flags)"
      using eq by (simp add: waitpid_d_run split: if_splits)
    obtain w where w: "os_waitpid (sys_os s) (hist s) pid flags = w" by simp
    show "polled pid timeout stop_at flags s q"
    proof (cases w)
      case (Inl e)
      then have eq': "(if e = ECHILD then poll_gone pid timeout stop_at iv s1
          else Some (Inl (OSError e), s1)) = Some q"
        using eq w Inl by (cases "e = ECHILD") (auto simp: waitpid_d_run s1_def no)
      show ?thesis
      proof (cases "e = ECHILD")
        case True
        then have "polled pid timeout stop_at flags s1 q"
          using eq' pre by (auto intro: poll_gone_polled)
        then show ?thesis using c1 by (auto intro: polled_from)
      next
        case False
        then show ?thesis using eq' c1 by (auto simp: polled_def)
      qed
    next
      case (Inr v)
      obtain retpid status where v: "v = (retpid, status)" by (cases v)
      show ?thesis
      proof (cases "retpid = 0")
        case False
        then have "q = (case convert_exit_code status of Inl e \<Rightarrow> Inl e | Inr c \<Rightarrow> Inr (Some c), s1)"
          using eq w Inr v by (simp add: waitpid_d_run s1_def no)
        moreover have "\<not> is_TimeoutExpired e" if "convert_exit_code status = Inl e" for e
          using that by (auto simp: status_defs split: if_splits)
        ultimately show ?thesis
          using c1 w Inr v False by (auto simp: polled_def s1_def split: sum.splits)
      next
        case True
        obtain r2 s2 where r2: "sleep_or_timeout timeout stop_at iv s1 = (r2, s2)"
          by (cases "sleep_or_timeout timeout stop_at iv s1")
        note st = sleep_step [OF r2 pre c1 o1]
        have eq': "(case r2 of Inl e \<Rightarrow> Some (Inl e, s2) | Inr iv' \<Rightarrow> f pid timeout stop_at flags iv' s2) = Some q"
          using eq w Inr v True r2 by (simp add: waitpid_d_run s1_def no split: sum.splits)
        show ?thesis
        proof (cases r2)
          case (Inl e)
          then show ?thesis using st eq' by auto
        next
          case r2': (Inr iv')
          with IH st eq' have "polled pid timeout stop_at flags s2 q" by auto
          then show ?thesis using st r2' by (auto intro: polled_from)
        qed
      qed
    qed
  qed
  then show ?thesis using assms(2) by blast
qed

lemma wait_pid_posix_polled:
  assumes ret: "wait_pid_posix pid timeout s = Some q" and "0 < pid"
  obtains (blocking) "timeout = None" "polled pid None None 0 s q"
  | (once) "timeout = Some 0" "polled pid (Some 0) None WNOHANG s q"
  | (until) x where "timeout = Some x" "x \<noteq> 0"
      "polled pid (Some x) (Some (fadd (os_now (sys_os s) (hist s)) x)) WNOHANG s q"
proof (cases timeout)
  case None
  then have "wait_loop pid None None 0 wait_interval s = Some q"
    using ret by (simp add: wait_pid_posix_def)
  moreover have "loop_pre pid None None wait_interval"
    using assms(2) by (simp add: loop_pre_def max_interval_bounds)
  ultimately show ?thesis using None by (intro blocking wait_loop_polled)
next
  case (Some x)
  show ?thesis
  proof (cases "x = 0")
    case True
    then have "wait_loop pid (Some 0) None WNOHANG wait_interval s = Some q"
      using ret Some by (simp add: wait_pid_posix_def)
    moreover have "loop_pre pid (Some 0) None wait_interval"
      using assms(2) by (simp add: loop_pre_def max_interval_bounds)
    ultimately show ?thesis using Some True by (intro once wait_loop_polled) auto
  next
    case False
    let ?T = "Some (fadd (os_now (sys_os s) (hist s)) x)"
    have "wait_loop pid (Some x) ?T WNOHANG wait_interval (s\<lparr>hist := SNow # hist s\<rparr>) = Some q"
      using ret Some False by (simp add: wait_pid_posix_def monotonic_def)
    moreover have "loop_pre pid (Some x) ?T wait_interval"
      using assms(2) False by (simp add: loop_pre_def max_interval_bounds)
    ultimately have "polled pid (Some x) ?T WNOHANG (s\<lparr>hist := SNow # hist s\<rparr>) q"
      by (rule wait_loop_polled)
    moreover have "confined (poll_calls pid WNOHANG) s (s\<lparr>hist := SNow # hist s\<rparr>)"
      by (rule confined_call) (simp add: poll_calls_def)
    ultimately have "polled pid (Some x) ?T WNOHANG s q" by (metis polled_from)
    then show ?thesis using Some False by (intro until)
  qed
qed

text \<open>
  C28: when \<open>wait_pid_posix\<close> returns or raises, it has only polled: it called \<open>waitpid\<close> (with
  \<open>WNOHANG\<close> exactly when there is a timeout) and sent the null signal, read the clock and slept never
  longer than \<open>max_interval\<close>; it raises \<open>TimeoutExpired\<close> only if a timeout was given, carrying that
  timeout, and, unless it is 0, only after a reading of the clock at or past the deadline; an integer
  is the decoded status \<open>waitpid\<close> has just returned for the process; and \<open>None\<close> is returned only when
  the pid has just been found not to exist.
\<close>

theorem wait_pid_posix_contract:
  assumes "wait_pid_posix pid timeout s = Some (r, t)" and "0 < pid"
  shows "confined (poll_calls pid (wait_flags timeout)) s t
    \<and> (\<forall>e. r = Inl e \<and> is_TimeoutExpired e \<longrightarrow> (\<exists>x. timeout = Some x \<and> e = TimeoutExpired x None None
         \<and> (x = 0 \<or> (\<exists>h. hist t = SNow # h
              \<and> fadd (os_now (sys_os s) (hist s)) x \<le> os_now (sys_os s) h))))
    \<and> (r = Inr None \<longrightarrow> (\<exists>d. hist t = SKill pid 0 # d @ hist s \<and> os_kill (sys_os s) (d @ hist s) pid 0 = Inl ESRCH))
    \<and> (\<forall>c. r = Inr (Some c) \<longrightarrow> (\<exists>d w st. hist t = SWaitpid pid (wait_flags timeout) # d @ hist s
         \<and> os_waitpid (sys_os s) (d @ hist s) pid (wait_flags timeout) = Inr (w, st) \<and> w \<noteq> 0
         \<and> convert_exit_code st = Inr c))"
proof -
  obtain stop_at where p: "polled pid timeout stop_at (wait_flags timeout) s (r, t)"
    and T: "\<And>x. timeout = Some x \<Longrightarrow> x \<noteq> 0 \<Longrightarrow> stop_at = Some (fadd (os_now (sys_os s) (hist s)) x)"
  proof (rule wait_pid_posix_polled [OF assms])
    assume "timeout = None" "polled pid None None 0 s (r, t)"
    then show thesis by (intro that [of None]) (simp_all add: wait_flags_def)
  next
    assume "timeout = Some 0" "polled pid (Some 0) None WNOHANG s (r, t)"
    then show thesis by (intro that [of None]) (simp_all add: wait_flags_def)
  next
    fix x assume "timeout = Some x"
      "polled pid (Some x) (Some (fadd (os_now (sys_os s) (hist s)) x)) WNOHANG s (r, t)"
    then show thesis
      by (intro that [of "Some (fadd (os_now (sys_os s) (hist s)) x)"]) (simp_all add: wait_flags_def)
  qed
  note p = polled_cases [OF p]
  show ?thesis
  proof (intro conjI allI impI)
    fix e assume e: "r = Inl e \<and> is_TimeoutExpired e"
    then obtain x where "timeout = Some x" "e = TimeoutExpired x None None"
      "x \<noteq> 0 \<longrightarrow> (\<exists>T h. stop_at = Some T \<and> hist t = SNow # h \<and> T \<le> os_now (sys_os s) h)"
      using p(2) by blast
    with T [of x] show "\<exists>x. timeout = Some x \<and> e = TimeoutExpired x None None
         \<and> (x = 0 \<or> (\<exists>h. hist t = SNow # h
              \<and> fadd (os_now (sys_os s) (hist s)) x \<le> os_now (sys_os s) h))"
      by auto
  qed (use p in blast)+
qed

theorem wait_pid_posix_contract_witness:
  "\<exists>t. wait_pid_posix 5 (Some 0) null_sys = Some (Inr None, t)
    \<and> (\<exists>h. hist t = SKill 5 0 # h \<and> os_kill null_os h 5 0 = Inl ESRCH)"
proof -
  let ?t = "null_sys\<lparr>hist := [SKill 5 0, SWaitpid 5 WNOHANG]\<rparr>"
  have run: "wait_pid_posix 5 (Some 0) null_sys = Some (Inr None, ?t)"
    by (simp add: wait_pid_posix_def wait_loop.simps poll_gone.simps posix_pid_exists_def
        waitpid_d_run posix_calls null_os_def)
  show ?thesis using wait_pid_posix_contract [OF run] run by auto
qed

section \<open>Waits with a timeout return\<close>

text \<open>A clock that passes every time when enough calls have been made.\<close>

definition clock_advances :: "os \<Rightarrow> bool" where
  "clock_advances os \<longleftrightarrow> (\<forall>T. \<exists>n. \<forall>h. n \<le> length h \<longrightarrow> T \<le> os_now os h)"

text \<open>
  Which calls the system promises not to block in: \<open>waitpid\<close> with \<open>WNOHANG\<close>, \<open>poll\<close> and
  \<open>kevent\<close> with a timeout that is not negative, and \<open>waitpid\<close> right after \<open>poll\<close> on the pidfd of
  that process, or \<open>kevent\<close> for it, reported that it has terminated.
\<close>

definition bounded_calls :: "os \<Rightarrow> bool" where
  "bounded_calls os \<longleftrightarrow>
     (\<forall>h pid. \<not> os_blocks os h (SWaitpid pid WNOHANG))
   \<and> (\<forall>h fd ms. 0 \<le> ms \<longrightarrow> \<not> os_blocks os h (SPoll fd (Some ms)))
   \<and> (\<forall>h pid x. 0 \<le> x \<longrightarrow> \<not> os_blocks os h (SKevent pid (Some x)))
   \<and> (\<forall>h pid fd t. os_pidfd_open os h pid = Inr fd \<and> os_poll os (SPidfdOpen pid # h) fd t
        \<longrightarrow> \<not> os_blocks os (SPoll fd t # SPidfdOpen pid # h) (SWaitpid pid 0))
   \<and> (\<forall>h pid t. os_kevent os h pid t = Inr True \<longrightarrow> \<not> os_blocks os (SKevent pid t # h) (SWaitpid pid 0))"

definition timed_waits :: "os \<Rightarrow> bool" where
  "timed_waits os \<longleftrightarrow> clock_advances os \<and> bounded_calls os"

lemma bounded_callsD:
  assumes "bounded_calls os"
  shows "\<not> os_blocks os h (SWaitpid pid WNOHANG)"
    and "0 \<le> ms \<Longrightarrow> \<not> os_blocks os h (SPoll fd (Some ms))"
    and "0 \<le> x \<Longrightarrow> \<not> os_blocks os h (SKevent pid (Some x))"
    and "os_pidfd_open os h pid = Inr fd \<Longrightarrow> os_poll os (SPidfdOpen pid # h) fd t
      \<Longrightarrow> \<not> os_blocks os (SPoll fd t # SPidfdOpen pid # h) (SWaitpid pid 0)"
    and "os_kevent os h pid u = Inr True \<Longrightarrow> \<not> os_blocks os (SKevent pid u # h) (SWaitpid pid 0)"
  using assms unfolding bounded_calls_def by blast+

lemma hist_call_length: "length (hist (s\<lparr>hist := c # hist s\<rparr>)) = Suc (length (hist s))"
  by simp

lemma sys_os_call: "sys_os (s\<lparr>hist := h\<rparr>) = sys_os s"
  by simp

lemma sleep_or_timeout_advance:
  assumes "sleep_or_timeout timeout (Some T) iv s = (Inr iv', t)"
  shows "os_now (sys_os s) (hist s) < T" "length (hist s) < length (hist t)" "sys_os t = sys_os s"
  using assms by (auto simp: sleep_or_timeout_def sys_defs split: if_splits)

lemma poll_gone_returns:
  assumes n: "\<forall>h. n \<le> length h \<longrightarrow> T \<le> os_now (sys_os s) h"
  shows "\<exists>q. poll_gone pid timeout (Some T) iv s = Some q"
  using n
proof (induction "n - length (hist s)" arbitrary: s iv rule: less_induct)
  case less
  obtain r u where r: "posix_pid_exists pid s = (r, u)" by (cases "posix_pid_exists pid s")
  obtain r2 v where r2: "sleep_or_timeout timeout (Some T) iv u = (r2, v)"
    by (cases "sleep_or_timeout timeout (Some T) iv u")
  have u: "length (hist s) \<le> length (hist u)" "sys_os u = sys_os s"
    using r by (auto simp: posix_pid_exists_def posix_calls split: if_splits sum.splits)
  show ?case
  proof (cases "r = Inr True \<and> \<not> isl r2")
    case False
    then show ?thesis using r r2
      by (subst poll_gone.simps) (auto split: sum.splits)
  next
    case True
    then obtain iv' where iv': "r2 = Inr iv'" by (cases r2) auto
    note adv = sleep_or_timeout_advance [OF r2 [unfolded iv']]
    have "length (hist u) < n" using less.prems adv(1) u(2) by (metis not_less)
    then have "n - length (hist v) < n - length (hist s)" using adv(2) u(1) by linarith
    then have "\<exists>q. poll_gone pid timeout (Some T) iv' v = Some q"
      using less.prems adv(3) u(2) by (intro less.hyps) auto
    then show ?thesis using True r r2 iv' by (subst poll_gone.simps) simp
  qed
qed

lemma wait_loop_returns:
  assumes n: "\<forall>h. n \<le> length h \<longrightarrow> T \<le> os_now (sys_os s) h"
    and bl: "\<forall>h. \<not> os_blocks (sys_os s) h (SWaitpid pid flags)"
  shows "\<exists>q. wait_loop pid timeout (Some T) flags iv s = Some q"
  using n bl
proof (induction "n - length (hist s)" arbitrary: s iv rule: less_induct)
  case less
  let ?u = "s\<lparr>hist := SWaitpid pid flags # hist s\<rparr>"
  obtain r2 v where r2: "sleep_or_timeout timeout (Some T) iv ?u = (r2, v)"
    by (cases "sleep_or_timeout timeout (Some T) iv ?u")
  obtain w where w: "os_waitpid (sys_os s) (hist s) pid flags = w" by simp
  show ?case
  proof (cases "\<exists>st. w = Inr (0, st) \<and> \<not> isl r2")
    case False
    then show ?thesis using w r2 poll_gone_returns [of n T ?u pid timeout iv] less.prems
      by (subst wait_loop.simps) (auto simp: waitpid_d_run split: sum.splits prod.splits)
  next
    case True
    then obtain st iv' where iv': "w = Inr (0, st)" "r2 = Inr iv'" by (cases r2) auto
    note adv = sleep_or_timeout_advance [OF r2 [unfolded iv']]
    have "Suc (length (hist s)) < n" using less.prems adv(1)
      by (metis not_less hist_call_length sys_os_call)
    then have "n - length (hist v) < n - length (hist s)" using adv(2) by simp
    then have "\<exists>q. wait_loop pid timeout (Some T) flags iv' v = Some q"
      using less.prems adv(3) by (intro less.hyps) auto
    then show ?thesis using w r2 iv' less.prems by (subst wait_loop.simps) (simp add: waitpid_d_run)
  qed
qed

lemma wait_loop_once_returns:
  assumes "\<not> os_blocks (sys_os s) (hist s) (SWaitpid pid flags)"
  shows "\<exists>q. wait_loop pid (Some 0) None flags iv s = Some q"
proof -
  have "\<exists>e v. sleep_or_timeout (Some 0) None iv u = (Inl e, v)" for u :: "'a sys_scheme"
    by (simp add: sleep_or_timeout_def)
  moreover have "\<exists>q. poll_gone pid (Some 0) None iv u = Some q" for u :: "'a sys_scheme"
    by (subst poll_gone.simps) (auto simp: sleep_or_timeout_def split: sum.splits prod.splits)
  ultimately show ?thesis using assms
    by (subst wait_loop.simps) (auto simp: waitpid_d_run sleep_or_timeout_def split: sum.splits prod.splits)
qed

lemma wait_pid_posix_returns:
  assumes "timed_waits (sys_os s)"
  shows "\<exists>q. wait_pid_posix pid (Some x) s = Some q"
proof -
  have bl: "\<forall>h. \<not> os_blocks (sys_os s) h (SWaitpid pid WNOHANG)"
    using assms by (simp add: timed_waits_def bounded_callsD)
  show ?thesis
  proof (cases "x = 0")
    case True
    then show ?thesis using wait_loop_once_returns [of s pid WNOHANG wait_interval] bl by (simp add: wait_pid_posix_def)
  next
    case False
    obtain n where "\<forall>h. n \<le> length h \<longrightarrow> fadd (os_now (sys_os s) (hist s)) x \<le> os_now (sys_os s) h"
      using assms unfolding timed_waits_def clock_advances_def by blast
    then show ?thesis using False bl
      using wait_loop_returns [of n "fadd (os_now (sys_os s) (hist s)) x" "s\<lparr>hist := SNow # hist s\<rparr>" pid WNOHANG]
      by (simp add: wait_pid_posix_def monotonic_def)
  qed
qed

lemma finally_d_None [simp]: "finally_d r m = None \<longleftrightarrow> r = None"
  by (auto simp: finally_d_def split: sum.splits prod.splits option.splits)

lemma reap_returns:
  assumes "timed_waits (sys_os s)" "\<not> os_blocks (sys_os s) (hist s) (SWaitpid pid 0)"
  shows "reap pid (Some x) s \<noteq> None"
proof -
  have "wait_pid_posix pid (Some x) (s\<lparr>hist := SWaitpid pid 0 # hist s\<rparr>) \<noteq> None"
    using wait_pid_posix_returns [of "s\<lparr>hist := SWaitpid pid 0 # hist s\<rparr>"] assms by auto
  then show ?thesis using assms(2)
    by (simp add: reap_def waitpid_d_run split: sum.splits prod.splits)
qed

lemma trunc_ms_nonneg: "0 \<le> x \<Longrightarrow> 0 \<le> trunc_int (fmul x 1000)"
  by (simp add: trunc_int_def fmul_def fl_nonneg)

lemma wait_pid_pidfd_open_returns:
  assumes "timed_waits (sys_os s)" and "0 \<le> x"
  shows "wait_pid_pidfd_open pid (Some x) s \<noteq> None"
proof (cases "os_pidfd_open (sys_os s) (hist s) pid")
  case (Inl e)
  have "wait_pid_posix pid (Some x) (s\<lparr>hist := h\<rparr>) \<noteq> None" for h
    using wait_pid_posix_returns [of "s\<lparr>hist := h\<rparr>"] assms by auto
  then show ?thesis using Inl by (simp add: wait_pid_pidfd_open_def posix_calls del: not_None_eq)
next
  case (Inr fd)
  let ?ms = "trunc_int (fmul x 1000)"
  let ?h = "SPoll fd (Some ?ms) # SPidfdOpen pid # hist s"
  have b: "bounded_calls (sys_os s)" using assms(1) by (simp add: timed_waits_def)
  have "\<not> os_blocks (sys_os s) (SPidfdOpen pid # hist s) (SPoll fd (Some ?ms))"
    using bounded_callsD(2) [OF b] trunc_ms_nonneg [OF assms(2)] by blast
  moreover have "reap pid (Some x) (s\<lparr>hist := ?h\<rparr>) \<noteq> None"
    if "os_poll (sys_os s) (SPidfdOpen pid # hist s) fd (Some ?ms)"
    using bounded_callsD(4) [OF b Inr that] assms(1) by (intro reap_returns) simp_all
  ultimately show ?thesis using Inr
    by (simp add: wait_pid_pidfd_open_def poll_d_def may_block_def posix_calls Let_def del: not_None_eq)
qed

lemma wait_pid_kqueue_returns:
  assumes "timed_waits (sys_os s)" and "0 \<le> x"
  shows "wait_pid_kqueue pid (Some x) s \<noteq> None"
proof -
  let ?h = "SKqueue # hist s"
  have b: "bounded_calls (sys_os s)" using assms(1) by (simp add: timed_waits_def)
  have "wait_pid_posix pid (Some x) (s\<lparr>hist := h\<rparr>) \<noteq> None" for h
    using wait_pid_posix_returns [of "s\<lparr>hist := h\<rparr>"] assms by auto
  moreover have "reap pid (Some x) (s\<lparr>hist := SKevent pid (Some x) # ?h\<rparr>) \<noteq> None"
    if "os_kevent (sys_os s) ?h pid (Some x) = Inr True"
    using bounded_callsD(5) [OF b that] assms(1) by (intro reap_returns) simp_all
  moreover have "\<not> os_blocks (sys_os s) ?h (SKevent pid (Some x))"
    using bounded_callsD(3) [OF b assms(2)] .
  ultimately show ?thesis
    by (simp add: wait_pid_kqueue_def kevent_d_def may_block_def posix_calls del: not_None_eq split: sum.splits)
qed

section \<open>The contract of a wait\<close>

text \<open>
  Whichever way the caller waits, it relies on two things: where the value returned comes
  from, and that a wait with a timeout comes back.  The calls of all three ways: a wait on a
  descriptor passes its timeout on, \<open>poll\<close> in milliseconds.
\<close>

definition wait_calls :: "int \<Rightarrow> flt option \<Rightarrow> syscall set" where
  "wait_calls pid timeout = poll_calls pid (wait_flags timeout) \<union> {SPidfdOpen pid, SKqueue, SKqClose, SWaitpid pid 0}
     \<union> {SPoll fd (map_option (\<lambda>x. trunc_int (fmul x 1000)) timeout) | fd. True}
     \<union> {SKevent pid timeout} \<union> {SClose fd | fd. True}"

text \<open>
  What was seen since the history was \<open>h0\<close>: that the pid does not exist, or a status of the
  process that decodes to \<open>c\<close>.
\<close>

definition gone_seen :: "os \<Rightarrow> syscall list \<Rightarrow> syscall list \<Rightarrow> int \<Rightarrow> bool" where
  "gone_seen os h0 hs pid \<longleftrightarrow> (\<exists>a b. hs = a @ SKill pid 0 # b @ h0 \<and> os_kill os (b @ h0) pid 0 = Inl ESRCH)"

definition exit_seen :: "os \<Rightarrow> syscall list \<Rightarrow> syscall list \<Rightarrow> int \<Rightarrow> int \<Rightarrow> bool" where
  "exit_seen os h0 hs pid c \<longleftrightarrow> (\<exists>a b f w st. hs = a @ SWaitpid pid f # b @ h0
     \<and> os_waitpid os (b @ h0) pid f = Inr (w, st) \<and> w \<noteq> 0 \<and> convert_exit_code st = Inr c)"

definition wait_outcome :: "int \<Rightarrow> flt option \<Rightarrow> 'z sys_scheme \<Rightarrow> (exn + int option) \<times> 'z sys_scheme \<Rightarrow> bool" where
  "wait_outcome pid timeout s q \<longleftrightarrow> (case q of (r, t) \<Rightarrow>
     confined (wait_calls pid timeout) s t \<and>
     (r = Inr None \<longrightarrow> gone_seen (sys_os s) (hist s) (hist t) pid) \<and>
     (\<forall>c. r = Inr (Some c) \<longrightarrow> exit_seen (sys_os s) (hist s) (hist t) pid c))"

lemma gone_seen_Cons: "gone_seen os h0 hs pid \<Longrightarrow> gone_seen os h0 (x # hs) pid"
proof (unfold gone_seen_def, elim exE conjE)
  fix a b assume "hs = a @ SKill pid 0 # b @ h0" "os_kill os (b @ h0) pid 0 = Inl ESRCH"
  then show "\<exists>a b. x # hs = a @ SKill pid 0 # b @ h0 \<and> os_kill os (b @ h0) pid 0 = Inl ESRCH"
    by (intro exI [of _ "x # a"] exI [of _ b]) simp
qed

lemma exit_seen_Cons: "exit_seen os h0 hs pid c \<Longrightarrow> exit_seen os h0 (x # hs) pid c"
proof (unfold exit_seen_def, elim exE conjE)
  fix a b f w st
  assume "hs = a @ SWaitpid pid f # b @ h0" "os_waitpid os (b @ h0) pid f = Inr (w, st)" "w \<noteq> 0"
    "convert_exit_code st = Inr c"
  then show "\<exists>a b f w st. x # hs = a @ SWaitpid pid f # b @ h0
     \<and> os_waitpid os (b @ h0) pid f = Inr (w, st) \<and> w \<noteq> 0 \<and> convert_exit_code st = Inr c"
    by (intro exI [of _ "x # a"] exI [of _ b] exI [of _ f] exI [of _ w] exI [of _ st]) simp
qed

lemma gone_seen_since: "gone_seen os (d @ h0) hs pid \<Longrightarrow> gone_seen os h0 hs pid"
proof (unfold gone_seen_def, elim exE conjE)
  fix a b assume "hs = a @ SKill pid 0 # b @ d @ h0" "os_kill os (b @ d @ h0) pid 0 = Inl ESRCH"
  then show "\<exists>a b. hs = a @ SKill pid 0 # b @ h0 \<and> os_kill os (b @ h0) pid 0 = Inl ESRCH"
    by (intro exI [of _ a] exI [of _ "b @ d"]) simp
qed

lemma exit_seen_since: "exit_seen os (d @ h0) hs pid c \<Longrightarrow> exit_seen os h0 hs pid c"
proof (unfold exit_seen_def, elim exE conjE)
  fix a b f w st
  assume "hs = a @ SWaitpid pid f # b @ d @ h0" "os_waitpid os (b @ d @ h0) pid f = Inr (w, st)" "w \<noteq> 0"
    "convert_exit_code st = Inr c"
  then show "\<exists>a b f w st. hs = a @ SWaitpid pid f # b @ h0
     \<and> os_waitpid os (b @ h0) pid f = Inr (w, st) \<and> w \<noteq> 0 \<and> convert_exit_code st = Inr c"
    by (intro exI [of _ a] exI [of _ "b @ d"] exI [of _ f] exI [of _ w] exI [of _ st]) simp
qed

lemma gone_seen_now: "os_kill os (d @ h0) pid 0 = Inl ESRCH \<Longrightarrow> gone_seen os h0 (SKill pid 0 # d @ h0) pid"
  unfolding gone_seen_def by (intro exI [of _ "[]"] exI [of _ d]) simp

lemma exit_seen_now:
  "os_waitpid os (d @ h0) pid f = Inr (w, st) \<Longrightarrow> w \<noteq> 0 \<Longrightarrow> convert_exit_code st = Inr c
   \<Longrightarrow> exit_seen os h0 (SWaitpid pid f # d @ h0) pid c"
  unfolding exit_seen_def
  by (intro exI [of _ "[]"] exI [of _ d] exI [of _ f] exI [of _ w] exI [of _ st]) simp

lemma exit_seen_range: "exit_seen os h0 hs pid c \<Longrightarrow> - 126 \<le> c \<and> c \<le> 255"
proof -
  assume "exit_seen os h0 hs pid c"
  then obtain st where st: "convert_exit_code st = Inr c" by (auto simp: exit_seen_def)
  have "0 \<le> st mod 128" "st mod 128 < 128" "0 \<le> (st div 256) mod 256" "(st div 256) mod 256 < 256"
    by simp_all
  then show ?thesis using st by (auto simp: status_defs split: if_splits)
qed

lemma wait_outcome_err: "wait_outcome pid timeout s (Inl e, t) \<longleftrightarrow> confined (wait_calls pid timeout) s t"
  by (simp add: wait_outcome_def)

lemma wait_outcome_from:
  assumes c: "confined (wait_calls pid timeout) s u" and "wait_outcome pid timeout u (r, t)"
  shows "wait_outcome pid timeout s (r, t)"
proof -
  obtain d where "sys_os u = sys_os s" "hist u = d @ hist s" using c by (auto simp: confined_def)
  then show ?thesis using assms(2) confined_trans [OF c]
    by (auto simp: wait_outcome_def intro: gone_seen_since exit_seen_since)
qed

lemma wait_outcome_to:
  assumes "wait_outcome pid timeout s (r, u)" and "x \<in> wait_calls pid timeout"
  shows "wait_outcome pid timeout s (r, u\<lparr>hist := x # hist u\<rparr>)"
proof -
  have "confined (wait_calls pid timeout) s (u\<lparr>hist := x # hist u\<rparr>)"
    using assms by (auto simp: wait_outcome_def intro: confined_trans confined_call)
  then show ?thesis using assms(1) unfolding wait_outcome_def
    by (simp add: gone_seen_Cons exit_seen_Cons)
qed

lemma wait_pid_posix_outcome:
  assumes "wait_pid_posix pid timeout s = Some (r, t)" "0 < pid"
  shows "wait_outcome pid timeout s (r, t)"
proof -
  obtain stop_at where p: "polled pid timeout stop_at (wait_flags timeout) s (r, t)"
    by (rule wait_pid_posix_polled [OF assms]) (simp_all add: wait_flags_def that)
  note p = polled_cases [OF p]
  have "poll_calls pid (wait_flags timeout) \<subseteq> wait_calls pid timeout" by (auto simp: wait_calls_def)
  then have "confined (wait_calls pid timeout) s t" using p(1) by (auto intro: confined_mono)
  moreover have "gone_seen (sys_os s) (hist s) (hist t) pid" if "r = Inr None"
    using p(3) [OF that] by (auto intro: gone_seen_now)
  moreover have "exit_seen (sys_os s) (hist s) (hist t) pid c" if "r = Inr (Some c)" for c
    using p(4) [OF that] by (auto intro: exit_seen_now)
  ultimately show ?thesis by (simp add: wait_outcome_def)
qed

lemma wait_calls_intros:
  "SWaitpid pid 0 \<in> wait_calls pid timeout" "SPidfdOpen pid \<in> wait_calls pid timeout"
  "SPoll fd (map_option (\<lambda>x. trunc_int (fmul x 1000)) timeout) \<in> wait_calls pid timeout"
  "SKevent pid timeout \<in> wait_calls pid timeout" "SClose fd \<in> wait_calls pid timeout" "SKqueue \<in> wait_calls pid timeout"
  "SKqClose \<in> wait_calls pid timeout"
  by (simp_all add: wait_calls_def)

lemma wait_outcome_step:
  assumes "x \<in> wait_calls pid timeout" "wait_outcome pid timeout (s\<lparr>hist := x # hist s\<rparr>) (r, t)"
  shows "wait_outcome pid timeout s (r, t)"
  using confined_call [OF assms(1)] assms(2) by (rule wait_outcome_from)

lemma reap_outcome:
  assumes run: "reap pid timeout s = Some (r, t)" and "0 < pid"
  shows "wait_outcome pid timeout s (r, t)"
proof -
  let ?u = "s\<lparr>hist := SWaitpid pid 0 # hist s\<rparr>"
  have c: "confined (wait_calls pid timeout) s ?u" by (intro confined_call wait_calls_intros)
  have no: "\<not> os_blocks (sys_os s) (hist s) (SWaitpid pid 0)"
    using run by (simp add: reap_def waitpid_d_run split: if_splits)
  obtain w where w: "os_waitpid (sys_os s) (hist s) pid 0 = w" by simp
  consider (fall) "w = Inl ECHILD" | (err) e where "w = Inl e" "e \<noteq> ECHILD"
    | (ok) v st where "w = Inr (v, st)" by (cases w) auto
  then show ?thesis
  proof cases
    case fall
    then have "wait_pid_posix pid timeout ?u = Some (r, t)"
      using run w by (simp add: reap_def waitpid_d_run no)
    then have "wait_outcome pid timeout ?u (r, t)" using assms(2) by (rule wait_pid_posix_outcome)
    then show ?thesis by (rule wait_outcome_step [OF wait_calls_intros(1)])
  next
    case err
    then show ?thesis using run w c by (auto simp: reap_def waitpid_d_run no wait_outcome_err)
  next
    case ok
    then have "t = ?u \<and> (r = Inl AssertionError \<or> (\<exists>e. r = Inl e) \<or> v \<noteq> 0 \<and> (\<exists>x. convert_exit_code st = Inr x \<and> r = Inr (Some x)))"
      using run w by (auto simp: reap_def waitpid_d_run no split: if_splits sum.splits)
    then show ?thesis using c w ok using exit_seen_now [of "sys_os s" "[]"] by (auto simp: wait_outcome_def)
  qed
qed

lemma finally_outcome:
  assumes run: "finally_d b m = Some (r, t)"
    and m: "\<And>u. m u = (Inr (), u\<lparr>hist := x # hist u\<rparr>)" and x: "x \<in> wait_calls pid timeout"
    and b: "\<And>r u. b = Some (r, u) \<Longrightarrow> wait_outcome pid timeout s (r, u)"
  shows "wait_outcome pid timeout s (r, t)"
proof (cases b)
  case None
  then show ?thesis using run by (simp add: finally_d_def)
next
  case (Some q)
  obtain r' u where q: "q = (r', u)" by (cases q)
  have "r' = r" "t = u\<lparr>hist := x # hist u\<rparr>" using run Some q m by (simp_all add: finally_d_def)
  then show ?thesis using wait_outcome_to [OF b x] Some q by simp
qed

lemma wait_pid_pidfd_open_outcome:
  assumes run: "wait_pid_pidfd_open pid timeout s = Some (r, t)" and "0 < pid"
  shows "wait_outcome pid timeout s (r, t)"
proof -
  let ?u = "s\<lparr>hist := SPidfdOpen pid # hist s\<rparr>"
  have "wait_outcome pid timeout ?u (r, t)"
  proof (cases "os_pidfd_open (sys_os s) (hist s) pid")
    case (Inl e)
    then show ?thesis using run assms(2)
      by (auto simp: wait_pid_pidfd_open_def posix_calls intro: wait_pid_posix_outcome)
  next
    case (Inr fd)
    define ms where "ms = map_option (\<lambda>x. trunc_int (fmul x 1000)) timeout"
    let ?v = "?u\<lparr>hist := SPoll fd ms # hist ?u\<rparr>"
    let ?b = "case poll_d fd ms ?u of None \<Rightarrow> None | Some (Inl e, s2) \<Rightarrow> Some (Inl e, s2)
      | Some (Inr events, s2) \<Rightarrow> if \<not> events then Some (Inl (mk_TimeoutExpired (secs_of timeout) None None), s2)
          else reap pid timeout s2"
    have c: "confined (wait_calls pid timeout) ?u ?v"
      unfolding ms_def by (intro confined_call wait_calls_intros)
    have "wait_outcome pid timeout ?u (q, w)" if b: "?b = Some (q, w)" for q w
    proof -
      consider "reap pid timeout ?v = Some (q, w)" | e where "(q, w) = (Inl e, ?v)"
        using b by (cases "os_poll (sys_os s) (hist ?u) fd ms"; cases "os_blocks (sys_os s) (hist ?u) (SPoll fd ms)")
          (auto simp: poll_d_def may_block_def poll_call_def)
      then show ?thesis
      proof cases
        case 1
        show ?thesis by (rule wait_outcome_from [OF c reap_outcome [OF 1 assms(2)]])
      next
        case 2
        then show ?thesis using c by (simp add: wait_outcome_err)
      qed
    qed
    moreover have "finally_d ?b (close_call fd) = Some (r, t)"
      using run Inr by (simp add: wait_pid_pidfd_open_def pidfd_open_call_def ms_def)
    ultimately show ?thesis
      by (rule finally_outcome [where m = "close_call fd" and x = "SClose fd", rotated -1])
        (simp_all add: close_call_def wait_calls_intros)
  qed
  then show ?thesis by (rule wait_outcome_step [OF wait_calls_intros(2)])
qed

lemma wait_pid_kqueue_outcome:
  assumes run: "wait_pid_kqueue pid timeout s = Some (r, t)" and "0 < pid"
  shows "wait_outcome pid timeout s (r, t)"
proof -
  let ?u = "s\<lparr>hist := SKqueue # hist s\<rparr>" and ?v = "s\<lparr>hist := SKevent pid timeout # SKqueue # hist s\<rparr>"
  have c: "confined (wait_calls pid timeout) ?u ?v"
    using confined_call [of "SKevent pid timeout" "wait_calls pid timeout" ?u] by (simp add: wait_calls_intros)
  have "wait_outcome pid timeout ?u (r, t)"
  proof (cases "os_kqueue (sys_os s) (hist s)")
    case (Inl e)
    then show ?thesis using run assms(2)
      by (auto simp: wait_pid_kqueue_def posix_calls intro: wait_pid_posix_outcome)
  next
    case (Inr x)
    show ?thesis
    proof (rule finally_outcome [where m = kq_close_call and x = SKqClose])
      show "finally_d (case kevent_d pid timeout ?u of
             None \<Rightarrow> None
           | Some (Inl e, s2) \<Rightarrow>
               if errno_of e \<in> {Some EACCES, Some EPERM, Some ESRCH}
               then wait_pid_posix pid timeout s2 else Some (Inl e, s2)
           | Some (Inr events, s2) \<Rightarrow>
               if \<not> events then Some (Inl (mk_TimeoutExpired (secs_of timeout) None None), s2)
               else reap pid timeout s2) kq_close_call = Some (r, t)"
        using run Inr by (simp add: wait_pid_kqueue_def kqueue_call_def)
    next
      fix q w
      assume b: "(case kevent_d pid timeout ?u of
             None \<Rightarrow> None
           | Some (Inl e, s2) \<Rightarrow>
               if errno_of e \<in> {Some EACCES, Some EPERM, Some ESRCH}
               then wait_pid_posix pid timeout s2 else Some (Inl e, s2)
           | Some (Inr events, s2) \<Rightarrow>
               if \<not> events then Some (Inl (mk_TimeoutExpired (secs_of timeout) None None), s2)
               else reap pid timeout s2) = Some (q, w)"
      consider "wait_pid_posix pid timeout ?v = Some (q, w)" | "reap pid timeout ?v = Some (q, w)"
        | e where "(q, w) = (Inl e, ?v)"
        using b by (auto simp: kevent_d_def may_block_def kevent_call_def split: sum.splits if_splits)
      then show "wait_outcome pid timeout ?u (q, w)"
        by cases (use c assms(2) in \<open>auto simp: wait_outcome_err
            intro: wait_outcome_from [OF c] wait_pid_posix_outcome reap_outcome\<close>)
    qed (simp_all add: kq_close_call_def wait_calls_intros)
  qed
  then show ?thesis by (rule wait_outcome_step [OF wait_calls_intros(6)])
qed

locale waiter =
  fixes wait :: "int \<Rightarrow> flt option \<Rightarrow> 'z sys_scheme \<Rightarrow> ('z sys_scheme, int option) result"
  assumes wait_outcome: "0 < pid \<Longrightarrow> wait pid timeout s = Some (r, t) \<Longrightarrow> wait_outcome pid timeout s (r, t)"
    and wait_returns: "0 < pid \<Longrightarrow> 0 \<le> x \<Longrightarrow> timed_waits (sys_os s) \<Longrightarrow> wait pid (Some x) s \<noteq> None"
begin

lemma wait_confined: "0 < pid \<Longrightarrow> wait pid timeout s = Some (r, t) \<Longrightarrow> confined (wait_calls pid timeout) s t"
  by (drule (1) wait_outcome) (simp add: wait_outcome_def)

lemma wait_code_range:
  "0 < pid \<Longrightarrow> wait pid timeout s = Some (Inr (Some c), t) \<Longrightarrow> - 126 \<le> c \<and> c \<le> 255"
  by (drule (1) wait_outcome) (auto simp: wait_outcome_def dest: exit_seen_range)

lemma wait_gone:
  "0 < pid \<Longrightarrow> wait pid timeout s = Some (Inr None, t) \<Longrightarrow> gone_seen (sys_os s) (hist s) (hist t) pid"
  by (drule (1) wait_outcome) (simp add: wait_outcome_def)

lemma wait_result:
  assumes "0 < pid" "0 \<le> x" "timed_waits (sys_os s)"
  obtains r t where "wait pid (Some x) s = Some (r, t)" "wait_outcome pid (Some x) s (r, t)"
  using wait_returns [OF assms] wait_outcome [OF assms(1)] by (cases "wait pid (Some x) s") auto

end

interpretation posix: waiter wait_pid_posix
  by unfold_locales (use wait_pid_posix_outcome wait_pid_posix_returns in blast)+

interpretation pidfd: waiter wait_pid_pidfd_open
  by unfold_locales (use wait_pid_pidfd_open_outcome wait_pid_pidfd_open_returns in blast)+

interpretation kqueue: waiter wait_pid_kqueue
  by unfold_locales (use wait_pid_kqueue_outcome wait_pid_kqueue_returns in blast)+

interpretation wp: waiter "wait_pid can_pidfd can_kqueue" for can_pidfd can_kqueue
proof
  fix pid :: int and timeout and s t :: "'a sys_scheme" and r
  assume "0 < pid" "wait_pid can_pidfd can_kqueue pid timeout s = Some (r, t)"
  then show "wait_outcome pid timeout s (r, t)"
    by (auto simp: wait_pid_def wait_outcome_err confined_refl
        intro: posix.wait_outcome pidfd.wait_outcome kqueue.wait_outcome split: if_splits)
next
  fix pid :: int and x :: flt and s :: "'a sys_scheme"
  assume a: "0 < pid" "0 \<le> x" "timed_waits (sys_os s)"
  then show "wait_pid can_pidfd can_kqueue pid (Some x) s \<noteq> None"
    using posix.wait_returns [OF a] pidfd.wait_returns [OF a] kqueue.wait_returns [OF a]
    by (simp add: wait_pid_def)
qed

text \<open>
  C23: on a system whose clock keeps advancing, and which may block for ever in \<open>waitpid\<close>, \<open>poll\<close>
  and \<open>kevent\<close> except where they are asked not to wait, are given a timeout, or were told that the
  process has terminated, a \<open>wait_pid\<close> with a timeout comes back, whichever way it waits.  It has done
  nothing but wait for that pid, passing its timeout on, and what it returns is either the decoded
  status of a \<open>waitpid\<close> made during the wait, between -126 and 255, or \<open>None\<close> after the pid was found
  during the wait not to exist.
\<close>

theorem wait_pid_returns:
  assumes "timed_waits (sys_os s)" and "0 < pid" and "0 \<le> x"
  shows "\<exists>r t. wait_pid can_pidfd can_kqueue pid (Some x) s = Some (r, t)
    \<and> confined (wait_calls pid (Some x)) s t
    \<and> (r = Inr None \<longrightarrow> gone_seen (sys_os s) (hist s) (hist t) pid)
    \<and> (\<forall>c. r = Inr (Some c) \<longrightarrow> - 126 \<le> c \<and> c \<le> 255 \<and> exit_seen (sys_os s) (hist s) (hist t) pid c)"
proof -
  obtain r t where run: "wait_pid can_pidfd can_kqueue pid (Some x) s = Some (r, t)"
    and out: "wait_outcome pid (Some x) s (r, t)"
    by (rule wp.wait_result [OF assms(2,3,1)])
  have "confined (wait_calls pid (Some x)) s t" "r = Inr None \<Longrightarrow> gone_seen (sys_os s) (hist s) (hist t) pid"
    "\<And>c. r = Inr (Some c) \<Longrightarrow> exit_seen (sys_os s) (hist s) (hist t) pid c"
    using out by (simp_all add: wait_outcome_def)
  with run exit_seen_range [of "sys_os s" "hist s" "hist t" pid] show ?thesis by metis
qed

lemma null_clock: "clock_advances null_os"
  unfolding clock_advances_def
proof
  fix T :: flt
  show "\<exists>n. \<forall>h. n \<le> length h \<longrightarrow> T \<le> os_now null_os h"
  proof (intro exI allI impI)
    fix h :: "syscall list" assume "nat \<lceil>T\<rceil> \<le> length h"
    then have "T \<le> of_nat (length h)" by linarith
    then show "T \<le> os_now null_os h" by (simp add: null_os_def)
  qed
qed

text \<open>
  A system that blocks wherever it may: in \<open>waitpid\<close> without \<open>WNOHANG\<close>, unless \<open>poll\<close> has just
  returned, and in \<open>poll\<close> and \<open>kevent\<close> without a timeout.
\<close>

definition after_poll :: "syscall list \<Rightarrow> bool" where
  "after_poll h = (case h of SPoll _ _ # _ \<Rightarrow> True | _ \<Rightarrow> False)"

definition hangs :: "syscall list \<Rightarrow> syscall \<Rightarrow> bool" where
  "hangs h c = (case c of SWaitpid _ f \<Rightarrow> f \<noteq> WNOHANG \<and> \<not> after_poll h
     | SPoll _ t \<Rightarrow> t = None | SKevent _ t \<Rightarrow> t = None | _ \<Rightarrow> False)"

definition strict_os :: os where
  "strict_os = null_os\<lparr>os_blocks := hangs, os_pidfd_open := \<lambda>h p. Inr 3, os_poll := \<lambda>h f t. True,
     os_waitpid := \<lambda>h p f. Inr (p, exited_status 3)\<rparr>"

lemma timed_null: "timed_waits null_os"
proof -
  have "os_blocks null_os = (\<lambda>h c. False)" by (simp add: null_os_def)
  then have "bounded_calls null_os" by (simp add: bounded_calls_def)
  then show ?thesis using null_clock by (simp add: timed_waits_def)
qed

lemma timed_strict: "timed_waits strict_os"
proof -
  have "os_blocks strict_os = hangs" "os_kevent strict_os = (\<lambda>h p t. Inl ENOSYS)"
    by (simp_all add: strict_os_def null_os_def)
  then have "bounded_calls strict_os" by (simp add: bounded_calls_def hangs_def after_poll_def)
  moreover have "clock_advances strict_os" using null_clock by (simp add: clock_advances_def strict_os_def)
  ultimately show ?thesis by (simp add: timed_waits_def)
qed

theorem wait_pid_returns_witness:
  "\<exists>r t. wait_pid True False 7 (Some (3 / 2)) (null_sys\<lparr>sys_os := strict_os\<rparr>) = Some (r, t)
     \<and> confined (wait_calls 7 (Some (3 / 2))) (null_sys\<lparr>sys_os := strict_os\<rparr>) t"
  using wait_pid_returns [of "null_sys\<lparr>sys_os := strict_os\<rparr>" 7 "3 / 2" True False] timed_strict by auto

end
