(* ===== verification/Posix_Files.thy ===== *)
theory Posix_Files
  imports Ntuples
begin

text \<open>
  The rest of \<open>psutil/_psposix.py\<close>: disk usage and terminal names.  \<open>_get_terminal_map\<close>
  is wrapped in \<open>functools.lru_cache\<close>, so its result is module state: the field
  \<open>tty_cache\<close> of \<open>psx\<close>.
\<close>

section \<open>Disk usage\<close>

definition statvfs_call :: "string \<Rightarrow> ('z sys_scheme, statvfs_result) py" where
  "statvfs_call p = sys_call (SStatvfs p) (\<lambda>os h. os_statvfs os h p)"

definition disk_usage :: "string \<Rightarrow> ('z sys_scheme, sdiskusage) py" where
  "disk_usage path = bnd (statvfs_call path) (\<lambda>st.
     let tot = f_blocks st * f_frsize st;
         avail_to_root = f_bfree st * f_frsize st;
         avail_to_user = f_bavail st * f_frsize st;
         used = tot - avail_to_root;
         total_user = used + avail_to_user
     in ret \<lparr>du_total = tot, du_used = used, du_free = avail_to_user,
             du_percent = usage_percent used total_user (Some 1)\<rparr>)"

text \<open>What \<open>statvfs(2)\<close> promises of its counters.\<close>

definition statvfs_ok :: "statvfs_result \<Rightarrow> bool" where
  "statvfs_ok st \<longleftrightarrow> 0 \<le> f_bavail st \<and> f_bavail st \<le> f_bfree st \<and> f_bfree st \<le> f_blocks st
     \<and> 0 \<le> f_frsize st"

text \<open>
  For counters as \<open>statvfs(2)\<close> gives them, the used and the free space of a disk are
  non-negative and together at most the total (the difference is what is reserved for
  root), and the percentage lies between 0 and 100.
\<close>

theorem disk_usage_consistent:
  assumes "disk_usage path s = (Inr u, t)"
    and "\<forall>st. os_statvfs (sys_os s) (hist s) path = Inr st \<longrightarrow> statvfs_ok st"
  shows "0 \<le> du_used u \<and> 0 \<le> du_free u \<and> du_used u + du_free u \<le> du_total u
    \<and> 0 \<le> du_percent u \<and> du_percent u \<le> 100"
proof -
  obtain st where st: "os_statvfs (sys_os s) (hist s) path = Inr st"
    using assms(1) by (cases "os_statvfs (sys_os s) (hist s) path")
      (auto simp: disk_usage_def statvfs_call_def)
  define k where "k = f_frsize st"
  have ok: "0 \<le> f_bavail st * k" "f_bavail st * k \<le> f_bfree st * k"
    "f_bfree st * k \<le> f_blocks st * k"
    using assms(2) st by (auto simp: statvfs_ok_def k_def mult_right_mono)
  let ?used = "f_blocks st * k - f_bfree st * k"
  have u: "u = \<lparr>du_total = f_blocks st * k, du_used = ?used, du_free = f_bavail st * k,
     du_percent = usage_percent ?used (?used + f_bavail st * k) (Some 1)\<rparr>"
    using assms(1) st by (simp add: disk_usage_def statvfs_call_def k_def Let_def)
  have "0 \<le> usage_percent ?used (?used + f_bavail st * k) (Some 1)
      \<and> usage_percent ?used (?used + f_bavail st * k) (Some 1) \<le> 100"
    by (rule usage_percent_bounds) (use ok in linarith)+
  then show ?thesis using u ok by simp
qed

theorem disk_usage_consistent_witness:
  "let st = \<lparr>f_blocks = 1000, f_bfree = 300, f_bavail = 250, f_frsize = 4096\<rparr>;
       s = null_sys\<lparr>sys_os := null_os\<lparr>os_statvfs := \<lambda>h p. Inr st\<rparr>\<rparr>;
       u = projr (fst (disk_usage ''/'' s))
   in 0 \<le> du_used u \<and> 0 \<le> du_free u \<and> du_used u + du_free u \<le> du_total u
      \<and> 0 \<le> du_percent u \<and> du_percent u \<le> 100"
proof -
  let ?st = "\<lparr>f_blocks = 1000, f_bfree = 300, f_bavail = 250, f_frsize = 4096\<rparr>"
  let ?s = "null_sys\<lparr>sys_os := null_os\<lparr>os_statvfs := \<lambda>h p. Inr ?st\<rparr>\<rparr>"
  obtain u t where u: "disk_usage ''/'' ?s = (Inr u, t)"
    by (simp add: disk_usage_def statvfs_call_def Let_def)
  have "\<forall>st. os_statvfs (sys_os ?s) (hist ?s) ''/'' = Inr st \<longrightarrow> statvfs_ok st"
    by (simp add: statvfs_ok_def)
  from disk_usage_consistent [OF u this] u show ?thesis by (simp add: Let_def)
qed

section \<open>Terminals\<close>

record psx = sys +
  tty_cache :: "(int, string) dict option"

text \<open>
  The body of \<open>_get_terminal_map()\<close>.  Its \<open>assert name not in ret\<close> compares a path with
  the keys, which are device numbers, so it never fails.
\<close>

definition build_terminal_map :: "('z sys_scheme, (int, string) dict) py" where
  "build_terminal_map =
     bnd (glob_call ''/dev/tty*'') (\<lambda>a. bnd (glob_call ''/dev/pts/*'') (\<lambda>b.
     for_each (a @ b) (\<lambda>name ret'.
       try_else (stat_call name)
         (\<lambda>e. if is_FileNotFoundError e then ret ret' else raise e)
         (\<lambda>st. ret (AList.update (st_rdev st) name ret'))) []))"

definition get_terminal_map :: "('z psx_scheme, (int, string) dict) py" where
  "get_terminal_map = bnd (gets tty_cache) (\<lambda>c. case c of
       Some m \<Rightarrow> ret m
     | None \<Rightarrow> bnd build_terminal_map (\<lambda>m.
         bnd (modify (\<lambda>s. s\<lparr>tty_cache := Some m\<rparr>)) (\<lambda>_. ret m)))"

definition terminal_cache_clear :: "('z psx_scheme, unit) py" where
  "terminal_cache_clear = modify (\<lambda>s. s\<lparr>tty_cache := None\<rparr>)"

definition get_terminal :: "int \<Rightarrow> ('z psx_scheme, string option) py" where
  "get_terminal tty_nr = bnd get_terminal_map (\<lambda>tmap.
     case map_of tmap tty_nr of
       Some name \<Rightarrow> ret (Some name)
     | None \<Rightarrow> bnd terminal_cache_clear (\<lambda>_.
         bnd get_terminal_map (\<lambda>m. ret (map_of m tty_nr))))"

text \<open>A map is right about the devices when each of its names was seen with that number.\<close>

definition tty_known :: "os \<Rightarrow> (int, string) dict \<Rightarrow> bool" where
  "tty_known os m \<longleftrightarrow> (\<forall>n name. map_of m n = Some name \<longrightarrow>
     (\<exists>h st. os_stat os h name = Inr st \<and> st_rdev st = n))"

lemma build_loop_known:
  assumes "for_each names (\<lambda>name ret'.
       try_else (stat_call name)
         (\<lambda>e. if is_FileNotFoundError e then ret ret' else raise e)
         (\<lambda>st. ret (AList.update (st_rdev st) name ret'))) acc s = (Inr m, t)"
    and "tty_known (sys_os s) acc"
  shows "tty_known (sys_os s) m \<and> sys_os t = sys_os s"
  using assms
proof (induction names arbitrary: acc s)
  case Nil
  then show ?case by simp
next
  case (Cons name names)
  let ?s = "s\<lparr>hist := SStat name # hist s\<rparr>"
  show ?case
  proof (cases "os_stat (sys_os s) (hist s) name")
    case (Inl e)
    with Cons.prems(1) have "e = ENOENT"
      by (cases "e = ENOENT") (simp_all add: stat_call_def)
    with Inl Cons.prems Cons.IH [of acc ?s] show ?thesis by (simp add: stat_call_def)
  next
    case (Inr st)
    have "tty_known (sys_os ?s) (AList.update (st_rdev st) name acc)"
      using Cons.prems(2) Inr by (auto simp: tty_known_def)
    with Inr Cons.prems(1) Cons.IH [of "AList.update (st_rdev st) name acc" ?s] show ?thesis
      by (simp add: stat_call_def)
  qed
qed

lemma build_terminal_map_known:
  assumes "build_terminal_map s = (Inr m, t)"
  shows "tty_known (sys_os s) m \<and> sys_os t = sys_os s"
proof -
  have "tty_known (sys_os s) []" by (simp add: tty_known_def)
  with assms show ?thesis
    by (auto simp: build_terminal_map_def glob_call_def dest!: build_loop_known)
qed

definition tty_cache_ok :: "'z psx_scheme \<Rightarrow> bool" where
  "tty_cache_ok s \<longleftrightarrow> (\<forall>m. tty_cache s = Some m \<longrightarrow> tty_known (sys_os s) m)"

lemma get_terminal_map_ok:
  assumes "get_terminal_map s = (Inr m, t)" "tty_cache_ok s"
  shows "tty_known (sys_os s) m \<and> tty_cache t = Some m \<and> sys_os t = sys_os s"
proof (cases "tty_cache s")
  case None
  with assms show ?thesis
    by (auto simp: get_terminal_map_def bnd_Inr simp del: bnd_run dest!: build_terminal_map_known)
next
  case (Some m')
  with assms show ?thesis by (simp add: get_terminal_map_def tty_cache_ok_def)
qed

text \<open>
  \<open>get_terminal\<close> only names devices that were found with that device number, from the
  cache or after rebuilding it once, and leaves a cache that is again right; when it
  answers \<open>None\<close>, the map it leaves has just been rebuilt without that number.
\<close>

theorem get_terminal_correct:
  assumes "get_terminal tty_nr s = (Inr r, t)" and "tty_cache_ok s"
  shows "(\<forall>name. r = Some name \<longrightarrow> (\<exists>h st. os_stat (sys_os s) h name = Inr st \<and> st_rdev st = tty_nr))
    \<and> tty_cache_ok t \<and> (\<exists>m. tty_cache t = Some m \<and> map_of m tty_nr = r)"
proof -
  obtain m u where m: "get_terminal_map s = (Inr m, u)"
    using assms(1) by (auto simp: get_terminal_def bnd_Inr simp del: bnd_run)
  note mk = get_terminal_map_ok [OF m assms(2)]
  show ?thesis
  proof (cases "map_of m tty_nr")
    case (Some name)
    with assms(1) m have "r = Some name" "t = u" by (simp_all add: get_terminal_def)
    with mk Some show ?thesis by (auto simp: tty_known_def tty_cache_ok_def)
  next
    case None
    let ?u = "u\<lparr>tty_cache := None\<rparr>"
    have "bnd get_terminal_map (\<lambda>m. ret (map_of m tty_nr)) ?u = (Inr r, t)"
      using assms(1) m None by (simp add: get_terminal_def terminal_cache_clear_def)
    then obtain m' v where m': "get_terminal_map ?u = (Inr m', v)" and "ret (map_of m' tty_nr) v = (Inr r, t)"
      by (rule bndE)
    then have r: "r = map_of m' tty_nr" "t = v" by simp_all
    have "tty_cache_ok ?u" by (simp add: tty_cache_ok_def)
    from get_terminal_map_ok [OF m' this] mk r show ?thesis
      by (auto simp: tty_known_def tty_cache_ok_def)
  qed
qed

definition null_psx :: psx where
  "null_psx = sys.extend null_sys (psx.fields None)"

lemma null_psx_simps [simp]:
  "sys_os null_psx = null_os" "hist null_psx = []" "procfs_path null_psx = ''/proc''"
  "tty_cache null_psx = None"
  by (simp_all add: null_psx_def null_sys_def sys.defs psx.defs)

theorem get_terminal_correct_witness:
  "let os = null_os\<lparr>os_glob := \<lambda>h p. if p = ''/dev/pts/*'' then [''/dev/pts/0''] else [],
                   os_stat := \<lambda>h p. Inr \<lparr>st_isreg = False, st_dev = (0, 5), st_rdev = 34816\<rparr>\<rparr>
   in \<exists>t. get_terminal 34816 (null_psx\<lparr>sys_os := os\<rparr>) = (Inr (Some ''/dev/pts/0''), t) \<and> tty_cache_ok t"
proof -
  let ?os = "null_os\<lparr>os_glob := \<lambda>h p. if p = ''/dev/pts/*'' then [''/dev/pts/0''] else [],
                   os_stat := \<lambda>h p. Inr \<lparr>st_isreg = False, st_dev = (0, 5), st_rdev = 34816\<rparr>\<rparr>"
  let ?s = "null_psx\<lparr>sys_os := ?os\<rparr>"
  obtain t where t: "get_terminal 34816 ?s = (Inr (Some ''/dev/pts/0''), t)"
    by (simp add: get_terminal_def get_terminal_map_def build_terminal_map_def sys_defs)
  have "tty_cache_ok ?s" by (simp add: tty_cache_ok_def)
  from get_terminal_correct [OF t this] t show ?thesis by (simp add: Let_def)
qed

end
