(* ===== verification/Linux_Utils.thy ===== *)
theory Linux_Utils
  imports Posix_Files
begin

unbundle bit_operations_syntax

text \<open>
  The constants and helpers at the top of \<open>psutil/_pslinux.py\<close>, and two things the parsers
  of this module share: a loop over lines that may raise, and Python's mixed arithmetic on
  integers and floats.
\<close>

section \<open>Loops that may raise\<close>

fun foldE :: "('a \<Rightarrow> 'b \<Rightarrow> exn + 'b) \<Rightarrow> 'a list \<Rightarrow> 'b \<Rightarrow> exn + 'b" where
  "foldE f [] acc = Inr acc"
| "foldE f (x # xs) acc = bindE (f x acc) (foldE f xs)"

lemma foldE_append: "foldE f (xs @ ys) acc = bindE (foldE f xs acc) (foldE f ys)"
  by (induction xs arbitrary: acc) (auto simp: bindE_def split: sum.splits)

lemma foldE_inv:
  assumes "foldE f xs acc = Inr r" "P acc"
    and "\<And>x a b. x \<in> set xs \<Longrightarrow> P a \<Longrightarrow> f x a = Inr b \<Longrightarrow> P b"
  shows "P r"
  using assms
proof (induction xs arbitrary: acc)
  case Nil
  then show ?case by simp
next
  case (Cons x xs)
  then obtain b where b: "f x acc = Inr b" "foldE f xs b = Inr r" by (auto simp: bindE_eq_Inr)
  show ?case
  proof (rule Cons.IH [OF b(2)])
    show "P b" using Cons.prems(3) [OF _ Cons.prems(2) b(1)] by simp
  next
    fix y a c assume "y \<in> set xs" "P a" "f y a = Inr c"
    then show "P c" using Cons.prems(3) [of y a c] by simp
  qed
qed

lemma for_each_inv:
  assumes "for_each xs f acc s = (Inr r, t)" "P acc"
    and "\<And>x a u b v. x \<in> set xs \<Longrightarrow> P a \<Longrightarrow> f x a u = (Inr b, v) \<Longrightarrow> P b"
  shows "P r"
  using assms
proof (induction xs arbitrary: acc s)
  case Nil
  then show ?case by simp
next
  case (Cons x xs)
  then obtain b u where b: "f x acc s = (Inr b, u)" "for_each xs f b u = (Inr r, t)"
    by (auto simp: bnd_Inr simp del: bnd_run)
  show ?case
  proof (rule Cons.IH [OF b(2)])
    show "P b" using Cons.prems(3) [OF _ Cons.prems(2) b(1)] by simp
  next
    fix y a w c v assume "y \<in> set xs" "P a" "f y a w = (Inr c, v)"
    then show "P c" using Cons.prems(3) [of y a w c v] by simp
  qed
qed

lemma fold_insert_inv:
  assumes "\<forall>x \<in> set xs. P (f x)" "distinct acc" "\<forall>y \<in> set acc. P y"
  shows "distinct (fold (\<lambda>x acc. List.insert (f x) acc) xs acc)
    \<and> (\<forall>y \<in> set (fold (\<lambda>x acc. List.insert (f x) acc) xs acc). P y)"
  using assms
proof (induction xs arbitrary: acc)
  case (Cons x xs)
  have "\<forall>x \<in> set xs. P (f x)" "distinct (List.insert (f x) acc)"
    "\<forall>y \<in> set (List.insert (f x) acc). P y" using Cons.prems by auto
  from Cons.IH [OF this] show ?case by simp
qed simp

lemma split_ws_append_blank: "ws c \<Longrightarrow> split_ws (s @ [c]) = split_ws s"
proof -
  assume c: "ws c"
  have "split_acc cur (s @ [c]) = split_acc cur s" for cur
    using c by (induction s arbitrary: cur) simp_all
  then show ?thesis by (simp add: split_ws_def)
qed

lemma split_ws_strip: "split_ws (strip s) = split_ws s"
proof -
  have l: "split_ws (lstrip s) = split_ws s" for s
    by (induction s) (simp_all add: lstrip_def split_ws_blank)
  have r: "split_ws (rstrip s) = split_ws s" for s
  proof (induction s rule: rev_induct)
    case (snoc c s)
    then show ?case by (cases "ws c") (simp_all add: rstrip_def split_ws_append_blank)
  qed (simp add: rstrip_def)
  show ?thesis by (simp add: strip_def l r)
qed

lemma py_int_nat_str: "py_int (nat_str n) = Inr (int n)"
  using py_int_int_str [of "int n"] by (simp add: int_str_def)

lemma mapE_py_int_nat_str: "mapE py_int (map nat_str ns) = Inr (map int ns)"
  by (induction ns) (simp_all add: py_int_nat_str)

lemma py_float_nat_str: "py_float (nat_str n) = Inr (fl (of_nat n))"
proof -
  have d: "list_all is_digit (nat_str n)" "nat_str n \<noteq> []" using nat_str_digits by auto
  then have "list_all is_numchar (nat_str n)" by (auto simp: list_all_iff is_numchar_def)
  then have tw: "takeWhile is_numchar (nat_str n) = nat_str n" "dropWhile is_numchar (nat_str n) = []"
    by (auto simp: list_all_iff takeWhile_eq_all_conv)
  then show ?thesis using d
    by (simp add: py_float_def split_sign_digits digits_val_nat_str Let_def tw)
qed

text \<open>\<open>d[k]\<close>.\<close>

definition dict_item :: "('k, 'v) dict \<Rightarrow> 'k \<Rightarrow> exn + 'v" where
  "dict_item d k = of_option KeyError (map_of d k)"

section \<open>Numbers that are integers or floats\<close>

datatype pynum = PyI int | PyF flt

fun num_val :: "pynum \<Rightarrow> rat" where
  "num_val (PyI i) = of_int i"
| "num_val (PyF x) = x"

fun num_float :: "pynum \<Rightarrow> flt" where
  "num_float (PyI i) = fint i"
| "num_float (PyF x) = x"

fun num_add :: "pynum \<Rightarrow> pynum \<Rightarrow> pynum" where
  "num_add (PyI i) (PyI j) = PyI (i + j)"
| "num_add a b = PyF (fadd (num_float a) (num_float b))"

fun num_sub :: "pynum \<Rightarrow> pynum \<Rightarrow> pynum" where
  "num_sub (PyI i) (PyI j) = PyI (i - j)"
| "num_sub a b = PyF (fsub (num_float a) (num_float b))"

text \<open>\<open>min(a, b)\<close> keeps \<open>a\<close> unless \<open>b\<close> is smaller; Python compares exactly.\<close>

definition num_min :: "pynum \<Rightarrow> pynum \<Rightarrow> pynum" where
  "num_min a b = (if num_val b < num_val a then b else a)"

fun num_int :: "pynum \<Rightarrow> int" where
  "num_int (PyI i) = i"
| "num_int (PyF x) = trunc_int x"

text \<open>\<open>i / n\<close> for integers: the quotient correctly rounded.\<close>

definition int_truediv :: "int \<Rightarrow> int \<Rightarrow> flt" where
  "int_truediv i n = fl (of_int i / of_int n)"

section \<open>Constants\<close>

definition DISK_SECTOR_SIZE :: int where "DISK_SECTOR_SIZE = 512"

definition POWER_SUPPLY_PATH :: string where
  "POWER_SUPPLY_PATH = ''/sys/class/power_supply''"

definition RLIM_INFINITY :: int where "RLIM_INFINITY = -1"
definition RLIM_INFINITY_UNSIGNED :: int where
  "RLIM_INFINITY_UNSIGNED = RLIM_INFINITY AND 0xFFFFFFFFFFFFFFFF"

definition PROC_STATUSES :: "(string, ProcessStatus) dict" where
  "PROC_STATUSES = [
     (''R'', STATUS_RUNNING), (''S'', STATUS_SLEEPING), (''D'', STATUS_DISK_SLEEP),
     (''T'', STATUS_STOPPED), (''t'', STATUS_TRACING_STOP), (''Z'', STATUS_ZOMBIE),
     (''X'', STATUS_DEAD), (''x'', STATUS_DEAD), (''K'', STATUS_WAKE_KILL),
     (''W'', STATUS_WAKING), (''I'', STATUS_IDLE), (''P'', STATUS_PARKED)]"

definition TCP_STATUSES :: "(string, ConnectionStatus) dict" where
  "TCP_STATUSES = [
     (''01'', CONN_ESTABLISHED), (''02'', CONN_SYN_SENT), (''03'', CONN_SYN_RECV),
     (''04'', CONN_FIN_WAIT1), (''05'', CONN_FIN_WAIT2), (''06'', CONN_TIME_WAIT),
     (''07'', CONN_CLOSE), (''08'', CONN_CLOSE_WAIT), (''09'', CONN_LAST_ACK),
     (''0A'', CONN_LISTEN), (''0B'', CONN_CLOSING)]"

section \<open>Paths\<close>

text \<open>\<open>os.path.join(p, q)\<close>, \<open>basename\<close> and \<open>dirname\<close>.\<close>

definition pjoin :: "string \<Rightarrow> string \<Rightarrow> string" where
  "pjoin p q = (if startswith q ''/'' then q else if p = [] \<or> endswith p ''/'' then p @ q
     else p @ CHR ''/'' # q)"

definition basename :: "string \<Rightarrow> string" where
  "basename p = slice_from p (rfind_char (CHR ''/'') p + 1)"

definition dirname :: "string \<Rightarrow> string" where
  "dirname p = (let head = slice p 0 (rfind_char (CHR ''/'') p + 1) in
     if list_all (\<lambda>c. c = CHR ''/'') head then head
     else rev (dropWhile (\<lambda>c. c = CHR ''/'') (rev head)))"

section \<open>Helpers\<close>

definition readlink :: "string \<Rightarrow> ('z sys_scheme, string) py" where
  "readlink path = bnd (os_readlink_call path) (\<lambda>p0.
     let p = takeWhile (\<lambda>c. c \<noteq> nul) p0 in
     if endswith p '' (deleted)''
     then bnd (path_exists_strict p) (\<lambda>ex. ret (if \<not> ex then slice p 0 (- 10) else p))
     else ret p)"

lemma pres_readlink [pres_intros]: "pres (confined read_calls) (readlink p)"
  unfolding readlink_def Let_def by (intro pres_intros)

text \<open>\<open>s.replace(p, q, 1)\<close> and \<open>s.replace(p, q)\<close>.\<close>

definition replace_first :: "string \<Rightarrow> string \<Rightarrow> string \<Rightarrow> string" where
  "replace_first p q s = (case find_sub p s of None \<Rightarrow> s
     | Some i \<Rightarrow> take i s @ q @ drop (i + length p) s)"

definition replace_all :: "string \<Rightarrow> string \<Rightarrow> string \<Rightarrow> string" where
  "replace_all p q s = join q (split_str p s)"

definition O_RDONLY :: int where "O_RDONLY = 0"
definition O_WRONLY :: int where "O_WRONLY = 1"
definition O_RDWR :: int where "O_RDWR = 2"
definition O_APPEND :: int where "O_APPEND = 1024"

definition file_flags_to_mode :: "int \<Rightarrow> exn + string" where
  "file_flags_to_mode flags =
     bindE (dict_item [(O_RDONLY, ''r''), (O_WRONLY, ''w''), (O_RDWR, ''w+'')]
              (flags AND (O_RDONLY OR O_WRONLY OR O_RDWR))) (\<lambda>mode0.
     let mode = (if flags AND O_APPEND \<noteq> 0 then replace_first ''w'' ''a'' mode0 else mode0)
     in Inr (replace_all ''w+'' ''r+'' mode))"

definition is_storage_device :: "string \<Rightarrow> ('z sys_scheme, bool) py" where
  "is_storage_device name = access_call
     (''/sys/block/'' @ map (\<lambda>c. if c = CHR ''/'' then CHR ''!'' else c) name)"

lemma pres_is_storage_device [pres_intros]: "pres (confined read_calls) (is_storage_device p)"
  unfolding is_storage_device_def by (intro pres_intros)

text \<open>
  \<open>file_flags_to_mode\<close> names the access mode in the low two bits of the flags and
  whether the file is opened for appending; only the access mode 3 has no name.
\<close>

theorem file_flags_to_mode_cases:
  "file_flags_to_mode flags =
     (if flags mod 4 = 0 then Inr ''r''
      else if flags mod 4 = 1 then Inr (if odd (flags div 1024) then ''a'' else ''w'')
      else if flags mod 4 = 2 then Inr (if odd (flags div 1024) then ''a+'' else ''r+'')
      else Inl KeyError)"
proof -
  have low: "flags AND 3 = flags mod 4"
  proof -
    have "flags AND 3 = take_bit 2 flags" by (simp add: take_bit_eq_mask mask_eq_exp_minus_1)
    then show ?thesis by (simp add: take_bit_eq_mod)
  qed
  have app: "(flags AND O_APPEND \<noteq> 0) = odd (flags div 1024)"
  proof -
    have "(flags AND 2 ^ 10 \<noteq> 0) = bit flags 10" by (simp add: bit_iff_and_push_bit_not_eq_0 push_bit_eq_mult)
    then show ?thesis by (simp add: O_APPEND_def bit_iff_odd)
  qed
  have r: "replace_first ''w'' ''a'' ''r'' = ''r''" "replace_first ''w'' ''a'' ''w'' = ''a''"
    "replace_first ''w'' ''a'' ''w+'' = ''a+''"
    by (simp_all add: replace_first_def startswith_def)
  have a: "replace_all ''w+'' ''r+'' ''r'' = ''r''" "replace_all ''w+'' ''r+'' ''w'' = ''w''"
    "replace_all ''w+'' ''r+'' ''a'' = ''a''" "replace_all ''w+'' ''r+'' ''a+'' = ''a+''"
    "replace_all ''w+'' ''r+'' ''w+'' = ''r+''"
    by (simp_all add: replace_all_def split_str.simps startswith_def)
  have "0 \<le> flags mod 4" "flags mod 4 < 4" by simp_all
  then have "flags mod 4 = 0 \<or> flags mod 4 = 1 \<or> flags mod 4 = 2 \<or> flags mod 4 = 3" by linarith
  then show ?thesis
    by (elim disjE) (simp_all add: file_flags_to_mode_def low app dict_item_def r a
        O_RDONLY_def O_WRONLY_def O_RDWR_def)
qed

end
