(* ===== verification/Linux_Memory.thy ===== *)
theory Linux_Memory
  imports Linux_Utils
begin

text \<open>
  System memory of \<open>psutil/_pslinux.py\<close>: \<open>virtual_memory\<close>, its fallback estimate
  \<open>calculate_avail_vmem\<close>, and \<open>swap_memory\<close>.  Warnings are shown as the list of metrics
  they name.
\<close>

section \<open>\<open>/proc/meminfo\<close>\<close>

definition meminfo_line :: "string \<Rightarrow> (string, int) dict \<Rightarrow> exn + (string, int) dict" where
  "meminfo_line line mems =
     bindE (of_option ValueError (split1 (CHR '':'') line)) (\<lambda>(key, value).
     bindE (item (split_ws value) 0) (\<lambda>w. bindE (py_int w) (\<lambda>n.
       Inr (AList.update (key @ '':'') (n * 1024) mems))))"

definition parse_meminfo :: "string \<Rightarrow> exn + (string, int) dict" where
  "parse_meminfo data = foldE meminfo_line (lines data) []"

definition zoneinfo_line :: "string \<Rightarrow> int \<Rightarrow> exn + int" where
  "zoneinfo_line line watermark_low =
     (let l = strip line in
      if startswith l ''low''
      then bindE (item (split_ws l) 1) (\<lambda>w. bindE (py_int w) (\<lambda>n. Inr (watermark_low + n)))
      else Inr watermark_low)"

text \<open>The estimate from the parsed numbers: ints and floats mix as in Python.\<close>

definition estimate_avail :: "int \<Rightarrow> int \<Rightarrow> int \<Rightarrow> int \<Rightarrow> int \<Rightarrow> int" where
  "estimate_avail free watermark_low active_file inactive_file slab =
     (let w = PyI watermark_low;
          avail = PyI (free - watermark_low);
          pagecache = PyI (active_file + inactive_file);
          pagecache1 = num_sub pagecache (num_min (PyF (int_truediv (active_file + inactive_file) 2)) w);
          avail1 = num_add avail pagecache1;
          avail2 = num_add avail1
            (num_sub (PyI slab) (num_min (PyF (int_truediv slab 2)) w))
      in num_int avail2)"

definition calculate_avail_vmem :: "(string, int) dict \<Rightarrow> ('z sys_scheme, int) py" where
  "calculate_avail_vmem mems =
     bnd (liftE (dict_item mems ''MemFree:'')) (\<lambda>free.
     let fallback = free + dict_get mems ''Cached:'' 0 in
     case (map_of mems ''Active(file):'', map_of mems ''Inactive(file):'', map_of mems ''SReclaimable:'') of
       (Some active, Some inactive, Some slab) \<Rightarrow>
         bnd get_procfs_path (\<lambda>p.
         try_else (read_file (p @ ''/zoneinfo''))
           (\<lambda>e. if is_OSError e then ret fallback else raise e)
           (\<lambda>data. bnd (liftE (foldE zoneinfo_line (lines data) 0)) (\<lambda>low.
              bnd (sys_const os_pagesize) (\<lambda>page.
              ret (estimate_avail free (low * page) active inactive slab)))))
     | _ \<Rightarrow> ret fallback)"

text \<open>A metric and, when it is not there, its name for the warning.\<close>

definition metric :: "string \<Rightarrow> int option \<Rightarrow> int \<times> string list" where
  "metric name x = (case x of None \<Rightarrow> (0, [name]) | Some v \<Rightarrow> (v, []))"

fun or_else :: "'a option \<Rightarrow> 'a option \<Rightarrow> 'a option" where
  "or_else None y = y"
| "or_else (Some x) y = Some x"

definition sum3 :: "int option \<Rightarrow> int option \<Rightarrow> int option \<Rightarrow> int option" where
  "sum3 a b c = (case (a, b, c) of (Some x, Some y, Some z) \<Rightarrow> Some (x + y + z) | _ \<Rightarrow> None)"

text \<open>\<open>virtual_memory()\<close>, and the metrics its warning names.\<close>

definition virtual_memory_warn :: "('z sys_scheme, svmem \<times> string list) py" where
  "virtual_memory_warn =
     bnd get_procfs_path (\<lambda>p. bnd (read_file (p @ ''/meminfo'')) (\<lambda>data.
     bnd (liftE (parse_meminfo data)) (\<lambda>mems.
     bnd (liftE (dict_item mems ''MemTotal:'')) (\<lambda>tot.
     bnd (liftE (dict_item mems ''MemFree:'')) (\<lambda>free.
     let get = map_of mems;
         (buffers, m1) = metric ''buffers'' (get ''Buffers:'');
         (cached, m2) = metric ''cached''
            (map_option (\<lambda>c. c + dict_get mems ''SReclaimable:'' 0) (get ''Cached:''));
         (shared, m3) = metric ''shared'' (or_else (get ''Shmem:'') (get ''MemShared:''));
         (active, m4) = metric ''active'' (get ''Active:'');
         (inactive, m5) = metric ''inactive'' (or_else (get ''Inactive:'')
            (sum3 (get ''Inact_dirty:'') (get ''Inact_clean:'') (get ''Inact_laundry:'')));
         slab = dict_get mems ''Slab:'' 0
     in bnd (case get ''MemAvailable:'' of
               None \<Rightarrow> calculate_avail_vmem mems
             | Some a \<Rightarrow> if a = 0 then calculate_avail_vmem mems else ret a) (\<lambda>avail0.
        let (avail, m6) = (if avail0 < 0 then (0, [''available''])
                           else if tot < avail0 then (free, []) else (avail0, []));
            used = tot - avail;
            percent = usage_percent (tot - avail) tot (Some 1)
        in ret (\<lparr>vm_total = tot, vm_available = avail, vm_percent = percent, vm_used = used,
                 vm_free = free, vm_active = active, vm_inactive = inactive, vm_buffers = buffers,
                 vm_cached = cached, vm_shared = shared, vm_slab = slab\<rparr>,
                m1 @ m2 @ m3 @ m4 @ m5 @ m6)))))))"

definition virtual_memory :: "('z sys_scheme, svmem) py" where
  "virtual_memory = bnd virtual_memory_warn (\<lambda>r. ret (fst r))"

section \<open>Swap\<close>

definition sysinfo_call :: "('z sys_scheme, int \<times> int \<times> int) py" where
  "sysinfo_call = sys_ask SSysinfo os_sysinfo"

definition vmstat_field :: "string \<Rightarrow> exn + int" where
  "vmstat_field line = bindE (item (split_on (CHR '' '') line) 1) (\<lambda>w.
     bindE (py_int w) (\<lambda>n. Inr (n * 4 * 1024)))"

text \<open>The loop over \<open>/proc/vmstat\<close>; its \<open>else\<close> clause is the \<open>None\<close> result.\<close>

fun vmstat_loop :: "string list \<Rightarrow> int option \<Rightarrow> int option \<Rightarrow> exn + (int \<times> int) option" where
  "vmstat_loop [] s_in s_out = Inr None"
| "vmstat_loop (line # ls) s_in s_out =
     bindE (if startswith line ''pswpin''
            then bindE (vmstat_field line) (\<lambda>v. Inr (Some v, s_out))
            else if startswith line ''pswpout''
            then bindE (vmstat_field line) (\<lambda>v. Inr (s_in, Some v))
            else Inr (s_in, s_out)) (\<lambda>(s_in', s_out').
     case (s_in', s_out') of (Some i, Some u) \<Rightarrow> Inr (Some (i, u)) | _ \<Rightarrow> vmstat_loop ls s_in' s_out')"

definition swap_memory :: "('z sys_scheme, sswap) py" where
  "swap_memory =
     bnd get_procfs_path (\<lambda>p. bnd (read_file (p @ ''/meminfo'')) (\<lambda>data.
     bnd (liftE (parse_meminfo data)) (\<lambda>mems.
     bnd (case (map_of mems ''SwapTotal:'', map_of mems ''SwapFree:'') of
            (Some t, Some f) \<Rightarrow> ret (t, f)
          | _ \<Rightarrow> bnd sysinfo_call (\<lambda>(t, f, unit_multiplier). ret (t * unit_multiplier, f * unit_multiplier)))
       (\<lambda>(tot, free).
     let used = tot - free; percent = usage_percent used tot (Some 1) in
     bnd (try_else (read_file (p @ ''/vmstat''))
            (\<lambda>e. if is_OSError e then ret (0, 0) else raise e)
            (\<lambda>vm. bnd (liftE (vmstat_loop (lines vm) None None)) (\<lambda>r. case r of
               None \<Rightarrow> ret (0, 0) | Some v \<Rightarrow> ret v))) (\<lambda>(s_in, s_out).
     ret \<lparr>sw_total = tot, sw_used = used, sw_free = free, sw_percent = percent,
          sw_sin = s_in, sw_sout = s_out\<rparr>)))))"

section \<open>What a result satisfies\<close>

lemma pres_calculate_avail [pres_intros]: "pres (confined read_calls) (calculate_avail_vmem mems)"
  unfolding calculate_avail_vmem_def Let_def
  by (auto intro!: pres_intros split: option.splits)

lemma virtual_memory_shape:
  assumes "virtual_memory s = (Inr m, t)"
  shows "\<exists>avail0. vm_available m = (if avail0 < 0 then 0 else if vm_total m < avail0 then vm_free m else avail0)
     \<and> vm_used m = vm_total m - vm_available m
     \<and> vm_percent m = usage_percent (vm_total m - vm_available m) (vm_total m) (Some 1)"
  using assms
  by (fastforce simp: virtual_memory_def virtual_memory_warn_def bnd_Inr Let_def case_prod_beta
      simp del: bnd_run)

text \<open>
  C34: when the free memory reported lies between 0 and the total, what \<open>virtual_memory\<close>
  calls available is also between 0 and the total however the estimate comes out, used is
  the rest, and the percentage of it is between 0 and 100.
\<close>

theorem virtual_memory_consistent:
  assumes "virtual_memory s = (Inr m, t)" and "0 \<le> vm_free m" "vm_free m \<le> vm_total m"
  shows "0 \<le> vm_available m \<and> vm_available m \<le> vm_total m
    \<and> vm_used m + vm_available m = vm_total m \<and> 0 \<le> vm_percent m \<and> vm_percent m \<le> 100"
proof -
  have a: "0 \<le> vm_available m" "vm_available m \<le> vm_total m"
    "vm_used m = vm_total m - vm_available m"
    "vm_percent m = usage_percent (vm_total m - vm_available m) (vm_total m) (Some 1)"
    using virtual_memory_shape [OF assms(1)] assms(2,3) by (auto split: if_splits)
  have "0 \<le> vm_percent m \<and> vm_percent m \<le> 100"
    unfolding a(4) using a(1,2) by (intro usage_percent_bounds) simp_all
  with a show ?thesis by simp
qed

text \<open>A file as the kernel prints it: a name, a colon, blanks, the number of kilobytes.\<close>

definition meminfo_entry :: "string \<times> nat \<Rightarrow> string" where
  "meminfo_entry kn = fst kn @ CHR '':'' # ''       '' @ nat_str (snd kn) @ '' kB'' @ [nl]"

definition meminfo_ok :: "(string \<times> nat) list \<Rightarrow> bool" where
  "meminfo_ok es \<longleftrightarrow> distinct (map fst es) \<and> (\<forall>e \<in> set es. CHR '':'' \<notin> set (fst e) \<and> nl \<notin> set (fst e))"

lemma meminfo_entry_line:
  assumes "CHR '':'' \<notin> set k"
  shows "meminfo_line (meminfo_entry (k, n)) d = Inr (AList.update (k @ '':'') (int n * 1024) d)"
proof -
  have blanks: "split_ws (''       '' @ w) = split_ws w" for w
    by (rule split_ws_blanks) (simp add: ws_def)
  have "split_ws (nat_str n @ '' kB'' @ [nl]) = nat_str n # split_ws (''kB'' @ [nl])"
    using split_ws_word_blank [of "nat_str n" "CHR '' ''" "''kB'' @ [nl]"] by (simp add: ws_def)
  then show ?thesis using assms blanks [of "nat_str n @ '' kB'' @ [nl]"] py_int_int_str [of "int n"]
    by (simp add: meminfo_line_def meminfo_entry_def split1_append item_def int_str_def)
qed

lemma lines_meminfo:
  assumes "\<forall>e \<in> set es. nl \<notin> set (fst e)"
  shows "lines (concat (map meminfo_entry es)) = map meminfo_entry es"
proof -
  have "meminfo_entry e = (fst e @ '':       '' @ nat_str (snd e) @ '' kB'') @ [nl]" for e
    by (simp add: meminfo_entry_def)
  moreover have "nl \<notin> set (fst e @ '':       '' @ nat_str (snd e) @ '' kB'')" if "e \<in> set es" for e
    using assms that by (auto dest!: set_nat_str simp: is_digit_def)
  ultimately show ?thesis
    using assms
  proof (induction es)
    case (Cons e es)
    then show ?case using lines_line [of "fst e @ '':       '' @ nat_str (snd e) @ '' kB''"] by simp
  qed simp
qed

lemma parse_meminfo_fold:
  assumes "\<forall>e \<in> set es. CHR '':'' \<notin> set (fst e)"
    and "distinct (map fst d @ map (\<lambda>e. fst e @ '':'') es)"
  shows "foldE meminfo_line (map meminfo_entry es) d
     = Inr (d @ map (\<lambda>e. (fst e @ '':'', int (snd e) * 1024)) es)"
  using assms
proof (induction es arbitrary: d)
  case (Cons e es)
  then have "AList.update (fst e @ '':'') (int (snd e) * 1024) d = d @ [(fst e @ '':'', int (snd e) * 1024)]"
    by (intro keys_update_new) auto
  with Cons meminfo_entry_line [of "fst e" "snd e" d] show ?case by simp
qed simp

text \<open>
  \<open>/proc/meminfo\<close> is parsed back exactly: each name printed with its number of
  kilobytes becomes a key with that number of bytes, in the same order.
\<close>

theorem parse_meminfo_roundtrip:
  assumes "meminfo_ok es"
  shows "parse_meminfo (concat (map meminfo_entry es)) = Inr (map (\<lambda>e. (fst e @ '':'', int (snd e) * 1024)) es)"
proof -
  have "distinct (map (\<lambda>e. fst e @ '':'') es)"
    using assms by (simp add: meminfo_ok_def distinct_map inj_on_def)
  then show ?thesis
    using assms parse_meminfo_fold [of es "[]"]
    by (simp add: parse_meminfo_def meminfo_ok_def lines_meminfo)
qed

theorem parse_meminfo_roundtrip_witness:
  "parse_meminfo (concat (map meminfo_entry [(''MemTotal'', 16000), (''MemFree'', 0), (''Active(file)'', 77)]))
   = Inr [(''MemTotal:'', 16384000), (''MemFree:'', 0), (''Active(file):'', 78848)]"
  using parse_meminfo_roundtrip [of "[(''MemTotal'', 16000), (''MemFree'', 0), (''Active(file)'', 77)]"]
  by (simp add: meminfo_ok_def)

definition mem_os :: "(string \<times> nat) list \<Rightarrow> os" where
  "mem_os es = null_os\<lparr>os_read := \<lambda>h p. if p = ''/proc/meminfo'' then Inr (concat (map meminfo_entry es))
     else Inl ENOENT\<rparr>"

theorem virtual_memory_consistent_witness:
  "\<exists>m t. virtual_memory (null_sys\<lparr>sys_os := mem_os
       [(''MemTotal'', 1000), (''MemFree'', 100), (''MemAvailable'', 600), (''Cached'', 300)]\<rparr>) = (Inr m, t)
     \<and> vm_available m \<le> vm_total m \<and> vm_used m = 409600 \<and> vm_percent m \<le> 100"
proof -
  let ?es = "[(''MemTotal'', 1000::nat), (''MemFree'', 100), (''MemAvailable'', 600), (''Cached'', 300)]"
  let ?s = "null_sys\<lparr>sys_os := mem_os ?es\<rparr>"
  have parse: "parse_meminfo (concat (map meminfo_entry ?es))
      = Inr (map (\<lambda>e. (fst e @ '':'', int (snd e) * 1024)) ?es)"
    using lines_meminfo [of ?es] parse_meminfo_fold [of ?es "[]"] by (simp add: parse_meminfo_def)
  obtain m t where run: "virtual_memory ?s = (Inr m, t)"
    and m: "vm_free m = 102400" "vm_total m = 1024000" "vm_used m = 409600"
    using parse
    by (simp add: virtual_memory_def virtual_memory_warn_def sys_defs mem_os_def dict_item_def
        metric_def sum3_def)
  have "vm_available m \<le> vm_total m \<and> vm_percent m \<le> 100"
    using virtual_memory_consistent [OF run] m by simp
  with run m show ?thesis by blast
qed

lemma swap_memory_shape:
  assumes "swap_memory s = (Inr m, t)"
  shows "sw_used m = sw_total m - sw_free m \<and> sw_percent m = usage_percent (sw_used m) (sw_total m) (Some 1)"
  using assms
  by (auto simp: swap_memory_def bnd_Inr Let_def case_prod_beta simp del: bnd_run try_else_run)

end
