(* ===== verification/Linux_Cpu.thy ===== *)
theory Linux_Cpu
  imports Linux_Utils
begin

text \<open>
  CPU times, counts, statistics and frequencies of \<open>psutil/_pslinux.py\<close>.
\<close>

section \<open>CPU times\<close>

definition ticks_of :: "int \<Rightarrow> string list \<Rightarrow> exn + flt list" where
  "ticks_of clk values = mapE (\<lambda>x. bindE (py_float x) (\<lambda>v. fdiv v (fint clk))) (slice values 1 11)"

definition lsget :: "flt list \<Rightarrow> nat \<Rightarrow> flt" where
  "lsget lst idx = (if idx < length lst then lst ! idx else 0)"

definition cpu_times :: "('z sys_scheme, scputimes) py" where
  "cpu_times = bnd get_procfs_path (\<lambda>p. bnd (read_file (p @ ''/stat'')) (\<lambda>data.
     bnd (sys_const os_clock_ticks) (\<lambda>clk.
     bnd (liftE (ticks_of clk (split_ws (readline data)))) (\<lambda>raw.
     case raw of
       user # nice # system # idle # _ \<Rightarrow>
         ret \<lparr>ct_user = user, ct_system = system, ct_idle = idle, ct_nice = nice,
              ct_iowait = lsget raw 4, ct_irq = lsget raw 5, ct_softirq = lsget raw 6,
              ct_steal = lsget raw 7, ct_guest = lsget raw 8, ct_guest_nice = lsget raw 9\<rparr>
     | _ \<Rightarrow> raise ValueError))))"

definition per_cpu_line :: "int \<Rightarrow> string \<Rightarrow> exn + scputimes" where
  "per_cpu_line clk line = bindE (ticks_of clk (split_ws line)) (\<lambda>raw. case raw of
       user # nice # system # idle # rest \<Rightarrow> ct_make (user # system # idle # nice # rest)
     | _ \<Rightarrow> Inl IndexError)"

definition per_cpu_times :: "('z sys_scheme, scputimes list) py" where
  "per_cpu_times = bnd get_procfs_path (\<lambda>p. bnd (read_file (p @ ''/stat'')) (\<lambda>data.
     bnd (sys_const os_clock_ticks) (\<lambda>clk.
     liftE (mapE (per_cpu_line clk) (filter (\<lambda>l. startswith l ''cpu'') (tl (lines data)))))))"

section \<open>CPU lists\<close>

definition cpulist_chunk :: "string \<Rightarrow> int list \<Rightarrow> exn + int list" where
  "cpulist_chunk chunk0 cpus =
     (let chunk = strip chunk0 in
      if chunk = [] then Inr cpus
      else case split1 (CHR ''-'') chunk of
        Some (a, b) \<Rightarrow>
          bindE (py_int a) (\<lambda>start. bindE (py_int b) (\<lambda>end.
          if end < start then Inl ValueError else Inr (cpus @ [start..end])))
      | None \<Rightarrow> bindE (py_int chunk) (\<lambda>n. Inr (cpus @ [n])))"

definition parse_cpulist :: "string \<Rightarrow> exn + int list" where
  "parse_cpulist cpulist =
     (let l = strip cpulist in
      if l = [] then Inr [] else foldE cpulist_chunk (split_on (CHR '','') l) [])"

section \<open>Counting CPUs\<close>

definition nproc_online_call :: "('z sys_scheme, int) py" where
  "nproc_online_call = sys_try SNprocOnline os_nproc_online"

definition count_if :: "('a \<Rightarrow> bool) \<Rightarrow> 'a list \<Rightarrow> int" where
  "count_if P xs = int (length (filter P xs))"

definition cpu_count_logical :: "('z sys_scheme, int option) py" where
  "cpu_count_logical = try_except (bnd nproc_online_call (\<lambda>n. ret (Some n)))
     (\<lambda>e. if e \<noteq> ValueError then raise e else
       bnd get_procfs_path (\<lambda>p. bnd (read_file (p @ ''/cpuinfo'')) (\<lambda>data.
       let num = count_if (\<lambda>l. startswith (str_lower l) ''processor'') (lines data) in
       bnd (if num = 0
            then bnd (read_file (p @ ''/stat'')) (\<lambda>st.
              ret (count_if (\<lambda>l. rmatch (rlit ''cpu'' @ [RCls is_digit]) None (hd (split_on (CHR '' '') l)) \<noteq> None)
                     (lines st)))
            else ret num) (\<lambda>n.
       ret (if n = 0 then None else Some n)))))"

text \<open>
  The two dicts of the second method: \<open>mapping\<close> from a physical id to its cores, and
  \<open>current_info\<close> of the section being read.
\<close>

definition cpuinfo_line ::
  "string \<Rightarrow> (int, int) dict \<times> (string, int) dict \<Rightarrow> exn + (int, int) dict \<times> (string, int) dict" where
  "cpuinfo_line line0 st = (case st of (mapping, info) \<Rightarrow>
     let line = str_lower (strip line0) in
     if line = [] then
       Inr (case (map_of info ''physical id'', map_of info ''cpu cores'') of
              (Some i, Some c) \<Rightarrow> (AList.update i c mapping, []) | _ \<Rightarrow> (mapping, []))
     else if startswith line ''physical id'' \<or> startswith line ''cpu cores'' then
       bindE (of_option ValueError (split1 (CHR '':'') line)) (\<lambda>(key, value).
       bindE (py_int value) (\<lambda>n. Inr (mapping, AList.update (strip key) n info)))
     else Inr st)"

definition cpu_count_cores :: "('z sys_scheme, int option) py" where
  "cpu_count_cores =
     bnd (glob_call ''/sys/devices/system/cpu/cpu[0-9]*/topology/core_cpus_list'') (\<lambda>g1.
     bnd (if g1 \<noteq> [] then ret g1
          else glob_call ''/sys/devices/system/cpu/cpu[0-9]*/topology/thread_siblings_list'') (\<lambda>paths.
     bnd (for_each paths (\<lambda>path ls. bnd (read_file path) (\<lambda>c. ret (List.insert (strip c) ls))) []) (\<lambda>ls.
     if ls \<noteq> [] then ret (Some (int (length ls)))
     else bnd get_procfs_path (\<lambda>p. bnd (read_file (p @ ''/cpuinfo'')) (\<lambda>data.
       bnd (liftE (foldE cpuinfo_line (lines data) ([], []))) (\<lambda>(mapping, _).
       let result = sum_list (map snd mapping) in
       ret (if result = 0 then None else Some result)))))))"

section \<open>Statistics\<close>

definition second_int :: "string \<Rightarrow> exn + int" where
  "second_int line = bindE (item (split_ws line) 1) py_int"

fun cpu_stats_loop ::
  "string list \<Rightarrow> int option \<Rightarrow> int option \<Rightarrow> int option \<Rightarrow> exn + (int option \<times> int option \<times> int option)" where
  "cpu_stats_loop [] ctx intr soft = Inr (ctx, intr, soft)"
| "cpu_stats_loop (line # ls) ctx intr soft =
     bindE (if startswith line ''ctxt'' then bindE (second_int line) (\<lambda>v. Inr (Some v, intr, soft))
            else if startswith line ''intr'' then bindE (second_int line) (\<lambda>v. Inr (ctx, Some v, soft))
            else if startswith line ''softirq'' then bindE (second_int line) (\<lambda>v. Inr (ctx, intr, Some v))
            else Inr (ctx, intr, soft)) (\<lambda>(ctx', intr', soft').
     if ctx' \<noteq> None \<and> soft' \<noteq> None \<and> intr' \<noteq> None then Inr (ctx', intr', soft')
     else cpu_stats_loop ls ctx' intr' soft')"

definition cpu_stats :: "('z sys_scheme, scpustats) py" where
  "cpu_stats = bnd get_procfs_path (\<lambda>p. bnd (read_file (p @ ''/stat'')) (\<lambda>data.
     bnd (liftE (cpu_stats_loop (lines data) None None None)) (\<lambda>(ctx, intr, soft).
     ret \<lparr>cs_ctx_switches = ctx, cs_interrupts = intr, cs_soft_interrupts = soft, cs_syscalls = 0\<rparr>)))"

section \<open>Frequencies\<close>

text \<open>\<open>line.partition(b':')\<close>.\<close>

definition partition_char :: "char \<Rightarrow> string \<Rightarrow> string \<times> string" where
  "partition_char c s = (case split1 c s of None \<Rightarrow> (s, []) | Some kv \<Rightarrow> kv)"

definition cpuinfo_freq_line :: "string \<Rightarrow> flt list \<Rightarrow> exn + flt list" where
  "cpuinfo_freq_line line acc =
     (case partition_char (CHR '':'') line of (key0, value0) \<Rightarrow>
      let key = str_lower (strip key0) in
      if key \<in> {''cpu mhz'', ''clock'', ''cpu mhz dynamic''} then
        let value = strip value0;
            v = (if endswith value ''MHz'' then slice value 0 (- 3) else value)
        in bindE (py_float v) (\<lambda>x. Inr (acc @ [x]))
      else Inr acc)"

definition cpu_get_cpuinfo_freq :: "('z sys_scheme, flt list) py" where
  "cpu_get_cpuinfo_freq = bnd get_procfs_path (\<lambda>p. bnd (read_file (p @ ''/cpuinfo'')) (\<lambda>data.
     liftE (foldE cpuinfo_freq_line (lines data) [])))"

text \<open>\<open>int(re.search(r"[0-9]+", path).group())\<close>.\<close>

definition path_number :: "string \<Rightarrow> exn + int" where
  "path_number path = (case rsearch (rgroup (rplus is_digit)) path of
     Some (g # _, _) \<Rightarrow> py_int g | _ \<Rightarrow> Inl AttributeError)"

definition cpu_to_path_step ::
  "string \<Rightarrow> (int, string) dict \<Rightarrow> ('z sys_scheme, (int, string) dict) py" where
  "cpu_to_path_step path acc = bnd (bcat_opt (pjoin path ''affected_cpus'')) (\<lambda>affected. case affected of
       None \<Rightarrow> bnd (liftE (path_number path)) (\<lambda>n. ret (AList.update n path acc))
     | Some a \<Rightarrow> liftE (foldE (\<lambda>cpu d. bindE (py_int cpu) (\<lambda>n. Inr (AList.update n path d))) (split_ws a) acc))"

text \<open>The current frequency of one CPU, in kHz: \<open>None\<close> skips an offline CPU.\<close>

definition current_freq :: "int \<Rightarrow> string \<Rightarrow> ('z sys_scheme, int option) py" where
  "current_freq cpu path = bnd (bcat_opt (pjoin path ''scaling_cur_freq'')) (\<lambda>c1.
     bnd (case c1 of Some c \<Rightarrow> ret (Some c) | None \<Rightarrow> bcat_opt (pjoin path ''cpuinfo_cur_freq'')) (\<lambda>c2.
     case c2 of
       Some c \<Rightarrow> bnd (liftE (py_int c)) (\<lambda>n. ret (Some n))
     | None \<Rightarrow>
         bnd (cat_fallback (''/sys/devices/system/cpu/cpu'' @ int_str cpu @ ''/online'') None Some) (\<lambda>online.
         if online = Some (''0'' @ [nl]) then ret None else raise NotImplementedError)))"

definition freq_step ::
  "flt list \<Rightarrow> (int, string) dict \<Rightarrow> nat \<times> int \<Rightarrow> scpufreq list \<Rightarrow> ('z sys_scheme, scpufreq list) py" where
  "freq_step freqs cpu_to_path ic acc = (case ic of (i, cpu) \<Rightarrow>
     bnd (liftE (dict_item cpu_to_path cpu)) (\<lambda>path.
     bnd (if length cpu_to_path = length freqs then ret (Some (trunc_int (fmul (freqs ! i) 1000)))
          else current_freq cpu path) (\<lambda>curr0. case curr0 of
       None \<Rightarrow> ret acc
     | Some n \<Rightarrow>
         bnd (bcat (pjoin path ''scaling_max_freq'')) (\<lambda>mx. bnd (liftE (py_int mx)) (\<lambda>hi.
         bnd (bcat (pjoin path ''scaling_min_freq'')) (\<lambda>mn. bnd (liftE (py_int mn)) (\<lambda>lo.
         ret (acc @ [\<lparr>cf_current = int_truediv n 1000, cf_min = Some (int_truediv lo 1000),
                      cf_max = Some (int_truediv hi 1000)\<rparr>]))))))))"

definition cpu_freq_sysfs :: "('z sys_scheme, scpufreq list) py" where
  "cpu_freq_sysfs = bnd cpu_get_cpuinfo_freq (\<lambda>freqs.
     bnd (glob_call ''/sys/devices/system/cpu/cpufreq/policy[0-9]*'') (\<lambda>g1.
     bnd (if g1 \<noteq> [] then ret g1 else glob_call ''/sys/devices/system/cpu/cpu[0-9]*/cpufreq'') (\<lambda>paths.
     bnd (for_each paths cpu_to_path_step []) (\<lambda>cpu_to_path.
     for_each (enumerate 0 (sort (dict_keys cpu_to_path))) (freq_step freqs cpu_to_path) []))))"

definition cpu_freq_cpuinfo :: "('z sys_scheme, scpufreq list) py" where
  "cpu_freq_cpuinfo = bnd cpu_get_cpuinfo_freq (\<lambda>freqs.
     ret (map (\<lambda>x. \<lparr>cf_current = x, cf_min = Some 0, cf_max = Some 0\<rparr>) freqs))"

text \<open>Which of the two is defined is decided when the module is imported.\<close>

definition linux_cpu_freq :: "bool \<Rightarrow> ('z sys_scheme, scpufreq list) py" where
  "linux_cpu_freq has_cpufreq = (if has_cpufreq then cpu_freq_sysfs else cpu_freq_cpuinfo)"

section \<open>Reading the files back\<close>

text \<open>A line of \<open>/proc/stat\<close> about CPU time: a name and the tick counts.\<close>

definition stat_line :: "string \<Rightarrow> nat list \<Rightarrow> string" where
  "stat_line name ns = join '' '' (name # map nat_str ns) @ [nl]"

lemma split_ws_stat_line: "word_ok name \<Longrightarrow> split_ws (stat_line name ns) = name # map nat_str ns"
  unfolding stat_line_def by (rule split_ws_join_newline) (auto simp: list_all_iff ws_def)

lemma ticks_of_stat_line:
  assumes "word_ok name" "length ns \<le> 10" "0 < clk"
  shows "ticks_of clk (split_ws (stat_line name ns)) = Inr (map (\<lambda>n. fl (fl (of_nat n) / fint clk)) ns)"
proof -
  have "slice (name # map nat_str ns) 1 11 = map nat_str ns"
    using assms(2) by (simp add: slice_def norm_index_def)
  moreover have "fint clk \<noteq> 0" using fint_pos [OF assms(3)] by simp
  moreover have "mapE (\<lambda>x. bindE (py_float x) (\<lambda>v. fdiv v (fint clk))) (map nat_str ns)
      = Inr (map (\<lambda>n. fl (fl (of_nat n) / fint clk)) ns)" if "fint clk \<noteq> 0"
    using that by (induction ns) (simp_all add: py_float_nat_str fdiv_def)
  ultimately show ?thesis using assms(1) by (simp add: ticks_of_def split_ws_stat_line)
qed

lemma readline_stat_line:
  assumes "word_ok name"
  shows "readline (stat_line name ns @ rest) = stat_line name ns"
proof -
  have "set (join '' '' ws) \<subseteq> {CHR '' ''} \<union> \<Union> (set ` set ws)" for ws
    by (induction "'' ''" ws rule: join.induct) auto
  moreover have "nl \<notin> set (nat_str n)" for n
    by (auto dest!: set_nat_str simp: is_digit_def)
  moreover have "nl \<notin> set name" using assms by (auto simp: word_ok_def list_all_iff ws_def)
  ultimately have "nl \<notin> set (join '' '' (name # map nat_str ns))" by fastforce
  from lines_line [OF this, of rest] show ?thesis by (simp add: readline_def stat_line_def)
qed

definition tick_secs :: "int \<Rightarrow> nat list \<Rightarrow> nat \<Rightarrow> flt" where
  "tick_secs clk ns i = (if i < length ns then fl (fl (of_nat (ns ! i)) / fint clk) else 0)"

text \<open>
  \<open>cpu_times\<close> reads the first line of \<open>/proc/stat\<close> field by field in the kernel's order
  (user, nice, system, idle, then the fields newer kernels added), in seconds, and sets the
  fields the kernel does not have to 0.
\<close>

theorem cpu_times_parses:
  assumes "os_read (sys_os s) (hist s) (procfs_path s @ ''/stat'') = Inr (stat_line ''cpu'' ns @ rest)"
    and "4 \<le> length ns" "length ns \<le> 10" "0 < os_clock_ticks (sys_os s)"
  shows "fst (cpu_times s) = Inr (let v = tick_secs (os_clock_ticks (sys_os s)) ns in
     \<lparr>ct_user = v 0, ct_system = v 2, ct_idle = v 3, ct_nice = v 1, ct_iowait = v 4, ct_irq = v 5,
      ct_softirq = v 6, ct_steal = v 7, ct_guest = v 8, ct_guest_nice = v 9\<rparr>)"
proof -
  let ?clk = "os_clock_ticks (sys_os s)"
  have w: "word_ok ''cpu''" by (simp add: word_ok_def ws_def)
  have rl: "readline (stat_line ''cpu'' ns @ rest) = stat_line ''cpu'' ns" using w by (rule readline_stat_line)
  define R where "R = map (\<lambda>n. fl (fl (of_nat n) / fint ?clk)) ns"
  have raw: "ticks_of ?clk (split_ws (stat_line ''cpu'' ns)) = Inr R"
    unfolding R_def using w assms(3,4) by (rule ticks_of_stat_line)
  have v: "lsget R i = tick_secs ?clk ns i" for i by (simp add: R_def lsget_def tick_secs_def)
  have "4 \<le> length R" using assms(2) by (simp add: R_def)
  then obtain a b c d xs where R: "R = a # b # c # d # xs"
    by (auto simp: numeral_eq_Suc Suc_le_length_iff)
  have "a = lsget R 0" "b = lsget R 1" "c = lsget R 2" "d = lsget R 3"
    by (simp_all add: R lsget_def)
  then have abcd: "tick_secs ?clk ns 0 = a" "tick_secs ?clk ns 1 = b" "tick_secs ?clk ns 2 = c"
    "tick_secs ?clk ns 3 = d" by (simp_all add: v)
  show ?thesis
    using assms(1) raw v [unfolded R] abcd by (simp add: cpu_times_def read_file_def rl R Let_def)
qed

theorem cpu_times_parses_witness:
  "fst (cpu_times (null_sys\<lparr>sys_os := null_os\<lparr>os_read :=
      \<lambda>h p. Inr (stat_line ''cpu'' [100, 200, 300, 400, 500] @ ''intr 5'')\<rparr>\<rparr>))
   = Inr (let v = tick_secs 100 [100, 200, 300, 400, 500] in
     \<lparr>ct_user = v 0, ct_system = v 2, ct_idle = v 3, ct_nice = v 1, ct_iowait = v 4, ct_irq = v 5,
      ct_softirq = v 6, ct_steal = v 7, ct_guest = v 8, ct_guest_nice = v 9\<rparr>)"
proof -
  have "os_clock_ticks null_os = 100" by (simp add: null_os_def)
  then show ?thesis
    using cpu_times_parses [of "null_sys\<lparr>sys_os := null_os\<lparr>os_read :=
      \<lambda>h p. Inr (stat_line ''cpu'' [100, 200, 300, 400, 500] @ ''intr 5'')\<rparr>\<rparr>" "[100, 200, 300, 400, 500]" "''intr 5''"]
    by simp
qed

text \<open>The list of CPUs as the kernel prints it, e.g. \<open>0-3,8,10-11\<close>.\<close>

definition range_str :: "nat \<times> nat \<Rightarrow> string" where
  "range_str ab = (if fst ab = snd ab then nat_str (fst ab)
     else nat_str (fst ab) @ CHR ''-'' # nat_str (snd ab))"

lemma nat_str_no_char: "\<not> is_digit c \<Longrightarrow> c \<notin> set (nat_str n)"
  by (auto dest: set_nat_str)

lemma word_ok_range_str: "word_ok (range_str ab)"
proof -
  have "list_all (\<lambda>c. \<not> ws c) (nat_str n)" "nat_str n \<noteq> []" for n
    using word_ok_nat_str [of n] by (auto simp: word_ok_def)
  then show ?thesis by (auto simp: range_str_def word_ok_def ws_def)
qed

lemma cpulist_chunk_range:
  assumes "fst ab \<le> snd ab"
  shows "cpulist_chunk (range_str ab) cpus = Inr (cpus @ [int (fst ab)..int (snd ab)])"
proof -
  have dash: "CHR ''-'' \<notin> set (nat_str n)" for n by (intro nat_str_no_char) (simp add: is_digit_def)
  have ne: "range_str ab \<noteq> []" using word_ok_range_str [of ab] by (auto simp: word_ok_def)
  show ?thesis
  proof (cases "fst ab = snd ab")
    case True
    have "split1 (CHR ''-'') (nat_str (snd ab)) = None" using dash by (simp add: split1_def)
    then show ?thesis using True ne
      by (simp add: cpulist_chunk_def strip_word word_ok_range_str) (simp add: range_str_def py_int_nat_str)
  next
    case False
    have "split1 (CHR ''-'') (range_str ab) = Some (nat_str (fst ab), nat_str (snd ab))"
      using False dash by (simp add: range_str_def split1_append)
    then show ?thesis using assms ne
      by (simp add: cpulist_chunk_def strip_word word_ok_range_str py_int_nat_str)
  qed
qed

lemma foldE_cpulist:
  assumes "\<forall>ab \<in> set rs. fst ab \<le> snd ab"
  shows "foldE cpulist_chunk (map range_str rs) cpus
     = Inr (cpus @ concat (map (\<lambda>ab. [int (fst ab)..int (snd ab)]) rs))"
  using assms by (induction rs arbitrary: cpus) (simp_all add: cpulist_chunk_range)

text \<open>
  \<open>_parse_cpulist\<close> expands the kernel's list of CPU ranges into the CPUs they contain,
  in order.
\<close>

theorem parse_cpulist_roundtrip:
  assumes "\<forall>ab \<in> set rs. fst ab \<le> snd ab" and "rs \<noteq> []"
  shows "parse_cpulist (join '','' (map range_str rs) @ [nl])
     = Inr (concat (map (\<lambda>ab. [int (fst ab)..int (snd ab)]) rs))"
proof -
  let ?l = "join '','' (map range_str rs)"
  have w: "word_ok ?l"
    using assms(2)
  proof (induction rs rule: list_nonempty_induct)
    case (single x)
    then show ?case by (simp add: word_ok_range_str)
  next
    case (cons x xs)
    then show ?case using word_ok_range_str [of x]
      by (cases xs) (auto simp: word_ok_def ws_def)
  qed
  then have "strip (?l @ [nl]) = ?l" using strip_word_blanks [of ?l "[]" "[nl]"] by (simp add: ws_def)
  moreover have "split_on (CHR '','') ?l = map range_str rs"
  proof (rule split_on_join)
    show "map range_str rs \<noteq> []" using assms(2) by simp
    show "\<forall>t \<in> set (map range_str rs). CHR '','' \<notin> set t"
      using nat_str_no_char [of "CHR '',''"] by (auto simp: range_str_def is_digit_def)
  qed
  moreover have "?l \<noteq> []" using w by (auto simp: word_ok_def)
  ultimately show ?thesis using foldE_cpulist [OF assms(1), of "[]"] by (simp add: parse_cpulist_def)
qed

theorem parse_cpulist_roundtrip_witness:
  "parse_cpulist (join '','' (map range_str [(0, 3), (8, 8), (10, 11)]) @ [nl]) = Inr [0, 1, 2, 3, 8, 10, 11]"
  using parse_cpulist_roundtrip [of "[(0, 3), (8, 8), (10, 11)]"] by (simp add: upto.simps)

end
