(* ===== verification/Linux_System.thy ===== *)
theory Linux_System
  imports Linux_Utils Posix_Wait
begin

text \<open>
  \<open>psutil/_pslinux.py\<close>: users, boot time, and the functions about pids that need no
  process object.
\<close>

section \<open>Definitions\<close>

definition users_call ::
  "('z sys_scheme, (string \<times> string option \<times> string option \<times> flt \<times> int option) list) py" where
  "users_call = sys_ask SUsers os_users"

definition none_if_empty :: "string option \<Rightarrow> string option" where
  "none_if_empty x = (if x = Some [] then None else x)"

definition linux_users :: "('z sys_scheme, suser list) py" where
  "linux_users = bnd users_call (\<lambda>rawlist. ret (map (\<lambda>(user, tty, hostname, tstamp, pid).
     \<lparr>us_name = user, us_terminal = none_if_empty tty, us_host = hostname, us_started = tstamp, us_pid = pid\<rparr>)
     rawlist))"

definition boot_time :: "('z sys_scheme, flt) py" where
  "boot_time = bnd get_procfs_path (\<lambda>p. bnd (read_file (p @ ''/stat'')) (\<lambda>data.
     case find (\<lambda>l. startswith l ''btime'') (lines data) of
       None \<Rightarrow> raise RuntimeError
     | Some l \<Rightarrow> liftE (bindE (item (split_ws (strip l)) 1) py_float)))"

definition pids :: "('z sys_scheme, int list) py" where
  "pids = bnd get_procfs_path (\<lambda>p. bnd (listdir p) (\<lambda>names.
     liftE (mapE py_int (filter str_isdigit names))))"

definition linux_pid_exists :: "int \<Rightarrow> ('z sys_scheme, bool) py" where
  "linux_pid_exists pid = bnd (posix_pid_exists pid) (\<lambda>ex.
     if \<not> ex then ret False
     else try_except
       (bnd get_procfs_path (\<lambda>p. bnd (read_file (p @ ''/'' @ int_str pid @ ''/status'')) (\<lambda>data.
          case find (\<lambda>l. startswith l ''Tgid:'') (lines data) of
            None \<Rightarrow> raise ValueError
          | Some l \<Rightarrow> bnd (liftE (bindE (item (split_ws l) 1) py_int)) (\<lambda>tgid. ret (tgid = pid)))))
       (\<lambda>e. if is_OSError e \<or> e = ValueError
            then bnd pids (\<lambda>ps. ret (pid \<in> set ps)) else raise e))"

text \<open>What follows the last \<open>)\<close> of a \<open>stat\<close> file.\<close>

definition stat_tail :: "string \<Rightarrow> string" where
  "stat_tail data = slice_from data (rfind_char (CHR '')'') data + 2)"

definition ppid_map_step :: "string \<Rightarrow> int \<Rightarrow> (int, int) dict \<Rightarrow> ('z sys_scheme, (int, int) dict) py" where
  "ppid_map_step procfs pid acc =
     try_else (read_file (procfs @ ''/'' @ int_str pid @ ''/stat''))
       (\<lambda>e. if is_FileNotFoundError e \<or> is_ProcessLookupError e then ret acc
            else if is_PermissionError e then raise (mk_AccessDenied (Some pid) None None)
            else raise e)
       (\<lambda>data. bnd (liftE (bindE (item (split_ws (stat_tail data)) 1) py_int)) (\<lambda>ppid.
          ret (AList.update pid ppid acc)))"

definition ppid_map :: "('z sys_scheme, (int, int) dict) py" where
  "ppid_map = bnd get_procfs_path (\<lambda>procfs. bnd pids (\<lambda>ps. for_each ps (ppid_map_step procfs) []))"

lemma pres_pids [pres_intros]: "pres (confined read_calls) pids"
  unfolding pids_def by (intro pres_intros)

lemma pres_boot_time [pres_intros]: "pres (confined read_calls) boot_time"
  unfolding boot_time_def by (intro pres_intros) (auto intro!: pres_intros split: option.splits)

lemma pres_ppid_map [pres_intros]: "pres (confined read_calls) ppid_map"
  unfolding ppid_map_def ppid_map_step_def by (intro pres_intros)

section \<open>Pids\<close>

lemma digits_val_prefix: "list_all is_digit s \<Longrightarrow> s \<noteq> [] \<Longrightarrow> \<exists>v. digits_val 10 0 False s = Some v"
  using digits_val_digits by blast

lemma py_int_isdigit:
  assumes "str_isdigit s"
  shows "\<exists>v. py_int s = Inr v"
proof -
  have d: "s \<noteq> []" "list_all is_digit s" using assms by (auto simp: str_isdigit_def)
  then have "strip s = s" by (intro strip_word word_ok_digits)
  with d digits_val_prefix [OF d(2,1)] show ?thesis
    by (auto simp: py_int_def py_int_base_def split_sign_digits)
qed

text \<open>
  \<open>pids\<close> returns a list whenever the directory can be read: the numbers that are names
  in it, whatever else it holds.
\<close>

theorem pids_lists_numbers:
  assumes "os_listdir (sys_os s) (hist s) (procfs_path s) = Inr names"
  shows "\<exists>ps. fst (pids s) = Inr ps \<and> length ps = length (filter str_isdigit names)
    \<and> (\<forall>n. nat_str n \<in> set names \<longrightarrow> int n \<in> set ps)"
proof -
  let ?ds = "filter str_isdigit names"
  have "\<exists>ps. mapE py_int ds = Inr ps \<and> length ps = length ds
      \<and> (\<forall>n. nat_str n \<in> set ds \<longrightarrow> int n \<in> set ps)" if "\<forall>d \<in> set ds. str_isdigit d" for ds
    using that
  proof (induction ds)
    case (Cons d ds)
    obtain v where v: "py_int d = Inr v" using py_int_isdigit Cons.prems by auto
    obtain ps where ps: "mapE py_int ds = Inr ps" "length ps = length ds"
      "\<forall>n. nat_str n \<in> set ds \<longrightarrow> int n \<in> set ps"
      using Cons by auto
    have "int n \<in> set (v # ps)" if "nat_str n \<in> set (d # ds)" for n
      using that ps(3) v py_int_int_str [of "int n"] by (auto simp: int_str_def)
    with v ps show ?case by auto
  qed simp
  from this [of ?ds] obtain ps where "mapE py_int ?ds = Inr ps" "length ps = length ?ds"
    "\<forall>n. nat_str n \<in> set ?ds \<longrightarrow> int n \<in> set ps" by auto
  moreover have "nat_str n \<in> set ?ds \<longleftrightarrow> nat_str n \<in> set names" for n
    by (simp add: str_isdigit_nat_str)
  ultimately show ?thesis using assms
    by (auto simp: pids_def listdir_def intro!: exI [of _ ps])
qed

theorem pids_lists_numbers_witness:
  "\<exists>ps. fst (pids (null_sys\<lparr>sys_os := null_os\<lparr>os_listdir := \<lambda>h p. Inr [''self'', ''12'', ''3'', ''net'']\<rparr>\<rparr>)) = Inr ps
     \<and> length ps = 2"
  using pids_lists_numbers [of "null_sys\<lparr>sys_os := null_os\<lparr>os_listdir := \<lambda>h p. Inr [''self'', ''12'', ''3'', ''net'']\<rparr>\<rparr>"
      "[''self'', ''12'', ''3'', ''net'']"]
  by (simp add: str_isdigit_def is_digit_def numeral_2_eq_2) blast

lemma lines_acc_append: "lines_acc cur (b @ nl # s) = lines_acc cur (b @ [nl]) @ lines s"
  by (induction b arbitrary: cur) (simp_all add: lines_def)

lemma lines_append:
  assumes "b = [] \<or> last b = nl"
  shows "lines (b @ s) = lines b @ lines s"
proof (cases "b = []")
  case False
  then have "b = butlast b @ [nl]" using assms append_butlast_last_id by metis
  then show ?thesis using lines_acc_append [of "[]" "butlast b" s]
    unfolding lines_def by (metis append.assoc append_Cons append_Nil)
qed simp

lemma find_skip: "\<forall>x \<in> set xs. \<not> P x \<Longrightarrow> P y \<Longrightarrow> find P (xs @ y # ys) = Some y"
  by (induction xs) auto

text \<open>
  \<open>pid_exists\<close> is not fooled by thread ids, which \<open>kill\<close> accepts like pids: when the
  status file can be read, the answer is whether its \<open>Tgid\<close> is the pid asked for.
\<close>

theorem linux_pid_exists_tgid:
  assumes "0 < pid" and "os_kill (sys_os s) (hist s) pid 0 \<noteq> Inl ESRCH"
    and "\<forall>e. os_kill (sys_os s) (hist s) pid 0 = Inl e \<longrightarrow> e = EPERM"
    and "os_read (sys_os s) (SKill pid 0 # hist s) (procfs_path s @ ''/'' @ int_str pid @ ''/status'')
       = Inr (before @ ''Tgid:'' @ CHR 0x09 # int_str tgid @ nl # after)"
    and "before = [] \<or> last before = nl" and "\<forall>l \<in> set (lines before). \<not> startswith l ''Tgid:''"
  shows "fst (linux_pid_exists pid s) = Inr (tgid = pid)"
proof -
  let ?l = "''Tgid:'' @ CHR 0x09 # int_str tgid"
  have ex: "posix_pid_exists pid s = (Inr True, s\<lparr>hist := SKill pid 0 # hist s\<rparr>)"
    using assms(1,2,3) by (cases "os_kill (sys_os s) (hist s) pid 0")
      (auto simp: posix_pid_exists_def kill_call_def)
  have nonl: "nl \<notin> set ?l" by (auto simp: is_digit_def dest: set_int_str)
  have ls: "lines (before @ ?l @ nl # after) = lines before @ (?l @ [nl]) # lines after"
    using lines_append [OF assms(5)] lines_line [OF nonl, of after] by simp
  have find: "find (\<lambda>l. startswith l ''Tgid:'') (lines (before @ ?l @ nl # after)) = Some (?l @ [nl])"
    unfolding ls using assms(6) by (intro find_skip) (simp_all add: startswith_def)
  have "word_ok ''Tgid:''" by (simp add: word_ok_def ws_def)
  then have "split_ws (?l @ [nl]) = [''Tgid:'', int_str tgid]"
    using split_ws_join_newline [of "[''Tgid:'', int_str tgid]" "CHR 0x09" nl] by (simp add: ws_def)
  then show ?thesis using ex assms(4) find
    by (simp add: linux_pid_exists_def read_file_def item_def py_int_int_str)
qed

theorem linux_pid_exists_tgid_witness:
  "let s = null_sys\<lparr>sys_os := null_os\<lparr>os_kill := \<lambda>h p g. Inr (),
         os_read := \<lambda>h p. Inr (''Name:x'' @ nl # ''Tgid:'' @ CHR 0x09 # int_str 40 @ nl # [])\<rparr>\<rparr>
   in fst (linux_pid_exists 41 s) = Inr False"
proof -
  let ?s = "null_sys\<lparr>sys_os := null_os\<lparr>os_kill := \<lambda>h p g. Inr (),
         os_read := \<lambda>h p. Inr (''Name:x'' @ nl # ''Tgid:'' @ CHR 0x09 # int_str 40 @ nl # [])\<rparr>\<rparr>"
  have "fst (linux_pid_exists 41 ?s) = Inr ((40::int) = 41)"
    by (rule linux_pid_exists_tgid [of 41 ?s "''Name:x'' @ [nl]" 40 "[]"])
      (simp_all add: lines_def startswith_def)
  then show ?thesis by (simp add: Let_def)
qed

section \<open>The \<open>stat\<close> file of a process\<close>

text \<open>
  What the kernel writes: the pid, the name in parentheses (it may itself contain blanks
  and parentheses), then numbers and a state letter separated by blanks.
\<close>

definition stat_text :: "int \<Rightarrow> string \<Rightarrow> string list \<Rightarrow> string" where
  "stat_text pid comm flds = int_str pid @ '' ('' @ comm @ '') '' @ join '' '' flds @ [nl]"

definition stat_fields_ok :: "string list \<Rightarrow> bool" where
  "stat_fields_ok flds \<longleftrightarrow> (\<forall>f \<in> set flds. word_ok f \<and> CHR '')'' \<notin> set f)"

lemma set_join: "set (join sep xs) \<subseteq> set sep \<union> \<Union> (set ` set xs)"
  by (induction sep xs rule: join.induct) auto

lemma word_ok_no_nl: "word_ok f \<Longrightarrow> nl \<notin> set f"
  by (auto simp: word_ok_def list_all_iff ws_def)

lemma join_no_nl: "\<forall>f \<in> set fs. word_ok f \<Longrightarrow> nl \<notin> set (join '' '' fs)"
  by (induction "'' ''" fs rule: join.induct) (auto dest: word_ok_no_nl)

lemma stat_rpar:
  assumes "stat_fields_ok flds"
  shows "rfind_char (CHR '')'') (stat_text pid comm flds) = int (length (int_str pid @ '' ('' @ comm))"
proof -
  have "CHR '')'' \<notin> set (CHR '' '' # join '' '' flds @ [nl])"
    using assms set_join [of "'' ''" flds] by (auto simp: stat_fields_ok_def)
  from rfind_char_last [OF this, of "int_str pid @ '' ('' @ comm"]
  show ?thesis by (simp add: stat_text_def)
qed

lemma stat_tail_text:
  assumes "stat_fields_ok flds"
  shows "stat_tail (stat_text pid comm flds) = join '' '' flds @ [nl]"
proof -
  have "stat_text pid comm flds = (int_str pid @ '' ('' @ comm @ '') '') @ join '' '' flds @ [nl]"
    by (simp add: stat_text_def)
  then show ?thesis unfolding stat_tail_def stat_rpar [OF assms]
    using slice_from_len [of "int (length (int_str pid @ '' ('' @ comm)) + 2" "int_str pid @ '' ('' @ comm @ '') ''"]
    by simp
qed

lemma stat_words:
  assumes "stat_fields_ok flds"
  shows "split_ws (stat_tail (stat_text pid comm flds)) = flds"
  unfolding stat_tail_text [OF assms] using assms
  by (intro split_ws_join_newline) (auto simp: stat_fields_ok_def list_all_iff ws_def)

end
