(* ===== verification/Linux_Net.thy ===== *)
theory Linux_Net
  imports Linux_System
begin

text \<open>
  Sockets and network interfaces of \<open>psutil/_pslinux.py\<close>: the class \<open>NetConnections\<close>,
  whose only state is the procfs path that \<open>retrieve\<close> sets before anything reads it,
  \<open>net_io_counters\<close> and \<open>net_if_stats\<close>.
\<close>

section \<open>Library functions on addresses\<close>

text \<open>\<open>base64.b16decode\<close>: upper case digits only; its errors are \<open>ValueError\<close>s.\<close>

definition hex_val :: "char \<Rightarrow> nat option" where
  "hex_val c = (let n = (of_char c :: nat) in
     if 48 \<le> n \<and> n \<le> 57 then Some (n - 48) else if 65 \<le> n \<and> n \<le> 70 then Some (n - 55) else None)"

fun b16decode :: "string \<Rightarrow> exn + nat list" where
  "b16decode [] = Inr []"
| "b16decode [a] = Inl ValueError"
| "b16decode (a # b # r) = (case (hex_val a, hex_val b) of
     (Some x, Some y) \<Rightarrow> bindE (b16decode r) (\<lambda>bs. Inr ((16 * x + y) # bs))
   | _ \<Rightarrow> Inl ValueError)"

text \<open>\<open>socket.inet_ntop\<close>, with the zero compression of the C library.\<close>

definition ntop4 :: "nat list \<Rightarrow> string" where
  "ntop4 bs = join ''.'' (map nat_str bs)"

definition zero_run :: "nat list \<Rightarrow> nat \<Rightarrow> nat" where
  "zero_run wds i = length (takeWhile (\<lambda>w. w = 0) (drop i wds))"

definition best_run :: "nat list \<Rightarrow> nat \<times> nat" where
  "best_run wds = fold (\<lambda>i bl. let r = zero_run wds i in if snd bl < r then (i, r) else bl) [0..<8] (0, 0)"

definition ntop6 :: "nat list \<Rightarrow> string" where
  "ntop6 bs =
     (let wds = map (\<lambda>i. 256 * bs ! (2 * i) + bs ! (2 * i + 1)) [0..<8];
          (b, l) = best_run wds; on = (2 \<le> l);
          v4 = (on \<and> b = 0 \<and> (l = 6 \<or> l = 5 \<and> wds ! 5 = 65535))
      in concat (map (\<lambda>i.
           if on \<and> b \<le> i \<and> i < b + l then (if i = b then '':'' else [])
           else if v4 \<and> i = 7 then []
           else (if i \<noteq> 0 then '':'' else []) @ (if v4 \<and> i = 6 then ntop4 (drop 12 bs) else hex_str (wds ! i)))
         [0..<8]) @ (if on \<and> b + l = 8 then '':'' else []))"

definition inet_ntop :: "os \<Rightarrow> int \<Rightarrow> nat list \<Rightarrow> exn + string" where
  "inet_ntop os family bs =
     (if family = AF_INET then (if length bs = 4 then Inr (ntop4 bs) else Inl ValueError)
      else if os_ntop_ipv6 os \<and> length bs = 16 then Inr (ntop6 bs) else Inl ValueError)"

text \<open>\<open>struct.pack('>4I', *struct.unpack('<4I', ip))\<close>.\<close>

definition swap_words :: "nat list \<Rightarrow> nat list" where
  "swap_words bs = concat (map (\<lambda>i. rev (take 4 (drop (4 * i) bs))) [0..<4])"

section \<open>Addresses\<close>

definition decode_address :: "os \<Rightarrow> string \<Rightarrow> int \<Rightarrow> exn + endpoint" where
  "decode_address os addr family =
     (case split_on (CHR '':'') addr of
        [ip0, port0] \<Rightarrow>
          bindE (py_int_base 16 port0) (\<lambda>port.
          if port = 0 then Inr NoEnd
          else bindE (b16decode ip0) (\<lambda>bs.
            bindE (if family = AF_INET
                   then inet_ntop os family (if os_little_endian os then rev bs else bs)
                   else if length bs \<noteq> 16 then Inl StructError
                   else (case inet_ntop os AF_INET6 (if os_little_endian os then swap_words bs else bs) of
                           Inl e \<Rightarrow> (if e = ValueError \<and> \<not> os_has_ipv6 os then Inl Ipv6UnsupportedError else Inl e)
                         | Inr ip \<Rightarrow> Inr ip)) (\<lambda>ip.
            Inr (Addr ip port))))
      | _ \<Rightarrow> Inl ValueError)"

section \<open>Which process has which socket\<close>

type_synonym inodes = "(string, (int \<times> int) list) dict"

definition proc_inodes_step :: "string \<Rightarrow> int \<Rightarrow> string \<Rightarrow> inodes \<Rightarrow> ('z sys_scheme, inodes) py" where
  "proc_inodes_step procfs pid fd acc =
     try_else (readlink (procfs @ ''/'' @ int_str pid @ ''/fd/'' @ fd))
       (\<lambda>e. if is_FileNotFoundError e \<or> is_ProcessLookupError e then ret acc
            else if errno_of e = Some EINVAL \<or> errno_of e = Some ENAMETOOLONG then ret acc
            else raise e)
       (\<lambda>inode. if startswith inode ''socket:[''
          then let i = butlast (drop 8 inode) in
               bnd (liftE (py_int fd)) (\<lambda>n. ret (AList.update i (dict_get acc i [] @ [(pid, n)]) acc))
          else ret acc)"

definition get_proc_inodes :: "string \<Rightarrow> int \<Rightarrow> ('z sys_scheme, inodes) py" where
  "get_proc_inodes procfs pid = bnd (listdir (procfs @ ''/'' @ int_str pid @ ''/fd'')) (\<lambda>fds.
     for_each fds (proc_inodes_step procfs pid) [])"

text \<open>\<open>inodes.update(d)\<close>.\<close>

definition dict_update :: "('k, 'v) dict \<Rightarrow> ('k, 'v) dict \<Rightarrow> ('k, 'v) dict" where
  "dict_update d e = fold (\<lambda>kv acc. AList.update (fst kv) (snd kv) acc) e d"

definition get_all_inodes :: "string \<Rightarrow> ('z sys_scheme, inodes) py" where
  "get_all_inodes procfs = bnd pids (\<lambda>ps. for_each ps (\<lambda>pid acc.
     try_else (get_proc_inodes procfs pid)
       (\<lambda>e. if is_FileNotFoundError e \<or> is_ProcessLookupError e \<or> is_PermissionError e
            then ret acc else raise e)
       (\<lambda>d. ret (dict_update acc d))) [])"

section \<open>The files of \<open>/proc/net\<close>\<close>

definition mk_conn :: "int \<Rightarrow> int \<Rightarrow> int \<Rightarrow> endpoint \<Rightarrow> endpoint \<Rightarrow> ConnectionStatus \<Rightarrow> int option \<Rightarrow> sconn" where
  "mk_conn fd family ty laddr raddr status pid =
     \<lparr>cn_fd = fd, cn_family = family, cn_type = ty, cn_laddr = laddr, cn_raddr = raddr,
      cn_status = status, cn_pid = pid\<rparr>"

definition inet_line ::
  "os \<Rightarrow> int \<Rightarrow> int \<Rightarrow> inodes \<Rightarrow> int option \<Rightarrow> string \<Rightarrow> sconn list \<Rightarrow> exn + sconn list" where
  "inet_line os family ty inodes filter_pid line acc =
     (case take 10 (split_ws line) of
        [_, laddr, raddr, status, _, _, _, _, _, inode] \<Rightarrow>
          bindE (case map_of inodes inode of
                   None \<Rightarrow> Inr (None, -1)
                 | Some l \<Rightarrow> bindE (item l 0) (\<lambda>(p, f). Inr (Some p, f))) (\<lambda>(pid, fd).
          if filter_pid \<noteq> None \<and> filter_pid \<noteq> pid then Inr acc
          else bindE (if ty = SOCK_STREAM then dict_item TCP_STATUSES status else Inr CONN_NONE) (\<lambda>st.
            case bindE (decode_address os laddr family) (\<lambda>l.
                 bindE (decode_address os raddr family) (\<lambda>r. Inr (l, r))) of
              Inr (l, r) \<Rightarrow> Inr (acc @ [mk_conn fd family ty l r st pid])
            | Inl e \<Rightarrow> (if e = Ipv6UnsupportedError then Inr acc else Inl e)))
      | _ \<Rightarrow> Inl RuntimeError)"

definition process_inet ::
  "string \<Rightarrow> int \<Rightarrow> int \<Rightarrow> inodes \<Rightarrow> int option \<Rightarrow> ('z sys_scheme, sconn list) py" where
  "process_inet file family ty inodes filter_pid =
     bnd (if endswith file ''6'' then path_exists file else ret True) (\<lambda>ex.
     if \<not> ex then ret []
     else bnd (read_file file) (\<lambda>data. bnd (sys_const (\<lambda>os. os)) (\<lambda>os.
       liftE (foldE (inet_line os family ty inodes filter_pid) (tl (lines data)) []))))"

definition unix_line ::
  "int \<Rightarrow> inodes \<Rightarrow> int option \<Rightarrow> string \<Rightarrow> sconn list \<Rightarrow> exn + sconn list" where
  "unix_line family inodes filter_pid line acc =
     (let tokens = split_ws line in
      case take 7 tokens of
        [_, _, _, _, ty, _, inode] \<Rightarrow>
          foldE (\<lambda>(pid, fd) acc.
              if filter_pid \<noteq> None \<and> filter_pid \<noteq> pid then Inr acc
              else bindE (py_int ty) (\<lambda>ty.
                let path = (if length tokens = 8 then last tokens else []) in
                Inr (acc @ [mk_conn fd family ty (UnixPath path) (UnixPath []) CONN_NONE pid])))
            (case map_of inodes inode of
               Some pairs \<Rightarrow> map (\<lambda>(p, f). (Some p, f)) pairs | None \<Rightarrow> [(None, -1)]) acc
      | _ \<Rightarrow> (if CHR '' '' \<notin> set line then Inr acc else Inl RuntimeError))"

definition process_unix ::
  "string \<Rightarrow> int \<Rightarrow> inodes \<Rightarrow> int option \<Rightarrow> ('z sys_scheme, sconn list) py" where
  "process_unix file family inodes filter_pid =
     bnd (read_file file) (\<lambda>data.
       liftE (foldE (unix_line family inodes filter_pid) (tl (lines data)) []))"

section \<open>Retrieving\<close>

text \<open>\<open>tmap\<close>: the basename of the file, the family and the type (UNIX sockets have none).\<close>

definition tcp4 :: "string \<times> int \<times> int option" where "tcp4 = (''tcp'', AF_INET, Some SOCK_STREAM)"
definition tcp6 :: "string \<times> int \<times> int option" where "tcp6 = (''tcp6'', AF_INET6, Some SOCK_STREAM)"
definition udp4 :: "string \<times> int \<times> int option" where "udp4 = (''udp'', AF_INET, Some SOCK_DGRAM)"
definition udp6 :: "string \<times> int \<times> int option" where "udp6 = (''udp6'', AF_INET6, Some SOCK_DGRAM)"
definition unix1 :: "string \<times> int \<times> int option" where "unix1 = (''unix'', AF_UNIX, None)"

definition tmap :: "(string, (string \<times> int \<times> int option) list) dict" where
  "tmap = [(''all'', [tcp4, tcp6, udp4, udp6, unix1]), (''tcp'', [tcp4, tcp6]), (''tcp4'', [tcp4]),
     (''tcp6'', [tcp6]), (''udp'', [udp4, udp6]), (''udp4'', [udp4]), (''udp6'', [udp6]),
     (''unix'', [unix1]), (''inet'', [tcp4, tcp6, udp4, udp6]), (''inet4'', [tcp4, udp4]),
     (''inet6'', [tcp6, udp6])]"

lemmas tmap_defs = tmap_def tcp4_def tcp6_def udp4_def udp6_def unix1_def

text \<open>
  The set of named tuples is a list without duplicates (Python gives no order to it).
  \<open>pconn\<close>, which has no pid, is an \<open>sconn\<close> with pid \<open>None\<close>.
\<close>

definition retrieve_step ::
  "string \<Rightarrow> int option \<Rightarrow> inodes \<Rightarrow> string \<times> int \<times> int option \<Rightarrow> sconn list \<Rightarrow> ('z sys_scheme, sconn list) py" where
  "retrieve_step procfs pid inodes entry acc = (case entry of (proto_name, family, ty) \<Rightarrow>
     let path = procfs @ ''/net/'' @ proto_name in
     bnd (if family \<in> {AF_INET, AF_INET6}
          then process_inet path family (case ty of None \<Rightarrow> 0 | Some t \<Rightarrow> t) inodes pid
          else process_unix path family inodes pid) (\<lambda>ls.
     ret (fold (\<lambda>c acc. List.insert (if pid \<noteq> None \<and> pid \<noteq> Some 0 then c\<lparr>cn_pid := None\<rparr> else c) acc) ls acc)))"

definition retrieve :: "string \<Rightarrow> int option \<Rightarrow> ('z sys_scheme, sconn list) py" where
  "retrieve kind pid =
     bnd get_procfs_path (\<lambda>procfs.
     bnd (case pid of Some p \<Rightarrow> get_proc_inodes procfs p | None \<Rightarrow> get_all_inodes procfs) (\<lambda>inodes.
     if pid \<noteq> None \<and> inodes = [] then ret []
     else bnd (liftE (dict_item tmap kind)) (\<lambda>entries.
       for_each entries (retrieve_step procfs pid inodes) [])))"

definition linux_net_connections :: "string \<Rightarrow> ('z sys_scheme, sconn list) py" where
  "linux_net_connections kind = retrieve kind None"

section \<open>Interfaces\<close>

text \<open>The values of one interface in the order of the dict's tuples.\<close>

definition net_dev_line ::
  "string \<Rightarrow> (string, int list) dict \<Rightarrow> exn + (string, int list) dict" where
  "net_dev_line line retdict =
     (let colon = rfind_char (CHR '':'') line in
      if \<not> 0 < colon then Inl AssertionError
      else let name = strip (slice line 0 colon);
               flds = split_ws (strip (slice_from line (colon + 1)))
           in bindE (mapE py_int flds) (\<lambda>ns. case ns of
                [bytes_recv, packets_recv, errin, dropin, _, _, _, _,
                 bytes_sent, packets_sent, errout, dropout, _, _, _, _] \<Rightarrow>
                  Inr (AList.update name [bytes_sent, bytes_recv, packets_sent, packets_recv,
                    errin, errout, dropin, dropout] retdict)
              | _ \<Rightarrow> Inl ValueError))"

definition linux_net_io_counters :: "('z sys_scheme, (string, int list) dict) py" where
  "linux_net_io_counters = bnd get_procfs_path (\<lambda>p. bnd (read_file (p @ ''/net/dev'')) (\<lambda>data.
     liftE (foldE net_dev_line (drop 2 (lines data)) [])))"

definition duplex_map :: "(int, NicDuplex) dict" where
  "duplex_map = [(1, NIC_DUPLEX_FULL), (0, NIC_DUPLEX_HALF), (255, NIC_DUPLEX_UNKNOWN)]"

definition if_mtu_call :: "string \<Rightarrow> ('z sys_scheme, int) py" where
  "if_mtu_call n = sys_call (SIfMtu n) (\<lambda>os h. os_if_mtu os h n)"
definition if_flags_call :: "string \<Rightarrow> ('z sys_scheme, string list) py" where
  "if_flags_call n = sys_call (SIfFlags n) (\<lambda>os h. os_if_flags os h n)"
definition if_duplex_call :: "string \<Rightarrow> ('z sys_scheme, int \<times> int) py" where
  "if_duplex_call n = sys_call (SIfDuplex n) (\<lambda>os h. os_if_duplex os h n)"

definition linux_net_if_stats :: "('z sys_scheme, (string, snicstats) dict) py" where
  "linux_net_if_stats = bnd linux_net_io_counters (\<lambda>cs.
     for_each (dict_keys cs) (\<lambda>name acc.
       try_else (bnd (if_mtu_call name) (\<lambda>mtu. bnd (if_flags_call name) (\<lambda>flags.
                 bnd (if_duplex_call name) (\<lambda>(duplex, speed). ret (mtu, flags, duplex, speed)))))
         (\<lambda>e. if is_OSError e \<and> errno_of e = Some ENODEV then ret acc else raise e)
         (\<lambda>(mtu, flags, duplex, speed).
            bnd (liftE (dict_item duplex_map duplex)) (\<lambda>d.
            ret (AList.update name \<lparr>ns_isup = (''running'' \<in> set flags), ns_duplex = d, ns_speed = speed,
                   ns_mtu = mtu, ns_flags = join '','' flags\<rparr> acc)))) [])"

section \<open>Addresses are decoded\<close>

text \<open>An address (its bytes in network order) and a port as the kernel prints them.\<close>

definition hex_upper :: "nat \<Rightarrow> char" where
  "hex_upper d = (if d < 10 then char_of (48 + d) else char_of (55 + d))"

definition hex2 :: "nat \<Rightarrow> string" where
  "hex2 n = [hex_upper (n div 16), hex_upper (n mod 16)]"

definition inet_text :: "bool \<Rightarrow> int \<Rightarrow> nat list \<Rightarrow> nat \<Rightarrow> string" where
  "inet_text little family bs port =
     concat (map hex2 (if little then (if family = AF_INET then rev bs else swap_words bs) else bs))
     @ CHR '':'' # hex2 (port div 256) @ hex2 (port mod 256)"

lemma of_char_hex_upper: "d < 16 \<Longrightarrow> (of_char (hex_upper d) :: nat) = (if d < 10 then 48 + d else 55 + d)"
  by (simp add: hex_upper_def)

lemma hex_upper:
  assumes "d < 16"
  shows "hex_val (hex_upper d) = Some d" "digit_val 16 (hex_upper d) = Some (int d)"
    "\<not> ws (hex_upper d)" "hex_upper d \<notin> set '':xX-+_''"
proof -
  let ?n = "of_char (hex_upper d) :: nat"
  have n: "?n = (if d < 10 then 48 + d else 55 + d)" using assms by (rule of_char_hex_upper)
  show "hex_val (hex_upper d) = Some d" using assms by (simp add: hex_val_def n)
  show "digit_val 16 (hex_upper d) = Some (int d)" using assms by (simp add: digit_val_def of_char_int n)
  have "hex_upper d \<notin> set cs" if "list_all (\<lambda>c. (of_char c :: nat) < 48 \<or> (57 < (of_char c :: nat) \<and> (of_char c :: nat) < 65) \<or> 70 < (of_char c :: nat)) cs" for cs
    using that n assms by (auto simp: list_all_iff split: if_splits)
  from this [of "'':xX-+_''"] this [of "'' '' @ [CHR 0x09, CHR 0x0A, CHR 0x0B, CHR 0x0C, CHR 0x0D]"]
  show "hex_upper d \<notin> set '':xX-+_''" "\<not> ws (hex_upper d)" by (simp_all add: ws_def)
qed

lemma b16decode_hex2:
  "n < 256 \<Longrightarrow> b16decode (hex2 n @ r) = bindE (b16decode r) (\<lambda>bs. Inr (n # bs))"
  by (simp add: hex2_def hex_upper mult_div_mod_eq)

lemma b16decode_concat: "\<forall>b \<in> set bs. b < 256 \<Longrightarrow> b16decode (concat (map hex2 bs)) = Inr bs"
  by (induction bs) (simp_all add: b16decode_hex2)

lemma py_int_hex4:
  assumes "port < 65536"
  shows "py_int_base 16 (hex2 (port div 256) @ hex2 (port mod 256)) = Inr (int port)"
proof -
  let ?a = "port div 256 div 16" and ?b = "port div 256 mod 16" and ?c = "port mod 256 div 16"
    and ?d = "port mod 256 mod 16"
  have lt: "?a < 16" "?b < 16" "?c < 16" "?d < 16" using assms by auto
  note h = hex_upper [OF lt(1)] hex_upper [OF lt(2)] hex_upper [OF lt(3)] hex_upper [OF lt(4)]
  have st: "strip [hex_upper ?a, hex_upper ?b, hex_upper ?c, hex_upper ?d]
      = [hex_upper ?a, hex_upper ?b, hex_upper ?c, hex_upper ?d]"
    by (rule strip_word) (simp add: word_ok_def h)
  have "16 * ?a + ?b = port div 256" "16 * ?c + ?d = port mod 256"
    "256 * (port div 256) + port mod 256 = port" by (simp_all only: mult_div_mod_eq)
  moreover have "16 * a + b = p \<Longrightarrow> 16 * c + d = q \<Longrightarrow> 256 * p + q = n
      \<Longrightarrow> ((a * 16 + b) * 16 + c) * 16 + d = n" for a b c d p q n :: nat
    by auto
  ultimately have "((?a * 16 + ?b) * 16 + ?c) * 16 + ?d = port" by blast
  then have "((int ?a * 16 + int ?b) * 16 + int ?c) * 16 + int ?d = int port"
    by (metis of_nat_add of_nat_mult of_nat_numeral)
  then show ?thesis using h
    by (simp add: py_int_base_def hex2_def st split_sign_def drop_base_prefix_def)
qed

lemma swap_words_twice:
  assumes "length bs = 16"
  shows "swap_words (swap_words bs) = bs" "length (swap_words bs) = 16" "set (swap_words bs) = set bs"
proof -
  obtain b0 b1 b2 b3 b4 b5 b6 b7 b8 b9 b10 b11 b12 b13 b14 b15 where
    "bs = [b0, b1, b2, b3, b4, b5, b6, b7, b8, b9, b10, b11, b12, b13, b14, b15]"
    using assms by (auto simp: numeral_eq_Suc length_Suc_conv)
  then show "swap_words (swap_words bs) = bs" "length (swap_words bs) = 16" "set (swap_words bs) = set bs"
    by (auto simp: swap_words_def upt_rec)
qed

text \<open>
  C35: \<open>decode_address\<close> recovers an IPv4 or IPv6 address and its port from the hexadecimal
  text the kernel prints on either byte order (IPv6 addresses are four 32-bit words, each
  in the byte order of the machine); port 0 means there is no end point.
\<close>

theorem decode_address_roundtrip:
  assumes "family = AF_INET \<and> length bs = 4 \<or> family = AF_INET6 \<and> length bs = 16 \<and> os_ntop_ipv6 os"
    and "\<forall>b \<in> set bs. b < 256" and "port < 65536"
  shows "decode_address os (inet_text (os_little_endian os) family bs port) family
     = Inr (if port = 0 then NoEnd
            else Addr (if family = AF_INET then ntop4 bs else ntop6 bs) (int port))"
proof -
  let ?bs = "if os_little_endian os then (if family = AF_INET then rev bs else swap_words bs) else bs"
  let ?port = "hex2 (port div 256) @ hex2 (port mod 256)"
  have set_bs: "set ?bs = set bs" using assms(1) swap_words_twice(3) by (auto simp: sock_defs)
  have colon: "CHR '':'' \<notin> set (hex2 n)" if "n < 256" for n
  proof -
    have "n div 16 < 16" "n mod 16 < 16" using that by simp_all
    then show ?thesis using hex_upper(4) [of "n div 16"] hex_upper(4) [of "n mod 16"]
      by (auto simp: hex2_def)
  qed
  have "CHR '':'' \<notin> set (concat (map hex2 ?bs))"
    using assms(2) colon unfolding set_concat set_map set_bs by auto
  moreover have "CHR '':'' \<notin> set ?port"
    using assms(3) colon [of "port div 256"] colon [of "port mod 256"] by auto
  ultimately have "split_on (CHR '':'') (inet_text (os_little_endian os) family bs port)
      = [concat (map hex2 ?bs), ?port]"
    unfolding inet_text_def by (metis split_on_append split_on_notin)
  moreover have "b16decode (concat (map hex2 ?bs)) = Inr ?bs"
    by (rule b16decode_concat) (use assms(2) set_bs in blast)
  moreover have "family = AF_INET6 \<Longrightarrow> length ?bs = 16 \<and> swap_words (swap_words bs) = bs"
    using assms(1) swap_words_twice by (auto simp: sock_defs)
  ultimately show ?thesis using assms(1) py_int_hex4 [OF assms(3)]
    by (auto simp: decode_address_def inet_ntop_def sock_defs)
qed

theorem decode_address_roundtrip_witness:
  "decode_address null_os (inet_text True AF_INET [10, 0, 0, 5] 22) AF_INET = Inr (Addr (ntop4 [10, 0, 0, 5]) 22)
   \<and> decode_address null_os (inet_text True AF_INET6 [0, 0, 0, 0, 0, 0, 0, 0, 0, 0, 255, 255, 127, 0, 0, 1] 40521) AF_INET6
       = Inr (Addr (ntop6 [0, 0, 0, 0, 0, 0, 0, 0, 0, 0, 255, 255, 127, 0, 0, 1]) 40521)"
  using decode_address_roundtrip [of AF_INET "[10, 0, 0, 5]" null_os 22]
    decode_address_roundtrip [of AF_INET6 "[0, 0, 0, 0, 0, 0, 0, 0, 0, 0, 255, 255, 127, 0, 0, 1]" null_os 40521]
  by (simp add: null_os_def sock_defs)

section \<open>What \<open>retrieve\<close> returns\<close>

lemma proc_inodes_inv:
  assumes "for_each fds (proc_inodes_step procfs pid) acc s = (Inr r, t)"
    and "\<forall>i l. map_of acc i = Some l \<longrightarrow> (\<forall>(p, n) \<in> set l. p = pid \<and> (\<exists>nm \<in> F. py_int nm = Inr n))"
    and "set fds \<subseteq> F"
  shows "\<forall>i l. map_of r i = Some l \<longrightarrow> (\<forall>(p, n) \<in> set l. p = pid \<and> (\<exists>nm \<in> F. py_int nm = Inr n))"
proof -
  let ?P = "\<lambda>acc. \<forall>i l. map_of acc i = Some l \<longrightarrow> (\<forall>(p, n) \<in> set l. p = pid \<and> (\<exists>nm \<in> F. py_int nm = Inr n))"
  show ?thesis
  proof (rule for_each_inv [where P = ?P, OF assms(1,2)])
    fix fd a u b v
    assume fd: "fd \<in> set fds" and a: "?P a" and run: "proc_inodes_step procfs pid fd a u = (Inr b, v)"
    then consider "b = a"
      | i n where "py_int fd = Inr n" "b = AList.update i (dict_get a i [] @ [(pid, n)]) a"
      by (auto simp: proc_inodes_step_def try_else_Inr bnd_Inr Let_def simp del: try_else_run bnd_run
          split: if_splits)
    then show "?P b"
    proof cases
      case 1
      with a show ?thesis by simp
    next
      case (2 i n)
      have "?P a" using a .
      then have "\<forall>(p, m) \<in> set (dict_get a i []). p = pid \<and> (\<exists>nm \<in> F. py_int nm = Inr m)"
        by (cases "map_of a i") (simp_all add: dict_get_def)
      moreover have "fd \<in> F" using fd assms(3) by blast
      ultimately show ?thesis using a 2 by auto
    qed
  qed
qed

text \<open>What every connection read from a file of \<open>/proc/net\<close> satisfies.\<close>

definition pair_from :: "inodes \<Rightarrow> int option \<Rightarrow> int \<Rightarrow> bool" where
  "pair_from inodes pid fd \<longleftrightarrow> pid = None \<and> fd = -1
     \<or> (\<exists>i l p. map_of inodes i = Some l \<and> pid = Some p \<and> (p, fd) \<in> set l)"

definition conn_from :: "inodes \<Rightarrow> int option \<Rightarrow> sconn \<Rightarrow> bool" where
  "conn_from inodes filter_pid c \<longleftrightarrow> pair_from inodes (cn_pid c) (cn_fd c)
     \<and> (filter_pid = None \<or> cn_pid c = filter_pid)"

lemma inet_line_ok:
  assumes "inet_line os family ty inodes flt line acc = Inr r"
    and "\<forall>c \<in> set acc. cn_family c = family \<and> cn_type c = ty \<and> conn_from inodes flt c"
  shows "\<forall>c \<in> set r. cn_family c = family \<and> cn_type c = ty \<and> conn_from inodes flt c"
proof -
  obtain laddr raddr status inode a0 a4 a5 a6 a7 a8 where
    tok: "take 10 (split_ws line) = [a0, laddr, raddr, status, a4, a5, a6, a7, a8, inode]"
    using assms(1) by (auto simp: inet_line_def split: list.splits)
  obtain pid fd where pf: "(case map_of inodes inode of None \<Rightarrow> Inr (None, -1)
      | Some l \<Rightarrow> bindE (item l 0) (\<lambda>(p, f). Inr (Some p, f))) = Inr (pid, fd)"
    and rest: "(if flt \<noteq> None \<and> flt \<noteq> pid then Inr acc
          else bindE (if ty = SOCK_STREAM then dict_item TCP_STATUSES status else Inr CONN_NONE) (\<lambda>st.
            case bindE (decode_address os laddr family) (\<lambda>l.
                 bindE (decode_address os raddr family) (\<lambda>r. Inr (l, r))) of
              Inr (l, r) \<Rightarrow> Inr (acc @ [mk_conn fd family ty l r st pid])
            | Inl e \<Rightarrow> (if e = Ipv6UnsupportedError then Inr acc else Inl e))) = Inr r"
    using assms(1) unfolding inet_line_def tok by (auto simp: bindE_eq_Inr)
  have src: "pair_from inodes pid fd"
  proof (cases "map_of inodes inode")
    case None
    then show ?thesis using pf by (simp add: pair_from_def)
  next
    case (Some l)
    then obtain p where "l \<noteq> []" "l ! 0 = (p, fd)" "pid = Some p"
      using pf by (auto simp: bindE_eq_Inr item_def split: if_splits)
    moreover from this have "(p, fd) \<in> set l" by (metis length_greater_0_conv nth_mem)
    ultimately show ?thesis using Some by (auto simp: pair_from_def)
  qed
  consider "r = acc" | l q st where "flt = None \<or> flt = pid" "r = acc @ [mk_conn fd family ty l q st pid]"
  proof (cases "flt \<noteq> None \<and> flt \<noteq> pid")
    case True
    with rest that(1) show ?thesis by simp
  next
    case False
    define D where "D = bindE (decode_address os laddr family) (\<lambda>l.
                 bindE (decode_address os raddr family) (\<lambda>r. Inr (l, r)))"
    obtain st where "(case D of
              Inr (l, r) \<Rightarrow> Inr (acc @ [mk_conn fd family ty l r st pid])
            | Inl e \<Rightarrow> (if e = Ipv6UnsupportedError then Inr acc else Inl e)) = Inr r"
      using rest False unfolding D_def [symmetric] if_not_P [OF False] bindE_eq_Inr by blast
    then show ?thesis using False that by (cases D) (auto split: if_splits)
  qed
  then show ?thesis
  proof cases
    case 1
    then show ?thesis using assms(2) by simp
  next
    case (2 l q st)
    then have "conn_from inodes flt (mk_conn fd family ty l q st pid)"
      using src by (auto simp: conn_from_def mk_conn_def)
    then show ?thesis using 2 assms(2) by (simp add: mk_conn_def)
  qed
qed

lemma process_inet_ok:
  assumes "process_inet file family ty inodes flt s = (Inr cs, t)"
  shows "\<forall>c \<in> set cs. cn_family c = family \<and> cn_type c = ty \<and> conn_from inodes flt c"
proof -
  consider "cs = []" | data os where "foldE (inet_line os family ty inodes flt) (tl (lines data)) [] = Inr cs"
    using assms by (auto simp: process_inet_def bnd_Inr simp del: bnd_run split: if_splits)
  then show ?thesis
  proof cases
    case (2 data os)
    show ?thesis
      by (rule foldE_inv [where P = "\<lambda>cs. \<forall>c \<in> set cs. cn_family c = family \<and> cn_type c = ty \<and> conn_from inodes flt c", OF 2])
        (simp, rule inet_line_ok)
  qed simp
qed

lemma unix_line_ok:
  assumes "unix_line family inodes flt line acc = Inr r"
    and "\<forall>c \<in> set acc. cn_family c = family \<and> conn_from inodes flt c"
  shows "\<forall>c \<in> set r. cn_family c = family \<and> conn_from inodes flt c"
proof (cases "r = acc")
  case False
  let ?Q = "\<lambda>cs. \<forall>c \<in> set cs. cn_family c = family \<and> conn_from inodes flt c"
  obtain a0 a1 a2 a3 ty a5 inode where tok: "take 7 (split_ws line) = [a0, a1, a2, a3, ty, a5, inode]"
    using assms(1) False by (auto simp: unix_line_def Let_def split: list.splits if_splits)
  define pairs where "pairs = (case map_of inodes inode of
      Some pairs \<Rightarrow> map (\<lambda>(p, f). (Some p, f)) pairs | None \<Rightarrow> [(None, -1)])"
  have src: "pair_from inodes pid fd" if "(pid, fd) \<in> set pairs" for pid fd
    using that by (auto simp: pairs_def pair_from_def split: option.splits)
  have run: "foldE (\<lambda>(pid, fd) acc.
              if flt \<noteq> None \<and> flt \<noteq> pid then Inr acc
              else bindE (py_int ty) (\<lambda>n.
                let path = (if length (split_ws line) = 8 then last (split_ws line) else []) in
                Inr (acc @ [mk_conn fd family n (UnixPath path) (UnixPath []) CONN_NONE pid]))) pairs acc = Inr r"
    using assms(1) unfolding unix_line_def Let_def tok pairs_def by simp
  show ?thesis
  proof (rule foldE_inv [where P = ?Q, OF run assms(2)])
    fix x a b
    assume x: "x \<in> set pairs" and a: "?Q a" and step: "(case x of (pid, fd) \<Rightarrow> \<lambda>acc.
              if flt \<noteq> None \<and> flt \<noteq> pid then Inr acc
              else bindE (py_int ty) (\<lambda>n.
                let path = (if length (split_ws line) = 8 then last (split_ws line) else []) in
                Inr (acc @ [mk_conn fd family n (UnixPath path) (UnixPath []) CONN_NONE pid]))) a = Inr b"
    obtain pid fd where xp: "x = (pid, fd)" by (cases x)
    consider "b = a" | n path where "flt = None \<or> flt = pid"
        "b = a @ [mk_conn fd family n (UnixPath path) (UnixPath []) CONN_NONE pid]"
      using step xp by (auto simp: bindE_eq_Inr Let_def split: if_splits)
    then show "?Q b"
      by cases (use a src x xp in \<open>auto simp: conn_from_def mk_conn_def\<close>)
  qed
qed (use assms in simp)

lemma process_unix_ok:
  assumes "process_unix file family inodes flt s = (Inr cs, t)"
  shows "\<forall>c \<in> set cs. cn_family c = family \<and> conn_from inodes flt c"
proof -
  obtain data where "foldE (unix_line family inodes flt) (tl (lines data)) [] = Inr cs"
    using assms by (auto simp: process_unix_def bnd_Inr simp del: bnd_run)
  then show ?thesis
    by (rule foldE_inv [where P = "\<lambda>cs. \<forall>c \<in> set cs. cn_family c = family \<and> conn_from inodes flt c"])
      (simp, rule unix_line_ok)
qed

lemma retrieve_step_ok:
  assumes "retrieve_step procfs pid inodes e acc s = (Inr r, t)" and "e \<in> set es"
    and "snd (snd e) \<noteq> None \<longrightarrow> fst (snd e) \<in> {AF_INET, AF_INET6}" and "distinct acc" and "\<forall>c \<in> set acc. \<exists>(nm, fam, ty) \<in> set es. cn_family c = fam
      \<and> (\<forall>x. ty = Some x \<longrightarrow> cn_type c = x)"
  shows "distinct r \<and> (\<forall>c \<in> set r. \<exists>(nm, fam, ty) \<in> set es. cn_family c = fam
      \<and> (\<forall>x. ty = Some x \<longrightarrow> cn_type c = x))"
proof -
  let ?Q = "\<lambda>c. \<exists>(nm, fam, ty) \<in> set es. cn_family c = fam \<and> (\<forall>x. ty = Some x \<longrightarrow> cn_type c = x)"
  let ?f = "\<lambda>c. if pid \<noteq> None \<and> pid \<noteq> Some 0 then c\<lparr>cn_pid := None\<rparr> else c"
  obtain nm fam ty where e: "e = (nm, fam, ty)" by (cases e)
  obtain ls u where ls: "(if fam \<in> {AF_INET, AF_INET6}
          then process_inet (procfs @ ''/net/'' @ nm) fam (case ty of None \<Rightarrow> 0 | Some t \<Rightarrow> t) inodes pid
          else process_unix (procfs @ ''/net/'' @ nm) fam inodes pid) s = (Inr ls, u)"
    and r: "r = fold (\<lambda>c acc. List.insert (?f c) acc) ls acc"
    using assms(1) unfolding retrieve_step_def e prod.case Let_def bnd_Inr ret_run by auto
  have Q: "?Q (?f c)" if "c \<in> set ls" for c
  proof (cases "fam \<in> {AF_INET, AF_INET6}")
    case True
    then have "process_inet (procfs @ ''/net/'' @ nm) fam (case ty of None \<Rightarrow> 0 | Some t \<Rightarrow> t) inodes pid s
        = (Inr ls, u)" using ls by simp
    from process_inet_ok [OF this] that
    have "cn_family c = fam \<and> cn_type c = (case ty of None \<Rightarrow> 0 | Some t \<Rightarrow> t)" by blast
    then show ?thesis using assms(2) e by (intro bexI [of _ e]) auto
  next
    case False
    then have "process_unix (procfs @ ''/net/'' @ nm) fam inodes pid s = (Inr ls, u)" using ls by simp
    from process_unix_ok [OF this] that have "cn_family c = fam" by blast
    then show ?thesis using assms(2,3) False e by (intro bexI [of _ e]) auto
  qed
  then have "\<forall>c \<in> set ls. ?Q (?f c)" by blast
  from fold_insert_inv [where P = ?Q, OF this assms(4,5)] show ?thesis by (simp add: r)
qed

text \<open>
  \<open>retrieve\<close> returns no connection twice, and each one has the family and the socket
  type of one of the files its kind stands for; a kind that is not in the table is a
  \<open>KeyError\<close> unless the process has no socket at all.
\<close>

theorem retrieve_by_kind:
  assumes "retrieve kind pid s = (Inr cs, t)" and "cs \<noteq> []"
  shows "distinct cs \<and> (\<exists>entries. map_of tmap kind = Some entries
    \<and> (\<forall>c \<in> set cs. \<exists>(nm, family, ty) \<in> set entries. cn_family c = family
         \<and> (\<forall>x. ty = Some x \<longrightarrow> cn_type c = x)))"
proof -
  obtain procfs inodes entries u where tm: "map_of tmap kind = Some entries"
    and run: "for_each entries (retrieve_step procfs pid inodes) [] u = (Inr cs, t)"
    using assms by (auto simp: retrieve_def bnd_Inr dict_item_def simp del: bnd_run split: if_splits)
  let ?P = "\<lambda>cs. distinct cs \<and> (\<forall>c \<in> set cs. \<exists>(nm, family, ty) \<in> set entries. cn_family c = family
         \<and> (\<forall>x. ty = Some x \<longrightarrow> cn_type c = x))"
  have ty: "snd (snd e) \<noteq> None \<longrightarrow> fst (snd e) \<in> {AF_INET, AF_INET6}" if "e \<in> set entries" for e
    using tm that by (auto simp: tmap_defs split: if_splits)
  have "?P cs"
  proof (rule for_each_inv [where P = ?P, OF run])
    fix e a v b w assume e: "e \<in> set entries" and "?P a" "retrieve_step procfs pid inodes e a v = (Inr b, w)"
    then show "?P b" using retrieve_step_ok [OF _ e ty [OF e]] by blast
  qed simp
  with tm show ?thesis by blast
qed

definition unix_table :: string where
  "unix_table = ''Num RefCount Protocol Flags Type St Inode Path'' @ [nl]
     @ ''a: 2 0 10000 1 01 300 /run/x'' @ [nl]"

theorem retrieve_by_kind_witness:
  "\<exists>cs t. retrieve ''unix'' None (null_sys\<lparr>sys_os := null_os\<lparr>os_listdir := \<lambda>h p. Inr [],
       os_read := \<lambda>h p. Inr unix_table\<rparr>\<rparr>) = (Inr cs, t) \<and> distinct cs
     \<and> (\<forall>c \<in> set cs. cn_family c = AF_UNIX)"
proof -
  let ?s = "null_sys\<lparr>sys_os := null_os\<lparr>os_listdir := \<lambda>h p. Inr [], os_read := \<lambda>h p. Inr unix_table\<rparr>\<rparr>"
  have "lines unix_table = [''Num RefCount Protocol Flags Type St Inode Path'' @ [nl],
      ''a: 2 0 10000 1 01 300 /run/x'' @ [nl]]"
    by (simp add: unix_table_def lines_def)
  moreover have "py_int ''1'' = Inr 1"
    by (simp add: py_int_def py_int_base_def strip_def lstrip_def rstrip_def ws_def split_sign_def digit_val_def)
  ultimately obtain cs t where run: "retrieve ''unix'' None ?s = (Inr cs, t)" and ne: "cs \<noteq> []"
    by (simp add: retrieve_def get_all_inodes_def pids_def sys_defs dict_item_def tmap_defs
        retrieve_step_def process_unix_def unix_line_def split_ws_def ws_def sock_defs Let_def)
  have "map_of tmap ''unix'' = Some [unix1]" by (simp add: tmap_defs)
  then show ?thesis using retrieve_by_kind [OF run ne] run by (auto simp: unix1_def)
qed

section \<open>Interface counters\<close>

text \<open>A line of \<open>/proc/net/dev\<close>: the name may itself contain a colon.\<close>

definition net_dev_text :: "string \<times> nat list \<Rightarrow> string" where
  "net_dev_text e = ''  '' @ fst e @ CHR '':'' # join '' '' (map nat_str (snd e)) @ [nl]"

definition net_dev_tuple :: "nat list \<Rightarrow> int list" where
  "net_dev_tuple ns = map (\<lambda>i. int (ns ! i)) [8, 0, 9, 1, 2, 10, 3, 11]"

lemma net_dev_line_text:
  assumes "word_ok (fst e)" and len: "length (snd e) = 16"
  shows "net_dev_line (net_dev_text e) d = Inr (AList.update (fst e) (net_dev_tuple (snd e)) d)"
proof -
  let ?v = "join '' '' (map nat_str (snd e)) @ [nl]"
  have "CHR '':'' \<notin> set ?v"
    using set_join [of "'' ''" "map nat_str (snd e)"] by (auto simp: is_digit_def dest!: set_nat_str)
  from rfind_char_last [OF this, of "''  '' @ fst e"]
  have col: "rfind_char (CHR '':'') (net_dev_text e) = int (length (''  '' @ fst e))"
    by (simp add: net_dev_text_def)
  have nm: "slice (net_dev_text e) 0 (int (length (''  '' @ fst e))) = ''  '' @ fst e"
    using slice_mid [of 0 "[]" "int (length (''  '' @ fst e))" "''  '' @ fst e" "CHR '':'' # ?v"]
    by (simp add: net_dev_text_def)
  have "net_dev_text e = (''  '' @ fst e @ '':'') @ ?v" by (simp add: net_dev_text_def)
  then have vals: "slice_from (net_dev_text e) (int (length (''  '' @ fst e)) + 1) = ?v"
    using slice_from_len [of "int (length (''  '' @ fst e)) + 1" "''  '' @ fst e @ '':''" ?v] by simp
  have st: "strip (''  '' @ fst e) = fst e"
    using strip_word_blanks [OF assms(1), of "''  ''" "[]"] by (simp add: ws_def)
  have sp: "split_ws (strip ?v) = map nat_str (snd e)"
    unfolding split_ws_strip by (rule split_ws_join_newline) (auto simp: list_all_iff ws_def)
  obtain a0 a1 a2 a3 a4 a5 a6 a7 a8 a9 a10 a11 a12 a13 a14 a15 where
    ns: "snd e = [a0, a1, a2, a3, a4, a5, a6, a7, a8, a9, a10, a11, a12, a13, a14, a15]"
    using len by (auto simp: numeral_eq_Suc length_Suc_conv)
  have "net_dev_line (net_dev_text e) d = bindE (Inr (map int (snd e))) (\<lambda>ns. case ns of
                [bytes_recv, packets_recv, errin, dropin, _, _, _, _,
                 bytes_sent, packets_sent, errout, dropout, _, _, _, _] \<Rightarrow>
                  Inr (AList.update (fst e) [bytes_sent, bytes_recv, packets_sent, packets_recv,
                    errin, errout, dropin, dropout] d)
              | _ \<Rightarrow> Inl ValueError)"
    unfolding net_dev_line_def col Let_def nm vals st sp mapE_py_int_nat_str by simp
  then show ?thesis by (simp add: ns net_dev_tuple_def)
qed

definition net_dev_header :: string where
  "net_dev_header = ''Inter-|   Receive'' @ [nl] @ '' face |bytes'' @ [nl]"

lemma net_dev_lines:
  assumes "\<forall>e \<in> set es. word_ok (fst e)"
  shows "drop 2 (lines (net_dev_header @ concat (map net_dev_text es))) = map net_dev_text es"
proof -
  have ln: "lines (concat (map net_dev_text es)) = map net_dev_text es"
    using assms
  proof (induction es)
    case (Cons e es)
    have "nl \<notin> set (fst e)" using Cons.prems by (auto simp: word_ok_def list_all_iff ws_def)
    moreover have "nl \<notin> set (join '' '' (map nat_str (snd e)))"
      using set_join [of "'' ''" "map nat_str (snd e)"] by (auto simp: is_digit_def dest!: set_nat_str)
    ultimately have "nl \<notin> set (''  '' @ fst e @ CHR '':'' # join '' '' (map nat_str (snd e)))" by simp
    from lines_line [OF this] Cons show ?case by (simp add: net_dev_text_def)
  qed simp
  have "lines (net_dev_header @ r) = lines net_dev_header @ lines r" for r
    by (rule lines_append) (simp add: net_dev_header_def)
  moreover have "length (lines net_dev_header) = 2" by (simp add: net_dev_header_def lines_def)
  ultimately show ?thesis by (simp add: ln)
qed

lemma net_dev_fold:
  assumes "distinct (map fst d @ map fst es)" "\<forall>e \<in> set es. word_ok (fst e) \<and> length (snd e) = 16"
  shows "foldE net_dev_line (map net_dev_text es) d = Inr (d @ map (\<lambda>e. (fst e, net_dev_tuple (snd e))) es)"
  using assms
proof (induction es arbitrary: d)
  case (Cons e es)
  then have "AList.update (fst e) (net_dev_tuple (snd e)) d = d @ [(fst e, net_dev_tuple (snd e))]"
    by (intro keys_update_new) auto
  with Cons show ?case by (simp add: net_dev_line_text)
qed simp

text \<open>
  \<open>net_io_counters\<close> reads every line of \<open>/proc/net/dev\<close> after the header into one entry
  with the eight counters psutil reports, in psutil's order, under the full name of the
  interface even when the name (of an alias) contains colons.
\<close>

theorem net_io_counters_parses:
  assumes "os_read (sys_os s) (hist s) (procfs_path s @ ''/net/dev'')
       = Inr (net_dev_header @ concat (map net_dev_text es))"
    and "\<forall>e \<in> set es. word_ok (fst e) \<and> length (snd e) = 16" and "distinct (map fst es)"
  shows "fst (linux_net_io_counters s) = Inr (map (\<lambda>e. (fst e, net_dev_tuple (snd e))) es)"
  using assms net_dev_lines [of es] net_dev_fold [of "[]" es]
  by (simp add: linux_net_io_counters_def read_file_def)

theorem net_io_counters_parses_witness:
  "fst (linux_net_io_counters (null_sys\<lparr>sys_os := null_os\<lparr>os_read := \<lambda>h p.
      Inr (net_dev_header @ concat (map net_dev_text [(''eth0:1'', [0..<16])]))\<rparr>\<rparr>))
   = Inr [(''eth0:1'', [8, 0, 9, 1, 2, 10, 3, 11])]"
  using net_io_counters_parses [of "null_sys\<lparr>sys_os := null_os\<lparr>os_read := \<lambda>h p.
      Inr (net_dev_header @ concat (map net_dev_text [(''eth0:1'', [0..<16])]))\<rparr>\<rparr>" "[(''eth0:1'', [0..<16])]"]
  by (simp add: word_ok_def ws_def net_dev_tuple_def)

end
