(* ===== verification/Linux_Disk.thy ===== *)
theory Linux_Disk
  imports Linux_System "HOL-Library.Sublist"
begin

text \<open>
  Disks of \<open>psutil/_pslinux.py\<close>: I/O counters from \<open>/proc/diskstats\<close> or \<open>/sys/block\<close>, the
  search for the device behind \<open>/dev/root\<close> (class \<open>RootFsDeviceFinder\<close>, whose state is the
  device number of \<open>/\<close>), and the mounted partitions.
\<close>

section \<open>I/O counters\<close>

text \<open>
  An entry of the two generators: the name and \<open>reads\<close>, \<open>writes\<close>, \<open>rbytes\<close>, \<open>wbytes\<close>,
  \<open>rtime\<close>, \<open>wtime\<close>, \<open>reads_merged\<close>, \<open>writes_merged\<close>, \<open>busy_time\<close>.
\<close>

type_synonym disk_entry = "string \<times> int list"

definition diskstats_line :: "string \<Rightarrow> exn + disk_entry" where
  "diskstats_line line =
     (let flds = split_ws line; flen = length flds in
      if flen = 15 then
        bindE (item flds 3) (\<lambda>name. bindE (bindE (item flds 2) py_int) (\<lambda>reads.
        bindE (mapE py_int (slice flds 4 14)) (\<lambda>ns. case ns of
          [reads_merged, rbytes, rtime, writes, writes_merged, wbytes, wtime, _, busy_time, _] \<Rightarrow>
            Inr (name, [reads, writes, rbytes, wbytes, rtime, wtime, reads_merged, writes_merged, busy_time])
        | _ \<Rightarrow> Inl ValueError)))
      else if flen = 14 \<or> 18 \<le> flen then
        bindE (item flds 2) (\<lambda>name. bindE (mapE py_int (slice flds 3 14)) (\<lambda>ns. case ns of
          [reads, reads_merged, rbytes, rtime, writes, writes_merged, wbytes, wtime, _, busy_time, _] \<Rightarrow>
            Inr (name, [reads, writes, rbytes, wbytes, rtime, wtime, reads_merged, writes_merged, busy_time])
        | _ \<Rightarrow> Inl ValueError))
      else if flen = 7 then
        bindE (item flds 2) (\<lambda>name. bindE (mapE py_int (slice_from flds 3)) (\<lambda>ns. case ns of
          [reads, rbytes, writes, wbytes] \<Rightarrow> Inr (name, [reads, writes, rbytes, wbytes, 0, 0, 0, 0, 0])
        | _ \<Rightarrow> Inl ValueError))
      else Inl ValueError)"

definition sysfs_stat :: "string \<Rightarrow> string \<Rightarrow> exn + disk_entry" where
  "sysfs_stat name data = bindE (mapE py_int (slice (split_ws (strip data)) 0 10)) (\<lambda>ns. case ns of
     [reads, reads_merged, rbytes, rtime, writes, writes_merged, wbytes, wtime, _, busy_time] \<Rightarrow>
       Inr (name, [reads, writes, rbytes, wbytes, rtime, wtime, reads_merged, writes_merged, busy_time])
   | _ \<Rightarrow> Inl ValueError)"

definition walk_call :: "string \<Rightarrow> ('z sys_scheme, (string \<times> string list) list) py" where
  "walk_call p = sys_ask (SWalk p) (\<lambda>os h. os_walk os h p)"

text \<open>The body of the main loop for one entry.\<close>

definition disk_entry_step ::
  "bool \<Rightarrow> disk_entry \<Rightarrow> (string, int list) dict \<Rightarrow> ('z sys_scheme, (string, int list) dict) py" where
  "disk_entry_step perdisk entry retdict = (case entry of
     (name, [reads, writes, rbytes, wbytes, rtime, wtime, reads_merged, writes_merged, busy_time]) \<Rightarrow>
       bnd (if perdisk then ret True else is_storage_device name) (\<lambda>keep.
       if \<not> keep then ret retdict
       else ret (AList.update name [reads, writes, rbytes * DISK_SECTOR_SIZE, wbytes * DISK_SECTOR_SIZE,
                 rtime, wtime, reads_merged, writes_merged, busy_time] retdict))
   | _ \<Rightarrow> raise ValueError)"

definition disk_line_step ::
  "bool \<Rightarrow> string \<Rightarrow> (string, int list) dict \<Rightarrow> ('z sys_scheme, (string, int list) dict) py" where
  "disk_line_step perdisk line acc = bnd (liftE (diskstats_line line)) (\<lambda>e. disk_entry_step perdisk e acc)"

definition disk_procfs :: "bool \<Rightarrow> string \<Rightarrow> ('z sys_scheme, (string, int list) dict) py" where
  "disk_procfs perdisk procfs = bnd (read_file (procfs @ ''/diskstats'')) (\<lambda>data.
     for_each (lines data) (disk_line_step perdisk) [])"

definition disk_sysfs :: "bool \<Rightarrow> ('z sys_scheme, (string, int list) dict) py" where
  "disk_sysfs perdisk = bnd (listdir ''/sys/block'') (\<lambda>blocks.
     for_each blocks (\<lambda>block acc. bnd (walk_call (pjoin ''/sys/block'' block)) (\<lambda>dirs.
       for_each dirs (\<lambda>(root, files) acc.
         if ''stat'' \<notin> set files then ret acc
         else bnd (read_file (pjoin root ''stat'')) (\<lambda>data.
              bnd (liftE (sysfs_stat (basename root) data)) (\<lambda>e. disk_entry_step perdisk e acc))) acc)) [])"

definition linux_disk_io_counters :: "bool \<Rightarrow> ('z sys_scheme, (string, int list) dict) py" where
  "linux_disk_io_counters perdisk = bnd get_procfs_path (\<lambda>p.
     bnd (path_exists (p @ ''/diskstats'')) (\<lambda>a.
     if a then disk_procfs perdisk p
     else bnd (path_exists ''/sys/block'') (\<lambda>b.
       if b then disk_sysfs perdisk else raise NotImplementedError)))"

section \<open>The root device\<close>

definition root_dev :: "('z sys_scheme, int \<times> int) py" where
  "root_dev = bnd (stat_call ''/'') (\<lambda>st. ret (st_dev st))"

fun proc_partitions_loop :: "int \<times> int \<Rightarrow> string list \<Rightarrow> exn + string option" where
  "proc_partitions_loop dev [] = Inr None"
| "proc_partitions_loop dev (line # ls) =
     (case split_ws line of
        a # b # c # name # _ \<Rightarrow>
          bindE (if str_isdigit a then map_sum id Some (py_int a) else Inr None) (\<lambda>major.
          bindE (if str_isdigit b then map_sum id Some (py_int b) else Inr None) (\<lambda>minor.
          if major = Some (fst dev) \<and> minor = Some (snd dev) \<and> name \<noteq> []
          then Inr (Some (''/dev/'' @ name)) else proc_partitions_loop dev ls))
      | _ \<Rightarrow> proc_partitions_loop dev ls)"

definition ask_proc_partitions :: "int \<times> int \<Rightarrow> ('z sys_scheme, string option) py" where
  "ask_proc_partitions dev = bnd get_procfs_path (\<lambda>p. bnd (read_file (p @ ''/partitions'')) (\<lambda>data.
     liftE (proc_partitions_loop dev (drop 2 (lines data)))))"

text \<open>\<open>s.rpartition(p)[2]\<close>: what follows the last occurrence, or all of it.\<close>

definition after_last :: "string \<Rightarrow> string \<Rightarrow> string" where
  "after_last p s = (case find_sub (rev p) (rev s) of None \<Rightarrow> s | Some i \<Rightarrow> rev (take i (rev s)))"

definition dev_numbers :: "int \<times> int \<Rightarrow> string" where
  "dev_numbers dev = int_str (fst dev) @ CHR '':'' # int_str (snd dev)"

fun uevent_loop :: "string list \<Rightarrow> string option" where
  "uevent_loop [] = None"
| "uevent_loop (line # ls) =
     (if startswith line ''DEVNAME=''
      then let name = after_last ''DEVNAME='' (strip line) in
           if name \<noteq> [] then Some (''/dev/'' @ name) else uevent_loop ls
      else uevent_loop ls)"

definition ask_sys_dev_block :: "int \<times> int \<Rightarrow> ('z sys_scheme, string option) py" where
  "ask_sys_dev_block dev = bnd (read_file (''/sys/dev/block/'' @ dev_numbers dev @ ''/uevent'')) (\<lambda>data.
     ret (uevent_loop (lines data)))"

fun class_block_loop :: "string \<Rightarrow> string list \<Rightarrow> ('z sys_scheme, string option) py" where
  "class_block_loop needle [] = ret None"
| "class_block_loop needle (file # files) =
     try_else (read_file file)
       (\<lambda>e. if is_FileNotFoundError e then class_block_loop needle files else raise e)
       (\<lambda>data. if strip data = needle then ret (Some (''/dev/'' @ basename (dirname file)))
               else class_block_loop needle files)"

definition ask_sys_class_block :: "int \<times> int \<Rightarrow> ('z sys_scheme, string option) py" where
  "ask_sys_class_block dev = bnd (glob_call ''/sys/class/block/*/dev'') (class_block_loop (dev_numbers dev))"

text \<open>One strategy of \<open>find\<close>: only when there is no path yet, and an \<open>OSError\<close> is no answer.\<close>

definition ask_next ::
  "('z sys_scheme, string option) py \<Rightarrow> string option \<Rightarrow> ('z sys_scheme, string option) py" where
  "ask_next m path = (if path \<noteq> None then ret path
     else try_except m (\<lambda>e. if is_OSError e then ret None else raise e))"

definition root_find :: "int \<times> int \<Rightarrow> ('z sys_scheme, string option) py" where
  "root_find dev =
     bnd (ask_next (ask_proc_partitions dev) None) (\<lambda>p1.
     bnd (ask_next (ask_sys_dev_block dev) p1) (\<lambda>p2.
     bnd (ask_next (ask_sys_class_block dev) p2) (\<lambda>p3. case p3 of
       None \<Rightarrow> ret None
     | Some p \<Rightarrow> bnd (path_exists p) (\<lambda>ex. ret (if ex then Some p else None)))))"

section \<open>Partitions\<close>

definition filesystems_line :: "string \<Rightarrow> string list \<Rightarrow> exn + string list" where
  "filesystems_line line0 fstypes =
     (let line = strip line0 in
      if \<not> startswith line ''nodev'' then Inr (List.insert (strip line) fstypes)
      else bindE (item (split_on (CHR 0x09) line) 1) (\<lambda>fstype.
        Inr (if fstype = ''zfs'' then List.insert ''zfs'' fstypes else fstypes)))"

definition fstypes_from_filesystems :: "string \<Rightarrow> ('z sys_scheme, string list) py" where
  "fstypes_from_filesystems procfs = bnd (read_file (procfs @ ''/filesystems'')) (\<lambda>data.
     liftE (foldE filesystems_line (lines data) []))"

fun mountinfo_words :: "string list \<Rightarrow> string list \<Rightarrow> string list" where
  "mountinfo_words (a # b # r) acc =
     mountinfo_words (b # r) (if a = ''-'' then List.insert b acc else acc)"
| "mountinfo_words _ acc = acc"

definition fstypes_from_mountinfo :: "string \<Rightarrow> ('z sys_scheme, string list) py" where
  "fstypes_from_mountinfo procfs = bnd (read_file (procfs @ ''/self/mountinfo'')) (\<lambda>data.
     ret (fold (\<lambda>line acc. mountinfo_words (split_ws (strip line)) acc) (lines data) []))"

definition mounts_call :: "string \<Rightarrow> ('z sys_scheme, (string \<times> string \<times> string \<times> string) list) py" where
  "mounts_call p = sys_call (SMounts p) (\<lambda>os h. os_mounts os h p)"

definition realpath_call :: "string \<Rightarrow> ('z sys_scheme, string) py" where
  "realpath_call p = sys_ask (SRealpath p) (\<lambda>os h. os_realpath os h p)"

definition partition_step ::
  "bool \<Rightarrow> string list \<Rightarrow> string \<times> string \<times> string \<times> string \<Rightarrow> sdiskpart list \<Rightarrow> ('z sys_scheme, sdiskpart list) py" where
  "partition_step all_parts fstypes part acc = (case part of (device0, mountpoint, fstype, opts) \<Rightarrow>
     let device1 = (if device0 = ''none'' then [] else device0) in
     bnd (if device1 \<in> {''/dev/root'', ''rootfs''}
          then bnd root_dev (\<lambda>dev. bnd (root_find dev) (\<lambda>r.
               ret (case r of None \<Rightarrow> device1 | Some p \<Rightarrow> if p = [] then device1 else p)))
          else ret device1) (\<lambda>device.
     if \<not> all_parts \<and> (device = [] \<or> fstype \<notin> set fstypes) then ret acc
     else ret (acc @ [\<lparr>dp_device = device, dp_mountpoint = mountpoint, dp_fstype = fstype, dp_opts = opts\<rparr>])))"

definition linux_disk_partitions :: "bool \<Rightarrow> ('z sys_scheme, sdiskpart list) py" where
  "linux_disk_partitions all_parts = bnd get_procfs_path (\<lambda>p.
     bnd (if all_parts then ret []
          else try_except (fstypes_from_filesystems p)
                 (\<lambda>e. if is_PermissionError e then fstypes_from_mountinfo p else raise e)) (\<lambda>fstypes.
     bnd (if p = ''/proc'' then path_isfile ''/etc/mtab'' else ret False) (\<lambda>mtab.
     bnd (realpath_call (if mtab then ''/etc/mtab'' else p @ ''/self/mounts'')) (\<lambda>mounts_path.
     bnd (mounts_call mounts_path) (\<lambda>parts.
       for_each parts (partition_step all_parts fstypes) [])))))"

section \<open>Facts\<close>

text \<open>The three layouts of a line of \<open>/proc/diskstats\<close>, by how many numbers follow the name.\<close>

definition diskstats_text :: "nat \<times> nat \<times> string \<times> nat list \<Rightarrow> string" where
  "diskstats_text e = (case e of (major, minor, name, ns) \<Rightarrow>
     join '' '' (nat_str major # nat_str minor # name # map nat_str ns) @ [nl])"

definition disk_tuple :: "nat list \<Rightarrow> int list" where
  "disk_tuple ns = (if length ns = 4
     then [int (ns ! 0), int (ns ! 2), int (ns ! 1), int (ns ! 3), 0, 0, 0, 0, 0]
     else map (\<lambda>i. int (ns ! i)) [0, 4, 2, 6, 3, 7, 1, 5, 9])"

lemma diskstats_line_text:
  assumes "word_ok name" and len: "length ns \<in> {4, 11} \<or> 15 \<le> length ns"
  shows "diskstats_line (diskstats_text (major, minor, name, ns)) = Inr (name, disk_tuple ns)"
proof -
  let ?fs = "nat_str major # nat_str minor # name # map nat_str ns"
  have sp: "split_ws (diskstats_text (major, minor, name, ns)) = ?fs"
    unfolding diskstats_text_def prod.case
    by (rule split_ws_join_newline) (use assms(1) in \<open>auto simp: list_all_iff ws_def\<close>)
  have nm: "item ?fs 2 = Inr name" by (simp add: item_def)
  show ?thesis
  proof (cases "length ns = 4")
    case True
    then obtain a b c d where ns: "ns = [a, b, c, d]" by (auto simp: numeral_eq_Suc length_Suc_conv)
    have "slice_from ?fs 3 = map nat_str ns" by (simp add: slice_from_def norm_index_def ns)
    with True nm show ?thesis
      by (simp add: diskstats_line_def sp mapE_py_int_nat_str) (simp add: ns disk_tuple_def)
  next
    case False
    define T where "T = take 11 ns"
    have "length T = 11" using False len by (auto simp: T_def)
    then obtain a b c d e f g h i j k where "T = [a, b, c, d, e, f, g, h, i, j, k]"
      by (auto simp: numeral_eq_Suc length_Suc_conv)
    then have t: "take 11 ns = [a, b, c, d, e, f, g, h, i, j, k]" by (simp add: T_def)
    have "slice ?fs 3 14 = map nat_str (take 11 ns)"
      by (simp add: slice_def norm_index_def take_map min_def)
    moreover have "ns ! m = take 11 ns ! m" if "m < 11" for m using that by simp
    then have "disk_tuple ns = map int [a, e, c, g, d, h, b, f, j]"
      using False by (simp add: disk_tuple_def t)
    moreover have "length ?fs \<noteq> 15" "length ?fs = 14 \<or> 18 \<le> length ?fs" using False len by auto
    ultimately show ?thesis
      unfolding diskstats_line_def sp Let_def nm using mapE_py_int_nat_str [of "take 11 ns"] by (simp add: t)
  qed
qed

definition disk_ok :: "nat \<times> nat \<times> string \<times> nat list \<Rightarrow> bool" where
  "disk_ok e \<longleftrightarrow> word_ok (fst (snd (snd e)))
     \<and> (length (snd (snd (snd e))) \<in> {4, 11} \<or> 15 \<le> length (snd (snd (snd e))))"

definition disk_sectors :: "int list \<Rightarrow> int list" where
  "disk_sectors t = (case t of [a, b, c, d, e, f, g, h, i] \<Rightarrow> [a, b, c * 512, d * 512, e, f, g, h, i] | _ \<Rightarrow> t)"

definition disk_result :: "nat \<times> nat \<times> string \<times> nat list \<Rightarrow> string \<times> int list" where
  "disk_result e = (fst (snd (snd e)), disk_sectors (disk_tuple (snd (snd (snd e)))))"

lemma disk_step_text:
  assumes "disk_ok e"
  shows "disk_line_step True (diskstats_text e) acc s
     = (Inr (AList.update (fst (disk_result e)) (snd (disk_result e)) acc), s)"
proof -
  obtain major minor name ns where e: "e = (major, minor, name, ns)" by (cases e)
  have "diskstats_line (diskstats_text e) = Inr (name, disk_tuple ns)"
    using assms unfolding e by (intro diskstats_line_text) (auto simp: disk_ok_def)
  moreover have "length (disk_tuple ns) = 9" by (simp add: disk_tuple_def)
  then obtain a b c d f g h i j where "disk_tuple ns = [a, b, c, d, f, g, h, i, j]"
    by (auto simp: numeral_eq_Suc length_Suc_conv)
  ultimately show ?thesis
    by (simp add: disk_line_step_def disk_entry_step_def disk_result_def disk_sectors_def e DISK_SECTOR_SIZE_def)
qed

lemma disk_loop_text:
  assumes "\<forall>e \<in> set es. disk_ok e" and "distinct (map fst d @ map (\<lambda>e. fst (disk_result e)) es)"
  shows "for_each (map diskstats_text es) (disk_line_step True) d s
     = (Inr (d @ map disk_result es), s)"
  using assms
proof (induction es arbitrary: d)
  case (Cons e es)
  let ?d = "AList.update (fst (disk_result e)) (snd (disk_result e)) d"
  have new: "?d = d @ [disk_result e]" using Cons.prems(2) by (subst keys_update_new) auto
  have "for_each (map diskstats_text es) (disk_line_step True) ?d s = (Inr (?d @ map disk_result es), s)"
    by (rule Cons.IH) (use Cons.prems new in auto)
  moreover have "disk_line_step True (diskstats_text e) d s = (Inr ?d, s)"
    using Cons.prems(1) by (intro disk_step_text) simp
  ultimately show ?case by (simp add: new)
qed simp

text \<open>
  \<open>disk_io_counters(perdisk=True)\<close> gives every device of \<open>/proc/diskstats\<close> its counters
  whichever layout the kernel uses for its line (four numbers for an old partition, 11, or
  15 and more on recent kernels), with the sector counts turned into bytes.
\<close>

theorem disk_io_counters_parses:
  assumes "os_stat (sys_os s) (hist s) (procfs_path s @ ''/diskstats'') = Inr st"
    and "os_read (sys_os s) (SStat (procfs_path s @ ''/diskstats'') # hist s) (procfs_path s @ ''/diskstats'')
       = Inr (concat (map diskstats_text es))"
    and "\<forall>e \<in> set es. disk_ok e" and "distinct (map (\<lambda>e. fst (disk_result e)) es)"
  shows "fst (linux_disk_io_counters True s) = Inr (map disk_result es)"
proof -
  have "lines (concat (map diskstats_text es)) = map diskstats_text es"
    using assms(3)
  proof (induction es)
    case (Cons e es)
    obtain major minor name ns where e: "e = (major, minor, name, ns)" by (cases e)
    let ?fs = "nat_str major # nat_str minor # name # map nat_str ns"
    have w: "\<forall>f \<in> set ?fs. word_ok f" using Cons.prems by (auto simp: disk_ok_def e)
    have "nl \<notin> set (join '' '' ?fs)" using w by (rule join_no_nl)
    from lines_line [OF this] Cons show ?case by (simp add: diskstats_text_def e)
  qed simp
  then have ln: "lines (concat (map diskstats_text es)) = map diskstats_text es" .
  let ?p = "procfs_path s @ ''/diskstats''"
  let ?u = "s\<lparr>hist := SStat ?p # hist s\<rparr>" and ?v = "s\<lparr>hist := SRead ?p # SStat ?p # hist s\<rparr>"
  have "path_exists ?p s = (Inr True, ?u)" using assms(1) by (simp add: path_exists_def stat_call_def)
  moreover have "read_file ?p ?u = (Inr (concat (map diskstats_text es)), ?v)"
    using assms(2) by (simp add: read_file_def)
  moreover have "for_each (map diskstats_text es) (disk_line_step True) [] ?v = (Inr (map disk_result es), ?v)"
    using disk_loop_text [OF assms(3), of "[]"] assms(4) by simp
  ultimately show ?thesis by (simp add: linux_disk_io_counters_def disk_procfs_def ln)
qed

theorem disk_io_counters_parses_witness:
  "let es = [(8, 0, ''sda'', [1, 2, 3, 4, 5, 6, 7, 8, 9, 10, 11]), (8, 1, ''sda1'', [1, 2, 3, 4])];
       s = null_sys\<lparr>sys_os := null_os\<lparr>os_stat := \<lambda>h p. Inr \<lparr>st_isreg = True, st_dev = (0, 5), st_rdev = 0\<rparr>,
             os_read := \<lambda>h p. Inr (concat (map diskstats_text es))\<rparr>\<rparr>
   in fst (linux_disk_io_counters True s)
      = Inr [(''sda'', [1, 5, 1536, 3584, 4, 8, 2, 6, 10]), (''sda1'', [1, 3, 1024, 2048, 0, 0, 0, 0, 0])]"
proof -
  let ?es = "[(8, 0, ''sda'', [1, 2, 3, 4, 5, 6, 7, 8, 9, 10, 11]), (8, 1, ''sda1'', [1, 2, 3, 4])]
    :: (nat \<times> nat \<times> string \<times> nat list) list"
  let ?s = "null_sys\<lparr>sys_os := null_os\<lparr>os_stat := \<lambda>h p. Inr \<lparr>st_isreg = True, st_dev = (0, 5), st_rdev = 0\<rparr>,
             os_read := \<lambda>h p. Inr (concat (map diskstats_text ?es))\<rparr>\<rparr>"
  have "fst (linux_disk_io_counters True ?s) = Inr (map disk_result ?es)"
    by (rule disk_io_counters_parses) (simp_all add: disk_ok_def word_ok_def ws_def disk_result_def)
  then show ?thesis by (simp add: Let_def disk_result_def disk_tuple_def disk_sectors_def)
qed

text \<open>A partition without its device.\<close>

definition part_rest :: "sdiskpart \<Rightarrow> string \<times> string \<times> string" where
  "part_rest p = (dp_mountpoint p, dp_fstype p, dp_opts p)"

lemma partition_loop:
  assumes "for_each parts (partition_step all_parts fstypes) acc s = (Inr ps, t)"
  shows "\<exists>qs. ps = acc @ qs \<and> subseq (map part_rest qs) (map snd parts)
    \<and> (all_parts \<longrightarrow> map part_rest qs = map snd parts)
    \<and> (\<not> all_parts \<longrightarrow> (\<forall>q \<in> set qs. dp_device q \<noteq> [] \<and> dp_fstype q \<in> set fstypes))"
  using assms
proof (induction parts arbitrary: acc s)
  case Nil
  then show ?case by simp
next
  case (Cons part parts)
  obtain acc' u where step: "partition_step all_parts fstypes part acc s = (Inr acc', u)"
    and rest: "for_each parts (partition_step all_parts fstypes) acc' u = (Inr ps, t)"
    using Cons.prems by (auto simp: bnd_Inr simp del: bnd_run)
  obtain qs where qs: "ps = acc' @ qs" "subseq (map part_rest qs) (map snd parts)"
    "all_parts \<longrightarrow> map part_rest qs = map snd parts"
    "\<not> all_parts \<longrightarrow> (\<forall>q \<in> set qs. dp_device q \<noteq> [] \<and> dp_fstype q \<in> set fstypes)"
    using Cons.IH [OF rest] by blast
  obtain device0 mountpoint fstype opts where part: "part = (device0, mountpoint, fstype, opts)" by (cases part)
  consider (skip) "\<not> all_parts" "acc' = acc"
    | (add) device where "all_parts \<or> device \<noteq> [] \<and> fstype \<in> set fstypes"
        "acc' = acc @ [\<lparr>dp_device = device, dp_mountpoint = mountpoint, dp_fstype = fstype, dp_opts = opts\<rparr>]"
    using step unfolding partition_step_def part prod.case Let_def bnd_Inr
    by (elim exE conjE) (auto split: if_splits)
  then show ?case
  proof cases
    case skip
    with qs show ?thesis by (auto intro: list_emb_Cons)
  next
    case add
    let ?q = "\<lparr>dp_device = device, dp_mountpoint = mountpoint, dp_fstype = fstype, dp_opts = opts\<rparr>"
    have "part_rest ?q = snd part" by (simp add: part part_rest_def)
    with add qs show ?thesis
      by (intro exI [of _ "?q # qs"]) auto
  qed
qed

lemma pres_fstypes [pres_intros]:
  "pres (confined read_calls) (fstypes_from_filesystems p)"
  "pres (confined read_calls) (fstypes_from_mountinfo p)"
  "pres (confined read_calls) (realpath_call p)"
  unfolding fstypes_from_filesystems_def fstypes_from_mountinfo_def realpath_call_def
  by (auto intro!: pres_intros)

text \<open>Up to the call that lists the mounts.\<close>

definition before_mounts :: "bool \<Rightarrow> ('z sys_scheme, string list \<times> string) py" where
  "before_mounts all_parts = bnd get_procfs_path (\<lambda>p.
     bnd (if all_parts then ret []
          else try_except (fstypes_from_filesystems p)
                 (\<lambda>e. if is_PermissionError e then fstypes_from_mountinfo p else raise e)) (\<lambda>fstypes.
     bnd (if p = ''/proc'' then path_isfile ''/etc/mtab'' else ret False) (\<lambda>mtab.
     bnd (realpath_call (if mtab then ''/etc/mtab'' else p @ ''/self/mounts'')) (\<lambda>path. ret (fstypes, path)))))"

lemma disk_partitions_split:
  "linux_disk_partitions all_parts = bnd (before_mounts all_parts) (\<lambda>fp.
     bnd (mounts_call (snd fp)) (\<lambda>parts. for_each parts (partition_step all_parts (fst fp)) []))"
  by (simp only: linux_disk_partitions_def before_mounts_def bnd_assoc ret_bnd fst_conv snd_conv)

lemma pres_before_mounts: "pres (confined read_calls) (before_mounts all_parts)"
  unfolding before_mounts_def by (intro pres_intros)

text \<open>
  \<open>disk_partitions(all=True)\<close> returns every mount the kernel lists, in its order and with
  its mount point, type and options; with \<open>all=False\<close> it returns some of them, in that
  order, all with a device.
\<close>

theorem disk_partitions_selects:
  assumes "linux_disk_partitions all_parts s = (Inr ps, t)"
  shows "\<exists>h path mounts. os_mounts (sys_os s) h path = Inr mounts
    \<and> subseq (map part_rest ps) (map snd mounts)
    \<and> (all_parts \<longrightarrow> map part_rest ps = map snd mounts)
    \<and> (\<not> all_parts \<longrightarrow> (\<forall>p \<in> set ps. dp_device p \<noteq> []))"
proof -
  obtain fp u where pre: "before_mounts all_parts s = (Inr fp, u)"
    and rest: "bnd (mounts_call (snd fp)) (\<lambda>parts. for_each parts (partition_step all_parts (fst fp)) []) u = (Inr ps, t)"
    using assms unfolding disk_partitions_split by (rule bndE)
  have u: "sys_os u = sys_os s" using presD [OF pres_before_mounts pre] by (simp add: confined_def)
  obtain mounts v where m: "mounts_call (snd fp) u = (Inr mounts, v)"
    and run: "for_each mounts (partition_step all_parts (fst fp)) [] v = (Inr ps, t)"
    using rest by (rule bndE)
  have "os_mounts (sys_os s) (hist u) (snd fp) = Inr mounts" using m u by (simp add: mounts_call_def)
  with partition_loop [OF run] show ?thesis by (intro exI conjI) auto
qed

theorem disk_partitions_selects_witness:
  "let s = null_sys\<lparr>sys_os := null_os\<lparr>os_mounts := \<lambda>h p. Inr [(''/dev/sda1'', ''/'', ''ext4'', ''rw''), (''none'', ''/run'', ''tmpfs'', ''rw'')]\<rparr>\<rparr>
   in \<exists>ps t. linux_disk_partitions True s = (Inr ps, t)
        \<and> map part_rest ps = [(''/'', ''ext4'', ''rw''), (''/run'', ''tmpfs'', ''rw'')]"
proof -
  let ?m = "[(''/dev/sda1'', ''/'', ''ext4'', ''rw''), (''none'', ''/run'', ''tmpfs'', ''rw'')]"
  let ?s = "null_sys\<lparr>sys_os := null_os\<lparr>os_mounts := \<lambda>h p. Inr ?m\<rparr>\<rparr>"
  obtain ps t where run: "linux_disk_partitions True ?s = (Inr ps, t)"
    by (simp add: linux_disk_partitions_def sys_defs realpath_call_def mounts_call_def partition_step_def null_os_def)
  from disk_partitions_selects [OF run] run show ?thesis by (auto simp: Let_def)
qed

end
