(* ===== verification/Linux_Sensors.thy ===== *)
theory Linux_Sensors
  imports Linux_System "HOL-Library.List_Lexorder" "HOL-Library.Char_ord"
begin

text \<open>
  Temperatures, fans and the battery (\<open>psutil/_pslinux.py\<close>), read from \<open>/sys\<close>.  Python
  iterates over a set of trip points in no fixed order; here it is the order in which
  \<open>glob\<close> found them.
\<close>

section \<open>Temperatures\<close>

text \<open>\<open>re.sub\<close> for a pattern that never matches the empty string.\<close>

function re_sub :: "ratom list \<Rightarrow> string \<Rightarrow> string \<Rightarrow> string" where
  "re_sub as q s = (case s of [] \<Rightarrow> []
     | c # t \<Rightarrow> (case rmatch as None s of
         Some (_, r) \<Rightarrow> (if length r < length s then q @ re_sub as q r else c # re_sub as q t)
       | None \<Rightarrow> c # re_sub as q t))"
  by pat_completeness auto
termination by (relation "measure (\<lambda>(as, q, s). length s)") auto

declare re_sub.simps [simp del]

definition coretemp_re :: "ratom list" where
  "coretemp_re = rlit ''/sys/devices/platform/coretemp'' @ [RStar rdot] @ rlit ''/hwmon/''"

text \<open>\<open>x.split('_')[0]\<close>, and \<open>sorted({...})\<close>.\<close>

definition before_underscore :: "string \<Rightarrow> string" where
  "before_underscore x = hd (split_on (CHR ''_'') x)"

definition sorted_set :: "string list \<Rightarrow> string list" where
  "sorted_set xs = sort (remdups xs)"

definition milli :: "flt \<Rightarrow> flt" where
  "milli x = fl (x / 1000)"

text \<open>\<open>float(x) / 1000.0\<close> with \<open>None\<close> for a \<open>ValueError\<close>.\<close>

definition milli_opt :: "string option \<Rightarrow> flt option" where
  "milli_opt x = (case x of None \<Rightarrow> None | Some b \<Rightarrow>
     (case py_float b of Inl _ \<Rightarrow> None | Inr v \<Rightarrow> Some (milli v)))"

type_synonym temps = "(string, shwtemp list) dict"

definition add_temp :: "string \<Rightarrow> shwtemp \<Rightarrow> temps \<Rightarrow> temps" where
  "add_temp unit_name t d = AList.update unit_name (dict_get d unit_name [] @ [t]) d"

text \<open>Current value and unit: \<open>None\<close> when the entry is skipped.\<close>

definition read_current :: "string \<Rightarrow> string \<Rightarrow> ('z sys_scheme, (flt \<times> string) option) py" where
  "read_current value_path name_path = try_except
     (bnd (bcat value_path) (\<lambda>b. bnd (liftE (py_float b)) (\<lambda>v.
      bnd (cat name_path) (\<lambda>n. ret (Some (milli v, strip n))))))
     (\<lambda>e. if is_OSError e \<or> e = ValueError then ret None else raise e)"

definition hwmon_step :: "string \<Rightarrow> temps \<Rightarrow> ('z sys_scheme, temps) py" where
  "hwmon_step base acc = bnd (read_current (base @ ''_input'') (pjoin (dirname base) ''name'')) (\<lambda>c. case c of
       None \<Rightarrow> ret acc
     | Some (current, unit_name) \<Rightarrow>
         bnd (bcat_opt (base @ ''_max'')) (\<lambda>high. bnd (bcat_opt (base @ ''_crit'')) (\<lambda>critical.
         bnd (cat_str (base @ ''_label'') []) (\<lambda>label.
         ret (add_temp unit_name \<lparr>ht_label = strip label, ht_current = Some current,
                ht_high = milli_opt high, ht_critical = milli_opt critical\<rparr> acc)))))"

text \<open>
  \<open>high\<close> and \<open>critical\<close> in the loop over the trip points of a thermal zone: they start as
  \<open>None\<close>, are bytes right after a file was read, and floats once they were converted.
\<close>

datatype tval = TNone | TBytes string | TFloat flt

fun tval_conv :: "tval \<Rightarrow> tval" where
  "tval_conv TNone = TNone"
| "tval_conv (TBytes b) = (case py_float b of Inl _ \<Rightarrow> TNone | Inr v \<Rightarrow> TFloat (milli v))"
| "tval_conv (TFloat x) = TFloat (milli x)"

fun tval_opt :: "tval \<Rightarrow> flt option" where
  "tval_opt (TFloat x) = Some x"
| "tval_opt _ = None"

definition tval_of :: "string option \<Rightarrow> tval" where
  "tval_of x = (case x of None \<Rightarrow> TNone | Some b \<Rightarrow> TBytes b)"

definition trip_step :: "string \<Rightarrow> string \<Rightarrow> tval \<times> tval \<Rightarrow> ('z sys_scheme, tval \<times> tval) py" where
  "trip_step base trip_point hc = (case hc of (high, critical) \<Rightarrow>
     bnd (cat_str (pjoin base (trip_point @ ''_type'')) []) (\<lambda>ty.
     let trip_type = strip ty in
     bnd (if trip_type = ''critical''
          then bnd (bcat_opt (pjoin base (trip_point @ ''_temp''))) (\<lambda>b. ret (high, tval_of b))
          else if trip_type = ''high''
          then bnd (bcat_opt (pjoin base (trip_point @ ''_temp''))) (\<lambda>b. ret (tval_of b, critical))
          else ret (high, critical)) (\<lambda>(h, c). ret (tval_conv h, tval_conv c))))"

definition thermal_step :: "string \<Rightarrow> temps \<Rightarrow> ('z sys_scheme, temps) py" where
  "thermal_step base acc = bnd (read_current (pjoin base ''temp'') (pjoin base ''type'')) (\<lambda>c. case c of
       None \<Rightarrow> ret acc
     | Some (current, unit_name) \<Rightarrow>
         bnd (glob_call (base @ ''/trip_point*'')) (\<lambda>trip_paths.
         let trip_points = remdups (map (\<lambda>p. join ''_'' (take 3 (split_on (CHR ''_'') (basename p)))) trip_paths) in
         bnd (for_each trip_points (trip_step base) (TNone, TNone)) (\<lambda>(high, critical).
         ret (add_temp unit_name \<lparr>ht_label = [], ht_current = Some current,
                ht_high = tval_opt high, ht_critical = tval_opt critical\<rparr> acc))))"

definition linux_sensors_temperatures :: "('z sys_scheme, temps) py" where
  "linux_sensors_temperatures =
     bnd (glob_call ''/sys/class/hwmon/hwmon*/temp*_*'') (\<lambda>g1.
     bnd (glob_call ''/sys/class/hwmon/hwmon*/device/temp*_*'') (\<lambda>g2.
     let basenames0 = sorted_set (map before_underscore (g1 @ g2)) in
     bnd (glob_call ''/sys/devices/platform/coretemp.*/hwmon/hwmon*/temp*_*'') (\<lambda>basenames2.
     let basenames = fold (\<lambda>name acc.
           if re_sub coretemp_re ''/sys/class/hwmon/'' name \<notin> set acc then acc @ [name] else acc)
           basenames2 basenames0 in
     bnd (for_each basenames hwmon_step []) (\<lambda>r.
     if basenames \<noteq> [] then ret r
     else bnd (glob_call ''/sys/class/thermal/thermal_zone*'') (\<lambda>zones.
       for_each (sorted_set zones) thermal_step r)))))"

section \<open>Fans\<close>

definition fan_step ::
  "string \<Rightarrow> (string, sfan list) dict \<Rightarrow> ('z sys_scheme, (string, sfan list) dict) py" where
  "fan_step base acc = bnd (try_except (bnd (bcat (base @ ''_input'')) (\<lambda>b.
        bnd (liftE (py_int b)) (\<lambda>n. ret (Some n))))
      (\<lambda>e. if is_OSError e then ret None else raise e)) (\<lambda>c. case c of
       None \<Rightarrow> ret acc
     | Some current \<Rightarrow>
         bnd (cat (pjoin (dirname base) ''name'')) (\<lambda>n. let unit_name = strip n in
         bnd (cat_str (base @ ''_label'') []) (\<lambda>label.
         ret (AList.update unit_name (dict_get acc unit_name [] @
                [\<lparr>fan_label = strip label, fan_current = current\<rparr>]) acc))))"

definition linux_sensors_fans :: "('z sys_scheme, (string, sfan list) dict) py" where
  "linux_sensors_fans =
     bnd (glob_call ''/sys/class/hwmon/hwmon*/fan*_*'') (\<lambda>g1.
     bnd (if g1 \<noteq> [] then ret g1 else glob_call ''/sys/class/hwmon/hwmon*/device/fan*_*'') (\<lambda>g.
     for_each (sorted_set (map before_underscore g)) fan_step []))"

section \<open>Battery\<close>

text \<open>What \<open>multi_bcat\<close> returns: a number, or the stripped bytes of a file that holds none.\<close>

datatype bval = BInt int | BStr string

fun multi_bcat :: "string list \<Rightarrow> ('z sys_scheme, bval option) py" where
  "multi_bcat [] = ret None"
| "multi_bcat (path # paths) = bnd (bcat_opt path) (\<lambda>r. case r of
     None \<Rightarrow> multi_bcat paths
   | Some b \<Rightarrow> ret (Some (case py_int b of Inr n \<Rightarrow> BInt n | Inl _ \<Rightarrow> BStr (strip b))))"

text \<open>\<open>100.0 * energy_now / energy_full\<close>, 0 for an empty battery.\<close>

fun battery_percent :: "bval \<Rightarrow> bval \<Rightarrow> exn + flt" where
  "battery_percent (BInt now) (BInt full) =
     (case fdiv (fmul 100 (fint now)) (fint full) of Inl _ \<Rightarrow> Inr 0 | Inr q \<Rightarrow> Inr q)"
| "battery_percent _ _ = Inl TypeError"

definition secs_or_unknown :: "int \<Rightarrow> int" where
  "secs_or_unknown n = (if n < 0 then POWER_TIME_UNKNOWN else n)"

fun secs_from_energy :: "bval \<Rightarrow> bval \<Rightarrow> exn + int" where
  "secs_from_energy (BInt now) (BInt pw) =
     (if pw = 0 then Inr POWER_TIME_UNKNOWN
      else Inr (trunc_int (fmul (int_truediv now \<bar>pw\<bar>) 3600)))"
| "secs_from_energy _ _ = Inl TypeError"

fun secs_from_time :: "bval \<Rightarrow> exn + int" where
  "secs_from_time (BInt t) = Inr (secs_or_unknown (t * 60))"
| "secs_from_time (BStr b) = bindE (py_int (concat (replicate 60 b))) (\<lambda>n. Inr (secs_or_unknown n))"

definition secsleft_of :: "bool option \<Rightarrow> bval option \<Rightarrow> bval option \<Rightarrow> bval option \<Rightarrow> exn + int" where
  "secsleft_of plugged energy_now power_now time_to_empty =
     (if plugged = Some True then Inr POWER_TIME_UNLIMITED
      else case (energy_now, power_now) of
        (Some e, Some p) \<Rightarrow> secs_from_energy e p
      | _ \<Rightarrow> (case time_to_empty of
           Some t \<Rightarrow> secs_from_time t | None \<Rightarrow> Inr POWER_TIME_UNKNOWN))"

definition is_battery :: "string \<Rightarrow> bool" where
  "is_battery x \<longleftrightarrow> startswith x ''BAT'' \<or> contains (str_lower x) ''battery''"

definition min_str :: "string list \<Rightarrow> string" where
  "min_str xs = fold min (tl xs) (hd xs)"

definition power_plugged_of :: "string \<Rightarrow> ('z sys_scheme, bool option) py" where
  "power_plugged_of bat_root =
     bnd (multi_bcat [pjoin POWER_SUPPLY_PATH ''AC0/online'', pjoin POWER_SUPPLY_PATH ''AC/online'']) (\<lambda>online.
     case online of
       Some v \<Rightarrow> ret (Some (v = BInt 1))
     | None \<Rightarrow> bnd (cat_str (bat_root @ ''/status'') []) (\<lambda>st.
         let status = str_lower (strip st) in
         ret (if status = ''discharging'' then Some False
              else if status \<in> {''charging'', ''full''} then Some True else None)))"

definition linux_sensors_battery :: "('z sys_scheme, sbattery option) py" where
  "linux_sensors_battery = bnd (listdir POWER_SUPPLY_PATH) (\<lambda>names.
     let bats = filter is_battery names in
     if bats = [] then ret None
     else let bat_root = pjoin POWER_SUPPLY_PATH (min_str bats) in
       bnd (multi_bcat [bat_root @ ''/energy_now'', bat_root @ ''/charge_now'']) (\<lambda>energy_now.
       bnd (multi_bcat [bat_root @ ''/power_now'', bat_root @ ''/current_now'']) (\<lambda>power_now.
       bnd (multi_bcat [bat_root @ ''/energy_full'', bat_root @ ''/charge_full'']) (\<lambda>energy_full.
       bnd (multi_bcat [bat_root @ ''/time_to_empty_now'']) (\<lambda>time_to_empty.
       bnd (case (energy_full, energy_now) of
              (Some full, Some now) \<Rightarrow> bnd (liftE (battery_percent now full)) (\<lambda>p. ret (Some p))
            | _ \<Rightarrow> bnd (cat_fallback (bat_root @ ''/capacity'') None Some) (\<lambda>c. case c of
                 None \<Rightarrow> ret None
               | Some t \<Rightarrow> bnd (liftE (py_float t)) (\<lambda>p. ret (if p = -1 then None else Some p)))) (\<lambda>percent.
       case percent of
         None \<Rightarrow> ret None
       | Some p \<Rightarrow> bnd (power_plugged_of bat_root) (\<lambda>plugged.
           bnd (liftE (secsleft_of plugged energy_now power_now time_to_empty)) (\<lambda>secsleft.
           ret (Some \<lparr>bat_percent = p, bat_secsleft = secsleft, bat_power_plugged = plugged\<rparr>)))))))))"

section \<open>Facts\<close>

text \<open>
  When the energy left is between 0 and the capacity (and the numbers are small enough
  for a float to hold them exactly), the percentage of the battery is between 0 and 100; on
  mains power the time left is unlimited, and otherwise, computed from the energy left and
  the power drawn, it is never negative.
\<close>

theorem battery_bounds:
  assumes "0 \<le> now" and "now \<le> full" and "full * 100 < 2 ^ 53"
  shows "(\<exists>p. battery_percent (BInt now) (BInt full) = Inr p \<and> 0 \<le> p \<and> p \<le> 100)
    \<and> secsleft_of (Some True) e pw tte = Inr POWER_TIME_UNLIMITED
    \<and> (\<exists>n. secsleft_of (Some False) (Some (BInt now)) (Some (BInt draw)) tte = Inr n
         \<and> (if draw = 0 then n = POWER_TIME_UNKNOWN else 0 \<le> n))"
proof (intro conjI)
  show "\<exists>p. battery_percent (BInt now) (BInt full) = Inr p \<and> 0 \<le> p \<and> p \<le> 100"
  proof (cases "full = 0")
    case True
    then show ?thesis by (simp add: fdiv_def)
  next
    case False
    then have pos: "0 < full" using assms by simp
    have ex: "fint now = of_int now" "fint full = of_int full"
      using assms by (auto intro!: fint_exact)
    have "fmul 100 (fint now) = fint (100 * now)" unfolding fmul_def ex(1) by (simp add: fint_def)
    also have "\<dots> = of_int (100 * now)" using assms by (intro fint_exact) auto
    finally have "fdiv (fmul 100 (fint now)) (fint full) = Inr (fl (of_int (100 * now) / of_int full))"
      using pos by (simp add: fdiv_def ex)
    moreover have "0 \<le> fl (of_int (100 * now) / of_int full)"
      using assms(1) pos by (intro fl_nonneg) simp
    moreover have "fl (of_int (100 * now) / of_int full) \<le> 100"
      using assms(2) pos by (intro fl.r_le_100) (simp add: divide_le_eq)
    ultimately show ?thesis by simp
  qed
  show "secsleft_of (Some True) e pw tte = Inr POWER_TIME_UNLIMITED"
    by (simp add: secsleft_of_def)
  have "0 \<le> fmul (int_truediv now \<bar>draw\<bar>) 3600"
    using assms(1) by (simp add: fmul_def int_truediv_def fl_nonneg)
  then have "0 \<le> trunc_int (fmul (int_truediv now \<bar>draw\<bar>) 3600)" by (simp add: trunc_int_def)
  then show "\<exists>n. secsleft_of (Some False) (Some (BInt now)) (Some (BInt draw)) tte = Inr n
         \<and> (if draw = 0 then n = POWER_TIME_UNKNOWN else 0 \<le> n)"
    by (simp add: secsleft_of_def)
qed

theorem battery_bounds_witness:
  "\<exists>p. battery_percent (BInt 21000000) (BInt 50000000) = Inr p \<and> 0 \<le> p \<and> p \<le> 100"
  using battery_bounds [of 21000000 50000000] by simp

text \<open>
  A trip point of another type leaves the values of a thermal zone where they were, but the
  conversion at the end of the loop body divides what is already converted once more.
\<close>

lemma trip_step_other:
  assumes "os_read (sys_os s) (hist s) (pjoin base (tp @ ''_type'')) = Inr ty" and "strip ty = ''passive''"
  shows "fst (trip_step base tp (TFloat x, TNone) s) = Inr (TFloat (milli x), TNone)"
  using assms by (simp add: trip_step_def cat_str_def cat_fallback_def read_file_def Let_def)

text \<open>
  In a thermal zone whose trip points are one of type high followed by one of another
  type, the high temperature reported is a thousandth of the one in the file: the value of
  an earlier trip point is divided again for every later one.
\<close>

theorem thermal_high_divided_twice:
  assumes "os_read (sys_os s) = (\<lambda>h p. if p = pjoin base (a @ ''_type'') then Inr ''high''
       else if p = pjoin base (a @ ''_temp'') then Inr t
       else if p = pjoin base (b @ ''_type'') then Inr ''passive'' else Inl ENOENT)"
    and "pjoin base (a @ ''_temp'') \<noteq> pjoin base (a @ ''_type'')"
    and "pjoin base (b @ ''_type'') \<notin> {pjoin base (a @ ''_type''), pjoin base (a @ ''_temp'')}"
    and "py_float t = Inr v"
  shows "fst (for_each [a, b] (trip_step base) (TNone, TNone) s) = Inr (TFloat (milli (milli v)), TNone)"
proof -
  have st: "strip ''high'' = ''high''" "strip ''passive'' = ''passive''"
    by (simp_all add: strip_def lstrip_def rstrip_def ws_def)
  have "\<exists>u. trip_step base a (TNone, TNone) s = (Inr (TFloat (milli v), TNone), u) \<and> sys_os u = sys_os s"
    using assms st by (simp add: trip_step_def cat_str_def bcat_opt_def cat_fallback_def read_file_def
        tval_of_def Let_def)
  then obtain u where u: "trip_step base a (TNone, TNone) s = (Inr (TFloat (milli v), TNone), u)"
    "sys_os u = sys_os s" by blast
  have "fst (trip_step base b (TFloat (milli v), TNone) u) = Inr (TFloat (milli (milli v)), TNone)"
    by (rule trip_step_other [where ty = "''passive''"]) (use assms(1,3) u(2) st in simp_all)
  with u(1) show ?thesis
    by (cases "trip_step base b (TFloat (milli v), TNone) u") simp
qed

theorem thermal_high_divided_twice_witness:
  "let z = ''/sys/class/thermal/thermal_zone0'';
       s = null_sys\<lparr>sys_os := null_os\<lparr>os_read := \<lambda>h p. if p = pjoin z (''trip_point_0'' @ ''_type'') then Inr ''high''
         else if p = pjoin z (''trip_point_0'' @ ''_temp'') then Inr (nat_str 90000)
         else if p = pjoin z (''trip_point_1'' @ ''_type'') then Inr ''passive'' else Inl ENOENT\<rparr>\<rparr>
   in fst (for_each [''trip_point_0'', ''trip_point_1''] (trip_step z) (TNone, TNone) s)
      = Inr (TFloat (milli (milli (fl 90000))), TNone)"
proof -
  have "py_float (nat_str 90000) = Inr (fl 90000)" using py_float_nat_str [of 90000] by simp
  then show ?thesis unfolding Let_def
    by (intro thermal_high_divided_twice [where t = "nat_str 90000"])
      (simp_all add: pjoin_def endswith_def startswith_def)
qed

end
