(* ===== verification/Linux_Process.thy ===== *)
theory Linux_Process
  imports Linux_Net Memoize
begin

text \<open>
  The class \<open>Process\<close> of \<open>psutil/_pslinux.py\<close>: its attributes, the decorator
  \<open>wrap_exceptions\<close>, the three files that are cached inside \<open>oneshot()\<close>, and the methods
  that only look at those.

  The object is the field \<open>lp\<close> of the state, so a method is a statement on that state.
  \<open>_cache\<close> has one slot for each memoized method, and \<open>l_cache = None\<close> says that the
  attribute does not exist.
\<close>

section \<open>State\<close>

text \<open>The dict \<open>_parse_stat_file\<close> returns; \<open>blkio_ticks\<close> is \<open>None\<close> for the integer 0.\<close>

record pstat =
  ps_name :: string
  ps_status :: string
  ps_ppid :: string
  ps_ttynr :: string
  ps_minflt :: string
  ps_majflt :: string
  ps_utime :: string
  ps_stime :: string
  ps_children_utime :: string
  ps_children_stime :: string
  ps_create_time :: string
  ps_cpu_num :: string
  ps_blkio_ticks :: "string option"

record lcache =
  lc_stat :: "pstat option"
  lc_status :: "string option"
  lc_smaps :: "string option"

record lproc =
  l_pid :: int
  l_name :: "string option"
  l_ppid :: "int option"
  l_ctime :: "flt option"
  l_procfs :: string
  l_cache :: "lcache option"

record lsys = psx +
  lp :: lproc

definition lproc_init :: "int \<Rightarrow> ('z sys_scheme, lproc) py" where
  "lproc_init pid = bnd get_procfs_path (\<lambda>p.
     ret \<lparr>l_pid = pid, l_name = None, l_ppid = None, l_ctime = None, l_procfs = p, l_cache = None\<rparr>)"

definition self :: "(lproc \<Rightarrow> 'a) \<Rightarrow> ('z lsys_scheme, 'a) py" where
  "self f = gets (\<lambda>s. f (lp s))"

text \<open>\<open>f"{self._procfs_path}/{self.pid}"\<close> and a file in it.\<close>

definition proc_dir :: "lproc \<Rightarrow> string" where
  "proc_dir p = l_procfs p @ CHR ''/'' # int_str (l_pid p)"

definition proc_file :: "lproc \<Rightarrow> string \<Rightarrow> string" where
  "proc_file p name = proc_dir p @ CHR ''/'' # name"

lemma self_run [simp, py_run]: "self f s = (Inr (f (lp s)), s)"
  by (simp add: self_def)

lemma pres_self [pres_intros]: "pres (confined A) (self f)"
  unfolding self_def by (intro pres_intros)

section \<open>Zombies and vanished processes\<close>

definition is_zombie :: "('z lsys_scheme, bool) py" where
  "is_zombie = bnd (self (\<lambda>p. proc_file p ''stat'')) (\<lambda>path.
     try_else (bcat path) (\<lambda>e. if is_OSError e then ret False else raise e)
       (\<lambda>data. let rpar = rfind_char (CHR '')'') data in
          ret (slice data (rpar + 2) (rpar + 3) = ''Z'')))"

definition raise_if_zombie :: "('z lsys_scheme, unit) py" where
  "raise_if_zombie = bnd is_zombie (\<lambda>z.
     if z then bnd (self (\<lambda>p. p)) (\<lambda>p. raise (mk_ZombieProcess (l_pid p) (l_name p) (l_ppid p) None))
     else ret ())"

definition raise_if_not_alive :: "('z lsys_scheme, unit) py" where
  "raise_if_not_alive = bnd (self proc_dir) (\<lambda>d. bnd (stat_call d) (\<lambda>_. ret ()))"

text \<open>The handlers of \<open>wrap_exceptions\<close>, with the pid and name read before the call.\<close>

definition translate :: "int \<Rightarrow> string option \<Rightarrow> exn \<Rightarrow> ('z lsys_scheme, 'a) py" where
  "translate pid name e =
     (if is_PermissionError e then raise (mk_AccessDenied (Some pid) name None)
      else if is_ProcessLookupError e then
        bnd raise_if_zombie (\<lambda>_. raise (mk_NoSuchProcess pid name None))
      else if is_FileNotFoundError e then
        bnd raise_if_zombie (\<lambda>_. bnd (self (\<lambda>p. l_procfs p)) (\<lambda>procfs.
        bnd (path_exists (procfs @ CHR ''/'' # int_str pid @ ''/stat'')) (\<lambda>ex.
        if \<not> ex then raise (mk_NoSuchProcess pid name None) else raise e)))
      else raise e)"

definition wrap_exceptions :: "('z lsys_scheme, 'a) py \<Rightarrow> ('z lsys_scheme, 'a) py" where
  "wrap_exceptions m = bnd (self (\<lambda>p. (l_pid p, l_name p))) (\<lambda>(pid, name).
     try_except m (translate pid name))"

text \<open>The same for a method that may not return.\<close>

definition wrap_exceptions_d ::
  "('z lsys_scheme \<Rightarrow> ('z lsys_scheme, 'a) result) \<Rightarrow> 'z lsys_scheme \<Rightarrow> ('z lsys_scheme, 'a) result" where
  "wrap_exceptions_d m s = (case m s of
       None \<Rightarrow> None
     | Some (Inl e, t) \<Rightarrow> Some (translate (l_pid (lp s)) (l_name (lp s)) e t)
     | Some (Inr x, t) \<Rightarrow> Some (Inr x, t))"

text \<open>\<open>_readlink(path, fallback)\<close>: \<open>fallback = None\<close> stands for \<open>UNSET\<close>.\<close>

definition proc_readlink :: "string \<Rightarrow> string option \<Rightarrow> ('z lsys_scheme, string) py" where
  "proc_readlink path fallback = try_except (readlink path)
     (\<lambda>e. if is_FileNotFoundError e \<or> is_ProcessLookupError e then
          bnd (self proc_dir) (\<lambda>d. bnd (lexists d) (\<lambda>ex.
          if ex then bnd raise_if_zombie (\<lambda>_. case fallback of Some x \<Rightarrow> ret x | None \<Rightarrow> raise e)
          else raise e))
        else raise e)"

section \<open>The cached files\<close>

definition has_cache :: "'z lsys_scheme \<Rightarrow> bool" where
  "has_cache s \<longleftrightarrow> l_cache (lp s) \<noteq> None"

definition upd_cache :: "(lcache \<Rightarrow> lcache) \<Rightarrow> 'z lsys_scheme \<Rightarrow> 'z lsys_scheme" where
  "upd_cache f s = s\<lparr>lp := (lp s)\<lparr>l_cache := map_option f (l_cache (lp s))\<rparr>\<rparr>"

definition look_stat :: "'z lsys_scheme \<Rightarrow> pstat option" where
  "look_stat s = Option.bind (l_cache (lp s)) lc_stat"
definition store_stat :: "pstat \<Rightarrow> 'z lsys_scheme \<Rightarrow> 'z lsys_scheme" where
  "store_stat r = upd_cache (\<lambda>c. c\<lparr>lc_stat := Some r\<rparr>)"
definition look_status :: "'z lsys_scheme \<Rightarrow> string option" where
  "look_status s = Option.bind (l_cache (lp s)) lc_status"
definition store_status :: "string \<Rightarrow> 'z lsys_scheme \<Rightarrow> 'z lsys_scheme" where
  "store_status r = upd_cache (\<lambda>c. c\<lparr>lc_status := Some r\<rparr>)"
definition look_smaps :: "'z lsys_scheme \<Rightarrow> string option" where
  "look_smaps s = Option.bind (l_cache (lp s)) lc_smaps"
definition store_smaps :: "string \<Rightarrow> 'z lsys_scheme \<Rightarrow> 'z lsys_scheme" where
  "store_smaps r = upd_cache (\<lambda>c. c\<lparr>lc_smaps := Some r\<rparr>)"

definition empty_cache :: lcache where
  "empty_cache = \<lparr>lc_stat = None, lc_status = None, lc_smaps = None\<rparr>"

text \<open>\<open>cache_activate(self)\<close> and \<open>cache_deactivate(self)\<close>; the three calls share \<open>_cache\<close>.\<close>

definition cache_on :: "'z lsys_scheme \<Rightarrow> 'z lsys_scheme" where
  "cache_on s = s\<lparr>lp := (lp s)\<lparr>l_cache := Some empty_cache\<rparr>\<rparr>"
definition cache_off :: "'z lsys_scheme \<Rightarrow> 'z lsys_scheme" where
  "cache_off s = s\<lparr>lp := (lp s)\<lparr>l_cache := None\<rparr>\<rparr>"

definition oneshot_enter :: "('z lsys_scheme, unit) py" where
  "oneshot_enter = bnd (modify cache_on) (\<lambda>_. bnd (modify cache_on) (\<lambda>_. modify cache_on))"
definition oneshot_exit :: "('z lsys_scheme, unit) py" where
  "oneshot_exit = bnd (modify cache_off) (\<lambda>_. bnd (modify cache_off) (\<lambda>_. modify cache_off))"

lemmas cache_defs = has_cache_def upd_cache_def look_stat_def store_stat_def look_status_def
  store_status_def look_smaps_def store_smaps_def empty_cache_def cache_on_def cache_off_def

interpretation stat_slot: memo_slot has_cache look_stat store_stat cache_on cache_off
  by unfold_locales (auto simp: cache_defs)

interpretation status_slot: memo_slot has_cache look_status store_status cache_on cache_off
  by unfold_locales (auto simp: cache_defs)

interpretation smaps_slot: memo_slot has_cache look_smaps store_smaps cache_on cache_off
  by unfold_locales (auto simp: cache_defs)

definition parse_stat :: "string \<Rightarrow> exn + pstat" where
  "parse_stat data =
     (let rpar = rfind_char (CHR '')'') data;
          name = slice data (find_char (CHR ''('') data + 1) rpar;
          flds = split_ws (slice_from data (rpar + 2)) in
      bindE (item flds 0) (\<lambda>status. bindE (item flds 1) (\<lambda>ppid. bindE (item flds 4) (\<lambda>ttynr.
      bindE (item flds 7) (\<lambda>minflt. bindE (item flds 9) (\<lambda>majflt. bindE (item flds 11) (\<lambda>utime.
      bindE (item flds 12) (\<lambda>stime. bindE (item flds 13) (\<lambda>cutime. bindE (item flds 14) (\<lambda>cstime.
      bindE (item flds 19) (\<lambda>create_time. bindE (item flds 36) (\<lambda>cpu_num.
      Inr \<lparr>ps_name = name, ps_status = status, ps_ppid = ppid, ps_ttynr = ttynr, ps_minflt = minflt,
           ps_majflt = majflt, ps_utime = utime, ps_stime = stime, ps_children_utime = cutime,
           ps_children_stime = cstime, ps_create_time = create_time, ps_cpu_num = cpu_num,
           ps_blkio_ticks = (case item flds 39 of Inr t \<Rightarrow> Some t | Inl _ \<Rightarrow> None)\<rparr>))))))))))))"

definition parse_stat_file :: "('z lsys_scheme, pstat) py" where
  "parse_stat_file = wrap_exceptions (memoize has_cache look_stat store_stat
     (bnd (self (\<lambda>p. proc_file p ''stat'')) (\<lambda>path. bnd (bcat path) (\<lambda>data. liftE (parse_stat data)))))"

definition read_status_file :: "('z lsys_scheme, string) py" where
  "read_status_file = wrap_exceptions (memoize has_cache look_status store_status
     (bnd (self (\<lambda>p. proc_file p ''status'')) read_file))"

definition read_smaps_file :: "('z lsys_scheme, string) py" where
  "read_smaps_file = wrap_exceptions (memoize has_cache look_smaps store_smaps
     (bnd (self (\<lambda>p. proc_file p ''smaps'')) (\<lambda>path. bnd (read_file path) (\<lambda>d. ret (strip d)))))"

section \<open>Methods on the \<open>stat\<close> file\<close>

definition proc_name :: "('z lsys_scheme, string) py" where
  "proc_name = wrap_exceptions (bnd parse_stat_file (\<lambda>v. ret (ps_name v)))"

definition proc_terminal :: "('z lsys_scheme, string option) py" where
  "proc_terminal = wrap_exceptions (bnd parse_stat_file (\<lambda>v. bnd (liftE (py_int (ps_ttynr v))) (\<lambda>tty_nr.
     if tty_nr = 0 then ret None else get_terminal tty_nr)))"

definition ticks_secs :: "int \<Rightarrow> string \<Rightarrow> exn + flt" where
  "ticks_secs clk x = bindE (py_float x) (\<lambda>v. fdiv v (fint clk))"

definition proc_cpu_times :: "('z lsys_scheme, pcputimes) py" where
  "proc_cpu_times = wrap_exceptions (bnd parse_stat_file (\<lambda>v. bnd (sys_const os_clock_ticks) (\<lambda>clk.
     bnd (liftE (ticks_secs clk (ps_utime v))) (\<lambda>utime.
     bnd (liftE (ticks_secs clk (ps_stime v))) (\<lambda>stime.
     bnd (liftE (ticks_secs clk (ps_children_utime v))) (\<lambda>cutime.
     bnd (liftE (ticks_secs clk (ps_children_stime v))) (\<lambda>cstime.
     bnd (liftE (case ps_blkio_ticks v of Some t \<Rightarrow> ticks_secs clk t | None \<Rightarrow> fdiv 0 (fint clk))) (\<lambda>iowait.
     ret \<lparr>pct_user = utime, pct_system = stime, pct_children_user = cutime,
          pct_children_system = cstime, pct_iowait = iowait\<rparr>))))))))"

definition proc_cpu_num :: "('z lsys_scheme, int) py" where
  "proc_cpu_num = wrap_exceptions (bnd parse_stat_file (\<lambda>v. liftE (py_int (ps_cpu_num v))))"

definition proc_create_time :: "bool \<Rightarrow> ('z lsys_scheme, flt) py" where
  "proc_create_time monot = wrap_exceptions (
     bnd (self l_ctime) (\<lambda>c.
     bnd (case c of Some _ \<Rightarrow> ret ()
          | None \<Rightarrow> bnd parse_stat_file (\<lambda>v. bnd (sys_const os_clock_ticks) (\<lambda>clk.
              bnd (liftE (ticks_secs clk (ps_create_time v))) (\<lambda>t.
              modify (\<lambda>s. s\<lparr>lp := (lp s)\<lparr>l_ctime := Some t\<rparr>\<rparr>))))) (\<lambda>_.
     bnd (self l_ctime) (\<lambda>c. case c of
       None \<Rightarrow> raise TypeError
     | Some t \<Rightarrow> if monot then ret t else bnd boot_time (\<lambda>b. ret (fadd t b))))))"

definition proc_page_faults :: "('z lsys_scheme, ppagefaults) py" where
  "proc_page_faults = wrap_exceptions (bnd parse_stat_file (\<lambda>v.
     bnd (liftE (py_int (ps_minflt v))) (\<lambda>mi. bnd (liftE (py_int (ps_majflt v))) (\<lambda>ma.
     ret \<lparr>pf_minor = mi, pf_major = ma\<rparr>))))"

text \<open>\<open>PROC_STATUSES.get(letter, '?')\<close>; \<open>None\<close> is the question mark.\<close>

definition proc_status :: "('z lsys_scheme, ProcessStatus option) py" where
  "proc_status = wrap_exceptions (bnd parse_stat_file (\<lambda>v. ret (map_of PROC_STATUSES (ps_status v))))"

definition proc_ppid :: "('z lsys_scheme, int) py" where
  "proc_ppid = wrap_exceptions (bnd parse_stat_file (\<lambda>v. liftE (py_int (ps_ppid v))))"

definition proc_wait ::
  "bool \<Rightarrow> bool \<Rightarrow> flt option \<Rightarrow> 'z lsys_scheme \<Rightarrow> ('z lsys_scheme, int option) result" where
  "proc_wait can_pidfd can_kqueue timeout =
     wrap_exceptions_d (\<lambda>s. wait_pid can_pidfd can_kqueue (l_pid (lp s)) timeout s)"

section \<open>Methods on the \<open>status\<close> file\<close>

definition tab :: char where "tab = CHR 0x09"

text \<open>\<open>int(findall(data)[i])\<close> for a pattern with one group.\<close>

definition nth_match :: "ratom list \<Rightarrow> nat \<Rightarrow> string \<Rightarrow> exn + int" where
  "nth_match re i data = (let ms = rfindall re data in
     if i < length ms then (case ms ! i of g # _ \<Rightarrow> py_int g | [] \<Rightarrow> Inl IndexError) else Inl IndexError)"

definition ctxsw_re :: "ratom list" where
  "ctxsw_re = rlit (''ctxt_switches:'' @ [tab]) @ rgroup (rplus is_digit)"
definition num_threads_re :: "ratom list" where
  "num_threads_re = rlit (''Threads:'' @ [tab]) @ rgroup (rplus is_digit)"

definition ids_re :: "string \<Rightarrow> ratom list" where
  "ids_re key = rlit (key @ [tab]) @ rgroup (rplus is_digit) @ rlit [tab] @ rgroup (rplus is_digit)
     @ rlit [tab] @ rgroup (rplus is_digit)"

definition ids_of :: "string \<Rightarrow> string \<Rightarrow> exn + pids3" where
  "ids_of key data = (case rfindall (ids_re key) data of
     [real_id, effective, saved] # _ \<Rightarrow>
       bindE (py_int real_id) (\<lambda>r. bindE (py_int effective) (\<lambda>e. bindE (py_int saved) (\<lambda>v.
       Inr \<lparr>ids_real = r, ids_effective = e, ids_saved = v\<rparr>)))
   | _ \<Rightarrow> Inl IndexError)"

definition proc_num_ctx_switches :: "('z lsys_scheme, pctxsw) py" where
  "proc_num_ctx_switches = wrap_exceptions (bnd read_status_file (\<lambda>data.
     if rfindall ctxsw_re data = [] then raise NotImplementedError
     else bnd (liftE (nth_match ctxsw_re 0 data)) (\<lambda>a. bnd (liftE (nth_match ctxsw_re 1 data)) (\<lambda>b.
       ret \<lparr>cx_voluntary = a, cx_involuntary = b\<rparr>))))"

definition proc_num_threads :: "('z lsys_scheme, int) py" where
  "proc_num_threads = wrap_exceptions (bnd read_status_file (\<lambda>data. liftE (nth_match num_threads_re 0 data)))"

definition proc_uids :: "('z lsys_scheme, pids3) py" where
  "proc_uids = wrap_exceptions (bnd read_status_file (\<lambda>data. liftE (ids_of ''Uid:'' data)))"

definition proc_gids :: "('z lsys_scheme, pids3) py" where
  "proc_gids = wrap_exceptions (bnd read_status_file (\<lambda>data. liftE (ids_of ''Gid:'' data)))"

text \<open>\<open>parse(regex)\<close> of \<open>memory_info_ex\<close>: kilobytes, or 0 when there is no match.\<close>

definition status_kb :: "string \<Rightarrow> string \<Rightarrow> exn + int" where
  "status_kb key data = (case rsearch (rlit (key @ '':'') @ rplus ws @ rgroup (rplus is_digit)) data of
     Some (g # _, _) \<Rightarrow> bindE (py_int g) (\<lambda>n. Inr (n * 1024)) | _ \<Rightarrow> Inr 0)"

definition memory_info_ex_keys :: "(string \<times> string) list" where
  "memory_info_ex_keys = [(''peak_rss'', ''VmHWM''), (''peak_vms'', ''VmPeak''), (''rss_anon'', ''RssAnon''),
     (''rss_file'', ''RssFile''), (''rss_shmem'', ''RssShmem''), (''swap'', ''VmSwap''),
     (''hugetlb'', ''HugetlbPages'')]"

definition proc_memory_info_ex :: "('z lsys_scheme, (string, int) dict) py" where
  "proc_memory_info_ex = wrap_exceptions (bnd read_status_file (\<lambda>data.
     liftE (mapE (\<lambda>(field, key). bindE (status_kb key data) (\<lambda>n. Inr (field, n))) memory_info_ex_keys)))"

section \<open>Errors are translated\<close>

lemma is_zombie_run:
  "is_zombie s = (Inr (case os_read (sys_os s) (hist s) (proc_file (lp s) ''stat'') of
       Inl e \<Rightarrow> False
     | Inr data \<Rightarrow> (let rpar = rfind_char (CHR '')'') data in slice data (rpar + 2) (rpar + 3) = ''Z'')),
     s\<lparr>hist := SRead (proc_file (lp s) ''stat'') # hist s\<rparr>)"
  by (cases "os_read (sys_os s) (hist s) (proc_file (lp s) ''stat'')")
    (simp_all add: is_zombie_def bcat_def cat_def read_file_def Let_def)

lemma raise_if_zombie_cases:
  assumes "raise_if_zombie s = (r, t)"
  shows "t = s\<lparr>hist := SRead (proc_file (lp s) ''stat'') # hist s\<rparr>"
    and "r = Inr () \<or> r = Inl (mk_ZombieProcess (l_pid (lp s)) (l_name (lp s)) (l_ppid (lp s)) None)"
  using assms by (auto simp: raise_if_zombie_def is_zombie_run split: if_splits)

text \<open>
  What the callers of a wrapped method may see of the operating system: a bare
  \<open>FileNotFoundError\<close> only when the process still had its \<open>stat\<close> file.
\<close>

definition surfaced :: "exn \<Rightarrow> bool" where
  "surfaced e \<longleftrightarrow> \<not> is_PermissionError e \<and> \<not> is_ProcessLookupError e"

lemma translate_cases:
  assumes "translate pid name e s = (r, t)"
  shows "\<exists>e'. r = Inl e' \<and> surfaced e'
    \<and> (is_FileNotFoundError e' \<longrightarrow> (\<exists>h st p. os_stat (sys_os s) h p = Inr st \<and> hist t = SStat p # h
         \<and> p = l_procfs (lp s) @ CHR ''/'' # int_str pid @ ''/stat''))
    \<and> (is_PermissionError e \<longrightarrow> e' = mk_AccessDenied (Some pid) name None)
    \<and> (is_ProcessLookupError e \<longrightarrow> e' = mk_NoSuchProcess pid name None \<or> is_ZombieProcess e')"
proof -
  obtain q u where z: "raise_if_zombie s = (q, u)" by (cases "raise_if_zombie s")
  note zc = raise_if_zombie_cases [OF z]
  consider (perm) "is_PermissionError e" | (srch) "is_ProcessLookupError e"
    | (fnf) "is_FileNotFoundError e" | (other) "\<not> is_PermissionError e" "\<not> is_ProcessLookupError e" "\<not> is_FileNotFoundError e"
    by blast
  then show ?thesis
  proof cases
    case perm
    then show ?thesis using assms
      by (cases e) (auto simp: translate_def surfaced_def mk_AccessDenied_def)
  next
    case srch
    then have "\<not> is_PermissionError e" by (cases e) auto
    then show ?thesis using assms z zc(2) srch
      by (auto simp: translate_def surfaced_def mk_ZombieProcess_def mk_NoSuchProcess_def mk_NoSuchProcess_opt_def)
  next
    case fnf
    then have e: "\<not> is_PermissionError e" "\<not> is_ProcessLookupError e" "is_FileNotFoundError e"
      by (cases e; auto)+
    let ?p = "l_procfs (lp s) @ CHR ''/'' # int_str pid @ ''/stat''"
    show ?thesis
    proof (cases q)
      case (Inl x)
      then show ?thesis using assms z zc(2) e
        by (auto simp: translate_def surfaced_def mk_ZombieProcess_def)
    next
      case (Inr x)
      have "sys_os u = sys_os s" "lp u = lp s" by (simp_all add: zc(1))
      then show ?thesis using assms z Inr e
        by (cases "os_stat (sys_os s) (hist u) ?p")
          (auto simp: translate_def surfaced_def mk_NoSuchProcess_def mk_NoSuchProcess_opt_def path_exists_def stat_call_def)
    qed
  next
    case other
    then show ?thesis using assms by (auto simp: translate_def surfaced_def)
  qed
qed

text \<open>
  What the callers of a method may rely on: of the operating system's errors neither a
  \<open>PermissionError\<close> nor a \<open>ProcessLookupError\<close> comes out, and a \<open>FileNotFoundError\<close> only when
  the last thing the method did was to find that the \<open>stat\<close> file of the process is still there.
\<close>

definition stat_still_there :: "'z lsys_scheme \<Rightarrow> 'z lsys_scheme \<Rightarrow> bool" where
  "stat_still_there s t \<longleftrightarrow> (\<exists>h st p. p = l_procfs (lp t) @ CHR ''/'' # int_str (l_pid (lp s)) @ ''/stat''
     \<and> os_stat (sys_os t) h p = Inr st \<and> hist t = SStat p # h)"

definition errors_ok :: "'z lsys_scheme \<Rightarrow> (exn + 'a) \<times> 'z lsys_scheme \<Rightarrow> bool" where
  "errors_ok s q \<longleftrightarrow> (\<forall>e t. q = (Inl e, t) \<longrightarrow>
     surfaced e \<and> (is_FileNotFoundError e \<longrightarrow> stat_still_there s t))"

definition translates :: "('z lsys_scheme, 'a) py \<Rightarrow> bool" where
  "translates m \<longleftrightarrow> (\<forall>s. errors_ok s (m s))"

definition translates_d :: "('z lsys_scheme \<Rightarrow> ('z lsys_scheme, 'a) result) \<Rightarrow> bool" where
  "translates_d m \<longleftrightarrow> (\<forall>s q. m s = Some q \<longrightarrow> errors_ok s q)"

lemma translate_errors_ok: "errors_ok s (translate (l_pid (lp s)) name e u :: (exn + 'c) \<times> _)"
proof -
  obtain r t where run: "translate (l_pid (lp s)) name e u = ((r :: exn + 'c), t)"
    by (metis surj_pair)
  have "lp t = lp u \<and> sys_os t = sys_os u"
    using run raise_if_zombie_cases(1) [of u]
    by (cases "raise_if_zombie u")
      (auto simp: translate_def path_exists_def stat_call_def split: if_splits sum.splits)
  with translate_cases [OF run] show ?thesis
    unfolding run errors_ok_def stat_still_there_def by fastforce
qed

lemma translates_wrap: "translates (wrap_exceptions m)"
  unfolding translates_def
proof
  fix s
  obtain q u where q: "m s = (q, u)" by (cases "m s")
  show "errors_ok s (wrap_exceptions m s)"
    using translate_errors_ok [of s "l_name (lp s)" _ u] q
    by (cases q) (simp_all add: wrap_exceptions_def errors_ok_def)
qed

lemma translates_wrap_d: "translates_d (wrap_exceptions_d m)"
  using translate_errors_ok
  by (fastforce simp: translates_d_def wrap_exceptions_d_def errors_ok_def split: option.splits sum.splits)

text \<open>
  What the decorator does to the outcome \<open>(q, u)\<close> of the undecorated method: results are
  not touched, a \<open>PermissionError\<close> becomes \<open>AccessDenied\<close> and a \<open>ProcessLookupError\<close>
  \<open>NoSuchProcess\<close> or \<open>ZombieProcess\<close>, with the pid and the name of the object.
\<close>

definition translated :: "'z lsys_scheme \<Rightarrow> (exn + 'a) \<times> 'z lsys_scheme \<Rightarrow> (exn + 'a) \<times> 'z lsys_scheme \<Rightarrow> bool" where
  "translated s q r \<longleftrightarrow> (case fst q of
       Inr x \<Rightarrow> r = q
     | Inl e \<Rightarrow> (\<exists>e'. fst r = Inl e'
         \<and> (is_PermissionError e \<longrightarrow> e' = mk_AccessDenied (Some (l_pid (lp s))) (l_name (lp s)) None)
         \<and> (is_ProcessLookupError e \<longrightarrow> e' = mk_NoSuchProcess (l_pid (lp s)) (l_name (lp s)) None \<or> is_ZombieProcess e')))"

lemma wrap_exceptions_translated: "translated s (m s) (wrap_exceptions m s)"
proof (cases "m s")
  case (Pair q u)
  obtain r t where run: "wrap_exceptions m s = (r, t)" by (cases "wrap_exceptions m s")
  show ?thesis
  proof (cases q)
    case (Inl e)
    then have "translate (l_pid (lp s)) (l_name (lp s)) e u = (r, t)"
      using run Pair by (simp add: wrap_exceptions_def)
    from translate_cases [OF this] show ?thesis using Inl Pair run by (auto simp: translated_def)
  next
    case (Inr x)
    then have "r = q" "t = u" using Pair run by (simp_all add: wrap_exceptions_def)
    then show ?thesis using Pair run Inr by (simp add: translated_def)
  qed
qed

lemma wrap_exceptions_ok: "m s = (Inr x, t) \<Longrightarrow> wrap_exceptions m s = (Inr x, t)"
  by (simp add: wrap_exceptions_def)

lemma wrap_exceptions_Inr: "wrap_exceptions m s = (Inr x, t) \<Longrightarrow> m s = (Inr x, t)"
proof -
  assume run: "wrap_exceptions m s = (Inr x, t)"
  obtain q u where q: "m s = (q, u)" by (cases "m s")
  show "m s = (Inr x, t)"
  proof (cases q)
    case (Inl e)
    then have "translate (l_pid (lp s)) (l_name (lp s)) e u = (Inr x, t)"
      using run q by (simp add: wrap_exceptions_def)
    from translate_cases [OF this] show ?thesis by simp
  next
    case (Inr y)
    then show ?thesis using run q by (simp add: wrap_exceptions_def)
  qed
qed

lemma py_int_ValueError: "py_int x = Inl e \<Longrightarrow> e = ValueError"
  by (auto simp: py_int_def py_int_base_def of_option_def split: option.splits prod.splits)

definition null_lproc :: "int \<Rightarrow> lproc" where
  "null_lproc pid = \<lparr>l_pid = pid, l_name = None, l_ppid = None, l_ctime = None, l_procfs = ''/proc'', l_cache = None\<rparr>"

definition null_lsys :: "int \<Rightarrow> lsys" where
  "null_lsys pid = psx.extend null_psx (lsys.fields (null_lproc pid))"

lemma null_lsys_simps [simp]:
  "sys_os (null_lsys pid) = null_os" "hist (null_lsys pid) = []" "procfs_path (null_lsys pid) = ''/proc''"
  "lp (null_lsys pid) = null_lproc pid"
  by (simp_all add: null_lsys_def null_psx_def null_sys_def sys.defs psx.defs lsys.defs)

section \<open>The \<open>stat\<close> file\<close>

lemma parse_stat_text:
  assumes "stat_fields_ok flds" and "37 \<le> length flds" and "0 \<le> pid"
  shows "parse_stat (stat_text pid comm flds) = Inr
    \<lparr>ps_name = comm, ps_status = flds ! 0, ps_ppid = flds ! 1, ps_ttynr = flds ! 4, ps_minflt = flds ! 7,
     ps_majflt = flds ! 9, ps_utime = flds ! 11, ps_stime = flds ! 12, ps_children_utime = flds ! 13,
     ps_children_stime = flds ! 14, ps_create_time = flds ! 19, ps_cpu_num = flds ! 36,
     ps_blkio_ticks = (if 39 < length flds then Some (flds ! 39) else None)\<rparr>"
proof -
  have st: "stat_text pid comm flds = int_str pid @ '' ('' @ comm @ '') '' @ join '' '' flds @ [nl]"
    by (simp add: stat_text_def)
  have "CHR ''('' \<notin> set (int_str pid @ '' '')"
    by (auto simp: is_digit_def dest: set_int_str)
  from find_char_first [OF this] have
    "find_char (CHR ''('') ((int_str pid @ '' '') @ CHR ''('' # comm @ '') '' @ join '' '' flds @ [nl])
      = int (length (int_str pid @ '' ''))" .
  then have lpar: "find_char (CHR ''('') (stat_text pid comm flds) + 1 = int (length (int_str pid @ '' (''))"
    by (simp add: st)
  have rpar: "rfind_char (CHR '')'') (stat_text pid comm flds) = int (length (int_str pid @ '' ('') + length comm)"
    using stat_rpar [OF assms(1)] by simp
  have nm: "slice (stat_text pid comm flds) (int (length (int_str pid @ '' ('')))
      (int (length (int_str pid @ '' ('') + length comm)) = comm"
    using slice_mid [of _ "int_str pid @ '' (''" _ comm "'') '' @ join '' '' flds @ [nl]"] by (simp add: st)
  have flds: "split_ws (slice_from (stat_text pid comm flds) (rfind_char (CHR '')'') (stat_text pid comm flds) + 2)) = flds"
    using stat_words [OF assms(1)] by (simp add: stat_tail_def)
  have it: "item flds i = (if i < int (length flds) then Inr (flds ! nat i) else Inl IndexError)" if "0 \<le> i" for i
    using that by (simp add: item_def)
  have name: "slice (stat_text pid comm flds) (find_char (CHR ''('') (stat_text pid comm flds) + 1)
      (rfind_char (CHR '')'') (stat_text pid comm flds)) = comm"
    unfolding lpar rpar by (rule nm)
  have "flds \<noteq> []" using assms(2) by auto
  then show ?thesis using assms(2)
    by (simp add: parse_stat_def Let_def name flds it)
qed

definition sample_fields :: "string list" where
  "sample_fields = ''R'' # map nat_str [1..<40]"

lemma sample_fields_ok: "stat_fields_ok sample_fields" "37 \<le> length sample_fields"
proof -
  have "CHR '')'' \<notin> set (nat_str n)" for n by (auto simp: is_digit_def dest: set_nat_str)
  moreover have "word_ok ''R''" by (simp add: word_ok_def ws_def)
  ultimately show "stat_fields_ok sample_fields" by (auto simp: stat_fields_ok_def sample_fields_def)
qed (simp add: sample_fields_def)

text \<open>
  C29: \<open>_parse_stat_file\<close> finds the fields of the line whatever the process is called, also
  when its name contains blanks and parentheses: the name and every field come back, and
  the delay accounting field, which old kernels do not print, may be missing.
\<close>

theorem parse_stat_roundtrip:
  assumes "stat_fields_ok flds" and "37 \<le> length flds" and "0 \<le> pid"
  shows "parse_stat (stat_text pid comm flds) = Inr
    \<lparr>ps_name = comm, ps_status = flds ! 0, ps_ppid = flds ! 1, ps_ttynr = flds ! 4, ps_minflt = flds ! 7,
     ps_majflt = flds ! 9, ps_utime = flds ! 11, ps_stime = flds ! 12, ps_children_utime = flds ! 13,
     ps_children_stime = flds ! 14, ps_create_time = flds ! 19, ps_cpu_num = flds ! 36,
     ps_blkio_ticks = (if 39 < length flds then Some (flds ! 39) else None)\<rparr>"
  by (rule parse_stat_text [OF assms])

theorem parse_stat_roundtrip_witness:
  "\<exists>v. parse_stat (stat_text 42 ''a) R 7 ('' sample_fields) = Inr v \<and> ps_name v = ''a) R 7 (''
     \<and> ps_ppid v = sample_fields ! 1"
  using parse_stat_roundtrip [OF sample_fields_ok, of 42 "''a) R 7 (''"] by simp

section \<open>\<open>oneshot()\<close>\<close>

text \<open>The methods that only need the \<open>stat\<close> file, as functions of what it says.\<close>

definition stat_cpu_times :: "int \<Rightarrow> pstat \<Rightarrow> exn + pcputimes" where
  "stat_cpu_times clk v =
     bindE (ticks_secs clk (ps_utime v)) (\<lambda>utime. bindE (ticks_secs clk (ps_stime v)) (\<lambda>stime.
     bindE (ticks_secs clk (ps_children_utime v)) (\<lambda>cutime. bindE (ticks_secs clk (ps_children_stime v)) (\<lambda>cstime.
     bindE (case ps_blkio_ticks v of Some x \<Rightarrow> ticks_secs clk x | None \<Rightarrow> fdiv 0 (fint clk)) (\<lambda>iowait.
     Inr \<lparr>pct_user = utime, pct_system = stime, pct_children_user = cutime,
          pct_children_system = cstime, pct_iowait = iowait\<rparr>)))))"

definition stat_page_faults :: "pstat \<Rightarrow> exn + ppagefaults" where
  "stat_page_faults v = bindE (py_int (ps_minflt v)) (\<lambda>mi. bindE (py_int (ps_majflt v)) (\<lambda>ma.
     Inr \<lparr>pf_minor = mi, pf_major = ma\<rparr>))"

text \<open>Errors of the conversions are none of those the decorator translates.\<close>

definition no_os_error :: "exn + 'a \<Rightarrow> bool" where
  "no_os_error x \<longleftrightarrow> (\<forall>e. x = Inl e \<longrightarrow> e = ValueError \<or> e = ZeroDivisionError \<or> e = OverflowError)"

lemma no_os_error_bindE: "no_os_error x \<Longrightarrow> (\<And>v. no_os_error (f v)) \<Longrightarrow> no_os_error (bindE x f)"
  by (cases x) (auto simp: no_os_error_def)

lemma no_os_error_py:
  "no_os_error (py_int x)" "no_os_error (fdiv a b)" "no_os_error (py_float x)"
  "no_os_error (ticks_secs clk x)" "no_os_error (Inr v)"
proof -
  show 1: "no_os_error (py_int x)" using py_int_ValueError by (auto simp: no_os_error_def)
  show 2: "no_os_error (fdiv a b)" for a b by (simp add: no_os_error_def fdiv_def)
  show 3: "no_os_error (py_float x)" for x by (auto simp: no_os_error_def py_float_def of_option_def Let_def split: option.splits prod.splits if_splits)
  show "no_os_error (ticks_secs clk x)" unfolding ticks_secs_def by (intro no_os_error_bindE 2 3)
  show "no_os_error (Inr v)" by (simp add: no_os_error_def)
qed

lemma wrap_exceptions_plain:
  assumes "m s = (x, t)" and "no_os_error x"
  shows "wrap_exceptions m s = (x, t)"
  using assms by (cases x) (auto simp: wrap_exceptions_def translate_def no_os_error_def)

lemma stat_method:
  assumes "parse_stat_file t = (Inr v, t)" and "no_os_error (f v)"
  shows "wrap_exceptions (bnd parse_stat_file (\<lambda>v. liftE (f v))) t = (f v, t)"
  using assms by (intro wrap_exceptions_plain) simp_all

lemma parse_stat_file_ok:
  assumes "parse_stat_file s = (Inr v, t)" and "has_cache s"
  shows "has_cache t" and "parse_stat_file t = (Inr v, t)"
    and "hist t = hist s \<or> hist t = SRead (proc_file (lp s) ''stat'') # hist s"
proof -
  let ?f = "bnd (self (\<lambda>p. proc_file p ''stat'')) (\<lambda>path. bnd (bcat path) (\<lambda>data. liftE (parse_stat data)))"
  have run: "memoize has_cache look_stat store_stat ?f s = (Inr v, t)"
    using assms(1) unfolding parse_stat_file_def by (rule wrap_exceptions_Inr)
  have f: "has_cache u \<and> hist u = SRead (proc_file (lp s) ''stat'') # hist s" if "?f s = (Inr w, u)" for w u
    using that assms(2) by (auto simp: has_cache_def bcat_def cat_def read_file_def split: sum.splits)
  have "has_cache t \<and> (hist t = hist s \<or> hist t = SRead (proc_file (lp s) ''stat'') # hist s)"
  proof (cases "look_stat s")
    case (Some x)
    then show ?thesis using run assms(2) by (simp add: stat_slot.memo_hit)
  next
    case None
    obtain q u where q: "?f s = (q, u)" by (cases "?f s")
    have "hist (store_stat w u) = hist u" for w by (simp add: store_stat_def upd_cache_def)
    then show ?thesis using run q f stat_slot.memo_miss [OF assms(2) None] stat_slot.memo_error [OF None]
      by (cases q) (auto intro: stat_slot.has_store)
  qed
  then show t: "has_cache t" and "hist t = hist s \<or> hist t = SRead (proc_file (lp s) ''stat'') # hist s" by blast+
  show "parse_stat_file t = (Inr v, t)"
    unfolding parse_stat_file_def using stat_slot.memo_again [OF assms(2) run t] by (rule wrap_exceptions_ok)
qed

text \<open>
  C31: inside \<open>oneshot()\<close> the \<open>stat\<close> file of a process is read once.  A \<open>_parse_stat_file\<close>
  that succeeds with the cache active makes at most the one system call that reads it, and
  after it no method that only needs this file makes any: \<open>name\<close>, \<open>status\<close>, \<open>ppid\<close>, \<open>cpu_num\<close>,
  \<open>page_faults\<close>, \<open>cpu_times\<close> and \<open>create_time(monotonic=True)\<close> give what the text read then
  says, and the first six change nothing; \<open>create_time\<close> stores its number when it has none yet.
\<close>

theorem oneshot_reads_once:
  assumes "parse_stat_file s = (Inr v, t)" and "has_cache s"
  shows "(hist t = hist s \<or> hist t = SRead (proc_file (lp s) ''stat'') # hist s)
    \<and> has_cache t \<and> parse_stat_file t = (Inr v, t)
    \<and> proc_name t = (Inr (ps_name v), t)
    \<and> proc_status t = (Inr (map_of PROC_STATUSES (ps_status v)), t)
    \<and> proc_ppid t = (py_int (ps_ppid v), t)
    \<and> proc_cpu_num t = (py_int (ps_cpu_num v), t)
    \<and> proc_page_faults t = (stat_page_faults v, t)
    \<and> proc_cpu_times t = (stat_cpu_times (os_clock_ticks (sys_os t)) v, t)
    \<and> proc_create_time True t = (case l_ctime (lp t) of
         Some c \<Rightarrow> (Inr c, t)
       | None \<Rightarrow> (case ticks_secs (os_clock_ticks (sys_os t)) (ps_create_time v) of
             Inl e \<Rightarrow> (Inl e, t)
           | Inr c \<Rightarrow> (Inr c, t\<lparr>lp := (lp t)\<lparr>l_ctime := Some c\<rparr>\<rparr>)))"
proof -
  note once = parse_stat_file_ok [OF assms]
  note p = once(2)
  have name: "proc_name t = (Inr (ps_name v), t)"
    and status: "proc_status t = (Inr (map_of PROC_STATUSES (ps_status v)), t)"
    using p by (simp_all add: proc_name_def proc_status_def wrap_exceptions_def)
  have ppid: "proc_ppid t = (py_int (ps_ppid v), t)" and num: "proc_cpu_num t = (py_int (ps_cpu_num v), t)"
    unfolding proc_ppid_def proc_cpu_num_def by (rule stat_method [OF p] no_os_error_py)+
  have faults: "proc_page_faults t = (stat_page_faults v, t)"
    unfolding proc_page_faults_def
  proof (rule wrap_exceptions_plain)
    show "no_os_error (stat_page_faults v)"
      unfolding stat_page_faults_def by (intro no_os_error_bindE no_os_error_py)
  qed (use p in \<open>simp add: stat_page_faults_def split: sum.splits\<close>)
  let ?clk = "os_clock_ticks (sys_os t)"
  have times: "proc_cpu_times t = (stat_cpu_times ?clk v, t)"
    unfolding proc_cpu_times_def
  proof (rule wrap_exceptions_plain)
    show "no_os_error (stat_cpu_times ?clk v)"
      unfolding stat_cpu_times_def by (intro no_os_error_bindE no_os_error_py) (simp add: no_os_error_py split: option.splits)
  qed (use p in \<open>simp add: stat_cpu_times_def split: sum.splits\<close>)
  have created: "proc_create_time True t = (case l_ctime (lp t) of
         Some c \<Rightarrow> (Inr c, t)
       | None \<Rightarrow> (case ticks_secs ?clk (ps_create_time v) of
             Inl e \<Rightarrow> (Inl e, t)
           | Inr c \<Rightarrow> (Inr c, t\<lparr>lp := (lp t)\<lparr>l_ctime := Some c\<rparr>\<rparr>)))"
  proof (cases "l_ctime (lp t)")
    case None
    show ?thesis
    proof (cases "ticks_secs ?clk (ps_create_time v)")
      case (Inl e)
      then have "no_os_error (Inl e :: exn + flt)" using no_os_error_py(4) by metis
      then have "proc_create_time True t = (Inl e, t)"
        unfolding proc_create_time_def using p None Inl by (intro wrap_exceptions_plain) simp_all
      then show ?thesis using None Inl by simp
    qed (use p None in \<open>simp add: proc_create_time_def wrap_exceptions_def\<close>)
  qed (simp add: proc_create_time_def wrap_exceptions_def)
  show ?thesis by (intro conjI once name status ppid num faults times created)
qed

theorem oneshot_reads_once_witness:
  "let os = null_os\<lparr>os_read := \<lambda>h p. if h = [] then Inr (stat_text 42 ''init'' sample_fields) else Inl ESRCH\<rparr>;
       s = (null_lsys 42)\<lparr>sys_os := os, lp := (null_lproc 42)\<lparr>l_cache := Some empty_cache\<rparr>\<rparr>
   in \<exists>v t. parse_stat_file s = (Inr v, t) \<and> proc_name t = (Inr ''init'', t)
        \<and> proc_cpu_times t = (stat_cpu_times (os_clock_ticks os) v, t)"
proof -
  let ?os = "null_os\<lparr>os_read := \<lambda>h p. if h = [] then Inr (stat_text 42 ''init'' sample_fields) else Inl ESRCH\<rparr>"
  let ?s = "(null_lsys 42)\<lparr>sys_os := ?os, lp := (null_lproc 42)\<lparr>l_cache := Some empty_cache\<rparr>\<rparr>"
  have hc: "has_cache ?s" by (simp add: has_cache_def)
  obtain v where v: "parse_stat (stat_text 42 ''init'' sample_fields) = Inr v" "ps_name v = ''init''"
    using parse_stat_text [OF sample_fields_ok, of 42 "''init''"] by auto
  have "\<exists>t. parse_stat_file ?s = (Inr v, t) \<and> sys_os t = ?os"
    using v(1) by (simp add: parse_stat_file_def wrap_exceptions_def memoize_def cache_defs bcat_def cat_def
        read_file_def)
  then obtain t where t: "parse_stat_file ?s = (Inr v, t)" "sys_os t = ?os" by blast
  from oneshot_reads_once [OF t(1) hc] t v show ?thesis by (auto simp: Let_def)
qed

end
