(* ===== verification/Linux_Process_Ops.thy ===== *)
theory Linux_Process_Ops
  imports Linux_Process Linux_Cpu "HOL-Library.List_Lexorder" "HOL-Library.Char_ord"
begin

text \<open>
  The other methods of the Linux \<open>Process\<close> class: those that read a file, a directory or
  ask the kernel.
\<close>

section \<open>Files of the process\<close>

definition proc_exe :: "('z lsys_scheme, string) py" where
  "proc_exe = wrap_exceptions (bnd (self (\<lambda>p. proc_file p ''exe'')) (\<lambda>path. proc_readlink path (Some [])))"

definition proc_cwd :: "('z lsys_scheme, string) py" where
  "proc_cwd = wrap_exceptions (bnd (self (\<lambda>p. proc_file p ''cwd'')) (\<lambda>path. proc_readlink path (Some [])))"

definition split_cmdline :: "string \<Rightarrow> string list" where
  "split_cmdline data0 =
     (let sep = (if endswith data0 [nul] then nul else CHR '' '');
          data = (if endswith data0 [sep] then butlast data0 else data0);
          cmdline = split_on sep data
      in if sep = nul \<and> length cmdline = 1 \<and> CHR '' '' \<in> set data then split_on (CHR '' '') data
         else cmdline)"

definition proc_cmdline :: "('z lsys_scheme, string list) py" where
  "proc_cmdline = wrap_exceptions (bnd (self (\<lambda>p. proc_file p ''cmdline'')) (\<lambda>path.
     bnd (read_file path) (\<lambda>data.
     if data = [] then bnd raise_if_zombie (\<lambda>_. ret []) else ret (split_cmdline data))))"

definition proc_environ :: "('z lsys_scheme, (string, string) dict) py" where
  "proc_environ = wrap_exceptions (bnd (self (\<lambda>p. proc_file p ''environ'')) (\<lambda>path.
     bnd (read_file path) (\<lambda>data. ret (parse_environ_block False data))))"

definition io_line :: "string \<Rightarrow> (string, int) dict \<Rightarrow> exn + (string, int) dict" where
  "io_line line0 flds = (let line = strip line0 in
     if line = [] then Inr flds
     else case split_str '': '' line of
       [name, value] \<Rightarrow> bindE (py_int value) (\<lambda>n. Inr (AList.update name n flds))
     | _ \<Rightarrow> Inr flds)"

definition io_fields :: "(string, int) dict \<Rightarrow> exn + pio" where
  "io_fields d = (case (map_of d ''syscr'', map_of d ''syscw'', map_of d ''read_bytes'',
       map_of d ''write_bytes'', map_of d ''rchar'', map_of d ''wchar'') of
     (Some a, Some b, Some c, Some e, Some f, Some g) \<Rightarrow>
       Inr \<lparr>pio_read_count = a, pio_write_count = b, pio_read_bytes = c, pio_write_bytes = e,
            pio_read_chars = f, pio_write_chars = g\<rparr>
   | _ \<Rightarrow> Inl ValueError)"

definition proc_io_counters :: "('z lsys_scheme, pio) py" where
  "proc_io_counters = wrap_exceptions (bnd (self (\<lambda>p. proc_file p ''io'')) (\<lambda>path.
     bnd (read_file path) (\<lambda>data. bnd (liftE (foldE io_line (lines data) [])) (\<lambda>flds.
     if flds = [] then raise RuntimeError else liftE (io_fields flds)))))"

definition proc_memory_info :: "('z lsys_scheme, pmem) py" where
  "proc_memory_info = wrap_exceptions (bnd (self (\<lambda>p. proc_file p ''statm'')) (\<lambda>path.
     bnd (read_file path) (\<lambda>data. bnd (sys_const os_pagesize) (\<lambda>page.
     bnd (liftE (mapE (\<lambda>x. bindE (py_int x) (\<lambda>n. Inr (n * page))) (take 7 (split_ws (readline data))))) (\<lambda>ns.
     case ns of
       [vms, rss, shared, txt, _, dat, _] \<Rightarrow>
         ret \<lparr>pm_rss = rss, pm_vms = vms, pm_shared = shared, pm_text = txt, pm_data = dat\<rparr>
     | _ \<Rightarrow> raise ValueError)))))"

section \<open>Memory maps\<close>

definition second_kb :: "string \<Rightarrow> exn + int" where
  "second_kb line = bindE (item (split_ws line) 1) (\<lambda>w. bindE (py_int w) (\<lambda>n. Inr (n * 1024)))"

definition rollup_line :: "string \<Rightarrow> int \<times> int \<times> int \<Rightarrow> exn + int \<times> int \<times> int" where
  "rollup_line line acc = (case acc of (uss, pss, swap) \<Rightarrow>
     if startswith line ''Private_'' then bindE (second_kb line) (\<lambda>n. Inr (uss + n, pss, swap))
     else if startswith line ''Pss:'' then bindE (second_kb line) (\<lambda>n. Inr (uss, n, swap))
     else if startswith line ''Swap:'' then bindE (second_kb line) (\<lambda>n. Inr (uss, pss, n))
     else Inr acc)"

definition parse_smaps_rollup :: "('z lsys_scheme, int \<times> int \<times> int) py" where
  "parse_smaps_rollup = bnd (self (\<lambda>p. proc_file p ''smaps_rollup'')) (\<lambda>path.
     bnd (read_file path) (\<lambda>data. liftE (foldE rollup_line (lines data) (0, 0, 0))))"

definition sum_matches :: "ratom list \<Rightarrow> string \<Rightarrow> exn + int" where
  "sum_matches re data = bindE (mapE (\<lambda>gs. case gs of g # _ \<Rightarrow> py_int g | [] \<Rightarrow> Inl IndexError) (rfindall re data))
     (\<lambda>ns. Inr (sum_list ns * 1024))"

definition private_re :: "ratom list" where
  "private_re = rlit (nl # ''Private'') @ [RStar rdot] @ rlit '':'' @ rplus ws @ rgroup (rplus is_digit)"
definition pss_re :: "ratom list" where
  "pss_re = rlit (nl # ''Pss:'') @ rplus ws @ rgroup (rplus is_digit)"
definition swap_re :: "ratom list" where
  "swap_re = rlit (nl # ''Swap:'') @ rplus ws @ rgroup (rplus is_digit)"

definition parse_smaps :: "('z lsys_scheme, int \<times> int \<times> int) py" where
  "parse_smaps = wrap_exceptions (bnd read_smaps_file (\<lambda>data.
     bnd (liftE (sum_matches private_re data)) (\<lambda>uss. bnd (liftE (sum_matches pss_re data)) (\<lambda>pss.
     bnd (liftE (sum_matches swap_re data)) (\<lambda>swap. ret (uss, pss, swap))))))"

definition proc_memory_footprint :: "('z lsys_scheme, pfootprint) py" where
  "proc_memory_footprint = wrap_exceptions (bnd (sys_const os_has_smaps_rollup) (\<lambda>rollup.
     bnd (if rollup
          then try_else parse_smaps_rollup
                 (\<lambda>e. if is_ProcessLookupError e \<or> is_FileNotFoundError e then parse_smaps else raise e) ret
          else parse_smaps) (\<lambda>(uss, pss, swap).
     ret \<lparr>fp_uss = uss, fp_pss = pss, fp_swap = swap\<rparr>)))"

definition maps_keys :: "string list" where
  "maps_keys = [''Rss:'', ''Size:'', ''Pss:'', ''Shared_Clean:'', ''Shared_Dirty:'', ''Private_Clean:'',
     ''Private_Dirty:'', ''Referenced:'', ''Anonymous:'', ''Swap:'']"

text \<open>The body of the loop over the blocks, for one header line and the dict of its values.\<close>

definition maps_item ::
  "string \<Rightarrow> (string, int) dict \<Rightarrow> pmmap_ext list \<Rightarrow> ('z sys_scheme, pmmap_ext list) py" where
  "maps_item header data acc =
     (let mk = (\<lambda>addr perms path. acc @ [\<lparr>mx_addr = addr, mx_perms = perms, mx_path = path,
                  mx_nums = map (\<lambda>k. dict_get data k 0) maps_keys\<rparr>]) in
      case split_ws_max 5 header of
        [addr, perms, _, _, _] \<Rightarrow> ret (mk addr perms ''[anon]'')
      | [addr, perms, _, _, _, path0] \<Rightarrow>
          if path0 = [] then ret (mk addr perms ''[anon]'')
          else let path = strip path0 in
            bnd (if endswith path '' (deleted)'' then path_exists_strict path else ret True) (\<lambda>ex.
            ret (mk addr perms (if ex then path else slice path 0 (- 10))))
      | _ \<Rightarrow> raise ValueError)"

text \<open>
  \<open>get_blocks\<close> is a generator that the loop consumes as it goes.  Its dict \<open>data\<close> is made
  once and is not emptied between blocks.
\<close>

fun maps_blocks ::
  "string list \<Rightarrow> string \<Rightarrow> (string, int) dict \<Rightarrow> pmmap_ext list \<Rightarrow> ('z sys_scheme, pmmap_ext list) py" where
  "maps_blocks [] block data acc = maps_item block data acc"
| "maps_blocks (line # ls) block data acc =
     (case split_ws_max 5 line of
        [] \<Rightarrow> raise IndexError
      | key # rest \<Rightarrow>
          if \<not> endswith key '':'' then
            bnd (maps_item block data acc) (\<lambda>acc'. maps_blocks ls line data acc')
          else (case rest of
              value # _ \<Rightarrow> (case py_int value of
                  Inr n \<Rightarrow> maps_blocks ls block (AList.update key (n * 1024) data) acc
                | Inl _ \<Rightarrow> if startswith key ''VmFlags:'' then maps_blocks ls block data acc else raise ValueError)
            | [] \<Rightarrow> if startswith key ''VmFlags:'' then maps_blocks ls block data acc else raise ValueError))"

definition proc_memory_maps :: "('z lsys_scheme, pmmap_ext list) py" where
  "proc_memory_maps = wrap_exceptions (bnd read_smaps_file (\<lambda>data.
     if data = [] then bnd raise_if_zombie (\<lambda>_. ret [])
     else case split_on nl data of
       first_line # ls \<Rightarrow> maps_blocks ls first_line [] []
     | [] \<Rightarrow> raise IndexError))"

section \<open>Threads and files\<close>

text \<open>The values of a thread's \<open>stat\<close> file: what follows the first \<open>)\<close>.\<close>

definition thread_values :: "string \<Rightarrow> string list" where
  "thread_values data = (let st = strip data in
     split_on (CHR '' '') (slice_from st (find_char (CHR '')'') st + 2)))"

definition thread_step :: "string \<Rightarrow> pthread list \<times> bool \<Rightarrow> ('z lsys_scheme, pthread list \<times> bool) py" where
  "thread_step tid acc = (case acc of (retlist, hit_enoent) \<Rightarrow>
     bnd (self (\<lambda>p. proc_file p (''task/'' @ tid @ ''/stat''))) (\<lambda>fname.
     try_else (read_file fname)
       (\<lambda>e. if is_FileNotFoundError e \<or> is_ProcessLookupError e then ret (retlist, True) else raise e)
       (\<lambda>data. let values = thread_values data in
          bnd (sys_const os_clock_ticks) (\<lambda>clk.
          bnd (liftE (bindE (item values 11) (ticks_secs clk))) (\<lambda>utime.
          bnd (liftE (bindE (item values 12) (ticks_secs clk))) (\<lambda>stime.
          bnd (liftE (py_int tid)) (\<lambda>n.
          ret (retlist @ [\<lparr>th_id = n, th_user_time = utime, th_system_time = stime\<rparr>], hit_enoent))))))))"

definition proc_threads :: "('z lsys_scheme, pthread list) py" where
  "proc_threads = wrap_exceptions (bnd (self (\<lambda>p. proc_file p ''task'')) (\<lambda>dir.
     bnd (listdir dir) (\<lambda>tids. bnd (for_each (sort tids) thread_step ([], False)) (\<lambda>(retlist, hit_enoent).
     bnd (if hit_enoent then raise_if_not_alive else ret ()) (\<lambda>_. ret retlist)))))"

definition nth_line :: "string \<Rightarrow> nat \<Rightarrow> string" where
  "nth_line data i = (if i < length (lines data) then lines data ! i else [])"

definition open_file_step ::
  "string \<Rightarrow> popenfile list \<times> bool \<Rightarrow> ('z lsys_scheme, popenfile list \<times> bool) py" where
  "open_file_step fd acc = (case acc of (retlist, hit_enoent) \<Rightarrow>
     bnd (self (\<lambda>p. proc_file p (''fd/'' @ fd))) (\<lambda>file.
     try_else (readlink file)
       (\<lambda>e. if is_FileNotFoundError e \<or> is_ProcessLookupError e then ret (retlist, True)
            else if errno_of e = Some EINVAL \<or> errno_of e = Some ENAMETOOLONG then ret acc
            else raise e)
       (\<lambda>path. bnd (if startswith path ''/'' then isfile_strict path else ret False) (\<lambda>reg.
          if \<not> reg then ret acc
          else bnd (self (\<lambda>p. proc_file p (''fdinfo/'' @ fd))) (\<lambda>info.
            try_else (bnd (read_file info) (\<lambda>data.
                bnd (liftE (bindE (item (split_ws (nth_line data 0)) 1) py_int)) (\<lambda>pos.
                bnd (liftE (bindE (item (split_ws (nth_line data 1)) 1) (py_int_base 8))) (\<lambda>flags.
                ret (pos, flags)))))
              (\<lambda>e. if is_FileNotFoundError e \<or> is_ProcessLookupError e then ret (retlist, True) else raise e)
              (\<lambda>(pos, flags). bnd (liftE (file_flags_to_mode flags)) (\<lambda>mode.
                 bnd (liftE (py_int fd)) (\<lambda>n.
                 ret (retlist @ [\<lparr>of_path = path, of_fd = n, of_position = pos, of_mode = mode,
                        of_flags = flags\<rparr>], hit_enoent)))))))))"

definition proc_open_files :: "('z lsys_scheme, popenfile list) py" where
  "proc_open_files = wrap_exceptions (bnd (self (\<lambda>p. proc_file p ''fd'')) (\<lambda>dir.
     bnd (listdir dir) (\<lambda>files. bnd (for_each files open_file_step ([], False)) (\<lambda>(retlist, hit_enoent).
     bnd (if hit_enoent then raise_if_not_alive else ret ()) (\<lambda>_. ret retlist)))))"

definition proc_num_fds :: "('z lsys_scheme, int) py" where
  "proc_num_fds = wrap_exceptions (bnd (self (\<lambda>p. proc_file p ''fd'')) (\<lambda>dir.
     bnd (listdir dir) (\<lambda>fds. ret (int (length fds)))))"

definition proc_net_connections :: "string \<Rightarrow> ('z lsys_scheme, sconn list) py" where
  "proc_net_connections kind = wrap_exceptions (bnd (self l_pid) (\<lambda>pid.
     bnd (retrieve kind (Some pid)) (\<lambda>r. bnd raise_if_not_alive (\<lambda>_. ret r))))"

section \<open>Scheduling and limits\<close>

definition proc_nice_get :: "('z lsys_scheme, int) py" where
  "proc_nice_get = wrap_exceptions (bnd (self l_pid) (\<lambda>pid.
     sys_call (SPriorityGet pid) (\<lambda>os h. os_priority_get os h pid)))"

definition proc_nice_set :: "int \<Rightarrow> ('z lsys_scheme, unit) py" where
  "proc_nice_set value = wrap_exceptions (bnd (self l_pid) (\<lambda>pid.
     sys_call (SPrioritySet pid value) (\<lambda>os h. os_priority_set os h pid value)))"

definition proc_cpu_affinity_get :: "('z lsys_scheme, int list) py" where
  "proc_cpu_affinity_get = wrap_exceptions (bnd (self l_pid) (\<lambda>pid.
     sys_call (SAffinityGet pid) (\<lambda>os h. os_affinity_get os h pid)))"

definition allowed_re :: "ratom list" where
  "allowed_re = rlit ''Cpus_allowed_list:'' @ [RStar (\<lambda>c. c \<in> {CHR '' '', CHR 0x09})]
     @ rgroup [RStar (\<lambda>c. c \<notin> {CHR 0x0D, CHR 0x0A})]"

definition get_eligible_cpus :: "('z lsys_scheme, int list) py" where
  "get_eligible_cpus = bnd read_status_file (\<lambda>data.
     case (case rsearch_bol True allowed_re data of
             Some (g # _, _) \<Rightarrow> (case parse_cpulist g of Inr cpus \<Rightarrow> Some cpus | Inl _ \<Rightarrow> None)
           | _ \<Rightarrow> None) of
       Some cpus \<Rightarrow> ret cpus
     | None \<Rightarrow> bnd per_cpu_times (\<lambda>ts. ret [0..int (length ts) - 1]))"

definition affinity_set_call :: "int \<Rightarrow> int list \<Rightarrow> ('z sys_scheme, unit) py" where
  "affinity_set_call pid cpus = sys_try (SAffinitySet pid cpus) (\<lambda>os h. os_affinity_set os h pid cpus)"

definition proc_cpu_affinity_set :: "int list \<Rightarrow> ('z lsys_scheme, unit) py" where
  "proc_cpu_affinity_set cpus = wrap_exceptions (bnd (self l_pid) (\<lambda>pid.
     try_except (affinity_set_call pid cpus)
       (\<lambda>e. if is_OSError e \<or> e = ValueError then
           (if e = ValueError \<or> errno_of e = Some EINVAL then
              bnd get_eligible_cpus (\<lambda>eligible. bnd per_cpu_times (\<lambda>ts.
              let all_cpus = [0..int (length ts) - 1] in
              if \<exists>cpu \<in> set cpus. cpu \<notin> set all_cpus \<or> cpu \<notin> set eligible
              then raise ValueError else raise e))
            else raise e)
          else raise e)))"

definition proc_ionice_get :: "('z lsys_scheme, pionice) py" where
  "proc_ionice_get = wrap_exceptions (bnd (self l_pid) (\<lambda>pid.
     bnd (sys_call (SIoprioGet pid) (\<lambda>os h. os_ioprio_get os h pid)) (\<lambda>(ioclass, value).
     if ioclass \<in> {IOPRIO_CLASS_NONE, IOPRIO_CLASS_RT, IOPRIO_CLASS_BE, IOPRIO_CLASS_IDLE}
     then ret \<lparr>ion_ioclass = ioclass, ion_value = value\<rparr> else raise ValueError)))"

definition proc_ionice_set :: "int \<Rightarrow> int option \<Rightarrow> ('z lsys_scheme, unit) py" where
  "proc_ionice_set ioclass value0 = wrap_exceptions (
     let value = (case value0 of None \<Rightarrow> 0 | Some v \<Rightarrow> v) in
     if value \<noteq> 0 \<and> ioclass \<in> {IOPRIO_CLASS_IDLE, IOPRIO_CLASS_NONE} then raise ValueError
     else if value < 0 \<or> 7 < value then raise ValueError
     else bnd (self l_pid) (\<lambda>pid.
       sys_call (SIoprioSet pid ioclass value) (\<lambda>os h. os_ioprio_set os h pid ioclass value)))"

text \<open>\<open>rlimit\<close> with \<open>limits\<close> absent and with a sequence of limits.\<close>

definition fix_infinity :: "int \<Rightarrow> int" where
  "fix_infinity v = (if v = RLIM_INFINITY_UNSIGNED then RLIM_INFINITY else v)"

definition rlimit_guard :: "('z lsys_scheme, 'a) py \<Rightarrow> ('z lsys_scheme, 'a) py" where
  "rlimit_guard m = wrap_exceptions (bnd (self l_pid) (\<lambda>pid.
     if pid = 0 then raise ValueError
     else try_except m (\<lambda>e. if errno_of e = Some ENOSYS then bnd raise_if_zombie (\<lambda>_. raise e) else raise e)))"

definition proc_rlimit_get :: "int \<Rightarrow> ('z lsys_scheme, int \<times> int) py" where
  "proc_rlimit_get res = rlimit_guard (bnd (self l_pid) (\<lambda>pid.
     bnd (sys_call (SPrlimitGet pid res) (\<lambda>os h. os_prlimit_get os h pid res)) (\<lambda>(soft, hard).
     ret (fix_infinity soft, fix_infinity hard))))"

definition proc_rlimit_set :: "int \<Rightarrow> int list \<Rightarrow> ('z lsys_scheme, unit) py" where
  "proc_rlimit_set res limits = rlimit_guard (bnd (self l_pid) (\<lambda>pid. case limits of
       [soft, hard] \<Rightarrow> sys_call (SPrlimitSet pid res soft hard) (\<lambda>os h. os_prlimit_set os h pid res soft hard)
     | _ \<Rightarrow> raise ValueError))"

section \<open>Command lines\<close>

text \<open>
  \<open>cmdline\<close> gives back the arguments of a process whose command line has the layout the
  kernel documents, each argument ended by a null byte, including empty arguments and
  arguments with blanks; the one exception is a single argument with blanks, which is
  taken for a title set with \<open>setproctitle\<close> and split.
\<close>

theorem cmdline_roundtrip:
  assumes "os_read (sys_os s) (hist s) (proc_file (lp s) ''cmdline'') = Inr (concat (map (\<lambda>a. a @ [nul]) args))"
    and "args \<noteq> []" and "\<forall>a \<in> set args. nul \<notin> set a"
    and "length args = 1 \<longrightarrow> CHR '' '' \<notin> set (hd args)"
  shows "fst (proc_cmdline s) = Inr args"
proof -
  let ?data = "concat (map (\<lambda>a. a @ [nul]) args)"
  have data: "?data = join [nul] args @ [nul]"
    using assms(2) by (induction "[nul]" args rule: join.induct) auto
  have sp: "split_on nul (join [nul] args) = args" using assms(2,3) by (rule split_on_join)
  have "split_cmdline (join [nul] args @ [nul]) = args"
  proof (cases "length args = 1")
    case True
    then obtain a where a: "args = [a]" by (auto simp: length_Suc_conv)
    then show ?thesis using assms(4) sp by (simp add: split_cmdline_def endswith_char)
  next
    case False
    then show ?thesis using sp by (simp add: split_cmdline_def endswith_char Let_def)
  qed
  then show ?thesis using assms(1) data
    by (simp add: proc_cmdline_def wrap_exceptions_def read_file_def)
qed

theorem cmdline_roundtrip_witness:
  "fst (proc_cmdline ((null_lsys 7)\<lparr>sys_os := null_os\<lparr>os_read := \<lambda>h p.
      Inr (concat (map (\<lambda>a. a @ [nul]) [''sh'', ''-c'', [], ''echo hi'']))\<rparr>\<rparr>)) = Inr [''sh'', ''-c'', [], ''echo hi'']"
  by (rule cmdline_roundtrip) simp_all

section \<open>Memory maps are read block by block\<close>

text \<open>A block of \<open>smaps\<close>: address, permissions, offset, device, inode, path, and ten values.\<close>

record smaps_block =
  sb_addr :: string
  sb_perms :: string
  sb_rest :: "string list"
  sb_path :: string
  sb_nums :: "nat list"

definition smaps_ok :: "smaps_block \<Rightarrow> bool" where
  "smaps_ok b \<longleftrightarrow> word_ok (sb_addr b) \<and> \<not> endswith (sb_addr b) '':'' \<and> word_ok (sb_perms b)
     \<and> length (sb_rest b) = 3 \<and> list_all word_ok (sb_rest b) \<and> (sb_path b = [] \<or> word_ok (sb_path b))
     \<and> length (sb_nums b) = 10"

definition smaps_header :: "smaps_block \<Rightarrow> string" where
  "smaps_header b = join '' '' ([sb_addr b, sb_perms b] @ sb_rest b @ [sb_path b])"

definition smaps_value :: "string \<times> nat \<Rightarrow> string" where
  "smaps_value kn = fst kn @ CHR '' '' # nat_str (snd kn) @ '' kB''"

definition smaps_values :: "smaps_block \<Rightarrow> string list" where
  "smaps_values b = map smaps_value (zip maps_keys (sb_nums b))"

definition smaps_entry :: "smaps_block \<Rightarrow> pmmap_ext" where
  "smaps_entry b = \<lparr>mx_addr = sb_addr b, mx_perms = sb_perms b,
     mx_path = (if sb_path b = [] then ''[anon]'' else sb_path b),
     mx_nums = map (\<lambda>n. int n * 1024) (sb_nums b)\<rparr>"

lemma split_max_word: "word_ok w \<Longrightarrow> split_ws_max (Suc n) (w @ CHR '' '' # s) = w # split_ws_max n s"
proof -
  assume w: "word_ok w"
  then have "takeWhile (\<lambda>c. \<not> ws c) (w @ CHR '' '' # s) = w" "dropWhile (\<lambda>c. \<not> ws c) (w @ CHR '' '' # s) = CHR '' '' # s"
    by (auto simp: word_ok_def list_all_iff ws_def takeWhile_append dropWhile_append)
  moreover have "split_ws_max n (CHR '' '' # s) = split_ws_max n s"
    by (cases n) (simp_all add: lstrip_def ws_def)
  ultimately show ?thesis using lstrip_word [OF w, of "CHR '' '' # s"] w
    by (simp add: Let_def)
qed

lemma split_max_last: "word_ok w \<Longrightarrow> split_ws_max n w = [w]"
proof -
  assume w: "word_ok w"
  then have "lstrip w = w" "w \<noteq> []" using lstrip_word [OF w, of "[]"] by (auto simp: word_ok_def)
  moreover have "takeWhile (\<lambda>c. \<not> ws c) w = w" and d: "dropWhile (\<lambda>c. \<not> ws c) w = []"
    using w by (auto simp: word_ok_def list_all_iff)
  moreover have "split_ws_max m [] = []" for m by (cases m) (simp_all add: lstrip_def)
  ultimately show ?thesis by (cases n) (simp_all add: Let_def d del: dropWhile_eq_Nil_conv)
qed

lemma split_max_Nil [simp]: "split_ws_max n [] = []"
  by (cases n) (simp_all add: lstrip_def)

lemma smaps_header_words:
  assumes "smaps_ok b"
  shows "split_ws_max 5 (smaps_header b) = [sb_addr b, sb_perms b] @ sb_rest b @ (if sb_path b = [] then [] else [sb_path b])"
proof -
  obtain x y z where r: "sb_rest b = [x, y, z]"
    using assms by (auto simp: smaps_ok_def numeral_eq_Suc length_Suc_conv)
  have five: "(5::nat) = Suc (Suc (Suc (Suc (Suc 0))))" by simp
  have w: "word_ok (sb_addr b)" "word_ok (sb_perms b)" "word_ok x" "word_ok y" "word_ok z"
    using assms r by (auto simp: smaps_ok_def)
  have h: "smaps_header b = sb_addr b @ CHR '' '' # sb_perms b @ CHR '' '' # x @ CHR '' '' # y @ CHR '' '' # z
      @ CHR '' '' # sb_path b"
    by (simp add: smaps_header_def r)
  have "split_ws_max 0 (sb_path b) = (if sb_path b = [] then [] else [sb_path b])"
  proof (cases "sb_path b = []")
    case True
    then show ?thesis by (simp add: True del: split_ws_max.simps)
  next
    case False
    then have "word_ok (sb_path b)" using assms by (simp add: smaps_ok_def)
    from split_max_last [OF this, of 0] False show ?thesis by (simp only: if_False)
  qed
  then show ?thesis unfolding five h split_max_word [OF w(1)] split_max_word [OF w(2)] split_max_word [OF w(3)]
      split_max_word [OF w(4)] split_max_word [OF w(5)] by (simp add: r)
qed

lemma maps_item_header:
  assumes "smaps_ok b"
  shows "maps_item (smaps_header b) data acc s
     = (Inr (acc @ [\<lparr>mx_addr = sb_addr b, mx_perms = sb_perms b,
          mx_path = (if sb_path b = [] then ''[anon]'' else sb_path b),
          mx_nums = map (\<lambda>k. dict_get data k 0) maps_keys\<rparr>]), s)"
proof -
  obtain x y z where r: "sb_rest b = [x, y, z]"
    using assms by (auto simp: smaps_ok_def numeral_eq_Suc length_Suc_conv)
  have "\<not> endswith p '' (deleted)''" if "word_ok p" for p
  proof
    assume "endswith p '' (deleted)''"
    then have "CHR '' '' \<in> set p" by (auto simp: endswith_iff)
    with that show False by (auto simp: word_ok_def list_all_iff ws_def)
  qed
  then show ?thesis using assms smaps_header_words [OF assms]
    by (auto simp: maps_item_def Let_def r smaps_ok_def)
qed

lemma maps_blocks_value:
  assumes "k \<in> set maps_keys"
  shows "maps_blocks (smaps_value (k, n) # ls) block data acc
     = maps_blocks ls block (AList.update k (int n * 1024) data) acc"
proof -
  have k: "word_ok k" "endswith k '':''"
    using assms by (auto simp: maps_keys_def word_ok_def ws_def endswith_char)
  have "split_ws_max 5 (smaps_value (k, n)) = k # nat_str n # split_ws_max 3 ''kB''"
    using split_max_word [OF k(1), of 4 "nat_str n @ '' kB''"] split_max_word [of "nat_str n" 3 "''kB''"]
    by (simp add: smaps_value_def numeral_eq_Suc)
  then show ?thesis using k by (simp add: py_int_nat_str)
qed

lemma maps_blocks_values:
  assumes "set (map fst kns) \<subseteq> set maps_keys"
  shows "maps_blocks (map smaps_value kns @ ls) block data acc
     = maps_blocks ls block (fold (\<lambda>kn. AList.update (fst kn) (int (snd kn) * 1024)) kns data) acc"
  using assms
proof (induction kns arbitrary: data)
  case (Cons kn kns)
  then show ?case by (cases kn) (simp add: maps_blocks_value del: maps_blocks.simps)
qed simp

lemma fold_update_get:
  assumes "distinct (map fst kns)" "(k, n) \<in> set kns"
  shows "dict_get (fold (\<lambda>kn. AList.update (fst kn) (int (snd kn) * 1024)) kns data) k x = int n * 1024"
proof -
  have keep: "dict_get (fold (\<lambda>kn. AList.update (fst kn) (int (snd kn) * 1024)) ms d) k x = dict_get d k x"
    if "k \<notin> set (map fst ms)" for ms d
    using that by (induction ms arbitrary: d) auto
  show ?thesis using assms
  proof (induction kns arbitrary: data)
    case (Cons kn kns)
    show ?case
    proof (cases "kn = (k, n)")
      case True
      then have "k \<notin> set (map fst kns)" using Cons.prems(1) by auto
      from keep [OF this] True show ?thesis by simp
    next
      case False
      then show ?thesis using Cons by simp
    qed
  qed simp
qed

lemma smaps_nums:
  assumes "smaps_ok b"
  shows "map (\<lambda>k. dict_get (fold (\<lambda>kn. AList.update (fst kn) (int (snd kn) * 1024)) (zip maps_keys (sb_nums b)) data) k 0) maps_keys
     = map (\<lambda>n. int n * 1024) (sb_nums b)"
proof (rule nth_equalityI)
  have len: "length (sb_nums b) = length maps_keys" using assms by (simp add: smaps_ok_def maps_keys_def)
  then show "length (map (\<lambda>k. dict_get (fold (\<lambda>kn. AList.update (fst kn) (int (snd kn) * 1024)) (zip maps_keys (sb_nums b)) data) k 0) maps_keys)
     = length (map (\<lambda>n. int n * 1024) (sb_nums b))" by simp
  fix i assume "i < length (map (\<lambda>k. dict_get (fold (\<lambda>kn. AList.update (fst kn) (int (snd kn) * 1024)) (zip maps_keys (sb_nums b)) data) k 0) maps_keys)"
  then have i: "i < length maps_keys" by simp
  have "distinct (map fst (zip maps_keys (sb_nums b)))" using len by (simp add: maps_keys_def)
  moreover have "(maps_keys ! i, sb_nums b ! i) \<in> set (zip maps_keys (sb_nums b))"
    using i len by (metis in_set_zip fst_conv snd_conv)
  ultimately show "map (\<lambda>k. dict_get (fold (\<lambda>kn. AList.update (fst kn) (int (snd kn) * 1024)) (zip maps_keys (sb_nums b)) data) k 0) maps_keys ! i
      = map (\<lambda>n. int n * 1024) (sb_nums b) ! i"
    using i len by (simp add: fold_update_get)
qed

lemma maps_blocks_run:
  assumes "smaps_ok b" "\<forall>c \<in> set bs. smaps_ok c"
  shows "maps_blocks (smaps_values b @ concat (map (\<lambda>c. smaps_header c # smaps_values c) bs)) (smaps_header b) data acc s
     = (Inr (acc @ map smaps_entry (b # bs)), s)"
  using assms
proof (induction bs arbitrary: b data acc)
  case Nil
  have "set (map fst (zip maps_keys (sb_nums b))) \<subseteq> set maps_keys" by (auto dest: set_zip_leftD)
  note run = maps_blocks_values [OF this, of "[]" "smaps_header b" data acc, simplified]
  show ?case using Nil by (simp add: smaps_values_def run maps_item_header smaps_nums smaps_entry_def)
next
  case (Cons c cs)
  let ?d = "fold (\<lambda>kn. AList.update (fst kn) (int (snd kn) * 1024)) (zip maps_keys (sb_nums b)) data"
  let ?ls = "smaps_values c @ concat (map (\<lambda>c. smaps_header c # smaps_values c) cs)"
  have sub: "set (map fst (zip maps_keys (sb_nums b))) \<subseteq> set maps_keys" by (auto dest: set_zip_leftD)
  have c: "smaps_ok c" using Cons.prems by simp
  have "maps_blocks (smaps_header c # ?ls) (smaps_header b) ?d acc s
      = maps_blocks ?ls (smaps_header c) ?d (acc @ [smaps_entry b]) s"
    using c by (simp add: smaps_header_words [OF c] maps_item_header [OF Cons.prems(1)]
        smaps_nums [OF Cons.prems(1)] smaps_ok_def smaps_entry_def)
  also have "\<dots> = (Inr ((acc @ [smaps_entry b]) @ map smaps_entry (c # cs)), s)"
    by (rule Cons.IH) (use Cons.prems in auto)
  finally have "maps_blocks (smaps_header c # ?ls) (smaps_header b) ?d acc s
      = (Inr ((acc @ [smaps_entry b]) @ map smaps_entry (c # cs)), s)" .
  moreover have "maps_blocks (smaps_values b @ smaps_header c # ?ls) (smaps_header b) data acc s
      = maps_blocks (smaps_header c # ?ls) (smaps_header b) ?d acc s"
    unfolding smaps_values_def [of b] by (simp only: maps_blocks_values [OF sub])
  ultimately show ?case by (simp del: maps_blocks.simps)
qed

text \<open>
  \<open>memory_maps\<close> returns one entry for each block of \<open>smaps\<close>, in order, with the address,
  the permissions, the path (\<open>[anon]\<close> when there is none) and the ten values of that block in
  bytes, when every block prints all ten.
\<close>

theorem memory_maps_blocks:
  assumes "\<forall>b \<in> set (b0 # bs). smaps_ok b"
    and "look_smaps s = Some (join [nl] (concat (map (\<lambda>b. smaps_header b # smaps_values b) (b0 # bs))))"
  shows "fst (proc_memory_maps s) = Inr (map smaps_entry (b0 # bs))"
proof -
  let ?ls = "concat (map (\<lambda>b. smaps_header b # smaps_values b) (b0 # bs))"
  have hc: "has_cache s" using assms(2) by (auto simp: look_smaps_def has_cache_def split: Option.bind_splits)
  have nonl: "\<forall>l \<in> set ?ls. nl \<notin> set l"
  proof
    fix l assume "l \<in> set ?ls"
    then obtain b where b: "b \<in> set (b0 # bs)" "l = smaps_header b \<or> l \<in> set (smaps_values b)" by auto
    have ok: "smaps_ok b" using assms(1) b(1) by blast
    have "nl \<notin> set (smaps_header b)"
    proof -
      have "\<forall>f \<in> set ([sb_addr b, sb_perms b] @ sb_rest b @ [sb_path b]). nl \<notin> set f"
        using ok word_ok_no_nl by (auto simp: smaps_ok_def list_all_iff)
      then show ?thesis using set_join [of "'' ''" "[sb_addr b, sb_perms b] @ sb_rest b @ [sb_path b]"]
        by (auto simp: smaps_header_def)
    qed
    moreover have "nl \<notin> set v" if v: "v \<in> set (smaps_values b)" for v
    proof -
      obtain k n where kn: "k \<in> set maps_keys" "v = smaps_value (k, n)"
        using v by (auto simp: smaps_values_def dest: set_zip_leftD)
      have "nl \<notin> set (nat_str n)" by (auto simp: is_digit_def dest: set_nat_str)
      with kn show ?thesis by (auto simp: smaps_value_def maps_keys_def)
    qed
    ultimately show "nl \<notin> set l" using b(2) by blast
  qed
  have sp: "split_on nl (join [nl] ?ls) = ?ls" using nonl by (intro split_on_join) simp_all
  have ne: "join [nl] ?ls \<noteq> []"
  proof
    assume "join [nl] ?ls = []"
    then have "split_on nl [] = ?ls" using sp by simp
    then have "smaps_header b0 = []" by simp
    then show False using smaps_header_words [of b0] assms(1) by simp
  qed
  have "read_smaps_file s = (Inr (join [nl] ?ls), s)"
    unfolding read_smaps_file_def
    by (intro wrap_exceptions_ok smaps_slot.memo_hit hc assms(2))
  moreover have "maps_blocks (tl ?ls) (smaps_header b0) [] [] s = (Inr (map smaps_entry (b0 # bs)), s)"
    using maps_blocks_run [of b0 bs "[]" "[]"] assms(1) by simp
  ultimately show ?thesis using ne sp
    by (simp add: proc_memory_maps_def wrap_exceptions_def)
qed

definition sample_block :: smaps_block where
  "sample_block = \<lparr>sb_addr = ''00400000-0040b000'', sb_perms = ''r-xp'', sb_rest = [''0'', ''08:01'', ''5''],
     sb_path = ''/bin/cat'', sb_nums = [1, 2, 3, 4, 5, 6, 7, 8, 9, 10]\<rparr>"

lemma sample_block_ok: "smaps_ok sample_block" "smaps_ok (sample_block\<lparr>sb_path := []\<rparr>)"
  by (simp_all add: smaps_ok_def sample_block_def word_ok_def ws_def endswith_char)

theorem memory_maps_blocks_witness:
  "let bs = [sample_block, sample_block\<lparr>sb_path := []\<rparr>];
       text = join [nl] (concat (map (\<lambda>b. smaps_header b # smaps_values b) bs));
       s = (null_lsys 7)\<lparr>lp := (null_lproc 7)\<lparr>l_cache := Some (empty_cache\<lparr>lc_smaps := Some text\<rparr>)\<rparr>\<rparr>
   in fst (proc_memory_maps s) = Inr (map smaps_entry bs)"
  unfolding Let_def by (rule memory_maps_blocks) (simp_all add: sample_block_ok look_smaps_def)

section \<open>Threads\<close>

lemma join_last: "xs \<noteq> [] \<Longrightarrow> \<exists>pre. join sep xs = pre @ last xs"
proof (induction sep xs rule: join.induct)
  case (2 sep x)
  then show ?case by (intro exI [of _ "[]"]) simp
next
  case (3 sep x y zs)
  then obtain pre where "join sep (y # zs) = pre @ last (y # zs)" by auto
  then show ?case by (intro exI [of _ "x @ sep @ pre"]) simp
qed simp

text \<open>
  \<open>threads\<close> takes a thread's times from the fields after the first closing parenthesis
  of its \<open>stat\<close> line, so it reads the right fields exactly when the thread's name contains
  no closing parenthesis; \<open>_parse_stat_file\<close> uses the last one and has no such limit.
\<close>

theorem thread_values_first_paren:
  assumes "stat_fields_ok flds" and "flds \<noteq> []"
  shows "thread_values (stat_text tid comm flds) = flds \<longleftrightarrow> CHR '')'' \<notin> set comm"
proof -
  let ?pre = "int_str tid @ '' (''" and ?J = "join '' '' flds"
  have words: "\<forall>f \<in> set flds. word_ok f" using assms(1) by (simp add: stat_fields_ok_def)
  obtain p where p: "?J = p @ last flds" using join_last [OF assms(2)] by blast
  have "word_ok (last flds)" using words assms(2) by simp
  from rstrip_word [OF this, of "?pre @ comm @ '') '' @ p"]
  have "rstrip (?pre @ comm @ '') '' @ ?J) = ?pre @ comm @ '') '' @ ?J" by (simp add: p)
  moreover have "rstrip ((?pre @ comm @ '') '' @ ?J) @ [nl]) = rstrip (?pre @ comm @ '') '' @ ?J)"
    by (rule rstrip_blanks) (simp add: ws_def)
  moreover have "lstrip (stat_text tid comm flds) = stat_text tid comm flds"
    unfolding stat_text_def by (rule lstrip_word) simp
  ultimately have st: "strip (stat_text tid comm flds) = ?pre @ comm @ '') '' @ ?J"
    by (simp add: strip_def stat_text_def)
  have pre: "CHR '')'' \<notin> set ?pre" by (auto simp: is_digit_def dest: set_int_str)
  show ?thesis
  proof (cases "CHR '')'' \<in> set comm")
    case False
    have "CHR '')'' \<notin> set (?pre @ comm)" using pre False by simp
    from find_char_first [OF this, of "CHR '' '' # ?J"]
    have "find_char (CHR '')'') (?pre @ comm @ '') '' @ ?J) + 2 = int (length (?pre @ comm @ '') ''))" by simp
    from slice_from_len [OF this, of ?J]
    have "thread_values (stat_text tid comm flds) = split_on (CHR '' '') ?J"
      by (simp add: thread_values_def st)
    also have "\<dots> = flds"
      using assms(2) words by (intro split_on_join) (auto simp: word_ok_def list_all_iff ws_def)
    finally show ?thesis using False by simp
  next
    case True
    then obtain a b where ab: "comm = a @ CHR '')'' # b" "CHR '')'' \<notin> set a" by (meson split_list_first)
    let ?t = "drop 1 (b @ '') '' @ ?J)"
    have "CHR '')'' \<notin> set (?pre @ a)" using pre ab(2) by simp
    from find_char_first [OF this, of "b @ '') '' @ ?J"]
    have f: "find_char (CHR '')'') (?pre @ comm @ '') '' @ ?J) + 2 = int (length (?pre @ a @ [CHR '')'', x]))" for x
      by (simp add: ab(1))
    have "\<exists>c. b @ '') '' @ ?J = c # ?t" by (cases b) auto
    then obtain c where c: "b @ '') '' @ ?J = c # ?t" by blast
    then have "?pre @ comm @ '') '' @ ?J = (?pre @ a @ [CHR '')'', c]) @ ?t" by (simp add: ab(1))
    then have tv: "thread_values (stat_text tid comm flds) = split_on (CHR '' '') ?t"
      using slice_from_len [OF f, of c ?t] by (simp only: thread_values_def st Let_def)
    have "split_on (CHR '' '') ?t \<noteq> flds"
    proof
      assume sp: "split_on (CHR '' '') ?t = flds"
      show False
      proof (cases b)
        case Nil
        then have "[] # split_on (CHR '' '') ?J = flds" using sp by simp
        then have "[] \<in> set flds" by (metis list.set_intros(1))
        then show False using words by (auto simp: word_ok_def)
      next
        case (Cons x y)
        then have "CHR '')'' \<in> set ?t" by simp
        moreover have "?t = join '' '' flds" using join_split_on [of "CHR '' ''" ?t] sp by simp
        ultimately have "CHR '')'' \<in> set (join '' '' flds)" by metis
        then show False using set_join [of "'' ''" flds] assms(1)
          by (auto simp: stat_fields_ok_def)
      qed
    qed
    then show ?thesis using True tv by simp
  qed
qed

theorem thread_values_first_paren_witness:
  "thread_values (stat_text 7 ''a b'' sample_fields) = sample_fields
     \<and> thread_values (stat_text 7 ''a) b'' sample_fields) \<noteq> sample_fields"
proof -
  have "sample_fields \<noteq> []" by (simp add: sample_fields_def)
  note tv = thread_values_first_paren [OF sample_fields_ok(1) this]
  show ?thesis by (simp add: tv)
qed

section \<open>User and group ids\<close>

lemma rfindall_hit:
  "rmatch as None (c # t) = Some (cs, r) \<Longrightarrow>
     rfindall as (c # t) = cs # rfindall as (if length r < length (c # t) then r else t)"
  by (subst rfindall.simps) simp

lemma rfindall_lit_skip:
  assumes "\<And>i. i < length pre \<Longrightarrow> \<not> startswith (drop i pre @ s) l"
  shows "rfindall (rlit l @ as) (pre @ s) = rfindall (rlit l @ as) s"
  using assms
proof (induction pre)
  case (Cons c pre)
  have "\<not> startswith ((c # pre) @ s) l" using Cons.prems [of 0] by simp
  then have "rfindall (rlit l @ as) ((c # pre) @ s) = rfindall (rlit l @ as) (pre @ s)"
    by (subst rfindall.simps) (simp add: rmatch_lit)
  also have "\<dots> = rfindall (rlit l @ as) s"
    using Cons.prems by (intro Cons.IH) (metis Suc_less_eq drop_Suc_Cons length_Cons)
  finally show ?case .
qed simp

definition ids_text :: "string \<Rightarrow> nat \<Rightarrow> nat \<Rightarrow> nat \<Rightarrow> string" where
  "ids_text key r e v = key @ tab # nat_str r @ tab # nat_str e @ tab # nat_str v"

lemma ids_of_first:
  assumes pre: "\<And>i. i < length pre \<Longrightarrow> \<not> startswith (drop i pre @ ids_text key r e v @ post) (key @ [tab])"
    and post: "post = [] \<or> \<not> is_digit (hd post)" and key: "key \<noteq> []"
  shows "ids_of key (pre @ ids_text key r e v @ post)
     = Inr \<lparr>ids_real = int r, ids_effective = int e, ids_saved = int v\<rparr>"
proof -
  have ntab: "\<not> is_digit tab" by (simp add: tab_def is_digit_def)
  have d: "list_all is_digit (nat_str n)" "nat_str n \<noteq> []" for n using nat_str_digits by auto
  have lit1: "rmatch (rlit [tab] @ as) None (tab # s) = rmatch as None s" for as s
    using rmatch_lit [of "[tab]" as "tab # s"] by simp
  have m3: "rmatch (rgroup (rplus is_digit)) None (nat_str v @ post) = Some ([nat_str v], post)"
    using rmatch_group_run [of is_digit "nat_str v" post "[]" "[]" post] d post by simp
  have m2: "rmatch (rgroup (rplus is_digit) @ rlit [tab] @ rgroup (rplus is_digit)) None
      (nat_str e @ tab # nat_str v @ post) = Some ([nat_str e, nat_str v], post)"
    by (rule rmatch_group_run) (simp_all add: d ntab lit1 m3)
  have m1: "rmatch (rgroup (rplus is_digit) @ rlit [tab] @ rgroup (rplus is_digit) @ rlit [tab] @ rgroup (rplus is_digit)) None
      (nat_str r @ tab # nat_str e @ tab # nat_str v @ post) = Some ([nat_str r, nat_str e, nat_str v], post)"
    by (rule rmatch_group_run) (simp_all add: d ntab lit1 m2)
  have "rmatch (ids_re key) None ((key @ [tab]) @ nat_str r @ tab # nat_str e @ tab # nat_str v @ post)
      = Some ([nat_str r, nat_str e, nat_str v], post)"
    unfolding ids_re_def rmatch_lit
    using m1 startswith_append [of "key @ [tab]" "nat_str r @ tab # nat_str e @ tab # nat_str v @ post"] by simp
  then have "rmatch (ids_re key) None (ids_text key r e v @ post) = Some ([nat_str r, nat_str e, nat_str v], post)"
    by (simp add: ids_text_def)
  moreover obtain c t where ct: "ids_text key r e v @ post = c # t"
    using key by (cases key) (auto simp: ids_text_def)
  ultimately have "\<exists>more. rfindall (ids_re key) (ids_text key r e v @ post) = [nat_str r, nat_str e, nat_str v] # more"
    using rfindall_hit by (metis ct)
  moreover have "rfindall (ids_re key) (pre @ ids_text key r e v @ post) = rfindall (ids_re key) (ids_text key r e v @ post)"
    unfolding ids_re_def by (rule rfindall_lit_skip) (rule pre)
  ultimately show ?thesis by (auto simp: ids_of_def py_int_nat_str)
qed

text \<open>
  The pattern is not anchored to the start of a line, and the kernel prints the name of the
  process, which the process chooses, before its ids: a process that calls itself
  \<open>Uid:<tab>0<tab>0<tab>0\<close> is reported to run as root whatever its ids are.
\<close>

lemma uids_spoofed_by_name:
  "ids_of ''Uid:'' (''Name:'' @ tab # ids_text ''Uid:'' 0 0 0 @ nl # rest)
     = Inr \<lparr>ids_real = 0, ids_effective = 0, ids_saved = 0\<rparr>"
proof -
  have "\<not> startswith (drop i (''Name:'' @ [tab]) @ ids_text ''Uid:'' 0 0 0 @ nl # rest) (''Uid:'' @ [tab])"
    if "i < length (''Name:'' @ [tab])" for i
    using that by (auto simp: tab_def less_Suc_eq ids_text_def)
  from ids_of_first [OF this] show ?thesis by (simp add: is_digit_def)
qed

text \<open>
  \<open>uids\<close> and \<open>gids\<close> return the real, effective and saved id of the first place in the
  status file where the key and three numbers separated by tabs stand.
\<close>

theorem ids_of_first_match:
  assumes "\<forall>i < length pre. \<not> startswith (drop i pre @ ids_text key r e v @ post) (key @ [tab])"
    and "post = [] \<or> \<not> is_digit (hd post)" and "key \<noteq> []"
    and "look_status s = Some (pre @ ids_text key r e v @ post)"
  shows "(key = ''Uid:'' \<longrightarrow> fst (proc_uids s) = Inr \<lparr>ids_real = int r, ids_effective = int e, ids_saved = int v\<rparr>)
    \<and> (key = ''Gid:'' \<longrightarrow> fst (proc_gids s) = Inr \<lparr>ids_real = int r, ids_effective = int e, ids_saved = int v\<rparr>)"
proof -
  have hc: "has_cache s" using assms(4) by (auto simp: look_status_def has_cache_def split: Option.bind_splits)
  have "read_status_file s = (Inr (pre @ ids_text key r e v @ post), s)"
    unfolding read_status_file_def by (intro wrap_exceptions_ok status_slot.memo_hit hc assms(4))
  moreover have "ids_of key (pre @ ids_text key r e v @ post)
     = Inr \<lparr>ids_real = int r, ids_effective = int e, ids_saved = int v\<rparr>"
    using assms(1-3) by (intro ids_of_first) auto
  ultimately show ?thesis by (auto simp: proc_uids_def proc_gids_def wrap_exceptions_def)
qed

theorem ids_of_first_match_witness:
  "fst (proc_uids ((null_lsys 7)\<lparr>lp := (null_lproc 7)\<lparr>l_cache := Some (empty_cache\<lparr>lc_status :=
      Some (''Name:'' @ tab # ids_text ''Uid:'' 1000 1000 0 @ [nl])\<rparr>)\<rparr>\<rparr>))
    = Inr \<lparr>ids_real = 1000, ids_effective = 1000, ids_saved = 0\<rparr>"
proof -
  let ?s = "(null_lsys 7)\<lparr>lp := (null_lproc 7)\<lparr>l_cache := Some (empty_cache\<lparr>lc_status :=
      Some (''Name:'' @ tab # ids_text ''Uid:'' 1000 1000 0 @ [nl])\<rparr>)\<rparr>\<rparr>"
  have 1: "\<forall>i < length (''Name:'' @ [tab]). \<not> startswith (drop i (''Name:'' @ [tab]) @ ids_text ''Uid:'' 1000 1000 0 @ [nl]) (''Uid:'' @ [tab])"
    by (auto simp: tab_def less_Suc_eq ids_text_def)
  show ?thesis using ids_of_first_match [OF 1, of ?s] by (simp add: is_digit_def look_status_def)
qed

section \<open>Errors of the methods\<close>


end
