(* ===== verification/Init_State.thy ===== *)
theory Init_State
  imports Linux_Process_Ops Linux_Memory Linux_Disk Linux_Sensors Wrap_Numbers
begin

text \<open>
  The state behind \<open>psutil/__init__.py\<close>: the \<open>Process\<close> objects and the module's globals.

  Objects are mutable and shared (the table of \<open>process_iter\<close> hands out the same object
  again and again), so they live in a store \<open>objs\<close> and are known by their address.  An
  object's \<open>_proc\<close>, the object of the platform module, is the field \<open>p_impl\<close>; \<open>impl r m\<close>
  calls a method of the platform module on it.
\<close>

section \<open>Values\<close>

text \<open>
  What a getter returns, as far as the prefetch dict of an object is concerned: its own
  value, or any value the caller of \<open>process_iter\<close> chose as \<open>ad_value\<close>.
\<close>

datatype pval =
    PvNone | PvInt int | PvFloat flt | PvStr string | PvStrs "string list" | PvInts "int list"
  | PvEnv "(string, string) dict" | PvStatus "ProcessStatus option" | PvIds pids3
  | PvCpuTimes pcputimes | PvMem pmem | PvMemEx pmem_ex | PvFoot pfootprint | PvFull pfullmem
  | PvMaps "pmmap_grouped list" | PvFaults ppagefaults | PvFiles "popenfile list"
  | PvConns "sconn list" | PvIo pio | PvIonice pionice | PvCtxsw pctxsw | PvThreads "pthread list"

text \<open>\<open>bool(v)\<close>, \<open>v[0]\<close> and \<open>v.real\<close>, for the values on which the code uses them.\<close>

fun pv_true :: "pval \<Rightarrow> bool" where
  "pv_true PvNone = False"
| "pv_true (PvInt n) = (n \<noteq> 0)"
| "pv_true (PvFloat x) = (x \<noteq> 0)"
| "pv_true (PvStr s) = (s \<noteq> [])"
| "pv_true (PvStrs l) = (l \<noteq> [])"
| "pv_true (PvInts l) = (l \<noteq> [])"
| "pv_true (PvEnv l) = (l \<noteq> [])"
| "pv_true (PvMaps l) = (l \<noteq> [])"
| "pv_true (PvFiles l) = (l \<noteq> [])"
| "pv_true (PvConns l) = (l \<noteq> [])"
| "pv_true (PvThreads l) = (l \<noteq> [])"
| "pv_true _ = True"

text \<open>The first item, when it has to be a string: anything else fails in \<open>os.path\<close>.\<close>

fun pv_item0 :: "pval \<Rightarrow> exn + string" where
  "pv_item0 (PvStrs (w # _)) = Inr w"
| "pv_item0 (PvStr (c # _)) = Inr [c]"
| "pv_item0 (PvEnv _) = Inl KeyError"
| "pv_item0 _ = Inl TypeError"

fun pv_real :: "pval \<Rightarrow> exn + int" where
  "pv_real (PvIds i) = Inr (ids_real i)"
| "pv_real (PvInt n) = Inr n"
| "pv_real _ = Inl AttributeError"

definition pv_opt :: "('a \<Rightarrow> pval) \<Rightarrow> 'a option \<Rightarrow> pval" where
  "pv_opt f x = (case x of None \<Rightarrow> PvNone | Some y \<Rightarrow> f y)"

section \<open>Objects\<close>

text \<open>The results the psutil layer memoizes inside \<open>oneshot()\<close>.\<close>

record pcache =
  pc_ppid :: "int option"
  pc_uids :: "pids3 option"
  pc_cpu_times :: "pcputimes option"
  pc_memory_info :: "pmem option"
  pc_memory_info_ex :: "pval option"

text \<open>
  \<open>p_exitcode\<close> and \<open>p_ad_value\<close> are \<open>None\<close> for the sentinel; \<open>p_cache\<close> is \<open>None\<close> when the
  object has no \<open>_cache\<close> attribute.
\<close>

type_synonym ident = "int \<times> flt option"

record proc =
  p_pid :: int
  p_name :: "string option"
  p_exe :: "string option"
  p_create_time :: "flt option"
  p_gone :: bool
  p_pid_reused :: bool
  p_ppid :: "int option"
  p_impl :: lproc
  p_last_sys_cpu_times :: "flt option"
  p_last_proc_cpu_times :: "pcputimes option"
  p_exitcode :: "int option option"
  p_prefetch :: "(string, pval) dict"
  p_ad_value :: "pval option"
  p_ident :: ident
  p_cache :: "pcache option"

section \<open>Globals\<close>

text \<open>
  \<open>g_tid\<close> is the identifier of the running thread, the key of the four dicts of CPU times.
\<close>

record ustate = lsys +
  objs :: "nat \<Rightarrow> proc"
  g_next :: nat
  g_pmap :: "(int, nat) dict"
  g_pids_reused :: "int list"
  g_lowest_pid :: "int option"
  g_total_phymem :: "int option"
  g_tid :: int
  g_last_cpu_times :: "(int, scputimes) dict"
  g_last_per_cpu_times :: "(int, scputimes list) dict"
  g_last_cpu_times_2 :: "(int, scputimes) dict"
  g_last_per_cpu_times_2 :: "(int, scputimes list) dict"
  g_wn :: "string wn_state"

definition obj :: "nat \<Rightarrow> (proc \<Rightarrow> 'a) \<Rightarrow> ('z ustate_scheme, 'a) py" where
  "obj r f = gets (\<lambda>s. f (objs s r))"

definition upd :: "nat \<Rightarrow> (proc \<Rightarrow> proc) \<Rightarrow> 'z ustate_scheme \<Rightarrow> 'z ustate_scheme" where
  "upd r f s = s\<lparr>objs := (objs s)(r := f (objs s r))\<rparr>"

definition set_obj :: "nat \<Rightarrow> (proc \<Rightarrow> proc) \<Rightarrow> ('z ustate_scheme, unit) py" where
  "set_obj r f = modify (upd r f)"

definition impl :: "nat \<Rightarrow> ('z ustate_scheme, 'a) py \<Rightarrow> ('z ustate_scheme, 'a) py" where
  "impl r m = (\<lambda>s. case m (s\<lparr>lp := p_impl (objs s r)\<rparr>) of
     (x, t) \<Rightarrow> (x, upd r (\<lambda>p. p\<lparr>p_impl := lp t\<rparr>) t))"

definition alloc :: "('z ustate_scheme, nat) py" where
  "alloc = bnd (gets g_next) (\<lambda>r. bnd (modify (\<lambda>s. s\<lparr>g_next := Suc r\<rparr>)) (\<lambda>_. ret r))"

lemma obj_run [simp]: "obj r f s = (Inr (f (objs s r)), s)"
  by (simp add: obj_def)

lemma set_obj_run [simp]: "set_obj r f s = (Inr (), upd r f s)"
  by (simp add: set_obj_def)

lemma upd_simps [simp]:
  "sys_os (upd r f s) = sys_os s" "hist (upd r f s) = hist s" "procfs_path (upd r f s) = procfs_path s"
  "tty_cache (upd r f s) = tty_cache s" "lp (upd r f s) = lp s"
  "objs (upd r f s) = (objs s)(r := f (objs s r))" "g_next (upd r f s) = g_next s"
  "g_pmap (upd r f s) = g_pmap s" "g_pids_reused (upd r f s) = g_pids_reused s"
  "g_lowest_pid (upd r f s) = g_lowest_pid s" "g_total_phymem (upd r f s) = g_total_phymem s"
  "g_tid (upd r f s) = g_tid s" "g_wn (upd r f s) = g_wn s"
  "g_last_cpu_times (upd r f s) = g_last_cpu_times s"
  "g_last_per_cpu_times (upd r f s) = g_last_per_cpu_times s"
  "g_last_cpu_times_2 (upd r f s) = g_last_cpu_times_2 s"
  "g_last_per_cpu_times_2 (upd r f s) = g_last_per_cpu_times_2 s"
  by (simp_all add: upd_def)

lemma alloc_run [simp]: "alloc s = (Inr (g_next s), s\<lparr>g_next := Suc (g_next s)\<rparr>)"
  by (simp add: alloc_def)

lemma impl_run: "m (s\<lparr>lp := p_impl (objs s r)\<rparr>) = (x, t) \<Longrightarrow> impl r m s = (x, upd r (\<lambda>p. p\<lparr>p_impl := lp t\<rparr>) t)"
  by (simp add: impl_def)

section \<open>Memoized results of the psutil layer\<close>

definition has_pcache :: "nat \<Rightarrow> 'z ustate_scheme \<Rightarrow> bool" where
  "has_pcache r s \<longleftrightarrow> p_cache (objs s r) \<noteq> None"

definition upd_pcache :: "nat \<Rightarrow> (pcache \<Rightarrow> pcache) \<Rightarrow> 'z ustate_scheme \<Rightarrow> 'z ustate_scheme" where
  "upd_pcache r f = upd r (\<lambda>p. p\<lparr>p_cache := map_option f (p_cache p)\<rparr>)"

definition look_pcache :: "nat \<Rightarrow> (pcache \<Rightarrow> 'a option) \<Rightarrow> 'z ustate_scheme \<Rightarrow> 'a option" where
  "look_pcache r f s = Option.bind (p_cache (objs s r)) f"

definition empty_pcache :: pcache where
  "empty_pcache = \<lparr>pc_ppid = None, pc_uids = None, pc_cpu_times = None, pc_memory_info = None,
     pc_memory_info_ex = None\<rparr>"

definition pcache_on :: "nat \<Rightarrow> 'z ustate_scheme \<Rightarrow> 'z ustate_scheme" where
  "pcache_on r = upd r (\<lambda>p. p\<lparr>p_cache := Some empty_pcache\<rparr>)"
definition pcache_off :: "nat \<Rightarrow> 'z ustate_scheme \<Rightarrow> 'z ustate_scheme" where
  "pcache_off r = upd r (\<lambda>p. p\<lparr>p_cache := None\<rparr>)"

definition memo_ppid :: "nat \<Rightarrow> ('z ustate_scheme, int) py \<Rightarrow> ('z ustate_scheme, int) py" where
  "memo_ppid r = memoize (has_pcache r) (look_pcache r pc_ppid)
     (\<lambda>v. upd_pcache r (\<lambda>c. c\<lparr>pc_ppid := Some v\<rparr>))"
definition memo_uids :: "nat \<Rightarrow> ('z ustate_scheme, pids3) py \<Rightarrow> ('z ustate_scheme, pids3) py" where
  "memo_uids r = memoize (has_pcache r) (look_pcache r pc_uids)
     (\<lambda>v. upd_pcache r (\<lambda>c. c\<lparr>pc_uids := Some v\<rparr>))"
definition memo_cpu_times :: "nat \<Rightarrow> ('z ustate_scheme, pcputimes) py \<Rightarrow> ('z ustate_scheme, pcputimes) py" where
  "memo_cpu_times r = memoize (has_pcache r) (look_pcache r pc_cpu_times)
     (\<lambda>v. upd_pcache r (\<lambda>c. c\<lparr>pc_cpu_times := Some v\<rparr>))"
definition memo_memory_info :: "nat \<Rightarrow> ('z ustate_scheme, pmem) py \<Rightarrow> ('z ustate_scheme, pmem) py" where
  "memo_memory_info r = memoize (has_pcache r) (look_pcache r pc_memory_info)
     (\<lambda>v. upd_pcache r (\<lambda>c. c\<lparr>pc_memory_info := Some v\<rparr>))"
definition memo_memory_info_ex :: "nat \<Rightarrow> ('z ustate_scheme, pval) py \<Rightarrow> ('z ustate_scheme, pval) py" where
  "memo_memory_info_ex r = memoize (has_pcache r) (look_pcache r pc_memory_info_ex)
     (\<lambda>v. upd_pcache r (\<lambda>c. c\<lparr>pc_memory_info_ex := Some v\<rparr>))"

lemmas pcache_defs = has_pcache_def upd_pcache_def look_pcache_def pcache_on_def pcache_off_def
  empty_pcache_def

interpretation ppid_memo: memo_slot "has_pcache r" "look_pcache r pc_ppid"
    "\<lambda>v. upd_pcache r (\<lambda>c. c\<lparr>pc_ppid := Some v\<rparr>)" "pcache_on r" "pcache_off r" for r
  by unfold_locales (auto simp: pcache_defs)

interpretation uids_memo: memo_slot "has_pcache r" "look_pcache r pc_uids"
    "\<lambda>v. upd_pcache r (\<lambda>c. c\<lparr>pc_uids := Some v\<rparr>)" "pcache_on r" "pcache_off r" for r
  by unfold_locales (auto simp: pcache_defs)

interpretation cpu_times_memo: memo_slot "has_pcache r" "look_pcache r pc_cpu_times"
    "\<lambda>v. upd_pcache r (\<lambda>c. c\<lparr>pc_cpu_times := Some v\<rparr>)" "pcache_on r" "pcache_off r" for r
  by unfold_locales (auto simp: pcache_defs)

interpretation memory_info_memo: memo_slot "has_pcache r" "look_pcache r pc_memory_info"
    "\<lambda>v. upd_pcache r (\<lambda>c. c\<lparr>pc_memory_info := Some v\<rparr>)" "pcache_on r" "pcache_off r" for r
  by unfold_locales (auto simp: pcache_defs)

interpretation memory_info_ex_memo: memo_slot "has_pcache r" "look_pcache r pc_memory_info_ex"
    "\<lambda>v. upd_pcache r (\<lambda>c. c\<lparr>pc_memory_info_ex := Some v\<rparr>)" "pcache_on r" "pcache_off r" for r
  by unfold_locales (auto simp: pcache_defs)

text \<open>\<open>_use_prefetch\<close>, for a call without arguments.\<close>

definition use_prefetch ::
  "nat \<Rightarrow> string \<Rightarrow> ('a \<Rightarrow> pval) \<Rightarrow> ('z ustate_scheme, 'a) py \<Rightarrow> ('z ustate_scheme, pval) py" where
  "use_prefetch r meth_name conv m = bnd (obj r p_prefetch) (\<lambda>d. case map_of d meth_name of
       Some v \<Rightarrow> ret v
     | None \<Rightarrow> bnd m (\<lambda>x. ret (conv x)))"

lemma use_prefetch_hit:
  "map_of (p_prefetch (objs s r)) n = Some v \<Longrightarrow> use_prefetch r n conv m s = (Inr v, s)"
  by (simp add: use_prefetch_def)

text \<open>\<open>_is_ad_value\<close>: identity is equality of values in the model.\<close>

definition is_ad_value :: "nat \<Rightarrow> pval \<Rightarrow> ('z ustate_scheme, bool) py" where
  "is_ad_value r v = obj r (\<lambda>p. p_ad_value p = Some v)"

end
