(* ===== verification/Init_Process.thy ===== *)
theory Init_Process
  imports Init_State Posix_Wait
begin

text \<open>
  The class \<open>Process\<close> of \<open>psutil/__init__.py\<close>: construction, identity, the check against
  pid reuse, signals, and \<open>wait\<close>.
\<close>

section \<open>Construction and identity\<close>

definition check_pid_range :: "int \<Rightarrow> ('z sys_scheme, unit) py" where
  "check_pid_range pid = sys_try (SCheckPid pid) (\<lambda>os h. os_check_pid os h pid)"

text \<open>\<open>_get_ident\<close>, on Linux.\<close>

definition get_ident :: "nat \<Rightarrow> ('z ustate_scheme, ident) py" where
  "get_ident r = bnd (obj r p_pid) (\<lambda>pid. bnd (impl r (proc_create_time True)) (\<lambda>t. ret (pid, Some t)))"

definition blank_proc :: "int \<Rightarrow> lproc \<Rightarrow> proc" where
  "blank_proc pid i = \<lparr>p_pid = pid, p_name = None, p_exe = None, p_create_time = None, p_gone = False,
     p_pid_reused = False, p_ppid = None, p_impl = i, p_last_sys_cpu_times = None,
     p_last_proc_cpu_times = None, p_exitcode = None, p_prefetch = [], p_ad_value = None,
     p_ident = (pid, None), p_cache = None\<rparr>"

text \<open>The argument of \<open>_init\<close>: the pid of the caller, or a pid that can exist.\<close>

definition init_pid :: "int option \<Rightarrow> ('z sys_scheme, int) py" where
  "init_pid pid0 = (case pid0 of
       None \<Rightarrow> sys_ask SGetpid os_getpid
     | Some pid \<Rightarrow> if pid < 0 then raise ValueError
         else try_else (check_pid_range pid)
           (\<lambda>e. if e = OverflowError
                then raise (mk_NoSuchProcess pid None (Some ''process PID out of range''))
                else raise e)
           (\<lambda>_. ret pid))"

text \<open>The \<open>try\<close> statement that ends \<open>_init\<close>.\<close>

definition init_ident :: "nat \<Rightarrow> int \<Rightarrow> bool \<Rightarrow> ('z ustate_scheme, unit) py" where
  "init_ident r pid ignore_nsp = try_else (get_ident r)
     (\<lambda>e. if is_AccessDenied e then ret ()
          else if is_ZombieProcess e then ret ()
          else if is_NoSuchProcess e then
            (if \<not> ignore_nsp then raise (mk_NoSuchProcess pid None (Some ''process PID not found''))
             else set_obj r (\<lambda>p. p\<lparr>p_gone := True\<rparr>))
          else raise e)
     (\<lambda>i. set_obj r (\<lambda>p. p\<lparr>p_ident := i\<rparr>))"

definition proc_init :: "nat \<Rightarrow> int option \<Rightarrow> bool \<Rightarrow> ('z ustate_scheme, unit) py" where
  "proc_init r pid0 ignore_nsp = bnd (init_pid pid0) (\<lambda>pid. bnd (lproc_init pid) (\<lambda>i.
     bnd (set_obj r (\<lambda>_. blank_proc pid i)) (\<lambda>_. init_ident r pid ignore_nsp)))"

text \<open>\<open>Process(pid)\<close>.\<close>

definition new_process :: "int option \<Rightarrow> ('z ustate_scheme, nat) py" where
  "new_process pid0 = bnd alloc (\<lambda>r. bnd (proc_init r pid0 False) (\<lambda>_. ret r))"

datatype ident_cmp = Same | Different | Unknown

definition ctime_true :: "flt option \<Rightarrow> bool" where
  "ctime_true c \<longleftrightarrow> c \<noteq> None \<and> c \<noteq> Some 0"

definition cmp_idents :: "ident \<Rightarrow> ident \<Rightarrow> ident_cmp" where
  "cmp_idents ident1 ident2 = (case (ident1, ident2) of ((pid1, ctime1), (pid2, ctime2)) \<Rightarrow>
     if pid1 \<noteq> pid2 then Different
     else if \<not> ctime_true ctime1 \<or> \<not> ctime_true ctime2 then Unknown
     else if ctime1 = ctime2 then Same else Different)"

text \<open>\<open>__eq__\<close> and \<open>__hash__\<close> for two \<open>Process\<close> objects.\<close>

definition proc_eq :: "proc \<Rightarrow> proc \<Rightarrow> bool" where
  "proc_eq p q \<longleftrightarrow> cmp_idents (p_ident p) (p_ident q) \<noteq> Different"

definition proc_hash :: "proc \<Rightarrow> int" where
  "proc_hash p = fst (p_ident p)"

section \<open>Pid reuse\<close>

definition is_running :: "nat \<Rightarrow> ('z ustate_scheme, bool) py" where
  "is_running r = bnd (obj r (\<lambda>p. p_gone p \<or> p_pid_reused p)) (\<lambda>over.
     if over then ret False
     else try_except
       (bnd (obj r p_pid) (\<lambda>pid. bnd (new_process (Some pid)) (\<lambda>other.
        bnd (gets (\<lambda>s. \<not> proc_eq (objs s r) (objs s other))) (\<lambda>reused.
        bnd (set_obj r (\<lambda>p. p\<lparr>p_pid_reused := reused\<rparr>)) (\<lambda>_.
        if reused then bnd (modify (\<lambda>s. s\<lparr>g_pids_reused := List.insert pid (g_pids_reused s)\<rparr>)) (\<lambda>_.
          raise (mk_NoSuchProcess pid None None))
        else ret True)))))
       (\<lambda>e. if is_ZombieProcess e then ret True
            else if is_NoSuchProcess e then bnd (set_obj r (\<lambda>p. p\<lparr>p_gone := True\<rparr>)) (\<lambda>_. ret False)
            else raise e))"

definition raise_if_pid_reused :: "nat \<Rightarrow> ('z ustate_scheme, unit) py" where
  "raise_if_pid_reused r = bnd (obj r p_pid_reused) (\<lambda>b.
     bnd (if b then ret True
          else bnd (is_running r) (\<lambda>running. if running then ret False else obj r p_pid_reused)) (\<lambda>reused.
     if reused then bnd (obj r (\<lambda>p. p)) (\<lambda>p. raise (mk_NoSuchProcess (p_pid p) (p_name p)
         (Some ''process no longer exists and its PID has been reused'')))
     else ret ()))"

section \<open>Signals\<close>

definition SIGKILL :: int where "SIGKILL = 9"
definition SIGTERM :: int where "SIGTERM = 15"
definition SIGCONT :: int where "SIGCONT = 18"
definition SIGSTOP :: int where "SIGSTOP = 19"

definition send_signal :: "nat \<Rightarrow> int \<Rightarrow> ('z ustate_scheme, unit) py" where
  "send_signal r sig = bnd (obj r p_pid) (\<lambda>pid. bnd (assert_py (\<not> pid < 0)) (\<lambda>_.
     bnd (raise_if_pid_reused r) (\<lambda>_. bnd (obj r p_name) (\<lambda>nm.
     if pid = 0 then raise ValueError
     else try_except (kill_call pid sig)
       (\<lambda>e. if is_ProcessLookupError e then
              bnd (set_obj r (\<lambda>p. p\<lparr>p_gone := True\<rparr>)) (\<lambda>_. raise (mk_NoSuchProcess pid nm None))
            else if is_PermissionError e then raise (mk_AccessDenied (Some pid) nm None)
            else raise e)))))"

definition suspend :: "nat \<Rightarrow> ('z ustate_scheme, unit) py" where
  "suspend r = send_signal r SIGSTOP"
definition resume :: "nat \<Rightarrow> ('z ustate_scheme, unit) py" where
  "resume r = send_signal r SIGCONT"
definition terminate :: "nat \<Rightarrow> ('z ustate_scheme, unit) py" where
  "terminate r = send_signal r SIGTERM"
definition kill :: "nat \<Rightarrow> ('z ustate_scheme, unit) py" where
  "kill r = send_signal r SIGKILL"

section \<open>What a platform method leaves alone\<close>

text \<open>
  \<open>lframe\<close>: only read-only calls were made, and of the state only the platform object and
  the cache of terminals may have changed.
\<close>

definition lframe :: "'z lsys_scheme \<Rightarrow> 'z lsys_scheme \<Rightarrow> bool" where
  "lframe s t \<longleftrightarrow> sys_os t = sys_os s \<and> procfs_path t = procfs_path s \<and> lsys.more t = lsys.more s
     \<and> l_pid (lp t) = l_pid (lp s) \<and> (\<exists>d. hist t = d @ hist s \<and> list_all read_only d)"

lemma lframe_refl: "lframe s s"
  by (simp add: lframe_def)

lemma lframe_trans: "lframe s t \<Longrightarrow> lframe t u \<Longrightarrow> lframe s u"
  by (fastforce simp: lframe_def)

interpretation lfr: preserved lframe
  by unfold_locales (auto intro: lframe_refl lframe_trans)

lemma confined_lframe: "confined read_calls s t \<Longrightarrow> lframe s (t :: 'z lsys_scheme)"
  by (cases s; cases t) (auto simp: confined_def lframe_def list_all_iff)

lemma pres_confined_lframe: "pres (confined read_calls) m \<Longrightarrow> pres lframe (m :: ('z lsys_scheme, 'a) py)"
  using confined_lframe by (auto simp: pres_def)

lemma pres_is_zombie: "pres lframe is_zombie"
  by (rule presI) (auto simp: is_zombie_run lframe_def)

lemma pres_raise_if_zombie: "pres lframe raise_if_zombie"
  unfolding raise_if_zombie_def
  by (intro lfr.pres_bnd pres_is_zombie lfr.pres_if lfr.pres_raise lfr.pres_ret pres_confined_lframe [OF pres_self])

lemma pres_translate: "pres lframe (translate pid name e)"
  unfolding translate_def
  by (intro lfr.pres_bnd pres_raise_if_zombie lfr.pres_if lfr.pres_raise lfr.pres_ret
      pres_confined_lframe [OF pres_self] pres_confined_lframe [OF pres_path_exists])

lemma pres_wrap_exceptions: "pres lframe m \<Longrightarrow> pres lframe (wrap_exceptions m)"
  unfolding wrap_exceptions_def
  by (intro lfr.pres_bnd pres_confined_lframe [OF pres_self])
    (auto intro!: lfr.pres_try_except pres_translate split: prod.splits)

lemma pres_memo_stat: "pres lframe m \<Longrightarrow> pres lframe (memoize has_cache look_stat store_stat m)"
  unfolding memoize_def
  by (intro lfr.pres_bnd lfr.pres_gets)
    (auto intro!: lfr.pres_bnd lfr.pres_ret lfr.pres_modify split: option.splits
      simp: lframe_def store_stat_def upd_cache_def)

lemma pres_parse_stat_file: "pres lframe parse_stat_file"
  unfolding parse_stat_file_def bcat_def cat_def
  by (intro pres_wrap_exceptions pres_memo_stat lfr.pres_bnd lfr.pres_liftE
      pres_confined_lframe [OF pres_self] pres_confined_lframe [OF pres_sys_reads(1)])

lemma pres_create_time: "pres lframe (proc_create_time monot)"
  unfolding proc_create_time_def
  by (intro pres_wrap_exceptions lfr.pres_bnd pres_confined_lframe [OF pres_self])
    (auto intro!: lfr.pres_bnd lfr.pres_ret lfr.pres_raise lfr.pres_liftE lfr.pres_modify lfr.pres_if
      pres_parse_stat_file pres_confined_lframe [OF pres_self] pres_confined_lframe [OF pres_boot_time]
      pres_confined_lframe [OF pres_sys_const] split: option.splits simp: lframe_def)

text \<open>
  \<open>uframe R\<close>, one level up: only read-only calls, the table of \<open>process_iter\<close> and what the
  functions of the module remember between calls are the same, pids are only added to those
  found to be reused, objects are only added, and of those that were there only the ones in
  \<open>R\<close> may have changed.
\<close>

definition remembered where
  "remembered s = (g_lowest_pid s, g_tid s, g_last_cpu_times s, g_last_per_cpu_times s,
     g_last_cpu_times_2 s, g_last_per_cpu_times_2 s, g_wn s)"

lemma remembered_simps [simp]:
  "remembered (s\<lparr>hist := h\<rparr>) = remembered s" "remembered (s\<lparr>lp := p\<rparr>) = remembered s"
  "remembered (upd r f s) = remembered s" "remembered (s\<lparr>g_next := n\<rparr>) = remembered s"
  "remembered (s\<lparr>g_pids_reused := ps\<rparr>) = remembered s" "remembered (s\<lparr>g_total_phymem := m\<rparr>) = remembered s"
  by (simp_all add: remembered_def upd_def)

definition uframe :: "nat set \<Rightarrow> 'z ustate_scheme \<Rightarrow> 'z ustate_scheme \<Rightarrow> bool" where
  "uframe R s t \<longleftrightarrow> sys_os t = sys_os s \<and> procfs_path t = procfs_path s \<and> (\<exists>d. hist t = d @ hist s \<and> list_all read_only d)
     \<and> g_next s \<le> g_next t \<and> g_pmap t = g_pmap s \<and> remembered t = remembered s
     \<and> set (g_pids_reused s) \<subseteq> set (g_pids_reused t) \<and> (\<forall>q < g_next s. q \<notin> R \<longrightarrow> objs t q = objs s q)"

lemma uframe_refl: "uframe R s s"
  by (simp add: uframe_def)

lemma uframe_trans: "uframe R s t \<Longrightarrow> uframe R t u \<Longrightarrow> uframe R s u"
  by (fastforce simp: uframe_def)

interpretation ufr: preserved "uframe R" for R
  by unfold_locales (auto intro: uframe_refl uframe_trans)

lemma uframe_mono: "uframe R s t \<Longrightarrow> R \<subseteq> Q \<Longrightarrow> uframe Q s t"
  by (auto simp: uframe_def)

lemma pres_uframe_mono: "pres (uframe R) m \<Longrightarrow> R \<subseteq> Q \<Longrightarrow> pres (uframe Q) m"
  unfolding pres_def using uframe_mono by blast

lemma uframe_old: "uframe R s t \<Longrightarrow> q < g_next s \<Longrightarrow> q \<notin> R \<Longrightarrow> objs t q = objs s q"
  by (simp add: uframe_def)

lemma lsys_more_fields:
  "lsys.more t = lsys.more (s :: 'z ustate_scheme) \<Longrightarrow>
     objs t = objs s \<and> g_next t = g_next s \<and> g_pmap t = g_pmap s \<and> remembered t = remembered s
     \<and> g_pids_reused t = g_pids_reused s"
  by (cases s; cases t) (simp add: remembered_def)

lemma pres_obj: "pres (uframe R) (obj r f)"
  unfolding obj_def by (rule ufr.pres_gets)

lemma pres_set_obj: "r \<in> R \<Longrightarrow> pres (uframe R) (set_obj r f)"
  by (rule presI) (auto simp: uframe_def)

lemma pres_impl:
  assumes "pres lframe m" "r \<in> R"
  shows "pres (uframe R) (impl r m)"
proof (rule presI)
  fix s x t
  assume run: "impl r m s = (x, t)"
  obtain u where u: "m (s\<lparr>lp := p_impl (objs s r)\<rparr>) = (x, u)" "t = upd r (\<lambda>p. p\<lparr>p_impl := lp u\<rparr>) u"
    using run by (cases "m (s\<lparr>lp := p_impl (objs s r)\<rparr>)") (simp add: impl_def)
  have f: "lframe (s\<lparr>lp := p_impl (objs s r)\<rparr>) u" using assms(1) u(1) by (rule presD)
  then have "lsys.more u = lsys.more (s\<lparr>lp := p_impl (objs s r)\<rparr>)" by (simp add: lframe_def)
  from lsys_more_fields [OF this] f show "uframe R s t"
    using assms(2) by (auto simp: u(2) uframe_def lframe_def)
qed

lemma pres_sys_ask_u: "read_only c \<Longrightarrow> pres (uframe R) (sys_ask c f)"
  by (rule presI) (auto simp: uframe_def)

lemma pres_sys_try_u: "read_only c \<Longrightarrow> pres (uframe R) (sys_try c f)"
  by (rule presI) (auto simp: uframe_def)

lemma pres_init_pid: "pres (uframe R) (init_pid pid0)"
  unfolding init_pid_def check_pid_range_def
  by (cases pid0) (auto intro!: pres_sys_ask_u pres_sys_try_u ufr.pres_if ufr.pres_raise ufr.pres_ret ufr.pres_try_else)

lemma pres_get_ident: "r \<in> R \<Longrightarrow> pres (uframe R) (get_ident r)"
  unfolding get_ident_def by (intro ufr.pres_bnd pres_obj pres_impl pres_create_time ufr.pres_ret)

lemma pres_init_ident: "r \<in> R \<Longrightarrow> pres (uframe R) (init_ident r pid i)"
  unfolding init_ident_def
  by (intro ufr.pres_try_else pres_get_ident ufr.pres_if ufr.pres_ret ufr.pres_raise pres_set_obj)

lemma pres_lproc_init: "pres (uframe R) (lproc_init pid)"
  by (rule presI) (auto simp: lproc_init_def uframe_def)

lemma pres_proc_init: "r \<in> R \<Longrightarrow> pres (uframe R) (proc_init r pid0 i)"
  unfolding proc_init_def
  by (intro ufr.pres_bnd pres_init_pid pres_lproc_init pres_set_obj pres_init_ident)

lemma new_process_frame:
  assumes "new_process pid0 s = (x, t)"
  shows "uframe {} s t" and "x = Inr r \<Longrightarrow> r = g_next s \<and> g_next s < g_next t"
proof -
  let ?r = "g_next s"
  let ?s = "s\<lparr>g_next := Suc ?r\<rparr>"
  obtain y u where y: "proc_init ?r pid0 False ?s = (y, u)" by (cases "proc_init ?r pid0 False ?s")
  have f: "uframe {?r} ?s u" using pres_proc_init [of ?r "{?r}"] y by (auto dest: presD)
  have t: "t = u" using assms y by (auto simp: new_process_def split: sum.splits)
  show "uframe {} s t" using f t by (fastforce simp: uframe_def)
  show "x = Inr r \<Longrightarrow> r = ?r \<and> ?r < g_next t"
    using assms y f t by (auto simp: new_process_def uframe_def split: sum.splits)
qed

lemma pres_new_process: "pres (uframe R) (new_process pid0)"
proof (rule presI)
  fix s x t
  assume "new_process pid0 s = (x, t)"
  from new_process_frame(1) [OF this] show "uframe R s t" by (auto simp: uframe_def)
qed

text \<open>The object \<open>Process(pid)\<close> makes.\<close>

lemma impl_obj:
  assumes "impl r m s = (x, t)" "pres lframe m"
  shows "\<exists>i. objs t = (objs s)(r := (objs s r)\<lparr>p_impl := i\<rparr>) \<and> l_pid i = l_pid (p_impl (objs s r))"
proof -
  obtain u where u: "m (s\<lparr>lp := p_impl (objs s r)\<rparr>) = (x, u)" "t = upd r (\<lambda>p. p\<lparr>p_impl := lp u\<rparr>) u"
    using assms(1) by (cases "m (s\<lparr>lp := p_impl (objs s r)\<rparr>)") (simp add: impl_def)
  have f: "lframe (s\<lparr>lp := p_impl (objs s r)\<rparr>) u" using assms(2) u(1) by (rule presD)
  then have "lsys.more u = lsys.more (s\<lparr>lp := p_impl (objs s r)\<rparr>)" by (simp add: lframe_def)
  from lsys_more_fields [OF this] f show ?thesis by (auto simp: u(2) lframe_def)
qed

lemma get_ident_obj:
  assumes "get_ident r s = (x, t)"
  shows "\<exists>i. objs t = (objs s)(r := (objs s r)\<lparr>p_impl := i\<rparr>)"
    and "x = Inr v \<Longrightarrow> fst v = p_pid (objs s r)"
proof -
  obtain y u where y: "impl r (proc_create_time True) s = (y, u)"
    by (cases "impl r (proc_create_time True) s")
  show "\<exists>i. objs t = (objs s)(r := (objs s r)\<lparr>p_impl := i\<rparr>)" "x = Inr v \<Longrightarrow> fst v = p_pid (objs s r)"
    using impl_obj [OF y pres_create_time] assms y by (auto simp: get_ident_def split: sum.splits)
qed

lemma new_process_object:
  assumes "new_process (Some pid) s = (Inr r, t)"
  shows "p_pid (objs t r) = pid" "fst (p_ident (objs t r)) = pid" "0 \<le> pid"
    "\<not> p_gone (objs t r)" "\<not> p_pid_reused (objs t r)" "p_cache (objs t r) = None" "p_prefetch (objs t r) = []"
proof -
  have run0: "proc_init r (Some pid) False (s\<lparr>g_next := Suc (g_next s)\<rparr>) = (Inr (), t)" "r = g_next s"
    using assms by (auto simp: new_process_def bnd_Inr simp del: bnd_run)
  then obtain pid' u i v where i: "init_pid (Some pid) (s\<lparr>g_next := Suc (g_next s)\<rparr>) = (Inr pid', u)"
    and run': "init_ident r pid' False (upd r (\<lambda>_. blank_proc pid' i) v) = (Inr (), t)"
    by (auto simp: proc_init_def bnd_Inr simp del: bnd_run)
  have "pid' = pid \<and> 0 \<le> pid" using i
    by (simp add: init_pid_def try_else_Inr del: try_else_run split: if_splits)
  with run' have pid: "0 \<le> pid" and run: "init_ident r pid False (upd r (\<lambda>_. blank_proc pid i) v) = (Inr (), t)"
    by auto
  let ?v = "upd r (\<lambda>_. blank_proc pid i) v"
  obtain x w where x: "get_ident r ?v = (x, w)" by (cases "get_ident r ?v")
  obtain j where j: "objs w = (objs ?v)(r := (objs ?v r)\<lparr>p_impl := j\<rparr>)" using get_ident_obj(1) [OF x] by blast
  have "p_pid (objs t r) = pid \<and> fst (p_ident (objs t r)) = pid \<and> \<not> p_gone (objs t r)
      \<and> \<not> p_pid_reused (objs t r) \<and> p_cache (objs t r) = None \<and> p_prefetch (objs t r) = []"
    using run x j get_ident_obj(2) [OF x]
    by (cases x) (auto simp: init_ident_def blank_proc_def split: if_splits)
  then show "p_pid (objs t r) = pid" "fst (p_ident (objs t r)) = pid" "0 \<le> pid"
    "\<not> p_gone (objs t r)" "\<not> p_pid_reused (objs t r)" "p_cache (objs t r) = None" "p_prefetch (objs t r) = []"
    using pid by auto
qed

section \<open>Identities\<close>

lemma cmp_idents_sym: "cmp_idents a b = cmp_idents b a"
  by (auto simp: cmp_idents_def split: prod.splits)

text \<open>
  C33: equality of \<open>Process\<close> objects is reflexive and symmetric and agrees with their hash;
  it is also transitive as long as the creation time of the object in the middle is known,
  and two objects whose creation times are known are equal only if both pid and creation
  time agree.
\<close>

theorem proc_eq_laws:
  "proc_eq p p \<and> proc_eq p q = proc_eq q p \<and> (proc_eq p q \<longrightarrow> proc_hash p = proc_hash q)
   \<and> (proc_eq p q \<and> proc_eq q v \<and> ctime_true (snd (p_ident q)) \<longrightarrow> proc_eq p v)
   \<and> (ctime_true (snd (p_ident p)) \<and> ctime_true (snd (p_ident q)) \<longrightarrow> proc_eq p q = (p_ident p = p_ident q))"
  by (cases "p_ident p"; cases "p_ident q"; cases "p_ident v")
    (auto simp: proc_eq_def proc_hash_def cmp_idents_def)

theorem proc_eq_laws_witness:
  "let mk = (\<lambda>c. (blank_proc 5 (null_lproc 5))\<lparr>p_ident := (5, c)\<rparr>)
   in proc_eq (mk (Some 2)) (mk None) \<and> proc_eq (mk None) (mk (Some 3)) \<and> \<not> proc_eq (mk (Some 2)) (mk (Some 3))
     \<and> proc_hash (mk (Some 2)) = proc_hash (mk None)"
  using proc_eq_laws [of "(blank_proc 5 (null_lproc 5))\<lparr>p_ident := (5, Some 2)\<rparr>"
      "(blank_proc 5 (null_lproc 5))\<lparr>p_ident := (5, None)\<rparr>" "(blank_proc 5 (null_lproc 5))\<lparr>p_ident := (5, Some 3)\<rparr>"]
  by (simp add: proc_eq_def cmp_idents_def ctime_true_def)

section \<open>The check against pid reuse\<close>

lemma upd_same: "f (objs s r) = objs s r \<Longrightarrow> upd r f s = s"
  by (simp add: upd_def)

definition mark_reused :: "nat \<Rightarrow> int \<Rightarrow> 'z ustate_scheme \<Rightarrow> 'z ustate_scheme" where
  "mark_reused r pid u = upd r (\<lambda>p. p\<lparr>p_pid_reused := True, p_gone := True\<rparr>)
     (u\<lparr>g_pids_reused := List.insert pid (g_pids_reused u)\<rparr>)"

lemma is_running_over: "p_gone (objs s r) \<or> p_pid_reused (objs s r) \<Longrightarrow> is_running r s = (Inr False, s)"
  by (simp add: is_running_def)

lemma is_running_check:
  assumes "\<not> p_gone (objs s r)" "\<not> p_pid_reused (objs s r)" "r < g_next s"
    and np: "new_process (Some (p_pid (objs s r))) s = (y, u)"
  shows "is_running r s = (case y of
      Inl e \<Rightarrow> if is_ZombieProcess e then (Inr True, u)
               else if is_NoSuchProcess e then (Inr False, upd r (\<lambda>p. p\<lparr>p_gone := True\<rparr>) u) else (Inl e, u)
    | Inr q \<Rightarrow> if proc_eq (objs s r) (objs u q) then (Inr True, u)
               else (Inr False, mark_reused r (p_pid (objs s r)) u))"
proof -
  have r: "objs u r = objs s r" using new_process_frame(1) [OF np] assms(3) by (rule uframe_old) simp
  show ?thesis
  proof (cases y)
    case (Inl e)
    then show ?thesis using assms by (simp add: is_running_def)
  next
    case (Inr q)
    have same: "upd r (\<lambda>p. p\<lparr>p_pid_reused := False\<rparr>) u = u" using assms(2) r by (intro upd_same) simp
    show ?thesis
    proof (cases "proc_eq (objs s r) (objs u q)")
      case True
      then show ?thesis using assms Inr r same by (simp add: is_running_def)
    next
      case False
      then show ?thesis using assms Inr r
        by (simp add: is_running_def mk_NoSuchProcess_def mk_NoSuchProcess_opt_def mark_reused_def upd_def)
    qed
  qed
qed

text \<open>
  C2: once \<open>is_running\<close> has said no it keeps saying no, without asking the system again;
  when it says yes, the object was marked neither gone nor reused, and a process with its
  pid has just been found whose creation time does not contradict the object's; and a
  reuse it detects is noted for \<open>process_iter\<close>.
\<close>

theorem is_running_verdict:
  assumes "is_running r s = (Inr b, t)" and "r < g_next s"
  shows "(\<not> b \<longrightarrow> is_running r t = (Inr False, t))
    \<and> (b \<longrightarrow> \<not> p_gone (objs s r) \<and> \<not> p_pid_reused (objs s r)
         \<and> (\<exists>y u. new_process (Some (p_pid (objs s r))) s = (y, u)
              \<and> (\<forall>q. y = Inr q \<longrightarrow> cmp_idents (p_ident (objs s r)) (p_ident (objs u q)) \<noteq> Different)
              \<and> (\<forall>e. y = Inl e \<longrightarrow> is_ZombieProcess e)))
    \<and> (p_pid_reused (objs t r) \<and> \<not> p_pid_reused (objs s r) \<longrightarrow> p_pid (objs s r) \<in> set (g_pids_reused t))"
proof (cases "p_gone (objs s r) \<or> p_pid_reused (objs s r)")
  case True
  then show ?thesis using assms(1) is_running_over [OF True] by auto
next
  case False
  obtain y u where np: "new_process (Some (p_pid (objs s r))) s = (y, u)"
    by (cases "new_process (Some (p_pid (objs s r))) s")
  have r: "objs u r = objs s r" using new_process_frame(1) [OF np] assms(2) by (rule uframe_old) simp
  note chk = is_running_check [OF _ _ assms(2) np]
  show ?thesis
  proof (cases y)
    case (Inl e)
    then show ?thesis using assms(1) chk False np r
      by (auto simp: is_running_over split: if_splits)
  next
    case (Inr q)
    then show ?thesis using assms(1) chk False np r
      by (auto simp: is_running_over mark_reused_def proc_eq_def split: if_splits)
  qed
qed

section \<open>Signals only reach the right process\<close>

text \<open>
  What the caller gets: the error for a reused pid, and, once \<open>os.kill\<close> has answered, its
  answer with the two errors that are translated.
\<close>

definition reused_error :: "proc \<Rightarrow> exn" where
  "reused_error p = mk_NoSuchProcess (p_pid p) (p_name p)
     (Some ''process no longer exists and its PID has been reused'')"

definition kill_outcome :: "proc \<Rightarrow> oserror + unit \<Rightarrow> exn + unit" where
  "kill_outcome p z = (case z of
       Inr v \<Rightarrow> Inr v
     | Inl e \<Rightarrow> Inl (if e = ESRCH then mk_NoSuchProcess (p_pid p) (p_name p) None
         else if e = EPERM \<or> e = EACCES then mk_AccessDenied (Some (p_pid p)) (p_name p) None
         else OSError e))"

definition signal_goes :: "proc \<Rightarrow> int \<Rightarrow> 'z ustate_scheme \<Rightarrow> exn + unit \<Rightarrow> 'z ustate_scheme \<Rightarrow> bool" where
  "signal_goes p sig u x t \<longleftrightarrow> (if p_pid p = 0 then x = Inl ValueError \<and> hist t = hist u
     else x = kill_outcome p (os_kill (sys_os u) (hist u) (p_pid p) sig)
       \<and> hist t = SKill (p_pid p) sig # hist u)"

lemma send_signal_goes:
  assumes "0 \<le> p_pid (objs s r)" and "raise_if_pid_reused r s = (Inr (), v)"
    and "sys_os v = sys_os u" "hist v = hist u"
    and "p_pid (objs v r) = p_pid (objs s r)" "p_name (objs v r) = p_name (objs s r)"
    and "send_signal r sig s = (x, t)"
  shows "signal_goes (objs s r) sig u x t"
  using assms by (cases "os_kill (sys_os u) (hist u) (p_pid (objs s r)) sig")
    (auto simp: send_signal_def kill_call_def signal_goes_def kill_outcome_def split: if_splits)

lemma send_signal_refused:
  "0 \<le> p_pid (objs s r) \<Longrightarrow> raise_if_pid_reused r s = (Inl e, v) \<Longrightarrow> send_signal r sig s = (Inl e, v)"
  by (simp add: send_signal_def)

lemma send_signal_run:
  assumes "0 < p_pid (objs s r)" "raise_if_pid_reused r s = (Inr (), u)" "p_pid (objs u r) = p_pid (objs s r)"
  shows "\<exists>x t. send_signal r sig s = (x, t) \<and> hist t = SKill (p_pid (objs s r)) sig # hist u"
  using assms by (cases "os_kill (sys_os u) (hist u) (p_pid (objs s r)) sig")
    (auto simp: send_signal_def kill_call_def)

text \<open>
  C1: a signal through an object not marked gone.  With a negative pid, or marked as
  reused, it fails at once without a system call, with \<open>NoSuchProcess\<close> in the second case.
  Otherwise a new look at the pid, which only reads, comes first.  When it finds a process
  with another creation time the signal is not sent, the reuse is recorded, and
  \<open>NoSuchProcess\<close> is raised with the message that the pid has been reused; an error of the
  look other than \<open>NoSuchProcess\<close> is handed on, nothing sent.  In the remaining cases \<open>os.kill\<close> is called once,
  for the object's pid, right after the look, and its answer or its translated error is the
  result, except that the pid 0 is never signalled.
\<close>

theorem send_signal_checks_identity:
  assumes "send_signal r sig s = (x, t)" and "r < g_next s" and "\<not> p_gone (objs s r)"
  shows "(p_pid (objs s r) < 0 \<longrightarrow> x = Inl AssertionError \<and> t = s)
    \<and> (0 \<le> p_pid (objs s r) \<and> p_pid_reused (objs s r) \<longrightarrow> x = Inl (reused_error (objs s r)) \<and> t = s)
    \<and> (0 \<le> p_pid (objs s r) \<and> \<not> p_pid_reused (objs s r) \<longrightarrow>
        (\<exists>y u d. new_process (Some (p_pid (objs s r))) s = (y, u)
          \<and> sys_os u = sys_os s \<and> hist u = d @ hist s \<and> list_all read_only d
          \<and> (case y of
               Inr q \<Rightarrow> if cmp_idents (p_ident (objs s r)) (p_ident (objs u q)) = Different
                 then x = Inl (reused_error (objs s r)) \<and> hist t = hist u
                   \<and> p_pid_reused (objs t r) \<and> p_pid (objs s r) \<in> set (g_pids_reused t)
                 else signal_goes (objs s r) sig u x t
             | Inl e \<Rightarrow> if is_NoSuchProcess e then signal_goes (objs s r) sig u x t
                 else x = Inl e \<and> hist t = hist u)))"
    (is "?neg \<and> ?marked \<and> (_ \<longrightarrow> ?look)")
proof (intro conjI impI)
  show "p_pid (objs s r) < 0 \<Longrightarrow> x = Inl AssertionError" "p_pid (objs s r) < 0 \<Longrightarrow> t = s"
    using assms(1) by (simp_all add: send_signal_def)
  show "0 \<le> p_pid (objs s r) \<and> p_pid_reused (objs s r) \<Longrightarrow> x = Inl (reused_error (objs s r))"
    "0 \<le> p_pid (objs s r) \<and> p_pid_reused (objs s r) \<Longrightarrow> t = s"
    using assms(1) by (auto simp: send_signal_def raise_if_pid_reused_def reused_error_def)
next
  let ?p = "objs s r"
  assume "0 \<le> p_pid ?p \<and> \<not> p_pid_reused ?p"
  then have pid: "0 \<le> p_pid ?p" and nr: "\<not> p_pid_reused ?p" by simp_all
  obtain y u where np: "new_process (Some (p_pid ?p)) s = (y, u)" by (cases "new_process (Some (p_pid ?p)) s")
  have fr: "uframe {} s u" by (rule new_process_frame(1) [OF np])
  then obtain d where d: "sys_os u = sys_os s" "hist u = d @ hist s" "list_all read_only d"
    by (auto simp: uframe_def)
  have r: "objs u r = ?p" using fr assms(2) by (rule uframe_old) simp
  note run = is_running_check [OF assms(3) nr assms(2) np]
  have goes: "signal_goes ?p sig u x t"
    if "raise_if_pid_reused r s = (Inr (), v)" "v = u \<or> v = upd r (\<lambda>p. p\<lparr>p_gone := True\<rparr>) u" for v
    by (rule send_signal_goes [OF pid that(1) _ _ _ _ assms(1)]) (use that(2) r in auto)
  have "case y of
      Inr q \<Rightarrow> if cmp_idents (p_ident ?p) (p_ident (objs u q)) = Different
        then x = Inl (reused_error ?p) \<and> hist t = hist u
          \<and> p_pid_reused (objs t r) \<and> p_pid ?p \<in> set (g_pids_reused t)
        else signal_goes ?p sig u x t
    | Inl e \<Rightarrow> if is_NoSuchProcess e then signal_goes ?p sig u x t else x = Inl e \<and> hist t = hist u"
  proof (cases y)
    case (Inl e)
    have zombie: "is_ZombieProcess e \<Longrightarrow> is_NoSuchProcess e" by (cases e) simp_all
    show ?thesis
    proof (cases "is_NoSuchProcess e")
      case True
      have "raise_if_pid_reused r s
          = (Inr (), if is_ZombieProcess e then u else upd r (\<lambda>p. p\<lparr>p_gone := True\<rparr>) u)"
        using Inl True run nr r by (simp add: raise_if_pid_reused_def)
      from goes [OF this] show ?thesis using Inl True by auto
    next
      case False
      then have "raise_if_pid_reused r s = (Inl e, u)"
        using Inl run nr zombie by (auto simp: raise_if_pid_reused_def)
      from send_signal_refused [OF pid this] show ?thesis using Inl False assms(1) by auto
    qed
  next
    case (Inr q)
    show ?thesis
    proof (cases "proc_eq ?p (objs u q)")
      case True
      then have "raise_if_pid_reused r s = (Inr (), u)" using Inr run nr by (simp add: raise_if_pid_reused_def)
      from goes [OF this] show ?thesis using Inr True by (simp add: proc_eq_def)
    next
      case False
      then have "raise_if_pid_reused r s = (Inl (reused_error ?p), mark_reused r (p_pid ?p) u)"
        using Inr run nr r by (simp add: raise_if_pid_reused_def mark_reused_def reused_error_def)
      from send_signal_refused [OF pid this] show ?thesis
        using Inr False assms(1) by (auto simp: proc_eq_def mark_reused_def)
    qed
  qed
  with np d show ?look by blast
qed

text \<open>
  C3: an object that is marked gone but not as reused, with a positive pid, is not checked
  again: \<open>send_signal\<close>, and with it \<open>kill\<close>, \<open>terminate\<close>, \<open>suspend\<close> and \<open>resume\<close>, sends the
  signal to whatever process has the pid now, without looking at it first.
\<close>

theorem signal_after_gone_unchecked:
  assumes "p_gone (objs s r)" and "\<not> p_pid_reused (objs s r)" and "0 < p_pid (objs s r)"
  shows "hist (snd (send_signal r sig s)) = SKill (p_pid (objs s r)) sig # hist s
    \<and> hist (snd (kill r s)) = SKill (p_pid (objs s r)) SIGKILL # hist s
    \<and> hist (snd (terminate r s)) = SKill (p_pid (objs s r)) SIGTERM # hist s
    \<and> hist (snd (suspend r s)) = SKill (p_pid (objs s r)) SIGSTOP # hist s
    \<and> hist (snd (resume r s)) = SKill (p_pid (objs s r)) SIGCONT # hist s"
proof -
  have "raise_if_pid_reused r s = (Inr (), s)"
    using assms is_running_over [of s r] by (simp add: raise_if_pid_reused_def)
  then have "hist (snd (send_signal r g s)) = SKill (p_pid (objs s r)) g # hist s" for g
    using send_signal_run [OF assms(3) _ refl, of g] by fastforce
  then show ?thesis by (simp add: kill_def terminate_def suspend_def resume_def)
qed

text \<open>
  A system with one process, for the witnesses: its pid is 42 and it started 19 clock
  ticks after the system.
\<close>

definition demo_proc :: proc where
  "demo_proc = (blank_proc 42 (null_lproc 42))\<lparr>p_ident := (42, Some (fl (19 / 100)))\<rparr>"

definition demo_os :: os where
  "demo_os = null_os\<lparr>os_read := \<lambda>h p. Inr (stat_text 42 ''init'' sample_fields), os_kill := \<lambda>h p g. Inr ()\<rparr>"

definition demo_state :: ustate where
  "demo_state = lsys.extend ((null_lsys 42)\<lparr>sys_os := demo_os\<rparr>)
     (ustate.fields (\<lambda>_. demo_proc) 1 [] [] None None 0 [] [] [] [] wn_init)"

lemma demo_state_simps [simp]:
  "sys_os demo_state = demo_os" "hist demo_state = []" "procfs_path demo_state = ''/proc''"
  "objs demo_state = (\<lambda>_. demo_proc)" "g_next demo_state = 1" "g_pmap demo_state = []"
  "g_pids_reused demo_state = []" "g_lowest_pid demo_state = None"
  by (simp_all add: demo_state_def lsys.defs ustate.defs null_lsys_def null_psx_def null_sys_def psx.defs sys.defs)

lemma demo_stat: "\<exists>v. parse_stat (stat_text 42 ''init'' sample_fields) = Inr v \<and> ps_name v = ''init''
    \<and> ps_create_time v = nat_str 19"
  using parse_stat_text [OF sample_fields_ok, of 42 "''init''"] by (auto simp: sample_fields_def)

lemma demo_create_time:
  assumes "sys_os s = demo_os" "lp s = null_lproc 42"
  shows "\<exists>t. proc_create_time True s = (Inr (fl (19 / 100)), t)"
proof -
  obtain v where v: "parse_stat (stat_text 42 ''init'' sample_fields) = Inr v" "ps_create_time v = nat_str 19"
    using demo_stat by blast
  have "fl (19::rat) = 19" using fl_of_int [of 19] by simp
  moreover have "fint 100 = 100" using fint_exact [of 100] by simp
  ultimately have t: "ticks_secs 100 (nat_str 19) = Inr (fl (19 / 100))"
    by (simp add: ticks_secs_def py_float_nat_str fdiv_def)
  have "\<exists>u. parse_stat_file s = (Inr v, u) \<and> sys_os u = demo_os \<and> lp u = null_lproc 42"
    using assms v by (simp add: parse_stat_file_def wrap_exceptions_def memoize_def has_cache_def null_lproc_def
        bcat_def cat_def read_file_def demo_os_def)
  then obtain u where "parse_stat_file s = (Inr v, u)" "sys_os u = demo_os" "lp u = null_lproc 42" by blast
  then show ?thesis using assms t v
    by (simp add: proc_create_time_def wrap_exceptions_def null_lproc_def demo_os_def null_os_def)
qed

lemma demo_get_ident:
  assumes "sys_os s = demo_os" "p_impl (objs s r) = null_lproc 42" "p_pid (objs s r) = 42"
  shows "\<exists>u. get_ident r s = (Inr (42, Some (fl (19 / 100))), u)"
proof -
  have "\<exists>t. proc_create_time True (s\<lparr>lp := p_impl (objs s r)\<rparr>) = (Inr (fl (19 / 100)), t)"
    using assms by (intro demo_create_time) simp_all
  then show ?thesis using assms(3) by (auto simp: get_ident_def impl_def)
qed

lemma demo_new_process:
  assumes "sys_os s = demo_os" "procfs_path s = ''/proc''"
  shows "\<exists>u. new_process (Some 42) s = (Inr (g_next s), u) \<and> p_ident (objs u (g_next s)) = (42, Some (fl (19 / 100)))"
proof -
  let ?r = "g_next s"
  let ?s = "upd ?r (\<lambda>_. blank_proc 42 (null_lproc 42)) (s\<lparr>g_next := Suc ?r, hist := SCheckPid 42 # hist s\<rparr>)"
  obtain u where u: "get_ident ?r ?s = (Inr (42, Some (fl (19 / 100))), u)"
    using demo_get_ident [of ?s ?r] assms(1) by (auto simp: blank_proc_def)
  have "init_pid (Some 42) (s\<lparr>g_next := Suc ?r\<rparr>) = (Inr 42, s\<lparr>g_next := Suc ?r, hist := SCheckPid 42 # hist s\<rparr>)"
    using assms by (simp add: init_pid_def check_pid_range_def demo_os_def null_os_def)
  then have "proc_init ?r (Some 42) False (s\<lparr>g_next := Suc ?r\<rparr>)
      = (Inr (), upd ?r (\<lambda>p. p\<lparr>p_ident := (42, Some (fl (19 / 100)))\<rparr>) u)"
    using assms(2) u by (simp add: proc_init_def lproc_init_def null_lproc_def init_ident_def)
  then show ?thesis by (simp add: new_process_def)
qed

lemma demo_is_running:
  "\<exists>u. new_process (Some 42) demo_state = (Inr 1, u) \<and> is_running 0 demo_state = (Inr True, u)
     \<and> objs u 0 = demo_proc \<and> p_ident (objs u 1) = p_ident demo_proc"
proof -
  obtain u where u: "new_process (Some 42) demo_state = (Inr 1, u)" "p_ident (objs u 1) = (42, Some (fl (19 / 100)))"
    using demo_new_process [of demo_state] by auto
  have p: "\<not> p_gone (objs demo_state 0)" "\<not> p_pid_reused (objs demo_state 0)" "0 < g_next demo_state"
    "new_process (Some (p_pid (objs demo_state 0))) demo_state = (Inr 1, u)"
    using u by (simp_all add: demo_proc_def blank_proc_def)
  have "objs u 0 = demo_proc" using uframe_old [OF new_process_frame(1) [OF u(1)], of 0] by simp
  then show ?thesis using is_running_check [OF p] u by (simp add: proc_eq_def cmp_idents_def demo_proc_def)
qed

theorem is_running_verdict_witness:
  "\<exists>t. is_running 0 demo_state = (Inr True, t) \<and> \<not> p_gone (objs demo_state 0)"
proof -
  obtain t where t: "is_running 0 demo_state = (Inr True, t)" using demo_is_running by blast
  have "0 < g_next demo_state" by simp
  from is_running_verdict [OF t this] t show ?thesis by blast
qed

theorem send_signal_checks_identity_witness:
  "\<exists>t u. kill 0 demo_state = (Inr (), t) \<and> new_process (Some 42) demo_state = (Inr 1, u)
     \<and> hist t = SKill 42 9 # hist u"
proof -
  obtain u where u: "new_process (Some 42) demo_state = (Inr 1, u)" "is_running 0 demo_state = (Inr True, u)"
    "objs u 0 = demo_proc" "p_ident (objs u 1) = p_ident demo_proc"
    using demo_is_running by blast
  obtain x t where run: "send_signal 0 9 demo_state = (x, t)" by (cases "send_signal 0 9 demo_state")
  have p: "0 < g_next demo_state" "\<not> p_gone (objs demo_state 0)" "p_pid (objs demo_state 0) = 42"
    "\<not> p_pid_reused (objs demo_state 0)"
    by (simp_all add: demo_proc_def blank_proc_def)
  have same: "cmp_idents (p_ident (objs demo_state 0)) (p_ident (objs u 1)) \<noteq> Different"
    using u(4) by (simp add: cmp_idents_def demo_proc_def)
  from send_signal_checks_identity [OF run p(1,2)] p u(1) same
  have "signal_goes demo_proc 9 u x t \<and> sys_os u = demo_os" by auto
  then show ?thesis using run u(1)
    by (auto simp: signal_goes_def kill_outcome_def kill_def SIGKILL_def demo_proc_def blank_proc_def demo_os_def)
qed

theorem signal_after_gone_unchecked_witness:
  "hist (snd (terminate 0 (upd 0 (\<lambda>p. p\<lparr>p_gone := True\<rparr>) demo_state))) = [SKill 42 15]"
  using signal_after_gone_unchecked [of "upd 0 (\<lambda>p. p\<lparr>p_gone := True\<rparr>) demo_state" 0 15]
  by (simp add: terminate_def SIGTERM_def demo_proc_def blank_proc_def)

end
