(* ===== verification/Init_System.thy ===== *)
theory Init_System
  imports Init_Process Linux_Cpu Linux_System Linux_Net
begin

text \<open>
  The system-wide functions of \<open>psutil/__init__.py\<close> other than those about CPU percentages
  and network addresses.  A function that only calls the platform module under the same
  name has the prefix \<open>psutil_\<close> here.
\<close>

section \<open>Pids\<close>

definition psutil_pids :: "('z ustate_scheme, int list) py" where
  "psutil_pids = bnd pids (\<lambda>ps. let ls = sort ps in
     bnd (liftE (item ls 0)) (\<lambda>low. bnd (modify (\<lambda>s. s\<lparr>g_lowest_pid := Some low\<rparr>)) (\<lambda>_. ret ls)))"

definition psutil_pid_exists :: "int \<Rightarrow> ('z ustate_scheme, bool) py" where
  "psutil_pid_exists pid =
     (if pid < 0 then ret False
      else if pid = 0 then bnd psutil_pids (\<lambda>ps. ret (pid \<in> set ps))
      else linux_pid_exists pid)"

section \<open>CPU\<close>

definition cpu_count :: "bool \<Rightarrow> ('z ustate_scheme, int option) py" where
  "cpu_count logical = bnd (if logical then cpu_count_logical else cpu_count_cores) (\<lambda>n.
     ret (case n of None \<Rightarrow> None | Some k \<Rightarrow> if k < 1 then None else Some k))"

text \<open>\<open>cpu_times\<close> for both values of \<open>percpu\<close>.\<close>

definition psutil_cpu_times :: "('z ustate_scheme, scputimes) py" where
  "psutil_cpu_times = cpu_times"
definition psutil_per_cpu_times :: "('z ustate_scheme, scputimes list) py" where
  "psutil_per_cpu_times = per_cpu_times"

definition psutil_cpu_stats :: "('z ustate_scheme, scpustats) py" where
  "psutil_cpu_stats = cpu_stats"

text \<open>The loop of \<open>cpu_freq\<close>: the sums, and whether a limit is unknown.\<close>

fun freq_sums :: "scpufreq list \<Rightarrow> flt \<times> flt \<times> flt \<times> bool \<Rightarrow> flt \<times> flt \<times> flt \<times> bool" where
  "freq_sums [] acc = acc"
| "freq_sums (cpu # cpus) (currs, mins, maxs, set_none) = freq_sums cpus (case (cf_min cpu, cf_max cpu) of
       (Some lo, Some hi) \<Rightarrow> (fadd currs (cf_current cpu), fadd mins lo, fadd maxs hi, set_none)
     | _ \<Rightarrow> (fadd currs (cf_current cpu), mins, maxs, True))"

definition freq_average :: "scpufreq list \<Rightarrow> exn + scpufreq option" where
  "freq_average cpus = (case cpus of
       [] \<Rightarrow> Inr None
     | [cpu] \<Rightarrow> Inr (Some cpu)
     | _ \<Rightarrow> (let num_cpus = fint (int (length cpus)) in
         case freq_sums cpus (0, 0, 0, False) of (currs, mins, maxs, set_none) \<Rightarrow>
         bindE (fdiv currs num_cpus) (\<lambda>current.
         if set_none then Inr (Some \<lparr>cf_current = current, cf_min = None, cf_max = None\<rparr>)
         else bindE (fdiv mins num_cpus) (\<lambda>lo. bindE (fdiv maxs num_cpus) (\<lambda>hi.
           Inr (Some \<lparr>cf_current = current, cf_min = Some lo, cf_max = Some hi\<rparr>))))))"

definition psutil_cpu_freq :: "bool \<Rightarrow> ('z ustate_scheme, scpufreq option) py" where
  "psutil_cpu_freq has_cpufreq = bnd (linux_cpu_freq has_cpufreq) (\<lambda>cpus. liftE (freq_average cpus))"
definition psutil_cpu_freq_percpu :: "bool \<Rightarrow> ('z ustate_scheme, scpufreq list) py" where
  "psutil_cpu_freq_percpu has_cpufreq = linux_cpu_freq has_cpufreq"

definition getloadavg :: "('z ustate_scheme, flt \<times> flt \<times> flt) py" where
  "getloadavg = sys_call SLoadavg os_loadavg"

section \<open>Memory\<close>

definition psutil_virtual_memory :: "('z ustate_scheme, svmem) py" where
  "psutil_virtual_memory = bnd virtual_memory (\<lambda>m.
     bnd (modify (\<lambda>s. s\<lparr>g_total_phymem := Some (vm_total m)\<rparr>)) (\<lambda>_. ret m))"

definition psutil_swap_memory :: "('z ustate_scheme, sswap) py" where
  "psutil_swap_memory = swap_memory"

definition heap_info :: "('z ustate_scheme, pheap) py" where
  "heap_info = bnd (sys_try SHeapInfo os_heap_info) (\<lambda>(used, mmapped).
     ret \<lparr>ph_heap_used = used, ph_mmap_used = mmapped\<rparr>)"

definition heap_trim :: "('z ustate_scheme, unit) py" where
  "heap_trim = sys_ask SHeapTrim (\<lambda>os h. ())"

section \<open>Counters that never wrap\<close>

text \<open>
  The module's only instance of \<open>_WrapNumbers\<close> is the global \<open>g_wn\<close>.  The first call under a
  name returns the dict it has just put in the cache, and the functions below then replace
  its tuples by named tuples of the same numbers: as a tuple is only ever read by index,
  the model keeps the two dicts apart.
\<close>

definition wn_lift :: "(string wn_state, 'a) py \<Rightarrow> ('z ustate_scheme, 'a) py" where
  "wn_lift m = (\<lambda>s. case m (g_wn s) of (x, w) \<Rightarrow> (x, s\<lparr>g_wn := w\<rparr>))"

datatype 'a io_result = IoNone | IoDict "(string, 'a) dict" | IoTotal 'a

text \<open>\<open>[sum(x) for x in zip(*rows)]\<close>: \<open>zip\<close> stops at the shortest row.\<close>

definition min_width :: "int list list \<Rightarrow> nat" where
  "min_width rows = (case rows of [] \<Rightarrow> 0 | r # rs \<Rightarrow> fold min (map length rs) (length r))"

definition add_columns :: "int list list \<Rightarrow> int list" where
  "add_columns rows = map (\<lambda>i. sum_list (map (\<lambda>r. r ! i) rows)) [0..<min_width rows]"

text \<open>What both functions do with the raw dict, given the constructor of the named tuple.\<close>

definition io_result_of :: "(int list \<Rightarrow> exn + 'a) \<Rightarrow> bool \<Rightarrow> (string, int list) dict \<Rightarrow> exn + 'a io_result" where
  "io_result_of mk per rawdict =
     (if per then bindE (mapE (\<lambda>kv. bindE (mk (snd kv)) (\<lambda>t. Inr (fst kv, t))) rawdict) (\<lambda>d. Inr (IoDict d))
      else bindE (mk (add_columns (map snd rawdict))) (\<lambda>t. Inr (IoTotal t)))"

definition sdiskio_make :: "int list \<Rightarrow> exn + sdiskio" where
  "sdiskio_make xs = (case xs of
      [a, b, c, d, e, f, g, h, i] \<Rightarrow> Inr \<lparr>dio_read_count = a, dio_write_count = b, dio_read_bytes = c,
         dio_write_bytes = d, dio_read_time = e, dio_write_time = f, dio_read_merged_count = g,
         dio_write_merged_count = h, dio_busy_time = i\<rparr>
    | _ \<Rightarrow> Inl TypeError)"

definition snetio_make :: "int list \<Rightarrow> exn + snetio" where
  "snetio_make xs = (case xs of
      [a, b, c, d, e, f, g, h] \<Rightarrow> Inr \<lparr>nio_bytes_sent = a, nio_bytes_recv = b, nio_packets_sent = c,
         nio_packets_recv = d, nio_errin = e, nio_errout = f, nio_dropin = g, nio_dropout = h\<rparr>
    | _ \<Rightarrow> Inl TypeError)"

definition psutil_disk_io_counters :: "bool \<Rightarrow> bool \<Rightarrow> ('z ustate_scheme, sdiskio io_result) py" where
  "psutil_disk_io_counters perdisk nowrap = bnd (linux_disk_io_counters perdisk) (\<lambda>rawdict.
     if rawdict = [] then ret (if perdisk then IoDict [] else IoNone)
     else bnd (if nowrap then wn_lift (wrap_numbers rawdict ''psutil.disk_io_counters'') else ret rawdict)
       (\<lambda>counters. liftE (io_result_of sdiskio_make perdisk counters)))"

definition psutil_net_io_counters :: "bool \<Rightarrow> bool \<Rightarrow> ('z ustate_scheme, snetio io_result) py" where
  "psutil_net_io_counters pernic nowrap = bnd linux_net_io_counters (\<lambda>rawdict.
     if rawdict = [] then ret (if pernic then IoDict [] else IoNone)
     else bnd (if nowrap then wn_lift (wrap_numbers rawdict ''psutil.net_io_counters'') else ret rawdict)
       (\<lambda>counters. liftE (io_result_of snetio_make pernic counters)))"

definition disk_io_cache_clear :: "('z ustate_scheme, unit) py" where
  "disk_io_cache_clear = modify (\<lambda>s. s\<lparr>g_wn := cache_clear (Some ''psutil.disk_io_counters'') (g_wn s)\<rparr>)"
definition net_io_cache_clear :: "('z ustate_scheme, unit) py" where
  "net_io_cache_clear = modify (\<lambda>s. s\<lparr>g_wn := cache_clear (Some ''psutil.net_io_counters'') (g_wn s)\<rparr>)"

section \<open>Disks, sensors, sockets, users\<close>

definition psutil_disk_usage :: "string \<Rightarrow> ('z ustate_scheme, sdiskusage) py" where
  "psutil_disk_usage path = disk_usage path"

definition psutil_disk_partitions :: "bool \<Rightarrow> ('z ustate_scheme, sdiskpart list) py" where
  "psutil_disk_partitions all = linux_disk_partitions all"

definition conn_tmap :: "(string, int list \<times> int list) dict" where
  "conn_tmap = [(''all'', ([AF_INET, AF_INET6, AF_UNIX], [SOCK_STREAM, SOCK_DGRAM])),
     (''tcp'', ([AF_INET, AF_INET6], [SOCK_STREAM])), (''tcp4'', ([AF_INET], [SOCK_STREAM])),
     (''udp'', ([AF_INET, AF_INET6], [SOCK_DGRAM])), (''udp4'', ([AF_INET], [SOCK_DGRAM])),
     (''inet'', ([AF_INET, AF_INET6], [SOCK_STREAM, SOCK_DGRAM])),
     (''inet4'', ([AF_INET], [SOCK_STREAM, SOCK_DGRAM])), (''inet6'', ([AF_INET6], [SOCK_STREAM, SOCK_DGRAM])),
     (''tcp6'', ([AF_INET6], [SOCK_STREAM])), (''udp6'', ([AF_INET6], [SOCK_DGRAM])),
     (''unix'', ([AF_UNIX], [SOCK_STREAM, SOCK_DGRAM]))]"

definition check_conn_kind :: "string \<Rightarrow> ('z ustate_scheme, unit) py" where
  "check_conn_kind kind = (if kind \<in> set (dict_keys conn_tmap) then ret () else raise ValueError)"

definition psutil_net_connections :: "string \<Rightarrow> ('z ustate_scheme, sconn list) py" where
  "psutil_net_connections kind = bnd (check_conn_kind kind) (\<lambda>_. linux_net_connections kind)"

definition psutil_net_if_stats :: "('z ustate_scheme, (string, snicstats) dict) py" where
  "psutil_net_if_stats = linux_net_if_stats"

text \<open>\<open>convert\<close> of \<open>sensors_temperatures\<close>, and the two limits that stand in for each other.\<close>

definition temp_convert :: "bool \<Rightarrow> flt option \<Rightarrow> flt option" where
  "temp_convert fahrenheit n = map_option (\<lambda>x. if fahrenheit then fadd (fl (fmul x 9 / 5)) 32 else x) n"

definition flt_true :: "flt option \<Rightarrow> bool" where
  "flt_true x \<longleftrightarrow> x \<noteq> None \<and> x \<noteq> Some 0"

definition temp_entry :: "bool \<Rightarrow> shwtemp \<Rightarrow> shwtemp" where
  "temp_entry fahrenheit t =
     (let current = temp_convert fahrenheit (ht_current t);
          high = temp_convert fahrenheit (ht_high t);
          critical = temp_convert fahrenheit (ht_critical t);
          (high', critical') = (if flt_true high \<and> \<not> flt_true critical then (high, high)
             else if flt_true critical \<and> \<not> flt_true high then (critical, critical) else (high, critical))
      in \<lparr>ht_label = ht_label t, ht_current = current, ht_high = high', ht_critical = critical'\<rparr>)"

definition psutil_sensors_temperatures :: "bool \<Rightarrow> ('z ustate_scheme, temps) py" where
  "psutil_sensors_temperatures fahrenheit = bnd linux_sensors_temperatures (\<lambda>rawdict.
     ret (fold (\<lambda>(name, values) d. fold (\<lambda>t. add_temp name (temp_entry fahrenheit t)) values d) rawdict []))"

definition psutil_sensors_fans :: "('z ustate_scheme, (string, sfan list) dict) py" where
  "psutil_sensors_fans = linux_sensors_fans"

definition psutil_sensors_battery :: "('z ustate_scheme, sbattery option) py" where
  "psutil_sensors_battery = linux_sensors_battery"

definition psutil_boot_time :: "('z ustate_scheme, flt) py" where
  "psutil_boot_time = boot_time"

definition psutil_users :: "('z ustate_scheme, suser list) py" where
  "psutil_users = linux_users"

end
