(* ===== verification/Py_Ipaddress.thy ===== *)
theory Py_Ipaddress
  imports Linux_Utils
begin

text \<open>
  The part of Python's \<open>ipaddress\<close> module the library uses: the IPv4 network of an address
  and a netmask written in dotted quads or as a prefix length, and its broadcast address.
  Addresses are integers below $2^{32}$.
\<close>

definition parse_octet :: "string \<Rightarrow> exn + int" where
  "parse_octet t =
     (if \<not> str_isdigit t \<or> 3 < length t \<or> (t \<noteq> ''0'' \<and> startswith t ''0'') then Inl ValueError
      else bindE (py_int t) (\<lambda>n. if 255 < n then Inl ValueError else Inr n))"

definition ip4_of_string :: "string \<Rightarrow> exn + int" where
  "ip4_of_string t = bindE (mapE parse_octet (split_on (CHR ''.'') t)) (\<lambda>octets. case octets of
       [a, b, c, d] \<Rightarrow> Inr (((a * 256 + b) * 256 + c) * 256 + d)
     | _ \<Rightarrow> Inl ValueError)"

definition ip4_string :: "int \<Rightarrow> string" where
  "ip4_string n = join ''.'' (map nat_str [nat (n div 2 ^ 24), nat (n div 2 ^ 16 mod 256),
     nat (n div 2 ^ 8 mod 256), nat (n mod 256)])"

text \<open>The number of trailing zero bits, of \<open>bits\<close> at most.\<close>

fun trailing_zeroes :: "nat \<Rightarrow> int \<Rightarrow> nat" where
  "trailing_zeroes 0 n = 0"
| "trailing_zeroes (Suc bits) n = (if even n then Suc (trailing_zeroes bits (n div 2)) else 0)"

definition prefix_from_ip_int :: "int \<Rightarrow> exn + nat" where
  "prefix_from_ip_int n =
     (let tz = trailing_zeroes 32 n; prefixlen = 32 - tz in
      if n div 2 ^ tz = 2 ^ prefixlen - 1 then Inr prefixlen else Inl ValueError)"

definition prefix_from_ip_string :: "string \<Rightarrow> exn + nat" where
  "prefix_from_ip_string t = bindE (ip4_of_string t) (\<lambda>n. case prefix_from_ip_int n of
       Inr p \<Rightarrow> Inr p
     | Inl _ \<Rightarrow> prefix_from_ip_int (2 ^ 32 - 1 - n))"

definition prefix_of_mask :: "string \<Rightarrow> exn + nat" where
  "prefix_of_mask t = (case if str_isdigit t then py_int t else Inl ValueError of
       Inr n \<Rightarrow> if n \<le> 32 then Inr (nat n) else prefix_from_ip_string t
     | Inl _ \<Rightarrow> prefix_from_ip_string t)"

definition ip4_netmask :: "nat \<Rightarrow> int" where
  "ip4_netmask prefixlen = 2 ^ 32 - 2 ^ (32 - prefixlen)"

text \<open>
  \<open>IPv4Network(addr + '/' + mask, strict=False)\<close>: the network address, which has the host
  bits cleared, and the prefix length.
\<close>

definition ip4_network :: "string \<Rightarrow> exn + int \<times> nat" where
  "ip4_network t = (case split_on (CHR ''/'') t of
      [left, right] \<Rightarrow> bindE (ip4_of_string left) (\<lambda>packed. bindE (prefix_of_mask right) (\<lambda>p.
        Inr (packed - packed mod 2 ^ (32 - p), p)))
    | [left] \<Rightarrow> bindE (ip4_of_string left) (\<lambda>packed. Inr (packed, 32))
    | _ \<Rightarrow> Inl ValueError)"

definition ip4_broadcast :: "int \<times> nat \<Rightarrow> int" where
  "ip4_broadcast net = fst net + (2 ^ (32 - snd net) - 1)"

section \<open>Reading back a dotted quad\<close>

lemma hd_nat_str: "n \<noteq> 0 \<Longrightarrow> hd (nat_str n) \<noteq> digit_char 0"
proof (induction n rule: nat_str.induct)
  case (1 n)
  show ?case
  proof (cases "n < 10")
    case True
    then have "(of_char (digit_char n) :: nat) \<noteq> of_char (digit_char 0)"
      using 1 by (simp only: of_char_digit_char)
    then have "digit_char n \<noteq> digit_char 0" by metis
    then show ?thesis using True by (simp add: nat_str.simps [of n])
  next
    case False
    then have "hd (nat_str (n div 10)) \<noteq> digit_char 0" using 1 by simp
    then show ?thesis using False nat_str_digits [of "n div 10"] by (simp add: nat_str.simps [of n])
  qed
qed

lemma length_nat_str: "n < 10 ^ Suc k \<Longrightarrow> length (nat_str n) \<le> Suc k"
proof (induction k arbitrary: n)
  case 0
  then show ?case by (simp add: nat_str.simps [of n])
next
  case (Suc k)
  then show ?case using Suc.IH [of "n div 10"] by (simp add: nat_str.simps [of n])
qed

lemma parse_octet_nat_str:
  assumes "n < 256"
  shows "parse_octet (nat_str n) = Inr (int n)"
proof -
  have "length (nat_str n) \<le> 3" using length_nat_str [of n 2] assms by simp
  moreover have "nat_str n = ''0'' \<or> \<not> startswith (nat_str n) ''0''"
  proof (cases "n = 0")
    case True
    then show ?thesis by (simp add: nat_str.simps [of 0] digit_char_def)
  next
    case False
    have "digit_char 0 = CHR ''0''" by (simp add: digit_char_def char_of_def bit_0)
    then show ?thesis using False hd_nat_str [of n] nat_str_digits [of n]
      by (cases "nat_str n") (simp_all add: startswith_def)
  qed
  ultimately show ?thesis using assms by (auto simp: parse_octet_def str_isdigit_nat_str py_int_nat_str)
qed

definition quad :: "nat list \<Rightarrow> string" where
  "quad bs = join ''.'' (map nat_str bs)"

lemma split_on_quad:
  assumes "bs \<noteq> []"
  shows "split_on (CHR ''.'') (quad bs) = map nat_str bs"
proof -
  have "CHR ''.'' \<notin> set (nat_str n)" for n using set_nat_str [of "CHR ''.''" n] by (auto simp: is_digit_def)
  then show ?thesis unfolding quad_def using assms by (intro split_on_join) auto
qed

lemma ip4_of_quad:
  assumes "a < 256" "b < 256" "c < 256" "d < 256"
  shows "ip4_of_string (quad [a, b, c, d]) = Inr (((int a * 256 + int b) * 256 + int c) * 256 + int d)"
  using assms by (simp add: ip4_of_string_def split_on_quad parse_octet_nat_str)

lemma div_pow_256: "n div 2 ^ 16 = n div 256 div 256" "n div 2 ^ 24 = n div 256 div 256 div (256 :: int)"
  by (simp_all add: zdiv_zmult2_eq [symmetric])

lemma ip4_string_quad:
  assumes "a < 256" "b < 256" "c < 256" "d < 256"
  shows "ip4_string (((int a * 256 + int b) * 256 + int c) * 256 + int d) = quad [a, b, c, d]"
proof -
  have s: "(x * 256 + int y) div 256 = x" "(x * 256 + int y) mod 256 = int y" if "y < 256" for x y
    using that by simp_all
  have p: "(2 :: int) ^ 8 = 256" by simp
  show ?thesis unfolding ip4_string_def quad_def div_pow_256 p s [OF assms(4)] s [OF assms(3)] s [OF assms(2)]
    using assms(1) by simp
qed

text \<open>The text of a number below $2^{32}$ is read back as this number.\<close>

lemma ip4_string_roundtrip:
  assumes "0 \<le> n" "n < 2 ^ 32"
  shows "ip4_of_string (ip4_string n) = Inr n"
proof -
  define q1 q2 q3 where "q1 = n div 256" "q2 = q1 div 256" "q3 = q2 div 256"
  have eqs: "n = q1 * 256 + n mod 256" "q1 = q2 * 256 + q1 mod 256" "q2 = q3 * 256 + q2 mod 256"
    unfolding q1_q2_q3_def by simp_all
  have q3: "0 \<le> q3" "q3 < 256" "0 \<le> q1" "0 \<le> q2" using assms unfolding q1_q2_q3_def by simp_all
  have str: "ip4_string n = quad [nat q3, nat (q2 mod 256), nat (q1 mod 256), nat (n mod 256)]"
    unfolding ip4_string_def quad_def div_pow_256 q1_q2_q3_def by simp
  have "ip4_of_string (ip4_string n) = Inr (((q3 * 256 + q2 mod 256) * 256 + q1 mod 256) * 256 + n mod 256)"
    unfolding str using q3 by (subst ip4_of_quad) auto
  also have "((q3 * 256 + q2 mod 256) * 256 + q1 mod 256) * 256 + n mod 256 = n"
  proof -
    have "x = y * 256 + a \<Longrightarrow> y = z * 256 + b \<Longrightarrow> z = w * 256 + c
        \<Longrightarrow> ((w * 256 + c) * 256 + b) * 256 + a = x" for x y z w a b c :: int by simp
    then show ?thesis using eqs .
  qed
  finally show ?thesis .
qed

section \<open>Netmasks\<close>

lemma trailing_zeroes_pow: "k \<le> bits \<Longrightarrow> odd m \<or> k = bits \<Longrightarrow> trailing_zeroes bits (m * 2 ^ k) = k"
proof (induction bits arbitrary: k)
  case 0
  then show ?case by simp
next
  case (Suc bits)
  show ?case
  proof (cases k)
    case 0
    then show ?thesis using Suc.prems by simp
  next
    case (Suc j)
    then have "m * 2 ^ k div 2 = m * 2 ^ j" by simp
    then show ?thesis using Suc Suc.IH [of j] Suc.prems by simp
  qed
qed

lemma netmask_prefix:
  assumes "p \<le> 32"
  shows "prefix_from_ip_int (ip4_netmask p) = Inr p"
proof -
  have m: "ip4_netmask p = (2 ^ p - 1) * 2 ^ (32 - p)"
    using assms by (simp add: ip4_netmask_def algebra_simps flip: power_add)
  have "trailing_zeroes 32 (ip4_netmask p) = 32 - p"
    unfolding m using assms by (intro trailing_zeroes_pow) (auto simp: Suc_le_eq)
  then show ?thesis using assms m by (simp add: prefix_from_ip_int_def Let_def)
qed

lemma str_isdigit_ip4: "\<not> str_isdigit (ip4_string n)"
  by (simp add: ip4_string_def str_isdigit_def is_digit_def)

lemma ip4_netmask_bounds: "p \<le> 32 \<Longrightarrow> 0 \<le> ip4_netmask p \<and> ip4_netmask p < 2 ^ 32"
  using power_increasing [of "32 - p" 32 "2 :: int"] by (auto simp: ip4_netmask_def)

text \<open>An address and a netmask, both in dotted quads.\<close>

lemma ip4_network_masked:
  assumes "0 \<le> n" "n < 2 ^ 32" "p \<le> 32"
  shows "ip4_network (ip4_string n @ ''/'' @ ip4_string (ip4_netmask p)) = Inr (n - n mod 2 ^ (32 - p), p)"
proof -
  have sl: "CHR ''/'' \<notin> set (ip4_string i)" for i
    using set_nat_str [of "CHR ''/''"] by (auto simp: ip4_string_def is_digit_def)
  have "prefix_of_mask (ip4_string (ip4_netmask p)) = Inr p"
    using ip4_string_roundtrip [of "ip4_netmask p"] ip4_netmask_bounds [OF assms(3)] netmask_prefix [OF assms(3)]
    by (simp add: prefix_of_mask_def str_isdigit_ip4 prefix_from_ip_string_def)
  then show ?thesis
    using ip4_string_roundtrip [OF assms(1,2)] by (simp add: ip4_network_def split_on_append split_on_notin sl)
qed

end
