(* ===== verification/Init_Net.thy ===== *)
theory Init_Net
  imports Init_System Py_Ipaddress
begin

text \<open>
  The network functions of \<open>psutil/__init__.py\<close> that do more than call the platform module:
  the addresses of the interfaces, and the I/O counters with their totals.
\<close>

section \<open>Addresses\<close>

type_synonym raw_addr = "string \<times> int \<times> string option \<times> string option \<times> string option \<times> string option"

definition if_addrs_call :: "('z sys_scheme, raw_addr list) py" where
  "if_addrs_call = sys_ask SIfAddrs os_if_addrs"

text \<open>
  \<open>broadcast_addr\<close>, for the families it is called with on POSIX: its \<open>AF_INET6\<close> branch is
  only reached on Windows.
\<close>

definition broadcast_addr :: "snicaddr \<Rightarrow> exn + string option" where
  "broadcast_addr addr = (case (na_address addr, na_netmask addr) of
      (Some a, Some m) \<Rightarrow>
        if a = [] \<or> m = [] \<or> na_family addr \<noteq> AF_INET then Inr None
        else bindE (ip4_network (a @ ''/'' @ m)) (\<lambda>net.
          Inr (if snd net = 32 then None else Some (ip4_string (ip4_broadcast net))))
    | _ \<Rightarrow> Inr None)"

text \<open>The loop that completes a MAC address.\<close>

function pad_mac :: "string \<Rightarrow> string" where
  "pad_mac addr = (if count_list addr (CHR '':'') < 5 then pad_mac (addr @ '':00'') else addr)"
  by pat_completeness auto
termination by (relation "measure (\<lambda>addr. 5 - count_list addr (CHR '':''))") auto

declare pad_mac.simps [simp del]

text \<open>The body of the loop of \<open>net_if_addrs\<close>; a failing \<open>broadcast_addr\<close> only warns.\<close>

definition nic_addr :: "raw_addr \<Rightarrow> exn + snicaddr" where
  "nic_addr raw = (case raw of (name, fam, addr0, netmask, broadcast, ptp) \<Rightarrow>
     bindE (if fam = AF_LINK then map_sum id (\<lambda>a. Some (pad_mac a)) (of_option AttributeError addr0)
            else Inr addr0) (\<lambda>addr.
     let nt = \<lparr>na_family = fam, na_address = addr, na_netmask = netmask, na_broadcast = broadcast, na_ptp = ptp\<rparr>
     in Inr (if netmask \<noteq> None \<and> netmask \<noteq> Some [] \<and> fam = AF_INET \<and> broadcast_addr nt = Inr None
             then nt\<lparr>na_broadcast := None\<rparr> else nt)))"

definition nic_step :: "raw_addr \<Rightarrow> (string, snicaddr list) dict \<Rightarrow> exn + (string, snicaddr list) dict" where
  "nic_step raw d = bindE (nic_addr raw) (\<lambda>nt.
     Inr (AList.update (fst raw) (dict_get d (fst raw) [] @ [nt]) d))"

definition net_if_addrs :: "('z sys_scheme, (string, snicaddr list) dict) py" where
  "net_if_addrs = bnd if_addrs_call (\<lambda>rawlist.
     liftE (foldE nic_step (sort_key (\<lambda>x. fst (snd x)) rawlist) []))"

lemma pad_mac_colons: "5 \<le> count_list (pad_mac addr) (CHR '':'')"
proof (induction addr rule: pad_mac.induct)
  case (1 addr)
  then show ?case by (subst pad_mac.simps) (simp add: not_less)
qed

lemma pad_mac_prefix: "\<exists>t. pad_mac addr = addr @ t"
proof (induction addr rule: pad_mac.induct)
  case (1 addr)
  then show ?case by (subst pad_mac.simps) auto
qed

lemma pad_mac_full: "count_list addr (CHR '':'') = 5 \<Longrightarrow> pad_mac addr = addr"
  by (subst pad_mac.simps) simp

text \<open>What becomes of one address, given that a MAC address is there.\<close>

definition raw_ok :: "raw_addr \<Rightarrow> bool" where
  "raw_ok raw \<longleftrightarrow> (case raw of (name, fam, addr, _) \<Rightarrow> fam = AF_LINK \<longrightarrow> addr \<noteq> None)"

lemma nic_addr_ok:
  assumes "raw_ok raw"
  shows "\<exists>nt. nic_addr raw = Inr nt \<and> na_family nt = fst (snd raw)"
  using assms by (auto simp: raw_ok_def nic_addr_def Let_def split: prod.splits)

text \<open>
  A host address has no broadcast address, any other keeps the one the kernel gave, and
  the netmask is read from its dotted quads.
\<close>

lemma broadcast_addr_masked:
  assumes "0 \<le> n" "n < 2 ^ 32" "p \<le> 32"
    and "na_address nt = Some (ip4_string n)" "na_netmask nt = Some (ip4_string (ip4_netmask p))"
    and "na_family nt = AF_INET"
  shows "broadcast_addr nt = Inr (if p = 32 then None
     else Some (ip4_string (n div 2 ^ (32 - p) * 2 ^ (32 - p) + (2 ^ (32 - p) - 1))))"
proof -
  have "ip4_string i \<noteq> []" for i using nat_str_digits by (simp add: ip4_string_def)
  moreover have "n - n mod 2 ^ (32 - p) = n div 2 ^ (32 - p) * 2 ^ (32 - p)" by (simp add: minus_mod_eq_div_mult)
  ultimately show ?thesis
    using assms(4-6) ip4_network_masked [OF assms(1-3)] by (simp add: broadcast_addr_def ip4_broadcast_def)
qed

section \<open>Grouping by interface\<close>

definition nic_entry :: "raw_addr \<Rightarrow> snicaddr" where
  "nic_entry raw = projr (nic_addr raw)"

definition nic_list :: "string \<Rightarrow> raw_addr list \<Rightarrow> snicaddr list" where
  "nic_list name raws = map nic_entry (filter (\<lambda>raw. fst raw = name) raws)"

lemma nic_steps:
  assumes "list_all raw_ok raws" "dict_ok d"
  shows "\<exists>e. foldE nic_step raws d = Inr e \<and> dict_ok e
     \<and> set (dict_keys e) = set (dict_keys d) \<union> fst ` set raws
     \<and> (\<forall>name. dict_get e name [] = dict_get d name [] @ nic_list name raws)"
  using assms
proof (induction raws arbitrary: d)
  case Nil
  then show ?case by (simp add: nic_list_def)
next
  case (Cons raw raws)
  obtain nt where nt: "nic_addr raw = Inr nt" using nic_addr_ok [of raw] Cons.prems by auto
  let ?d = "AList.update (fst raw) (dict_get d (fst raw) [] @ [nt]) d"
  have "dict_ok ?d" using Cons.prems by (intro dict_ok_update)
  with Cons obtain e where e: "foldE nic_step raws ?d = Inr e" "dict_ok e"
    "set (dict_keys e) = set (dict_keys ?d) \<union> fst ` set raws"
    "\<forall>name. dict_get e name [] = dict_get ?d name [] @ nic_list name raws" by fastforce
  have "foldE nic_step (raw # raws) d = Inr e" using e(1) nt by (simp add: nic_step_def)
  moreover have "set (dict_keys e) = set (dict_keys d) \<union> fst ` set (raw # raws)"
    unfolding e(3) set_keys_update by auto
  moreover have "nic_list name (raw # raws) = (if fst raw = name then [nt] else []) @ nic_list name raws" for name
    using nt by (simp add: nic_list_def nic_entry_def)
  then have "\<forall>name. dict_get e name [] = dict_get d name [] @ nic_list name (raw # raws)"
    using e(4) by simp
  ultimately show ?case using e(2) by blast
qed

lemma filter_sort_key: "filter P (sort_key f xs) = sort_key f (filter P xs)"
  by (induction xs) (simp_all add: filter_insort_triv filter_insort)

text \<open>
  C21: when the addresses the system gives are well formed, every interface is listed once, with all its addresses: first in order of the family,
  within a family in the order of the system; and a MAC address is filled up to six bytes.
\<close>

theorem net_if_addrs_by_interface:
  assumes "os_if_addrs (sys_os s) (hist s) = raws" and "list_all raw_ok raws"
  shows "\<exists>d t. net_if_addrs s = (Inr d, t) \<and> dict_ok d \<and> set (dict_keys d) = fst ` set raws
     \<and> (\<forall>name. dict_get d name [] = nic_list name (sort_key (\<lambda>x. fst (snd x)) raws)
          \<and> sorted (map na_family (dict_get d name []))
          \<and> (\<forall>fam. filter (\<lambda>nt. na_family nt = fam) (dict_get d name [])
               = map nic_entry (filter (\<lambda>raw. fst raw = name \<and> fst (snd raw) = fam) raws))
          \<and> (\<forall>nt \<in> set (dict_get d name []). na_family nt = AF_LINK \<longrightarrow>
               (\<exists>mac. na_address nt = Some mac \<and> 5 \<le> count_list mac (CHR '':''))))"
proof -
  let ?raws = "sort_key (\<lambda>x. fst (snd x)) raws"
  have ok: "list_all raw_ok ?raws" using assms(2) by (simp add: list_all_iff)
  obtain d where d: "foldE nic_step ?raws [] = Inr d" "dict_ok d" "set (dict_keys d) = fst ` set raws"
    "\<forall>name. dict_get d name [] = nic_list name ?raws"
    using nic_steps [OF ok, of "[]"] by auto
  have fam: "na_family (nic_entry raw) = fst (snd raw)" if "raw \<in> set raws" for raw
    using that nic_addr_ok [of raw] assms(2) by (auto simp: list_all_iff nic_entry_def)
  have fams: "map na_family (nic_list name ?raws) = map (\<lambda>x. fst (snd x)) (filter (\<lambda>raw. fst raw = name) ?raws)" for name
    by (auto simp: nic_list_def fam)
  have sorted: "sorted (map na_family (nic_list name ?raws))" for name
    unfolding fams filter_sort_key by simp
  have stable: "filter (\<lambda>nt. na_family nt = fam) (nic_list name ?raws)
      = map nic_entry (filter (\<lambda>raw. fst raw = name \<and> fst (snd raw) = fam) raws)" for name fam
  proof -
    have "filter (\<lambda>nt. na_family nt = fam) (nic_list name ?raws)
        = map nic_entry (filter (\<lambda>raw. fst (snd raw) = fam) (filter (\<lambda>raw. fst raw = name) ?raws))"
      by (auto simp: nic_list_def filter_map o_def fam intro!: arg_cong [where f = "map nic_entry"] filter_cong)
    also have "\<dots> = map nic_entry (filter (\<lambda>raw. fst raw = name) (filter (\<lambda>raw. fst (snd raw) = fam) ?raws))"
      by (simp add: conj_commute)
    also have "\<dots> = map nic_entry (filter (\<lambda>raw. fst raw = name) (filter (\<lambda>raw. fst (snd raw) = fam) raws))"
      unfolding sort_key_stable ..
    finally show ?thesis by (simp add: conj_commute)
  qed
  have mac: "\<exists>mac. na_address nt = Some mac \<and> 5 \<le> count_list mac (CHR '':'')"
    if "nt \<in> set (nic_list name ?raws)" "na_family nt = AF_LINK" for name nt
  proof -
    from that(1) obtain raw where raw: "raw \<in> set raws" "nt = nic_entry raw" by (auto simp: nic_list_def)
    then have "raw_ok raw" "fst (snd raw) = AF_LINK" using assms(2) that(2) fam by (auto simp: list_all_iff)
    then show ?thesis using raw(2) pad_mac_colons
      by (auto simp: raw_ok_def nic_entry_def nic_addr_def Let_def AF_INET_def AF_LINK_def split: prod.splits)
  qed
  have "net_if_addrs s = (Inr d, s\<lparr>hist := SIfAddrs # hist s\<rparr>)"
    using d(1) assms(1) by (simp add: net_if_addrs_def if_addrs_call_def)
  then show ?thesis using d sorted stable mac by (intro exI [of _ d]) auto
qed

section \<open>The I/O counters\<close>

text \<open>A call under one name leaves what is kept under the others as it was.\<close>

definition only_name :: "string \<Rightarrow> 'k wn_state \<Rightarrow> 'k wn_state \<Rightarrow> bool" where
  "only_name name s t \<longleftrightarrow> (\<forall>n. n \<noteq> name \<longrightarrow> map_of (wn_cache t) n = map_of (wn_cache s) n
     \<and> map_of (wn_reminders t) n = map_of (wn_reminders s) n
     \<and> map_of (wn_reminder_keys t) n = map_of (wn_reminder_keys s) n)"

interpretation only: preserved "only_name name" for name
  by unfold_locales (simp_all add: only_name_def)

lemmas wn_steps = wn_run_def add_dict_def remove_dead_reminders_def run_key_def run_field_def
  drop_gone_key_def del_reminder_def add_reminder_def add_reminder_key_def get_reminder_def dict_at_def

lemma pres_only_modify:
  "(\<And>s. only_name name s (f s)) \<Longrightarrow> pres (only_name name) (modify f)"
  by (rule only.pres_modify)

lemma pres_wn_run: "pres (only_name name) (wn_run inp name)"
  unfolding wn_steps
  by (auto intro!: only.pres_bnd only.pres_if only.pres_gets only.pres_assert only.pres_ret only.pres_liftE
      only.pres_for_each only.pres_modify simp: only_name_def set_rem_def set_remk_def split: option.splits)

lemma only_name_names:
  assumes "only_name name s t" "wn_names s" "map_of (wn_cache t) name \<noteq> None"
  shows "wn_names t"
  unfolding wn_names_def
proof (intro allI impI)
  fix n
  assume "n \<notin> set (dict_keys (wn_cache t))"
  then have n: "map_of (wn_cache t) n = None" by (simp add: map_of_eq_None_iff)
  with assms(3) have "n \<noteq> name" by auto
  with assms(1) have same: "map_of (wn_cache s) n = None" "map_of (wn_reminders t) n = map_of (wn_reminders s) n"
    "map_of (wn_reminder_keys t) n = map_of (wn_reminder_keys s) n" using n by (auto simp: only_name_def)
  then show "map_of (wn_reminders t) n = None \<and> map_of (wn_reminder_keys t) n = None"
    using assms(2) by (simp add: wn_names_def map_of_eq_None_iff)
qed

text \<open>What holds of the counters' state between two calls, for tuples of \<open>k\<close> numbers.\<close>

definition wn_ok :: "string \<Rightarrow> nat \<Rightarrow> string wn_state \<Rightarrow> bool" where
  "wn_ok name k w \<longleftrightarrow> wn_names w \<and> (\<forall>old. map_of (wn_cache w) name = Some old \<longrightarrow>
     wn_inv w name old \<and> (\<forall>kv \<in> set old. length (snd kv) = k))"

definition rows_ok :: "nat \<Rightarrow> (string, int list) dict \<Rightarrow> bool" where
  "rows_ok k d \<longleftrightarrow> dict_ok d \<and> (\<forall>kv \<in> set d. length (snd kv) = k)"

lemma wn_ok_init: "wn_ok name k wn_init"
  by (simp add: wn_ok_def wn_init_def wn_names_def)

lemma rows_ok_widths: "rows_ok k inp \<Longrightarrow> \<forall>kv \<in> set old. length (snd kv) = k \<Longrightarrow> widths_ok old inp"
  unfolding rows_ok_def widths_ok_def using map_of_SomeD by fastforce

text \<open>The offsets a call works with are those before it, brought up to date.\<close>

definition off_after :: "string wn_state \<Rightarrow> string \<Rightarrow> (string, int list) dict \<Rightarrow> string remkey \<Rightarrow> int" where
  "off_after w name inp = (case map_of (wn_cache w) name of
      None \<Rightarrow> (\<lambda>_. 0) | Some old \<Rightarrow> new_off old inp (off_of w name))"

lemma wrap_numbers_step:
  assumes "wn_ok name k w" "rows_ok k inp"
  shows "\<exists>w'. wrap_numbers inp name w = (Inr (map (report (off_of w' name)) inp), w') \<and> wn_ok name k w'
     \<and> map_of (wn_cache w') name = Some inp \<and> off_of w' name = off_after w name inp"
proof -
  have rep: "map (report (\<lambda>_. 0)) inp = inp"
    by (induction inp) (simp_all add: report_def map_nth)
  have "\<exists>w'. wn_run inp name w = (Inr (map (report (off_of w' name)) inp), w') \<and> wn_inv w' name inp
      \<and> off_of w' name = off_after w name inp"
  proof (cases "map_of (wn_cache w) name")
    case None
    then have "name \<notin> set (dict_keys (wn_cache w))" by (simp add: map_of_eq_None_iff)
    with wn_run_first [of w name inp] assms obtain w' where w': "wn_run inp name w = (Inr inp, w')"
      "wn_inv w' name inp" "\<forall>rk. off_of w' name rk = 0" by (auto simp: wn_ok_def rows_ok_def)
    from w'(3) have "off_of w' name = (\<lambda>_. 0)" by auto
    with w' rep None show ?thesis by (auto simp: off_after_def)
  next
    case (Some old)
    then have "wn_inv w name old" "widths_ok old inp" "dict_ok inp"
      using assms rows_ok_widths [OF assms(2)] by (auto simp: wn_ok_def rows_ok_def)
    with wn_run_next [of w name old inp] Some show ?thesis by (auto simp: off_after_def)
  qed
  then obtain w' where w': "wn_run inp name w = (Inr (map (report (off_of w' name)) inp), w')"
    "wn_inv w' name inp" "off_of w' name = off_after w name inp" by blast
  have c: "map_of (wn_cache w') name = Some inp" using w'(2) by (simp add: wn_inv_def)
  have un: "only_name name w w'" using pres_wn_run w'(1) by (rule presD)
  have "wn_names w'" using only_name_names [OF un] assms(1) c by (simp add: wn_ok_def)
  then have "wn_ok name k w'" using w'(2) c assms(2) by (auto simp: wn_ok_def rows_ok_def)
  then show ?thesis using w' c by (auto simp: wrap_numbers_def)
qed

section \<open>Totals\<close>

definition snetio_list :: "snetio \<Rightarrow> int list" where
  "snetio_list t = [nio_bytes_sent t, nio_bytes_recv t, nio_packets_sent t, nio_packets_recv t,
     nio_errin t, nio_errout t, nio_dropin t, nio_dropout t]"

lemma snetio_make_list: "snetio_make xs = Inr t \<longleftrightarrow> xs = snetio_list t"
  by (auto simp: snetio_make_def snetio_list_def split: list.splits)

lemma snetio_make_ok: "length xs = 8 \<Longrightarrow> \<exists>t. snetio_make xs = Inr t"
  by (auto simp: snetio_make_def numeral_eq_Suc length_Suc_conv)

lemma min_width_rows: "rows \<noteq> [] \<Longrightarrow> \<forall>r \<in> set rows. length r = k \<Longrightarrow> min_width rows = k"
proof -
  have "fold min (map length rs) k = k" if "\<forall>r \<in> set rs. length r = k" for rs :: "int list list"
    using that by (induction rs) auto
  then show "rows \<noteq> [] \<Longrightarrow> \<forall>r \<in> set rows. length r = k \<Longrightarrow> min_width rows = k"
    by (cases rows) (auto simp: min_width_def)
qed

lemma net_dev_rows:
  assumes "linux_net_io_counters s = (Inr raw, t)"
  shows "rows_ok 8 raw"
proof -
  have step: "rows_ok 8 e" if "net_dev_line line d = Inr e" "rows_ok 8 d" for line d e
  proof -
    from that(1) obtain name v where e: "e = AList.update name v d" "length v = 8"
      by (auto simp: net_dev_line_def Let_def bindE_def split: if_split_asm sum.split_asm list.split_asm)
    have "\<forall>kv \<in> set (AList.update name v d). length (snd kv) = 8"
      using that(2) e(2) by (induction d) (auto simp: rows_ok_def split: if_splits)
    then show ?thesis using that(2) e(1) dict_ok_update [of d] by (simp add: rows_ok_def)
  qed
  from assms obtain ls where "foldE net_dev_line ls [] = Inr raw"
    by (auto simp: linux_net_io_counters_def bnd_Inr simp del: bnd_run)
  from foldE_inv [OF this, of "rows_ok 8"] step show ?thesis by (auto simp: rows_ok_def)
qed

lemma net_io_only_reads: "pres (confined read_calls) linux_net_io_counters"
  unfolding linux_net_io_counters_def by (intro pres_intros)

lemma net_io_state:
  assumes "linux_net_io_counters s = (x, t)"
  shows "g_wn t = g_wn (s :: 'z ustate_scheme)"
proof -
  have "confined read_calls s t" using net_io_only_reads assms by (rule presD)
  then have "sys.more t = sys.more s" by (simp add: confined_def)
  then show ?thesis by (cases s; cases t) simp
qed

text \<open>
  The totals of \<open>net_io_counters\<close> are, field by field, the sums of what it returns per
  interface in the same state, and both calls leave the same state.
\<close>

theorem net_totals_are_sums:
  assumes "psutil_net_io_counters True nowrap s = (Inr (IoDict d), t)" and "d \<noteq> []"
  shows "\<exists>tot. psutil_net_io_counters False nowrap s = (Inr (IoTotal tot), t)
     \<and> snetio_list tot = map (\<lambda>i. \<Sum>kv\<leftarrow>d. snetio_list (snd kv) ! i) [0..<8]"
proof -
  from assms obtain raw u counters v where raw: "linux_net_io_counters s = (Inr raw, u)" "raw \<noteq> []"
    and cnt: "(if nowrap then wn_lift (wrap_numbers raw ''psutil.net_io_counters'') else ret raw) u = (Inr counters, t)"
    and make: "mapE (\<lambda>kv. bindE (snetio_make (snd kv)) (\<lambda>t. Inr (fst kv, t))) counters = Inr d"
    by (auto simp: psutil_net_io_counters_def bnd_Inr io_result_of_def bindE_eq_Inr simp del: bnd_run split: if_splits)
  have rows: "map snd counters = map (snetio_list \<circ> snd) d"
    using make by (induction counters arbitrary: d) (auto simp: bindE_eq_Inr snetio_make_list split: sum.splits)
  have "counters \<noteq> []" using make assms(2) by auto
  then have "min_width (map snd counters) = 8"
    unfolding rows using rows by (intro min_width_rows) (auto simp: snetio_list_def)
  then have add: "add_columns (map snd counters) = map (\<lambda>i. \<Sum>kv\<leftarrow>d. snetio_list (snd kv) ! i) [0..<8]"
    unfolding add_columns_def rows by (simp add: o_def)
  then obtain tot where "snetio_make (add_columns (map snd counters)) = Inr tot"
    using snetio_make_ok [of "add_columns (map snd counters)"] by auto
  then have "psutil_net_io_counters False nowrap s = (Inr (IoTotal tot), t)"
    using raw cnt by (simp add: psutil_net_io_counters_def io_result_of_def)
  moreover have "snetio_list tot = add_columns (map snd counters)"
    using \<open>snetio_make (add_columns (map snd counters)) = Inr tot\<close> by (simp add: snetio_make_list)
  ultimately show ?thesis using add by auto
qed

text \<open>A call without \<open>pernic\<close>, in terms of the offsets.\<close>

abbreviation net_name :: string where "net_name \<equiv> ''psutil.net_io_counters''"

lemma net_total_run:
  assumes ok: "wn_ok net_name 8 (g_wn s)" and raw: "linux_net_io_counters s = (Inr raw, u)" and ne: "raw \<noteq> []"
  shows "\<exists>tot t. psutil_net_io_counters False True s = (Inr (IoTotal tot), t)
     \<and> wn_ok net_name 8 (g_wn t) \<and> map_of (wn_cache (g_wn t)) net_name = Some raw
     \<and> off_of (g_wn t) net_name = off_after (g_wn s) net_name raw
     \<and> snetio_list tot = map (\<lambda>i. \<Sum>kv\<leftarrow>raw. snd kv ! i + off_of (g_wn t) net_name (fst kv, i)) [0..<8]"
proof -
  have rows: "rows_ok 8 raw" using raw by (rule net_dev_rows)
  obtain w where w: "wrap_numbers raw net_name (g_wn s) = (Inr (map (report (off_of w net_name)) raw), w)"
    "wn_ok net_name 8 w" "map_of (wn_cache w) net_name = Some raw"
    "off_of w net_name = off_after (g_wn s) net_name raw"
    using wrap_numbers_step [OF ok rows] by blast
  let ?out = "map (report (off_of w net_name)) raw"
  have "\<forall>r \<in> set (map snd ?out). length r = 8" using rows by (auto simp: rows_ok_def report_def)
  then have mw: "min_width (map snd ?out) = 8" using ne by (intro min_width_rows) simp_all
  have item: "snd (report (off_of w net_name) kv) ! i = snd kv ! i + off_of w net_name (fst kv, i)"
    if "kv \<in> set raw" "i < 8" for kv i
    using that rows by (simp add: report_def rows_ok_def)
  have add: "add_columns (map snd ?out)
      = map (\<lambda>i. \<Sum>kv\<leftarrow>raw. snd kv ! i + off_of w net_name (fst kv, i)) [0..<8]"
    unfolding add_columns_def mw
    by (auto simp: item o_def intro!: arg_cong [where f = sum_list] map_cong)
  then obtain tot where tot: "snetio_make (add_columns (map snd ?out)) = Inr tot"
    using snetio_make_ok [of "add_columns (map snd ?out)"] by auto
  have "psutil_net_io_counters False True s = (Inr (IoTotal tot), u\<lparr>g_wn := w\<rparr>)"
    using raw ne w(1) tot net_io_state [OF raw]
    by (simp add: psutil_net_io_counters_def wn_lift_def io_result_of_def)
  moreover have "snetio_list tot = add_columns (map snd ?out)" using tot by (simp add: snetio_make_list)
  ultimately show ?thesis using w(2-4) add by auto
qed

lemma dict_sum:
  fixes f :: "'k \<Rightarrow> 'v \<Rightarrow> int"
  assumes "dict_ok d"
  shows "(\<Sum>kv\<leftarrow>d. f (fst kv) (snd kv)) = (\<Sum>k\<in>set (dict_keys d). f k (the (map_of d k)))"
proof -
  have "(\<Sum>kv\<leftarrow>d. f (fst kv) (snd kv)) = (\<Sum>kv\<leftarrow>d. f (fst kv) (the (map_of d (fst kv))))"
    using assms by (intro arg_cong [where f = sum_list] map_cong) auto
  also have "\<dots> = sum_list (map (\<lambda>k. f k (the (map_of d k))) (dict_keys d))" by (simp add: o_def)
  also have "\<dots> = (\<Sum>k\<in>set (dict_keys d). f k (the (map_of d k)))"
    using assms by (rule sum_list_distinct_conv_sum_set)
  finally show ?thesis .
qed

lemma reported_sum_mono:
  assumes "rows_ok 8 old" "rows_ok 8 new" "set (dict_keys old) \<subseteq> set (dict_keys new)"
    and pos: "\<forall>kv \<in> set new. \<forall>n \<in> set (snd kv). 0 \<le> n" and i: "i < 8"
  shows "(\<Sum>kv\<leftarrow>old. snd kv ! i + off (fst kv, i)) \<le> (\<Sum>kv\<leftarrow>new. snd kv ! i + new_off old new off (fst kv, i))"
proof -
  have ok: "dict_ok old" "dict_ok new" using assms(1,2) by (auto simp: rows_ok_def)
  let ?f = "\<lambda>k. the (map_of old k) ! i + off (k, i)"
  let ?g = "\<lambda>k. the (map_of new k) ! i + new_off old new off (k, i)"
  have new: "\<exists>v. map_of new k = Some v \<and> length v = 8 \<and> 0 \<le> v ! i" if "k \<in> set (dict_keys new)" for k
  proof -
    from that obtain v where "map_of new k = Some v" by (cases "map_of new k") (auto simp: map_of_eq_None_iff)
    moreover from this have "(k, v) \<in> set new" by (rule map_of_SomeD)
    then have "length v = 8" "\<forall>n \<in> set v. 0 \<le> n" using assms(2) pos by (auto simp: rows_ok_def)
    ultimately show ?thesis using i by simp
  qed
  have le: "?f k \<le> ?g k" if "k \<in> set (dict_keys old)" for k
  proof -
    from that obtain u where "map_of old k = Some u" by (cases "map_of old k") (auto simp: map_of_eq_None_iff)
    moreover from that assms(3) have "k \<in> set (dict_keys new)" by blast
    with new obtain v where "map_of new k = Some v" "length v = 8" "0 \<le> v ! i" by blast
    ultimately show ?thesis using i by (simp add: new_off_def wrapped_def)
  qed
  have extra: "0 \<le> ?g k" if "k \<in> set (dict_keys new) - set (dict_keys old)" for k
    using that new [of k] by (auto simp: new_off_def map_of_eq_None_iff [symmetric])
  have "(\<Sum>k\<in>set (dict_keys old). ?f k) \<le> (\<Sum>k\<in>set (dict_keys old). ?g k)" using le by (rule sum_mono)
  also have "\<dots> \<le> (\<Sum>k\<in>set (dict_keys new). ?g k)" using assms(3) extra by (intro sum_mono2) auto
  finally show ?thesis
    unfolding dict_sum [OF ok(1), of "\<lambda>k v. v ! i + off (k, i)"]
      dict_sum [OF ok(2), of "\<lambda>k v. v ! i + new_off old new off (k, i)"] .
qed

text \<open>
  C20: the totals of \<open>net_io_counters\<close> never decrease from one call to the next while no
  interface disappears, also when counters of the kernel wrapped around and restarted from
  zero in between; and the state is again one from which this holds.
\<close>

theorem net_totals_never_decrease:
  assumes "wn_ok net_name 8 (g_wn s)"
    and "linux_net_io_counters s = (Inr raw, s1)" and "raw \<noteq> []"
    and "psutil_net_io_counters False True s = (Inr (IoTotal a), t)" and "g_wn t' = g_wn t"
    and "linux_net_io_counters t' = (Inr raw', t1)"
    and "set (dict_keys raw) \<subseteq> set (dict_keys raw')" and "\<forall>kv \<in> set raw'. \<forall>n \<in> set (snd kv). 0 \<le> n"
  shows "\<exists>b u. psutil_net_io_counters False True t' = (Inr (IoTotal b), u) \<and> wn_ok net_name 8 (g_wn u)
     \<and> list_all2 (\<le>) (snetio_list a) (snetio_list b)"
proof -
  from net_total_run [OF assms(1,2,3)] assms(4) have t: "wn_ok net_name 8 (g_wn t)"
    "map_of (wn_cache (g_wn t)) net_name = Some raw"
    "snetio_list a = map (\<lambda>i. \<Sum>kv\<leftarrow>raw. snd kv ! i + off_of (g_wn t) net_name (fst kv, i)) [0..<8]" by auto
  have "raw' \<noteq> []" using assms(3,7) by auto
  with net_total_run [of t' raw' t1] t(1) assms(5,6) obtain b u where
    b: "psutil_net_io_counters False True t' = (Inr (IoTotal b), u)" "wn_ok net_name 8 (g_wn u)"
      "off_of (g_wn u) net_name = off_after (g_wn t') net_name raw'"
      "snetio_list b = map (\<lambda>i. \<Sum>kv\<leftarrow>raw'. snd kv ! i + off_of (g_wn u) net_name (fst kv, i)) [0..<8]"
    by auto
  have off: "off_of (g_wn u) net_name = new_off raw raw' (off_of (g_wn t) net_name)"
    using b(3) t(2) assms(5) by (simp add: off_after_def)
  have "list_all2 (\<le>) (snetio_list a) (snetio_list b)"
    unfolding t(3) b(4) off
    using reported_sum_mono [OF net_dev_rows [OF assms(2)] net_dev_rows [OF assms(6)] assms(7,8)]
    by (auto simp: list_all2_conv_all_nth)
  then show ?thesis using b(1,2) by blast
qed

section \<open>Examples\<close>

text \<open>An interface whose byte counters restart between two reads.\<close>

definition net_text :: "nat \<Rightarrow> string" where
  "net_text n = net_dev_header @ concat (map net_dev_text [(''eth0'', n # replicate 15 0)])"

definition net_state :: ustate where
  "net_state = demo_state\<lparr>sys_os := null_os\<lparr>os_read := \<lambda>h p. Inr (net_text (if h = [] then 90 else 5)),
     os_if_addrs := \<lambda>h. [(''eth0'', AF_INET, Some ''10.0.0.7'', Some ''255.255.255.255'', Some ''10.0.0.7'', None),
       (''eth0'', AF_LINK, Some ''00:1a'', None, None, None)]\<rparr>\<rparr>"

lemma net_text_read:
  assumes "sys_os s = sys_os net_state"
  shows "linux_net_io_counters s
     = (Inr [(''eth0'', [0, if hist s = [] then 90 else 5, 0, 0, 0, 0, 0, 0])],
        s\<lparr>hist := SRead (procfs_path s @ ''/net/dev'') # hist s\<rparr>)"
proof -
  let ?e = "(''eth0'', (if hist s = [] then 90 else 5 :: nat) # replicate 15 0)"
  have w: "word_ok ''eth0''" by (simp add: word_ok_def ws_def)
  have "foldE net_dev_line (drop 2 (lines (net_dev_header @ concat (map net_dev_text [?e])))) []
      = Inr [(''eth0'', net_dev_tuple (snd ?e))]"
    using net_dev_lines [of "[?e]"] net_dev_fold [of "[]" "[?e]"] w by simp
  moreover have "net_dev_tuple (snd ?e) = [0, if hist s = [] then 90 else 5, 0, 0, 0, 0, 0, 0]"
    by (simp add: net_dev_tuple_def numeral_eq_Suc)
  ultimately show ?thesis
    using assms by (simp add: linux_net_io_counters_def read_file_def net_state_def net_text_def)
qed

lemma net_state_simps [simp]: "hist net_state = []" "g_wn net_state = wn_init"
  by (simp_all add: net_state_def demo_state_def ustate.defs lsys.defs)

theorem net_if_addrs_by_interface_witness:
  "\<exists>d t. net_if_addrs net_state = (Inr d, t) \<and> set (dict_keys d) = {''eth0''}
     \<and> sorted (map na_family (dict_get d ''eth0'' []))"
proof -
  have r: "os_if_addrs (sys_os net_state) (hist net_state) = os_if_addrs (sys_os net_state) []" by simp
  have ok: "list_all raw_ok (os_if_addrs (sys_os net_state) [])" by (simp add: net_state_def raw_ok_def)
  have k: "fst ` set (os_if_addrs (sys_os net_state) []) = {''eth0''}" by (simp add: net_state_def)
  from net_if_addrs_by_interface [OF r ok] obtain d t where d: "net_if_addrs net_state = (Inr d, t)"
    "set (dict_keys d) = fst ` set (os_if_addrs (sys_os net_state) [])"
    "\<forall>name. sorted (map na_family (dict_get d name []))" by (elim exE conjE) (rule that, assumption, assumption, fast)
  show ?thesis by (intro exI [of _ d] exI [of _ t] conjI d(1) trans [OF d(2) k] spec [OF d(3)])
qed

theorem net_totals_are_sums_witness:
  "\<exists>tot t. psutil_net_io_counters False False net_state = (Inr (IoTotal tot), t)
     \<and> snetio_list tot = [0, 90, 0, 0, 0, 0, 0, 0]"
proof -
  obtain x where x: "snetio_make [0, 90, 0, 0, 0, 0, 0, 0] = Inr x"
    using snetio_make_ok [of "[0, 90, 0, 0, 0, 0, 0, 0]"] by auto
  then have l: "snetio_list x = [0, 90, 0, 0, 0, 0, 0, 0]" by (simp add: snetio_make_list)
  have "psutil_net_io_counters True False net_state
      = (Inr (IoDict [(''eth0'', x)]), net_state\<lparr>hist := [SRead (procfs_path net_state @ ''/net/dev'')]\<rparr>)"
    using x by (simp add: psutil_net_io_counters_def net_text_read io_result_of_def)
  from net_totals_are_sums [OF this] obtain tot t where
    "psutil_net_io_counters False False net_state = (Inr (IoTotal tot), t)"
    "snetio_list tot = map (\<lambda>i. [0, 90, 0, 0, 0, 0, 0, 0] ! i) [0..<8]" using l by auto
  then show ?thesis by (simp add: upt_rec)
qed

theorem net_totals_never_decrease_witness:
  "\<exists>a t b u. psutil_net_io_counters False True net_state = (Inr (IoTotal a), t)
     \<and> psutil_net_io_counters False True t = (Inr (IoTotal b), u) \<and> nio_bytes_recv a \<le> nio_bytes_recv b"
proof -
  have ok: "wn_ok net_name 8 (g_wn net_state)" by (simp add: wn_ok_init)
  have r1: "linux_net_io_counters net_state = (Inr [(''eth0'', [0, 90, 0, 0, 0, 0, 0, 0])],
      net_state\<lparr>hist := [SRead (procfs_path net_state @ ''/net/dev'')]\<rparr>)"
    by (simp add: net_text_read)
  obtain a t where a: "psutil_net_io_counters False True net_state = (Inr (IoTotal a), t)"
    using net_total_run [OF ok r1] by auto
  have t: "sys_os t = sys_os net_state" "hist t \<noteq> []"
    using a r1 by (auto simp: psutil_net_io_counters_def wn_lift_def split: sum.splits prod.splits)
  then have r2: "linux_net_io_counters t = (Inr [(''eth0'', [0, 5, 0, 0, 0, 0, 0, 0])],
      t\<lparr>hist := SRead (procfs_path t @ ''/net/dev'') # hist t\<rparr>)"
    by (simp add: net_text_read)
  from net_totals_never_decrease [OF ok r1 _ a refl r2] obtain b u where
    "psutil_net_io_counters False True t = (Inr (IoTotal b), u)"
    "list_all2 (\<le>) (snetio_list a) (snetio_list b)" by auto
  with a show ?thesis by (auto simp: snetio_list_def)
qed

end
