(* ===== verification/Py_Float_Error.thy ===== *)
theory Py_Float_Error
  imports Py_Float
begin

text \<open>How far a rounded result is from the exact one.\<close>

lemma near: "\<bar>a - b\<bar> \<le> e \<longleftrightarrow> b - e \<le> a \<and> a \<le> b + (e :: rat)"
  by (auto simp: abs_le_iff)

lemma rhe_error: "\<bar>of_int (rhe x) - x\<bar> \<le> 1 / 2"
proof -
  have "x = of_int \<lfloor>x\<rfloor> + frac x" "0 \<le> frac x" "frac x < 1"
    by (simp_all add: frac_def frac_lt_1 [unfolded frac_def])
  then show ?thesis unfolding rhe_def Let_def frac_def by auto
qed

lemma fl_error_pos:
  assumes "0 < x" "x \<le> b" "2 powi (-1000) \<le> b"
  shows "\<bar>fl x - x\<bar> \<le> b / 2 ^ 53"
proof -
  let ?e = "2 powi (fexp x) :: rat"
  have "fl x - x = (of_int (rhe (x / ?e)) - x / ?e) * ?e"
    using assms(1) by (simp add: fl_pos_eq left_diff_distrib)
  then have "\<bar>fl x - x\<bar> = \<bar>of_int (rhe (x / ?e)) - x / ?e\<bar> * ?e"
    by (simp add: abs_mult abs_of_pos)
  also have "\<dots> \<le> 1 / 2 * ?e" by (rule mult_right_mono [OF rhe_error]) simp
  also have "\<dots> \<le> b / 2 ^ 53"
  proof (cases "fexp x = bexp x - 52")
    case True
    then have "?e * 2 ^ 52 = 2 powi (bexp x)" by (simp add: power_int_diff)
    then have "?e * 2 ^ 52 \<le> b" using bexp_bounds(1) [OF assms(1)] assms(2) by linarith
    then show ?thesis by (simp add: field_simps)
  next
    case False
    then have f: "fexp x = - 1074" by (simp add: fexp_def max_def split: if_splits)
    have "(2 :: rat) powi (- 1074) * 2 ^ 52 \<le> 2 powi (- 1000)"
    proof -
      have p: "(2 :: rat) powi 52 = 2 ^ 52" by (simp add: power_int_def)
      have "(2 :: rat) powi (- 1074) * 2 powi 52 = 2 powi (- 1074 + 52)"
        by (rule power_int_add [symmetric]) simp
      then have "(2 :: rat) powi (- 1074) * 2 ^ 52 = 2 powi (- 1074 + 52)" unfolding p .
      then show ?thesis by (simp only: powi2_le_iff)
    qed
    then have "?e * 2 ^ 52 \<le> b" unfolding f using assms(3) by (rule order_trans)
    then show ?thesis by (simp add: field_simps)
  qed
  finally show ?thesis .
qed

lemma fl_error:
  assumes "\<bar>x\<bar> \<le> b" "2 powi (-1000) \<le> b"
  shows "\<bar>fl x - x\<bar> \<le> b / 2 ^ 53"
proof -
  have "0 \<le> b" using assms(1) by linarith
  consider "x = 0" | "0 < x" | "x < 0" by linarith
  then show ?thesis
  proof cases
    case 1
    then show ?thesis using \<open>0 \<le> b\<close> by simp
  next
    case 2
    then show ?thesis using fl_error_pos [of x b] assms by simp
  next
    case 3
    then show ?thesis using fl_error_pos [of "- x" b] assms by (simp add: fl_minus abs_minus_commute)
  qed
qed

text \<open>The addition of many numbers that are not negative, one by one.\<close>

lemma foldl_fadd_error:
  assumes "\<forall>x \<in> set xs. 0 \<le> x" "0 \<le> a0" "\<bar>a - a0\<bar> \<le> of_nat m * (b / 2 ^ 53)"
    and "a0 + sum_list xs + of_nat (m + length xs) * (b / 2 ^ 53) \<le> b" "2 powi (-1000) \<le> b"
  shows "\<bar>foldl fadd a xs - (a0 + sum_list xs)\<bar> \<le> of_nat (m + length xs) * (b / 2 ^ 53)"
  using assms(1-4)
proof (induction xs arbitrary: a a0 m)
  case Nil
  then show ?case by simp
next
  case (Cons x xs)
  let ?e = "b / 2 ^ 53"
  have "(0 :: rat) < 2 powi (-1000)" by simp
  with assms(5) have b: "0 < b" by linarith
  have pos: "0 \<le> sum_list xs" "0 \<le> x" "0 \<le> of_nat (length xs) * ?e" "0 \<le> of_nat m * ?e"
    using Cons.prems(1) b by (auto intro!: sum_list_nonneg)
  have split: "of_nat (m + length (x # xs)) * ?e = of_nat m * ?e + ?e + of_nat (length xs) * ?e"
    "of_nat (Suc m) * ?e = of_nat m * ?e + ?e" by (simp_all add: field_simps)
  have "a \<le> a0 + of_nat m * ?e" "a0 - of_nat m * ?e \<le> a" using Cons.prems(3) by - linarith+
  moreover have "a0 + x + sum_list xs + of_nat m * ?e + ?e + of_nat (length xs) * ?e \<le> b"
    using Cons.prems(4) unfolding split by simp
  moreover have "0 \<le> ?e" using b by simp
  ultimately have "\<bar>a + x\<bar> \<le> b" using pos Cons.prems(2) by linarith
  from fl_error [OF this assms(5)] have "\<bar>fadd a x - (a + x)\<bar> \<le> ?e" by (simp add: fadd_def)
  then have step: "\<bar>fadd a x - (a0 + x)\<bar> \<le> of_nat (Suc m) * ?e"
    using Cons.prems(3) unfolding split by linarith
  have "\<bar>foldl fadd (fadd a x) xs - ((a0 + x) + sum_list xs)\<bar> \<le> of_nat (Suc m + length xs) * ?e"
    using Cons.prems pos step by (intro Cons.IH) (simp_all add: add.assoc)
  then show ?case by (simp add: add.assoc)
qed

text \<open>A ratio that is a percentage up to small errors is one after \<open>round(x, 1)\<close>.\<close>

lemma fround1_percent:
  assumes "- (1 / 20) \<le> x" "x \<le> 100 + 1 / 25"
  shows "0 \<le> fround1 x \<and> fround1 x \<le> 100"
proof -
  have "\<lfloor>- (1 / 2) :: rat\<rfloor> = - 1" "\<lfloor>5002 / 5 :: rat\<rfloor> = 1000" by (rule floor_unique; simp)+
  then have "rhe (- (1 / 2)) = 0" "rhe (5002 / 5) = 1000" by (simp_all add: rhe_def Let_def)
  then have "fround1 (- (1 / 20)) = 0" "fround1 (100 + 1 / 25) = 100"
    using fl_of_int [of 100] by (simp_all add: fround1_def)
  with fround1_mono [OF assms(1)] fround1_mono [OF assms(2)] show ?thesis by simp
qed

lemma ratio_percent:
  assumes "- (1 / 10000) \<le> q" "q \<le> 1 + 1 / 10000"
  shows "0 \<le> fround1 (fmul (fl q) 100) \<and> fround1 (fmul (fl q) 100) \<le> 100"
proof (rule fround1_percent)
  have big: "(2 :: rat) powi (-1000) \<le> 2 powi 1" "(2 :: rat) powi (-1000) \<le> 2 powi 7"
    by (simp_all only: powi2_le_iff)
  have "\<bar>q\<bar> \<le> 2" using assms by (simp add: abs_le_iff)
  with fl_error [of q 2] big(1) have e: "\<bar>fl q - q\<bar> \<le> 2 / 2 ^ 53" by simp
  then have fq: "- (2 / 10000) \<le> fl q" "fl q \<le> 1 + 2 / 10000"
    using assms unfolding near by simp_all
  then have "\<bar>fl q * 100\<bar> \<le> 128" by (simp add: abs_le_iff)
  with fl_error [of "fl q * 100" 128] big(2) have "\<bar>fmul (fl q) 100 - fl q * 100\<bar> \<le> 128 / 2 ^ 53"
    by (simp add: fmul_def)
  then show "- (1 / 20) \<le> fmul (fl q) 100" "fmul (fl q) 100 \<le> 100 + 1 / 25"
    using fq unfolding near by simp_all
qed

end
