(* ===== verification/Init_Cpu.thy ===== *)
theory Init_Cpu
  imports Init_System Py_Float_Error
begin

text \<open>
  \<open>cpu_percent\<close> and \<open>cpu_times_percent\<close> of \<open>psutil/__init__.py\<close>: the percentages, and the
  four dicts that remember, per thread, the times of the last call.
\<close>

section \<open>Times and their differences\<close>

text \<open>\<open>sum(times)\<close>: from the left, each addition rounded, as CPython did before version 3.12.\<close>

definition sum_flts :: "flt list \<Rightarrow> flt" where
  "sum_flts xs = foldl fadd 0 xs"

definition cpu_tot_time :: "scputimes \<Rightarrow> flt" where
  "cpu_tot_time ct = fsub (fsub (sum_flts (ct_list ct)) (ct_guest ct)) (ct_guest_nice ct)"

definition cpu_busy_time :: "scputimes \<Rightarrow> flt" where
  "cpu_busy_time ct = fsub (fsub (cpu_tot_time ct) (ct_idle ct)) (ct_iowait ct)"

definition field_delta :: "flt \<Rightarrow> flt \<Rightarrow> flt" where
  "field_delta a b = max 0 (fsub b a)"

definition cpu_times_deltas :: "scputimes \<Rightarrow> scputimes \<Rightarrow> scputimes" where
  "cpu_times_deltas t1 t2 = \<lparr>ct_user = field_delta (ct_user t1) (ct_user t2),
     ct_system = field_delta (ct_system t1) (ct_system t2), ct_idle = field_delta (ct_idle t1) (ct_idle t2),
     ct_nice = field_delta (ct_nice t1) (ct_nice t2), ct_iowait = field_delta (ct_iowait t1) (ct_iowait t2),
     ct_irq = field_delta (ct_irq t1) (ct_irq t2), ct_softirq = field_delta (ct_softirq t1) (ct_softirq t2),
     ct_steal = field_delta (ct_steal t1) (ct_steal t2), ct_guest = field_delta (ct_guest t1) (ct_guest t2),
     ct_guest_nice = field_delta (ct_guest_nice t1) (ct_guest_nice t2)\<rparr>"

text \<open>\<open>calculate\<close> of \<open>cpu_percent\<close>, and that of \<open>cpu_times_percent\<close>.\<close>

definition busy_percent :: "scputimes \<Rightarrow> scputimes \<Rightarrow> flt" where
  "busy_percent t1 t2 = (let times_delta = cpu_times_deltas t1 t2 in
     case fdiv (cpu_busy_time times_delta) (cpu_tot_time times_delta) of
       Inl _ \<Rightarrow> 0
     | Inr q \<Rightarrow> fround1 (fmul q 100))"

definition field_percent :: "flt \<Rightarrow> flt \<Rightarrow> flt" where
  "field_percent scale delta = min (max 0 (fround1 (fmul delta scale))) 100"

definition times_percent :: "scputimes \<Rightarrow> scputimes \<Rightarrow> exn + scputimes" where
  "times_percent t1 t2 = (let times_delta = cpu_times_deltas t1 t2 in
     bindE (fdiv 100 (max 1 (cpu_tot_time times_delta))) (\<lambda>scale.
     ct_make (map (field_percent scale) (ct_list times_delta))))"

section \<open>The four dicts\<close>

text \<open>What the module does when it is imported: no error may escape.\<close>

definition cpu_import :: "('z ustate_scheme, unit) py" where
  "cpu_import = bnd (gets g_tid) (\<lambda>tid.
     bnd (try_else psutil_cpu_times (\<lambda>_. ret []) (\<lambda>t. ret [(tid, t)])) (\<lambda>d.
     bnd (modify (\<lambda>s. s\<lparr>g_last_cpu_times := d\<rparr>)) (\<lambda>_.
     bnd (try_else psutil_per_cpu_times (\<lambda>_. ret []) (\<lambda>ts. ret [(tid, ts)])) (\<lambda>e.
     bnd (modify (\<lambda>s. s\<lparr>g_last_per_cpu_times := e\<rparr>)) (\<lambda>_.
     modify (\<lambda>s. s\<lparr>g_last_cpu_times_2 := g_last_cpu_times s,
                   g_last_per_cpu_times_2 := g_last_per_cpu_times s\<rparr>))))))"

definition check_interval :: "flt option \<Rightarrow> ('z ustate_scheme, unit) py" where
  "check_interval interval = (case interval of
      None \<Rightarrow> ret () | Some t \<Rightarrow> if t < 0 then raise ValueError else ret ())"

text \<open>
  Both functions start from the times before the interval, read now when \<open>interval\<close> is
  positive and remembered otherwise; an empty list of CPUs is read again.
\<close>

definition first_times :: "flt option \<Rightarrow> 'a option \<Rightarrow> ('z ustate_scheme, 'a) py \<Rightarrow> ('z ustate_scheme, 'a) py" where
  "first_times interval prev now = (case interval of
      Some t \<Rightarrow> if 0 < t then bnd now (\<lambda>t1. bnd (sleep_call t) (\<lambda>_. ret t1))
        else (case prev of None \<Rightarrow> now | Some t1 \<Rightarrow> ret t1)
    | None \<Rightarrow> (case prev of None \<Rightarrow> now | Some t1 \<Rightarrow> ret t1))"

definition not_empty :: "'a list option \<Rightarrow> 'a list option" where
  "not_empty x = (if x = Some [] then None else x)"

definition cpu_percent :: "flt option \<Rightarrow> ('z ustate_scheme, flt) py" where
  "cpu_percent interval = bnd (gets g_tid) (\<lambda>tid. bnd (check_interval interval) (\<lambda>_.
     bnd (gets (\<lambda>s. map_of (g_last_cpu_times s) tid)) (\<lambda>prev.
     bnd (first_times interval prev psutil_cpu_times) (\<lambda>t1.
     bnd psutil_cpu_times (\<lambda>t2.
     bnd (modify (\<lambda>s. s\<lparr>g_last_cpu_times := AList.update tid t2 (g_last_cpu_times s)\<rparr>)) (\<lambda>_.
     ret (busy_percent t1 t2)))))))"

definition cpu_percent_percpu :: "flt option \<Rightarrow> ('z ustate_scheme, flt list) py" where
  "cpu_percent_percpu interval = bnd (gets g_tid) (\<lambda>tid. bnd (check_interval interval) (\<lambda>_.
     bnd (gets (\<lambda>s. not_empty (map_of (g_last_per_cpu_times s) tid))) (\<lambda>prev.
     bnd (first_times interval prev psutil_per_cpu_times) (\<lambda>tot1.
     bnd psutil_per_cpu_times (\<lambda>tot2.
     bnd (modify (\<lambda>s. s\<lparr>g_last_per_cpu_times := AList.update tid tot2 (g_last_per_cpu_times s)\<rparr>)) (\<lambda>_.
     ret (map2 busy_percent tot1 tot2)))))))"

definition cpu_times_percent :: "flt option \<Rightarrow> ('z ustate_scheme, scputimes) py" where
  "cpu_times_percent interval = bnd (gets g_tid) (\<lambda>tid. bnd (check_interval interval) (\<lambda>_.
     bnd (gets (\<lambda>s. map_of (g_last_cpu_times_2 s) tid)) (\<lambda>prev.
     bnd (first_times interval prev psutil_cpu_times) (\<lambda>t1.
     bnd psutil_cpu_times (\<lambda>t2.
     bnd (modify (\<lambda>s. s\<lparr>g_last_cpu_times_2 := AList.update tid t2 (g_last_cpu_times_2 s)\<rparr>)) (\<lambda>_.
     liftE (times_percent t1 t2)))))))"

definition cpu_times_percent_percpu :: "flt option \<Rightarrow> ('z ustate_scheme, scputimes list) py" where
  "cpu_times_percent_percpu interval = bnd (gets g_tid) (\<lambda>tid. bnd (check_interval interval) (\<lambda>_.
     bnd (gets (\<lambda>s. not_empty (map_of (g_last_per_cpu_times_2 s) tid))) (\<lambda>prev.
     bnd (first_times interval prev psutil_per_cpu_times) (\<lambda>tot1.
     bnd psutil_per_cpu_times (\<lambda>tot2.
     bnd (modify (\<lambda>s. s\<lparr>g_last_per_cpu_times_2 := AList.update tid tot2 (g_last_per_cpu_times_2 s)\<rparr>)) (\<lambda>_.
     liftE (mapE (\<lambda>(t1, t2). times_percent t1 t2) (zip tot1 tot2))))))))"

section \<open>Percentages are percentages\<close>

definition delta_nonneg :: "scputimes \<Rightarrow> bool" where
  "delta_nonneg d \<longleftrightarrow> list_all (\<lambda>x. 0 \<le> x) (ct_list d)"

lemma deltas_nonneg: "delta_nonneg (cpu_times_deltas t1 t2)"
  by (simp add: delta_nonneg_def cpu_times_deltas_def ct_list_def field_delta_def)

text \<open>The time that passed, without counting the time of guests twice: the exact value.\<close>

definition real_total :: "scputimes \<Rightarrow> rat" where
  "real_total d = ct_user d + ct_system d + ct_idle d + ct_nice d + ct_iowait d + ct_irq d
     + ct_softirq d + ct_steal d"

lemma cpu_tot_time_near:
  assumes nn: "delta_nonneg d" and g: "ct_guest d \<le> ct_user d" "ct_guest_nice d \<le> ct_nice d"
    and big: "2 powi (-1000) \<le> real_total d"
  shows "\<bar>cpu_tot_time d - real_total d\<bar> \<le> 12 * (real_total d / 2 ^ 51)"
    and "\<bar>cpu_busy_time d - (real_total d - ct_idle d - ct_iowait d)\<bar> \<le> 14 * (real_total d / 2 ^ 51)"
proof -
  let ?A = "real_total d" and ?e = "real_total d / 2 ^ 51"
  have "(0 :: rat) < 2 powi (-1000)" by simp
  with big have A: "0 < ?A" by linarith
  have e: "4 * ?A / 2 ^ 53 = ?e" and e0: "0 < ?e" and small: "1000 * ?e \<le> ?A" using A by simp_all
  have big4: "2 powi (-1000) \<le> 4 * ?A" using big A by linarith
  have pos: "0 \<le> ct_user d" "0 \<le> ct_system d" "0 \<le> ct_idle d" "0 \<le> ct_nice d" "0 \<le> ct_iowait d"
    "0 \<le> ct_irq d" "0 \<le> ct_softirq d" "0 \<le> ct_steal d" "0 \<le> ct_guest d" "0 \<le> ct_guest_nice d"
    using nn by (simp_all add: delta_nonneg_def ct_list_def)
  have sum: "sum_list (ct_list d) = ?A + ct_guest d + ct_guest_nice d"
    by (simp add: ct_list_def real_total_def)
  have parts: "ct_guest d + ct_guest_nice d \<le> ?A" "ct_idle d + ct_iowait d \<le> ?A"
    using pos g by (simp_all add: real_total_def)
  have "\<bar>foldl fadd 0 (ct_list d) - (0 + sum_list (ct_list d))\<bar>
      \<le> of_nat (0 + length (ct_list d)) * (4 * ?A / 2 ^ 53)"
  proof (rule foldl_fadd_error [OF _ _ _ _ big4])
    show "0 + sum_list (ct_list d) + of_nat (0 + length (ct_list d)) * (4 * ?A / 2 ^ 53) \<le> 4 * ?A"
      unfolding e sum using parts small A by simp
  qed (use nn in \<open>simp_all add: delta_nonneg_def list_all_iff\<close>)
  then have s: "\<bar>sum_flts (ct_list d) - (?A + ct_guest d + ct_guest_nice d)\<bar> \<le> 10 * ?e"
    unfolding e sum by (simp add: sum_flts_def)
  have sub: "\<bar>fsub a x - (a0 - x)\<bar> \<le> k * ?e + ?e"
    if "\<bar>a - a0\<bar> \<le> k * ?e" "0 \<le> a0 - x" "a0 \<le> 3 * ?A" "0 \<le> x" "k \<le> 100" for a a0 x k
  proof -
    have k: "k * ?e \<le> ?A" using mult_right_mono [OF that(5), of ?e] e0 small by linarith
    then have "\<bar>a - x\<bar> \<le> 4 * ?A" using that A by linarith
    from fl_error [OF this big4] that(1) show ?thesis
      unfolding e fsub_def by linarith
  qed
  let ?S = "sum_flts (ct_list d)"
  have 1: "\<bar>fsub ?S (ct_guest d) - (?A + ct_guest d + ct_guest_nice d - ct_guest d)\<bar> \<le> 10 * ?e + ?e"
    using s pos parts A by (intro sub) simp_all
  have 2: "\<bar>fsub (fsub ?S (ct_guest d)) (ct_guest_nice d) - (?A + ct_guest_nice d - ct_guest_nice d)\<bar> \<le> 11 * ?e + ?e"
    using 1 pos parts A by (intro sub) simp_all
  then show t: "\<bar>cpu_tot_time d - ?A\<bar> \<le> 12 * ?e" by (simp add: cpu_tot_time_def)
  have 3: "\<bar>fsub (cpu_tot_time d) (ct_idle d) - (?A - ct_idle d)\<bar> \<le> 12 * ?e + ?e"
    using t pos parts A by (intro sub) simp_all
  have "\<bar>fsub (fsub (cpu_tot_time d) (ct_idle d)) (ct_iowait d) - (?A - ct_idle d - ct_iowait d)\<bar> \<le> 13 * ?e + ?e"
    using 3 pos parts A by (intro sub) simp_all
  then show "\<bar>cpu_busy_time d - (?A - ct_idle d - ct_iowait d)\<bar> \<le> 14 * ?e" by (simp add: cpu_busy_time_def)
qed

lemma no_time_no_percent:
  assumes "delta_nonneg d" "ct_guest d \<le> ct_user d" "ct_guest_nice d \<le> ct_nice d" "real_total d = 0"
  shows "cpu_tot_time d = 0"
proof -
  have "ct_user d = 0" "ct_system d = 0" "ct_idle d = 0" "ct_nice d = 0" "ct_iowait d = 0" "ct_irq d = 0"
    "ct_softirq d = 0" "ct_steal d = 0"
    using assms(1,4) by (simp_all add: delta_nonneg_def ct_list_def real_total_def)
  moreover from this have "ct_guest d = 0" "ct_guest_nice d = 0"
    using assms(1-3) by (simp_all add: delta_nonneg_def ct_list_def)
  ultimately show ?thesis by (simp add: cpu_tot_time_def sum_flts_def ct_list_def fadd_def fsub_def)
qed

text \<open>
  C17: the utilization \<open>cpu_percent\<close> computes lies between 0 and 100, rounding errors
  included, whatever the two readings are, when guest time did not grow by more than the
  user time it is part of; the time between them is zero or not absurdly small.
\<close>

theorem cpu_percent_bounds:
  assumes "d = cpu_times_deltas t1 t2"
    and "ct_guest d \<le> ct_user d" and "ct_guest_nice d \<le> ct_nice d"
    and "real_total d = 0 \<or> 2 powi (-1000) \<le> real_total d"
  shows "0 \<le> busy_percent t1 t2 \<and> busy_percent t1 t2 \<le> 100"
proof (cases "real_total d = 0")
  case True
  then have "cpu_tot_time d = 0" using assms deltas_nonneg by (intro no_time_no_percent) simp_all
  then show ?thesis using assms(1) by (simp add: busy_percent_def Let_def fdiv_def)
next
  case False
  let ?A = "real_total d" and ?e = "real_total d / 2 ^ 51"
  from False assms(4) have big: "2 powi (-1000) \<le> ?A" by simp
  have "(0 :: rat) < 2 powi (-1000)" by simp
  with big have A: "0 < ?A" by linarith
  have nn: "delta_nonneg d" unfolding assms(1) by (rule deltas_nonneg)
  note near2 = cpu_tot_time_near [OF nn assms(2,3) big, unfolded near]
  have parts: "0 \<le> ct_idle d + ct_iowait d" "ct_idle d + ct_iowait d \<le> ?A"
    using nn by (simp_all add: delta_nonneg_def ct_list_def real_total_def)
  have tot: "?A / 2 \<le> cpu_tot_time d" using near2(1) A by simp
  then have pos: "0 < cpu_tot_time d" using A by linarith
  have "- (1 / 10000) \<le> cpu_busy_time d / cpu_tot_time d"
    unfolding pos_le_divide_eq [OF pos] using near2 parts tot A by simp
  moreover have "cpu_busy_time d / cpu_tot_time d \<le> 1 + 1 / 10000"
    unfolding pos_divide_le_eq [OF pos] using near2 parts tot A by (simp add: distrib_right)
  ultimately show ?thesis
    using ratio_percent pos assms(1) by (simp add: busy_percent_def Let_def fdiv_def)
qed

lemma field_percent_bounds: "0 \<le> field_percent scale x \<and> field_percent scale x \<le> 100"
  by (auto simp: field_percent_def)

text \<open>The number a field should show, and the steps that lead to it.\<close>

definition exact_percent :: "scputimes \<Rightarrow> flt \<Rightarrow> rat" where
  "exact_percent d delta = 100 * delta / max 1 (real_total d)"

lemma powi_1000 [simp]: "(2 :: rat) powi (- 1000) \<le> 1" "(2 :: rat) powi (- 1000) \<le> 128"
proof -
  have "(2 :: rat) powi (- 1000) \<le> 2 powi 0" by (simp only: powi2_le_iff)
  then show "(2 :: rat) powi (- 1000) \<le> 1" by simp
  then show "(2 :: rat) powi (- 1000) \<le> 128" by linarith
qed

lemma max_tot_near:
  assumes "delta_nonneg d" "ct_guest d \<le> ct_user d" "ct_guest_nice d \<le> ct_nice d"
    and "real_total d = 0 \<or> 2 powi (-1000) \<le> real_total d"
  shows "\<bar>max 1 (cpu_tot_time d) - max 1 (real_total d)\<bar> \<le> max 1 (real_total d) / 2 ^ 47"
proof (cases "real_total d = 0")
  case True
  with no_time_no_percent [OF assms(1-3)] show ?thesis by simp
next
  case False
  then have big: "2 powi (-1000) \<le> real_total d" using assms(4) by simp
  have "(0 :: rat) < 2 powi (-1000)" by simp
  with big have "12 * (real_total d / 2 ^ 51) \<le> real_total d / 2 ^ 47" by simp
  with cpu_tot_time_near(1) [OF assms(1-3) big]
  have "\<bar>cpu_tot_time d - real_total d\<bar> \<le> real_total d / 2 ^ 47" by (rule order_trans)
  moreover have "real_total d \<le> max 1 (real_total d)" by simp
  ultimately have "\<bar>cpu_tot_time d - real_total d\<bar> \<le> max 1 (real_total d) / 2 ^ 47"
    by (simp add: field_simps)
  moreover have "\<bar>max 1 (cpu_tot_time d) - max 1 (real_total d)\<bar> \<le> \<bar>cpu_tot_time d - real_total d\<bar>"
    by (auto simp: max_def)
  ultimately show ?thesis by linarith
qed

lemma scale_near:
  assumes "1 \<le> (m :: rat)" "m \<le> 2 ^ 900" "\<bar>n - m\<bar> \<le> m / 2 ^ 47"
  shows "\<bar>fl (100 / n) * m - 100\<bar> \<le> 1 / 10 ^ 11"
proof -
  let ?q = "100 / n"
  have n: "m * (1 - 1 / 2 ^ 47) \<le> n" "n \<le> m * (1 + 1 / 2 ^ 47)"
    using assms(3) unfolding near by (simp_all add: field_simps)
  moreover have "m * (1 / 2) \<le> m * (1 - 1 / 2 ^ 47)" "m * (1 + 1 / 2 ^ 47) \<le> m * 2"
    using assms(1) by (intro mult_left_mono; simp)+
  ultimately have n2: "m / 2 \<le> n" "n \<le> 2 * m" by linarith+
  have pos: "0 < m" "0 < n" using assms(1) n2(1) by linarith+
  have "(2 :: rat) powi (- 1000) \<le> 2 powi (- 901)" by (simp only: powi2_le_iff)
  also have "\<dots> = 1 / (2 * 2 ^ 900)" by (simp add: power_int_def field_simps flip: power_Suc)
  also have "\<dots> \<le> 1 / (2 * m)" using assms(2) pos by (intro divide_left_mono) simp_all
  also have "\<dots> \<le> 100 / n"
  proof -
    have "1 / (2 * m) \<le> 1 / n" using n2 pos by (intro divide_left_mono) simp_all
    also have "\<dots> \<le> 100 / n" using pos by (simp add: divide_right_mono)
    finally show ?thesis .
  qed
  finally have big: "2 powi (- 1000) \<le> ?q" .
  have "\<bar>fl ?q - ?q\<bar> \<le> ?q / 2 ^ 53" using fl_error [OF _ big, of ?q] pos by simp
  then have "\<bar>fl ?q - ?q\<bar> * m \<le> ?q / 2 ^ 53 * m" using pos by (intro mult_right_mono) simp_all
  moreover have "\<bar>fl ?q * m - ?q * m\<bar> = \<bar>fl ?q - ?q\<bar> * m"
    unfolding left_diff_distrib [symmetric] abs_mult using pos by (simp only: abs_of_pos)
  moreover have qm: "?q * m \<le> 200" "\<bar>?q * m - 100\<bar> \<le> 200 / 2 ^ 47"
  proof -
    show "?q * m \<le> 200" using n2(1) pos by (simp add: pos_divide_le_eq)
    have "?q * m - 100 = 100 * (m - n) / n" using pos by (simp add: field_simps)
    then have "\<bar>?q * m - 100\<bar> = \<bar>100\<bar> * \<bar>m - n\<bar> / \<bar>n\<bar>" by (simp only: abs_divide abs_mult)
    then have "\<bar>?q * m - 100\<bar> = 100 * \<bar>m - n\<bar> / n" using pos by simp
    also have "\<dots> \<le> 100 * (m / 2 ^ 47) / n"
      using assms(3) pos by (intro divide_right_mono mult_left_mono) (simp_all add: abs_minus_commute)
    also have "\<dots> \<le> 200 / 2 ^ 47" using n2(1) pos by (simp add: pos_divide_le_eq)
    finally show "\<bar>?q * m - 100\<bar> \<le> 200 / 2 ^ 47" .
  qed
  ultimately have "\<bar>fl ?q * m - ?q * m\<bar> \<le> 200 / 2 ^ 53" by simp
  with qm(2) show ?thesis unfolding near by simp
qed

lemma fround1_near:
  assumes "\<bar>x\<bar> \<le> 101"
  shows "\<bar>fround1 x - x\<bar> \<le> 1 / 20 + 1 / 10 ^ 12"
proof -
  let ?r = "of_int (rhe (x * 10)) / 10 :: rat"
  have r: "\<bar>?r - x\<bar> \<le> 1 / 20" using rhe_error [of "x * 10"] unfolding near by simp
  then have "\<bar>?r\<bar> \<le> 128" using assms by linarith
  from fl_error [OF this] have "\<bar>fl ?r - ?r\<bar> \<le> 128 / 2 ^ 53" by simp
  with r show ?thesis unfolding near fround1_def by simp
qed

lemma field_percent_near:
  assumes "1 \<le> m" "m \<le> 2 ^ 900" "\<bar>n - m\<bar> \<le> m / 2 ^ 47" "0 \<le> delta" "delta \<le> m"
  shows "\<bar>field_percent (fl (100 / n)) delta - 100 * delta / m\<bar> \<le> 1 / 20 + 1 / 10 ^ 10"
proof -
  let ?c = "fl (100 / n)" and ?x = "100 * delta / m"
  have m: "0 < m" using assms(1) by linarith
  have r: "0 \<le> delta / m" "delta / m \<le> 1" using assms(4,5) m by simp_all
  have "?c * delta - ?x = (?c * m - 100) * (delta / m)" using m by (simp add: field_simps)
  then have "\<bar>?c * delta - ?x\<bar> = \<bar>?c * m - 100\<bar> * (delta / m)"
    using r(1) by (simp only: abs_mult abs_of_nonneg)
  also have "\<dots> \<le> 1 / 10 ^ 11 * 1" using scale_near [OF assms(1-3)] r by (intro mult_mono) simp_all
  finally have p: "\<bar>delta * ?c - ?x\<bar> \<le> 1 / 10 ^ 11" by (simp add: mult.commute)
  have x: "0 \<le> ?x" "?x \<le> 100" using r by simp_all
  then have "\<bar>delta * ?c\<bar> \<le> 128" using p unfolding near by (auto simp: abs_le_iff)
  from fl_error [OF this] have f: "\<bar>fmul delta ?c - delta * ?c\<bar> \<le> 128 / 2 ^ 53" by (simp add: fmul_def)
  then have "\<bar>fmul delta ?c\<bar> \<le> 101" using p x unfolding near by (auto simp: abs_le_iff)
  from fround1_near [OF this] have "\<bar>fround1 (fmul delta ?c) - ?x\<bar> \<le> 1 / 20 + 1 / 10 ^ 10"
    using f p unfolding near by simp
  then show ?thesis using x unfolding near field_percent_def by (auto simp: min_def max_def)
qed

lemma field_le_total:
  assumes "delta_nonneg d" "ct_guest d \<le> ct_user d" "ct_guest_nice d \<le> ct_nice d"
  shows "list_all (\<lambda>x. 0 \<le> x \<and> x \<le> real_total d) (ct_list d)"
  using assms by (simp add: delta_nonneg_def ct_list_def real_total_def)

lemma times_percent_near:
  assumes d: "d = cpu_times_deltas t1 t2"
    and g: "ct_guest d \<le> ct_user d" "ct_guest_nice d \<le> ct_nice d"
    and "real_total d = 0 \<or> 2 powi (-1000) \<le> real_total d" and "real_total d \<le> 2 ^ 900"
  shows "\<exists>p. times_percent t1 t2 = Inr p \<and> list_all (\<lambda>x. 0 \<le> x \<and> x \<le> 100) (ct_list p)
    \<and> list_all2 (\<lambda>delta x. \<bar>x - exact_percent d delta\<bar> \<le> 1 / 20 + 1 / 10 ^ 10) (ct_list d) (ct_list p)"
proof -
  let ?n = "max 1 (cpu_tot_time d)" and ?m = "max 1 (real_total d)"
  have nn: "delta_nonneg d" unfolding d by (rule deltas_nonneg)
  have scale: "fdiv 100 ?n = Inr (fl (100 / ?n))" by (simp add: fdiv_def max_def)
  obtain p where p: "ct_make (map (field_percent (fl (100 / ?n))) (ct_list d)) = Inr p"
    "ct_list p = map (field_percent (fl (100 / ?n))) (ct_list d)"
    using ct_list_make [of "map (field_percent (fl (100 / ?n))) (ct_list d)"] by auto
  have "times_percent t1 t2 = Inr p" using scale p(1) d by (simp add: times_percent_def Let_def)
  moreover have "list_all (\<lambda>x. 0 \<le> x \<and> x \<le> 100) (ct_list p)"
    unfolding p(2) by (simp add: list_all_iff field_percent_bounds)
  moreover have "\<bar>field_percent (fl (100 / ?n)) x - exact_percent d x\<bar> \<le> 1 / 20 + 1 / 10 ^ 10"
    if "x \<in> set (ct_list d)" for x
    unfolding exact_percent_def
  proof (rule field_percent_near [OF _ _ max_tot_near [OF nn g assms(4)]])
    show "0 \<le> x" "x \<le> ?m" using field_le_total [OF nn g] that by (auto simp: list_all_iff)
  qed (use assms(5) in simp_all)
  then have "list_all2 (\<lambda>delta x. \<bar>x - exact_percent d delta\<bar> \<le> 1 / 20 + 1 / 10 ^ 10) (ct_list d) (ct_list p)"
    unfolding p(2) by (simp add: list_all2_conv_all_nth)
  ultimately show ?thesis by blast
qed

section \<open>Which two readings are compared\<close>

lemma pres_cpu_times: "pres (confined read_calls) cpu_times"
  unfolding cpu_times_def by (intro pres_intros) (auto split: list.splits intro: pres_intros)

lemma cpu_times_globals:
  assumes "psutil_cpu_times s = (x, t)"
  shows "\<exists>h. t = s\<lparr>hist := h\<rparr>"
proof -
  have "confined read_calls s t"
    using pres_cpu_times assms unfolding psutil_cpu_times_def by (rule presD)
  then have "sys_os t = sys_os s" "procfs_path t = procfs_path s" "sys.more t = sys.more s"
    by (simp_all add: confined_def)
  then have "t = s\<lparr>hist := hist t\<rparr>" by (cases s; cases t) simp
  then show ?thesis ..
qed

text \<open>
  C19: without a positive interval \<open>cpu_percent\<close> compares the times it reads with those of the
  last call in the same thread, which it replaces; the times other threads remember, and
  those \<open>cpu_times_percent\<close> remembers, are not touched.
\<close>

theorem cpu_percent_since_last_call:
  assumes "cpu_percent interval s = (Inr p, t)" and "interval = None \<or> interval = Some 0"
    and "map_of (g_last_cpu_times s) (g_tid s) = Some t1"
  shows "\<exists>t2 u. cpu_times s = (Inr t2, u) \<and> p = busy_percent t1 t2
     \<and> map_of (g_last_cpu_times t) = (map_of (g_last_cpu_times s))(g_tid s \<mapsto> t2)
     \<and> g_last_per_cpu_times t = g_last_per_cpu_times s
     \<and> g_last_cpu_times_2 t = g_last_cpu_times_2 s \<and> g_last_per_cpu_times_2 t = g_last_per_cpu_times_2 s"
proof -
  have int: "check_interval interval s = (Inr (), s)"
    "first_times interval (Some t1) psutil_cpu_times s = (Inr t1, s)"
    using assms(2) by (auto simp: check_interval_def first_times_def)
  obtain x u where u: "psutil_cpu_times s = (x, u)" by (cases "psutil_cpu_times s")
  from cpu_times_globals [OF u] obtain h where h: "u = s\<lparr>hist := h\<rparr>" ..
  from assms(1,3) int u obtain t2 where "x = Inr t2" "p = busy_percent t1 t2"
    "t = u\<lparr>g_last_cpu_times := AList.update (g_tid s) t2 (g_last_cpu_times u)\<rparr>"
    by (cases x) (auto simp: cpu_percent_def)
  then show ?thesis using u h by (intro exI [of _ t2] exI [of _ u]) (simp add: psutil_cpu_times_def)
qed

text \<open>
  C18: when the times at the start of the interval are there, read now or remembered, and the
  times at its end can be read, \<open>cpu_times_percent\<close> with an interval that is not negative
  succeeds.  Each field of its result lies between 0 and 100 and is, up to the rounding to one
  decimal, 100 times what this time advanced (0 if it went back) divided by the time that
  passed in all, or by one second when less than a second passed in all; guest times are
  counted once.  As for \<open>cpu_percent\<close>, guest time must not grow by more than the time it is
  part of, and the time that passed is zero or neither absurdly small nor absurdly large.
  The times at the end are remembered for the next call.
\<close>

theorem cpu_times_percent_fields:
  assumes "interval = None \<or> (\<exists>x. interval = Some x \<and> 0 \<le> x)"
    and "first_times interval (map_of (g_last_cpu_times_2 s) (g_tid s)) psutil_cpu_times s = (Inr t1, v)"
    and "cpu_times v = (Inr t2, u)" and "d = cpu_times_deltas t1 t2"
    and "ct_guest d \<le> ct_user d" and "ct_guest_nice d \<le> ct_nice d"
    and "real_total d = 0 \<or> 2 powi (-1000) \<le> real_total d" and "real_total d \<le> 2 ^ 900"
  shows "\<exists>p t. cpu_times_percent interval s = (Inr p, t)
     \<and> map_of (g_last_cpu_times_2 t) (g_tid s) = Some t2
     \<and> list_all (\<lambda>x. 0 \<le> x \<and> x \<le> 100) (ct_list p)
     \<and> list_all2 (\<lambda>delta x. \<bar>x - exact_percent d delta\<bar> \<le> 1 / 20 + 1 / 10 ^ 10) (ct_list d) (ct_list p)"
proof -
  obtain p where p: "times_percent t1 t2 = Inr p" "list_all (\<lambda>x. 0 \<le> x \<and> x \<le> 100) (ct_list p)"
    "list_all2 (\<lambda>delta x. \<bar>x - exact_percent d delta\<bar> \<le> 1 / 20 + 1 / 10 ^ 10) (ct_list d) (ct_list p)"
    using times_percent_near [OF assms(4-8)] by blast
  have "check_interval interval s = (Inr (), s)" using assms(1) by (auto simp: check_interval_def)
  then have "\<exists>t. cpu_times_percent interval s = (Inr p, t) \<and> map_of (g_last_cpu_times_2 t) (g_tid s) = Some t2"
    using assms(2,3) p(1) by (simp add: cpu_times_percent_def psutil_cpu_times_def)
  with p(2,3) show ?thesis by blast
qed

section \<open>Examples\<close>

definition no_times :: scputimes where
  "no_times = \<lparr>ct_user = 0, ct_system = 0, ct_idle = 0, ct_nice = 0, ct_iowait = 0, ct_irq = 0,
     ct_softirq = 0, ct_steal = 0, ct_guest = 0, ct_guest_nice = 0\<rparr>"

theorem cpu_percent_bounds_witness:
  "0 \<le> busy_percent no_times (no_times\<lparr>ct_user := 10, ct_idle := 30\<rparr>)
     \<and> busy_percent no_times (no_times\<lparr>ct_user := 10, ct_idle := 30\<rparr>) \<le> 100"
proof -
  let ?d = "cpu_times_deltas no_times (no_times\<lparr>ct_user := 10, ct_idle := 30\<rparr>)"
  have d: "?d = no_times\<lparr>ct_user := 10, ct_idle := 30\<rparr>"
    using fl_of_int [of 10] fl_of_int [of 30]
    by (simp add: cpu_times_deltas_def no_times_def field_delta_def fsub_def)
  have "(2 :: rat) powi (-1000) \<le> 2 powi 5" by (simp only: powi2_le_iff)
  also have "(2 :: rat) powi 5 = 32" by (simp add: power_int_def)
  finally have "real_total ?d = 0 \<or> 2 powi (-1000) \<le> real_total ?d"
    unfolding d by (simp add: real_total_def no_times_def)
  from cpu_percent_bounds [OF refl _ _ this] show ?thesis unfolding d by (simp add: no_times_def)
qed

definition cpu_state :: ustate where
  "cpu_state = demo_state\<lparr>sys_os := null_os\<lparr>os_read := \<lambda>h p. Inr (stat_line ''cpu'' [0, 0, 0, 0])\<rparr>,
     g_last_cpu_times := [(0, no_times)]\<rparr>"

text \<open>
  Half a second of user time and half a second of idle time make 50 percent each; a quarter of
  a second of both makes 25 percent each, which do not add up to 100, because less than a
  second passed in all.
\<close>

definition ticking_state :: "int \<Rightarrow> ustate" where
  "ticking_state n = demo_state\<lparr>sys_os := null_os\<lparr>os_clock_ticks := n,
     os_read := \<lambda>h p. Inr (stat_line ''cpu'' [1, 0, 0, 1])\<rparr>, g_last_cpu_times_2 := [(0, no_times)]\<rparr>"

lemma fl_quarter: "fl (1 / 2) = 1 / 2" "fl (1 / 4) = 1 / 4"
  by code_simp+

lemma ticking_times:
  assumes "0 < n"
  shows "\<exists>u. cpu_times (ticking_state n) = (Inr (no_times\<lparr>ct_user := fl (1 / fint n), ct_idle := fl (1 / fint n)\<rparr>), u)"
proof -
  have w: "word_ok ''cpu''" by (simp add: word_ok_def ws_def)
  have os: "os_read (sys_os (ticking_state n)) h p = Inr (stat_line ''cpu'' [1, 0, 0, 1])"
    "os_clock_ticks (sys_os (ticking_state n)) = n" for h p by (simp_all add: ticking_state_def)
  show ?thesis
    using readline_stat_line [OF w, of "[1, 0, 0, 1]" "[]"] ticks_of_stat_line [OF w, of "[1, 0, 0, 1]" n]
      assms fl_of_int [of 1] os
    by (auto simp: cpu_times_def read_file_def lsget_def no_times_def)
qed

lemma ticking_delta:
  assumes "fl x = x" "0 \<le> x"
  shows "cpu_times_deltas no_times (no_times\<lparr>ct_user := x, ct_idle := x\<rparr>) = no_times\<lparr>ct_user := x, ct_idle := x\<rparr>"
  using assms by (simp add: cpu_times_deltas_def no_times_def field_delta_def fsub_def)

theorem cpu_times_percent_fields_witness:
  "\<exists>p t. cpu_times_percent None (ticking_state 4) = (Inr p, t)
     \<and> \<bar>ct_user p - 25\<bar> \<le> 1 / 20 + 1 / 10 ^ 10 \<and> \<bar>ct_idle p - 25\<bar> \<le> 1 / 20 + 1 / 10 ^ 10"
proof -
  let ?t2 = "no_times\<lparr>ct_user := 1 / 4, ct_idle := 1 / 4\<rparr>" and ?s = "ticking_state 4"
  obtain u where u: "cpu_times ?s = (Inr ?t2, u)"
    using ticking_times [of 4] fl_quarter fint_exact [of 4] by auto
  have g: "g_tid ?s = 0" "map_of (g_last_cpu_times_2 ?s) (g_tid ?s) = Some no_times"
    by (simp_all add: ticking_state_def demo_state_def ustate.defs lsys.defs)
  then have f: "first_times None (map_of (g_last_cpu_times_2 ?s) (g_tid ?s)) psutil_cpu_times ?s = (Inr no_times, ?s)"
    by (simp add: first_times_def)
  have d: "?t2 = cpu_times_deltas no_times ?t2" by (rule ticking_delta [symmetric]) (simp_all add: fl_quarter)
  have r: "real_total ?t2 = 1 / 2" by (simp add: real_total_def no_times_def)
  have "(2 :: rat) powi (- 1000) \<le> 2 powi (- 1)" by (simp only: powi2_le_iff)
  then have "real_total ?t2 = 0 \<or> 2 powi (- 1000) \<le> real_total ?t2" "real_total ?t2 \<le> 2 ^ 900" unfolding r by simp_all
  from cpu_times_percent_fields [OF disjI1 [OF refl] f u d _ _ this] r
  show ?thesis by (auto simp: ct_list_def exact_percent_def no_times_def)
qed

theorem cpu_percent_since_last_call_witness:
  "\<exists>p t. cpu_percent None cpu_state = (Inr p, t)
     \<and> map_of (g_last_cpu_times t) 0 = Some no_times \<and> p = busy_percent no_times no_times"
proof -
  have w: "word_ok ''cpu''" by (simp add: word_ok_def ws_def)
  have os: "os_read (sys_os cpu_state) h p = Inr (stat_line ''cpu'' [0, 0, 0, 0])"
    "os_clock_ticks (sys_os cpu_state) = 100" for h p by (simp_all add: cpu_state_def null_os_def)
  have "\<exists>h. cpu_times cpu_state = (Inr no_times, cpu_state\<lparr>hist := h\<rparr>)"
    using readline_stat_line [OF w, of "[0, 0, 0, 0]" "[]"] ticks_of_stat_line [OF w, of "[0, 0, 0, 0]" 100] os
    by (auto simp: cpu_times_def read_file_def lsget_def no_times_def)
  then obtain u where u: "cpu_times cpu_state = (Inr no_times, u)" by blast
  have g: "g_tid cpu_state = 0" "map_of (g_last_cpu_times cpu_state) (g_tid cpu_state) = Some no_times"
    by (simp_all add: cpu_state_def demo_state_def ustate.defs lsys.defs)
  have "\<exists>p t. cpu_percent None cpu_state = (Inr p, t)"
    using u g by (simp add: cpu_percent_def check_interval_def first_times_def psutil_cpu_times_def)
  then obtain p t where run: "cpu_percent None cpu_state = (Inr p, t)" by blast
  from cpu_percent_since_last_call [OF run _ g(2)] u g(1) run show ?thesis by fastforce
qed

end
