(* ===== verification/Init_Methods.thy ===== *)
theory Init_Methods
  imports Init_Cpu
begin

text \<open>
  The getters and setters of the class \<open>Process\<close>, \<open>oneshot\<close> and \<open>as_dict\<close>.  The method
  \<open>name\<close> is \<open>pr_name\<close> here, and so on; a method with arguments that get and set is split in
  two.  Calls without arguments look into the object's prefetch dict first.
\<close>

section \<open>Methods that only call the platform module\<close>

definition pr_cmdline :: "nat \<Rightarrow> ('z ustate_scheme, pval) py" where
  "pr_cmdline r = use_prefetch r ''cmdline'' PvStrs (impl r proc_cmdline)"
definition pr_cwd :: "nat \<Rightarrow> ('z ustate_scheme, pval) py" where
  "pr_cwd r = use_prefetch r ''cwd'' PvStr (impl r proc_cwd)"
definition pr_gids :: "nat \<Rightarrow> ('z ustate_scheme, pval) py" where
  "pr_gids r = use_prefetch r ''gids'' PvIds (impl r proc_gids)"
definition pr_terminal :: "nat \<Rightarrow> ('z ustate_scheme, pval) py" where
  "pr_terminal r = use_prefetch r ''terminal'' (pv_opt PvStr) (impl r proc_terminal)"
definition pr_num_fds :: "nat \<Rightarrow> ('z ustate_scheme, pval) py" where
  "pr_num_fds r = use_prefetch r ''num_fds'' PvInt (impl r proc_num_fds)"
definition pr_io_counters :: "nat \<Rightarrow> ('z ustate_scheme, pval) py" where
  "pr_io_counters r = use_prefetch r ''io_counters'' PvIo (impl r proc_io_counters)"
definition pr_cpu_num :: "nat \<Rightarrow> ('z ustate_scheme, pval) py" where
  "pr_cpu_num r = use_prefetch r ''cpu_num'' PvInt (impl r proc_cpu_num)"
definition pr_environ :: "nat \<Rightarrow> ('z ustate_scheme, pval) py" where
  "pr_environ r = use_prefetch r ''environ'' PvEnv (impl r proc_environ)"
definition pr_num_ctx_switches :: "nat \<Rightarrow> ('z ustate_scheme, pval) py" where
  "pr_num_ctx_switches r = use_prefetch r ''num_ctx_switches'' PvCtxsw (impl r proc_num_ctx_switches)"
definition pr_num_threads :: "nat \<Rightarrow> ('z ustate_scheme, pval) py" where
  "pr_num_threads r = use_prefetch r ''num_threads'' PvInt (impl r proc_num_threads)"
definition pr_threads :: "nat \<Rightarrow> ('z ustate_scheme, pval) py" where
  "pr_threads r = use_prefetch r ''threads'' PvThreads (impl r proc_threads)"
definition pr_page_faults :: "nat \<Rightarrow> ('z ustate_scheme, pval) py" where
  "pr_page_faults r = use_prefetch r ''page_faults'' PvFaults (impl r proc_page_faults)"
definition pr_open_files :: "nat \<Rightarrow> ('z ustate_scheme, pval) py" where
  "pr_open_files r = use_prefetch r ''open_files'' PvFiles (impl r proc_open_files)"
definition pr_memory_footprint :: "nat \<Rightarrow> ('z ustate_scheme, pval) py" where
  "pr_memory_footprint r = use_prefetch r ''memory_footprint'' PvFoot (impl r proc_memory_footprint)"

definition pr_status :: "nat \<Rightarrow> ('z ustate_scheme, pval) py" where
  "pr_status r = use_prefetch r ''status'' PvStatus (try_except (impl r proc_status)
     (\<lambda>e. if is_ZombieProcess e then ret (Some STATUS_ZOMBIE) else raise e))"

text \<open>Those memoized inside \<open>oneshot()\<close>.\<close>

definition pr_ppid :: "nat \<Rightarrow> ('z ustate_scheme, pval) py" where
  "pr_ppid r = use_prefetch r ''ppid'' PvInt (memo_ppid r
     (bnd (raise_if_pid_reused r) (\<lambda>_. impl r proc_ppid)))"
definition pr_uids :: "nat \<Rightarrow> ('z ustate_scheme, pval) py" where
  "pr_uids r = use_prefetch r ''uids'' PvIds (memo_uids r (impl r proc_uids))"
definition pr_cpu_times :: "nat \<Rightarrow> ('z ustate_scheme, pval) py" where
  "pr_cpu_times r = use_prefetch r ''cpu_times'' PvCpuTimes (memo_cpu_times r (impl r proc_cpu_times))"
definition pr_memory_info :: "nat \<Rightarrow> ('z ustate_scheme, pval) py" where
  "pr_memory_info r = use_prefetch r ''memory_info'' PvMem (memo_memory_info r (impl r proc_memory_info))"

section \<open>Name, executable, user\<close>

text \<open>A name the kernel may have cut is completed from the command line.\<close>

definition extended_name :: "nat \<Rightarrow> string \<Rightarrow> ('z ustate_scheme, string) py" where
  "extended_name r name = try_else (pr_cmdline r)
     (\<lambda>e. if is_AccessDenied e \<or> is_ZombieProcess e then ret name else raise e)
     (\<lambda>cmdline. if pv_true cmdline then bnd (liftE (pv_item0 cmdline)) (\<lambda>w.
        let extended = basename w in ret (if startswith extended name then extended else name))
      else ret name)"

definition pr_name :: "nat \<Rightarrow> ('z ustate_scheme, pval) py" where
  "pr_name r = use_prefetch r ''name'' PvStr (bnd (impl r proc_name) (\<lambda>name0.
     bnd (if 15 \<le> length name0 then extended_name r name0 else ret name0) (\<lambda>name.
     bnd (set_obj r (\<lambda>p. p\<lparr>p_name := Some name, p_impl := (p_impl p)\<lparr>l_name := Some name\<rparr>\<rparr>)) (\<lambda>_.
     ret name))))"

definition access_x_call :: "string \<Rightarrow> ('z sys_scheme, bool) py" where
  "access_x_call p = sys_ask (SAccessX p) (\<lambda>os h. os_access_x os h p)"

text \<open>\<open>guess_it\<close>: the fallback is the exception caught or the value to return.\<close>

definition guess_it :: "nat \<Rightarrow> exn + string \<Rightarrow> ('z ustate_scheme, string) py" where
  "guess_it r fallback = bnd (pr_cmdline r) (\<lambda>cmdline.
     if pv_true cmdline then bnd (liftE (pv_item0 cmdline)) (\<lambda>exe.
       if startswith exe ''/'' then bnd (path_isfile exe) (\<lambda>isfile.
         if isfile then bnd (access_x_call exe) (\<lambda>x. if x then ret exe else liftE fallback)
         else liftE fallback)
       else liftE fallback)
     else liftE fallback)"

definition exe_uncached :: "nat \<Rightarrow> ('z ustate_scheme, string) py" where
  "exe_uncached r = try_else (impl r proc_exe)
     (\<lambda>e. if is_AccessDenied e then guess_it r (Inl e) else raise e)
     (\<lambda>exe. bnd (if exe = [] then try_except (guess_it r (Inr exe))
                    (\<lambda>e. if is_AccessDenied e then ret exe else raise e)
                 else ret exe) (\<lambda>exe'.
       bnd (set_obj r (\<lambda>p. p\<lparr>p_exe := Some exe'\<rparr>)) (\<lambda>_. ret exe')))"

definition pr_exe :: "nat \<Rightarrow> ('z ustate_scheme, pval) py" where
  "pr_exe r = use_prefetch r ''exe'' PvStr (bnd (obj r p_exe) (\<lambda>c. case c of
       Some exe \<Rightarrow> ret exe
     | None \<Rightarrow> exe_uncached r))"

definition getpwuid_call :: "int \<Rightarrow> ('z sys_scheme, string option) py" where
  "getpwuid_call uid = sys_ask (SGetpwuid uid) (\<lambda>os h. os_getpwuid os h uid)"

definition pr_username :: "nat \<Rightarrow> ('z ustate_scheme, pval) py" where
  "pr_username r = use_prefetch r ''username'' id (bnd (sys_const os_has_pwd) (\<lambda>pwd.
     if \<not> pwd then raise ImportError
     else bnd (pr_uids r) (\<lambda>uids. bnd (is_ad_value r uids) (\<lambda>ad.
       if ad then ret uids
       else bnd (liftE (pv_real uids)) (\<lambda>real_uid. bnd (getpwuid_call real_uid) (\<lambda>nm.
         ret (PvStr (case nm of Some n \<Rightarrow> n | None \<Rightarrow> int_str real_uid))))))))"

definition pr_create_time :: "nat \<Rightarrow> ('z ustate_scheme, pval) py" where
  "pr_create_time r = use_prefetch r ''create_time'' PvFloat (bnd (obj r p_create_time) (\<lambda>c. case c of
       Some t \<Rightarrow> ret t
     | None \<Rightarrow> bnd (impl r (proc_create_time False)) (\<lambda>t.
         bnd (set_obj r (\<lambda>p. p\<lparr>p_create_time := Some t\<rparr>)) (\<lambda>_. ret t))))"

section \<open>Methods that get and set\<close>

definition pr_nice :: "nat \<Rightarrow> ('z ustate_scheme, pval) py" where
  "pr_nice r = use_prefetch r ''nice'' PvInt (impl r proc_nice_get)"
definition set_nice :: "nat \<Rightarrow> int \<Rightarrow> ('z ustate_scheme, unit) py" where
  "set_nice r v = bnd (raise_if_pid_reused r) (\<lambda>_. impl r (proc_nice_set v))"

definition pr_ionice :: "nat \<Rightarrow> ('z ustate_scheme, pval) py" where
  "pr_ionice r = use_prefetch r ''ionice'' PvIonice (impl r proc_ionice_get)"

text \<open>\<open>ionice\<close> with arguments.\<close>

definition set_ionice :: "nat \<Rightarrow> int option \<Rightarrow> int option \<Rightarrow> ('z ustate_scheme, unit) py" where
  "set_ionice r ioclass v = (case ioclass of
      None \<Rightarrow> if v \<noteq> None then raise ValueError else bnd (impl r proc_ionice_get) (\<lambda>_. ret ())
    | Some c \<Rightarrow> bnd (raise_if_pid_reused r) (\<lambda>_. impl r (proc_ionice_set c v)))"

definition pr_rlimit :: "nat \<Rightarrow> int \<Rightarrow> ('z ustate_scheme, int \<times> int) py" where
  "pr_rlimit r resource = impl r (proc_rlimit_get resource)"
definition set_rlimit :: "nat \<Rightarrow> int \<Rightarrow> int list \<Rightarrow> ('z ustate_scheme, unit) py" where
  "set_rlimit r resource limits =
     bnd (raise_if_pid_reused r) (\<lambda>_. impl r (proc_rlimit_set resource limits))"

definition pr_cpu_affinity :: "nat \<Rightarrow> ('z ustate_scheme, pval) py" where
  "pr_cpu_affinity r = use_prefetch r ''cpu_affinity'' PvInts
     (bnd (impl r proc_cpu_affinity_get) (\<lambda>cpus. ret (sort (remdups cpus))))"
definition set_cpu_affinity :: "nat \<Rightarrow> int list \<Rightarrow> ('z ustate_scheme, unit) py" where
  "set_cpu_affinity r cpus0 = bnd (raise_if_pid_reused r) (\<lambda>_.
     bnd (if cpus0 = [] then impl r get_eligible_cpus else ret cpus0) (\<lambda>cpus.
     impl r (proc_cpu_affinity_set (remdups cpus))))"

section \<open>Memory\<close>

definition pmem_ex_make :: "pmem \<Rightarrow> (string, int) dict \<Rightarrow> exn + pmem_ex" where
  "pmem_ex_make base extras = bindE (mapE (\<lambda>k. of_option TypeError (map_of extras k))
       [''peak_rss'', ''peak_vms'', ''rss_anon'', ''rss_file'', ''rss_shmem'', ''swap'', ''hugetlb''])
     (\<lambda>vs. case vs of [a, b, c, d, e, f, g] \<Rightarrow>
         Inr \<lparr>pm_rss = pm_rss base, pm_vms = pm_vms base, pm_shared = pm_shared base, pm_text = pm_text base,
              pm_data = pm_data base, px_peak_rss = a, px_peak_vms = b, px_rss_anon = c, px_rss_file = d,
              px_rss_shmem = e, px_swap = f, px_hugetlb = g\<rparr>
       | _ \<Rightarrow> Inl TypeError)"

definition pr_memory_info_ex :: "nat \<Rightarrow> ('z ustate_scheme, pval) py" where
  "pr_memory_info_ex r = use_prefetch r ''memory_info_ex'' id (memo_memory_info_ex r
     (bnd (pr_memory_info r) (\<lambda>base. bnd (is_ad_value r base) (\<lambda>ad.
      if ad then ret base
      else bnd (impl r proc_memory_info_ex) (\<lambda>extras. case base of
          PvMem m \<Rightarrow> bnd (liftE (pmem_ex_make m extras)) (\<lambda>x. ret (PvMemEx x))
        | _ \<Rightarrow> raise AttributeError)))))"

definition memory_full_info :: "nat \<Rightarrow> ('z ustate_scheme, pval) py" where
  "memory_full_info r = bnd (pr_memory_info r) (\<lambda>basic. bnd (is_ad_value r basic) (\<lambda>ad.
     if ad then ret basic
     else bnd (sys_const (\<lambda>os. os_has_smaps os \<or> os_has_smaps_rollup os)) (\<lambda>has.
       if \<not> has then raise TypeError
       else bnd (pr_memory_footprint r) (\<lambda>fp. bnd (is_ad_value r fp) (\<lambda>ad'.
         if ad' then ret fp
         else case (basic, fp) of
           (PvMem m, PvFoot f) \<Rightarrow> ret (PvFull \<lparr>pm_rss = pm_rss m, pm_vms = pm_vms m,
             pm_shared = pm_shared m, pm_text = pm_text m, pm_data = pm_data m,
             pfull_uss = fp_uss f, pfull_pss = fp_pss f, pfull_swap = fp_swap f\<rparr>)
         | _ \<Rightarrow> raise TypeError)))))"

text \<open>\<open>getattr(metrics, memtype)\<close> for the three named tuples of \<open>memory_percent\<close>.\<close>

definition pmem_names :: "string list" where
  "pmem_names = [''rss'', ''vms'', ''shared'', ''text'', ''data'']"
definition pfootprint_names :: "string list" where
  "pfootprint_names = [''uss'', ''pss'', ''swap'']"
definition pmem_ex_names :: "string list" where
  "pmem_ex_names = [''peak_rss'', ''peak_vms'', ''rss_anon'', ''rss_file'', ''rss_shmem'', ''swap'', ''hugetlb'']"

fun metric_of :: "pval \<Rightarrow> string \<Rightarrow> int option" where
  "metric_of (PvMem m) a = map_of (zip pmem_names [pm_rss m, pm_vms m, pm_shared m, pm_text m, pm_data m]) a"
| "metric_of (PvMemEx m) a = map_of (zip (pmem_names @ pmem_ex_names)
     [pm_rss m, pm_vms m, pm_shared m, pm_text m, pm_data m, px_peak_rss m, px_peak_vms m, px_rss_anon m,
      px_rss_file m, px_rss_shmem m, px_swap m, px_hugetlb m]) a"
| "metric_of (PvFoot f) a = map_of (zip pfootprint_names [fp_uss f, fp_pss f, fp_swap f]) a"
| "metric_of _ a = None"

text \<open>\<open>_TOTAL_PHYMEM or virtual_memory().total\<close>.\<close>

definition total_phymem :: "('z ustate_scheme, int) py" where
  "total_phymem = bnd (gets g_total_phymem) (\<lambda>g. case g of
      Some n \<Rightarrow> if n \<noteq> 0 then ret n else bnd psutil_virtual_memory (\<lambda>m. ret (vm_total m))
    | None \<Rightarrow> bnd psutil_virtual_memory (\<lambda>m. ret (vm_total m)))"

definition memory_percent :: "nat \<Rightarrow> string \<Rightarrow> ('z ustate_scheme, pval) py" where
  "memory_percent r memtype =
     (if memtype \<notin> set (pmem_names @ pmem_ex_names @ pfootprint_names) then raise ValueError
      else bnd (if memtype \<in> set pmem_names then pr_memory_info r
                else if memtype \<in> set pfootprint_names then
                  bnd (sys_const (\<lambda>os. os_has_smaps os \<or> os_has_smaps_rollup os)) (\<lambda>has.
                    if has then pr_memory_footprint r else raise AttributeError)
                else pr_memory_info_ex r) (\<lambda>metrics.
        bnd (is_ad_value r metrics) (\<lambda>ad.
        if ad then ret metrics
        else bnd (liftE (of_option AttributeError (metric_of metrics memtype))) (\<lambda>v.
          bnd total_phymem (\<lambda>tot.
          if \<not> 0 < tot then raise ValueError
          else bnd (liftE (fdiv (fint v) (fint tot))) (\<lambda>q. ret (PvFloat (fmul q 100))))))))"

definition pr_memory_percent :: "nat \<Rightarrow> ('z ustate_scheme, pval) py" where
  "pr_memory_percent r = use_prefetch r ''memory_percent'' id (memory_percent r ''rss'')"

text \<open>\<open>memory_maps(grouped=True)\<close>: regions with the same path are added up.\<close>

definition group_map :: "pmmap_ext \<Rightarrow> (string, int list) dict \<Rightarrow> (string, int list) dict" where
  "group_map m d = AList.update (mx_path m) (case map_of d (mx_path m) of
       Some old \<Rightarrow> map2 (+) old (mx_nums m) | None \<Rightarrow> mx_nums m) d"

definition group_maps :: "pmmap_ext list \<Rightarrow> pmmap_grouped list" where
  "group_maps ms = map (\<lambda>(path, nums). \<lparr>mm_path = path, mm_nums = nums\<rparr>) (fold group_map ms [])"

definition pr_memory_maps :: "nat \<Rightarrow> ('z ustate_scheme, pval) py" where
  "pr_memory_maps r = use_prefetch r ''memory_maps'' PvMaps
     (bnd (impl r proc_memory_maps) (\<lambda>it. ret (group_maps it)))"
definition memory_maps_ungrouped :: "nat \<Rightarrow> ('z ustate_scheme, pmmap_ext list) py" where
  "memory_maps_ungrouped r = impl r proc_memory_maps"

section \<open>Sockets\<close>

definition connections_of :: "nat \<Rightarrow> string \<Rightarrow> ('z ustate_scheme, sconn list) py" where
  "connections_of r kind = bnd (check_conn_kind kind) (\<lambda>_. impl r (proc_net_connections kind))"

definition pr_net_connections :: "nat \<Rightarrow> ('z ustate_scheme, pval) py" where
  "pr_net_connections r = use_prefetch r ''net_connections'' PvConns (connections_of r ''inet'')"

text \<open>The deprecated \<open>connections\<close>, which passes its argument on by keyword.\<close>

definition connections :: "nat \<Rightarrow> string \<Rightarrow> ('z ustate_scheme, sconn list) py" where
  "connections r kind = connections_of r kind"

section \<open>CPU utilization\<close>

definition cpu_timer :: "int \<Rightarrow> ('z ustate_scheme, flt) py" where
  "cpu_timer num_cpus = bnd monotonic (\<lambda>t. ret (fmul t (fint num_cpus)))"

definition remember_times :: "nat \<Rightarrow> flt \<Rightarrow> pcputimes \<Rightarrow> ('z ustate_scheme, unit) py" where
  "remember_times r st pt =
     set_obj r (\<lambda>p. p\<lparr>p_last_sys_cpu_times := Some st, p_last_proc_cpu_times := Some pt\<rparr>)"

definition process_percent :: "int \<Rightarrow> flt \<Rightarrow> pcputimes \<Rightarrow> flt \<Rightarrow> pcputimes \<Rightarrow> flt" where
  "process_percent num_cpus st1 pt1 st2 pt2 =
     (let delta_proc = fadd (fsub (pct_user pt2) (pct_user pt1)) (fsub (pct_system pt2) (pct_system pt1));
          delta_time = fsub st2 st1
      in case fdiv delta_proc delta_time of
           Inl _ \<Rightarrow> 0
         | Inr q \<Rightarrow> fround1 (fmul (fmul q 100) (fint num_cpus)))"

definition process_cpu_percent :: "nat \<Rightarrow> flt option \<Rightarrow> ('z ustate_scheme, flt) py" where
  "process_cpu_percent r interval = bnd (check_interval interval) (\<lambda>_.
     bnd (cpu_count True) (\<lambda>n. let num_cpus = (case n of None \<Rightarrow> 1 | Some k \<Rightarrow> k) in
     bnd (case interval of
           Some t \<Rightarrow> if 0 < t
             then bnd (cpu_timer num_cpus) (\<lambda>st1. bnd (impl r proc_cpu_times) (\<lambda>pt1.
               bnd (sleep_call t) (\<lambda>_. ret (Some st1, Some pt1))))
             else obj r (\<lambda>p. (p_last_sys_cpu_times p, p_last_proc_cpu_times p))
         | None \<Rightarrow> obj r (\<lambda>p. (p_last_sys_cpu_times p, p_last_proc_cpu_times p))) (\<lambda>first.
     bnd (cpu_timer num_cpus) (\<lambda>st2. bnd (impl r proc_cpu_times) (\<lambda>pt2.
     bnd (remember_times r st2 pt2) (\<lambda>_.
     ret (case first of (Some st1, Some pt1) \<Rightarrow> process_percent num_cpus st1 pt1 st2 pt2 | _ \<Rightarrow> 0)))))))"

definition pr_cpu_percent :: "nat \<Rightarrow> ('z ustate_scheme, pval) py" where
  "pr_cpu_percent r = use_prefetch r ''cpu_percent'' PvFloat (process_cpu_percent r None)"

section \<open>Oneshot\<close>

definition pcaches_enter :: "nat \<Rightarrow> ('z ustate_scheme, unit) py" where
  "pcaches_enter r = bnd (modify (pcache_on r)) (\<lambda>_. bnd (modify (pcache_on r)) (\<lambda>_.
     bnd (modify (pcache_on r)) (\<lambda>_. bnd (modify (pcache_on r)) (\<lambda>_. impl r oneshot_enter))))"

definition pcaches_exit :: "nat \<Rightarrow> ('z ustate_scheme, unit) py" where
  "pcaches_exit r = bnd (modify (pcache_off r)) (\<lambda>_. bnd (modify (pcache_off r)) (\<lambda>_.
     bnd (modify (pcache_off r)) (\<lambda>_. bnd (modify (pcache_off r)) (\<lambda>_. impl r oneshot_exit))))"

text \<open>\<open>with self.oneshot(): m\<close>.\<close>

definition oneshot :: "nat \<Rightarrow> ('z ustate_scheme, 'a) py \<Rightarrow> ('z ustate_scheme, 'a) py" where
  "oneshot r m = bnd (gets (has_pcache r)) (\<lambda>active.
     if active then m
     else try_finally (bnd (pcaches_enter r) (\<lambda>_. m)) (pcaches_exit r))"

section \<open>\<open>as_dict\<close>\<close>

text \<open>
  The names of \<open>Process.attrs\<close>, in order, with what \<open>getattr(self, name)()\<close> runs.  Two of
  them exist only when the kernel has the files they read.
\<close>

definition attr_table :: "nat \<Rightarrow> (string, ('z ustate_scheme, pval) py) dict" where
  "attr_table r = [
     (''cmdline'', pr_cmdline r), (''cpu_affinity'', pr_cpu_affinity r), (''cpu_num'', pr_cpu_num r),
     (''cpu_percent'', pr_cpu_percent r), (''cpu_times'', pr_cpu_times r),
     (''create_time'', pr_create_time r), (''cwd'', pr_cwd r), (''environ'', pr_environ r),
     (''exe'', pr_exe r), (''gids'', pr_gids r), (''io_counters'', pr_io_counters r),
     (''ionice'', pr_ionice r), (''memory_footprint'', pr_memory_footprint r),
     (''memory_info'', pr_memory_info r), (''memory_info_ex'', pr_memory_info_ex r),
     (''memory_maps'', pr_memory_maps r), (''memory_percent'', pr_memory_percent r),
     (''name'', pr_name r), (''net_connections'', pr_net_connections r), (''nice'', pr_nice r),
     (''num_ctx_switches'', pr_num_ctx_switches r), (''num_fds'', pr_num_fds r),
     (''num_threads'', pr_num_threads r), (''open_files'', pr_open_files r),
     (''page_faults'', pr_page_faults r), (''pid'', bnd (obj r p_pid) (\<lambda>pid. ret (PvInt pid))),
     (''ppid'', pr_ppid r), (''status'', pr_status r), (''terminal'', pr_terminal r),
     (''threads'', pr_threads r), (''uids'', pr_uids r), (''username'', pr_username r)]"

definition valid_attrs :: "os \<Rightarrow> string list" where
  "valid_attrs os = filter (\<lambda>n. (n = ''memory_maps'' \<longrightarrow> os_has_smaps os)
       \<and> (n = ''memory_footprint'' \<longrightarrow> os_has_smaps os \<or> os_has_smaps_rollup os))
     [''cmdline'', ''cpu_affinity'', ''cpu_num'', ''cpu_percent'', ''cpu_times'', ''create_time'', ''cwd'',
      ''environ'', ''exe'', ''gids'', ''io_counters'', ''ionice'', ''memory_footprint'', ''memory_info'',
      ''memory_info_ex'', ''memory_maps'', ''memory_percent'', ''name'', ''net_connections'', ''nice'',
      ''num_ctx_switches'', ''num_fds'', ''num_threads'', ''open_files'', ''page_faults'', ''pid'', ''ppid'',
      ''status'', ''terminal'', ''threads'', ''uids'', ''username'']"

definition get_attr :: "nat \<Rightarrow> string \<Rightarrow> ('z ustate_scheme, pval) py" where
  "get_attr r name = (if name = ''memory_full_info'' then memory_full_info r
     else case map_of (attr_table r) name of Some m \<Rightarrow> m | None \<Rightarrow> raise AttributeError)"

text \<open>The body of the loop; \<open>asked\<close> tells whether the caller named the attributes.\<close>

definition attr_step ::
  "nat \<Rightarrow> bool \<Rightarrow> pval \<Rightarrow> string \<Rightarrow> (string, pval) dict \<Rightarrow> ('z ustate_scheme, (string, pval) dict) py" where
  "attr_step r asked ad_value name d = try_else (get_attr r name)
     (\<lambda>e. if is_AccessDenied e \<or> is_ZombieProcess e then ret (AList.update name ad_value d)
          else if e = NotImplementedError then (if asked then raise e else ret d)
          else raise e)
     (\<lambda>v. ret (AList.update name v d))"

text \<open>A set of names is a list without repetition, in the order Python iterates over it.\<close>

definition as_dict :: "nat \<Rightarrow> string list option \<Rightarrow> pval \<Rightarrow> ('z ustate_scheme, (string, pval) dict) py" where
  "as_dict r attrs0 ad_value = bnd (sys_const valid_attrs) (\<lambda>valid_names.
     let attrs = (case attrs0 of None \<Rightarrow> [] | Some l \<Rightarrow> remdups l) in
     if \<not> set attrs \<subseteq> set valid_names \<union> {''memory_full_info''} then raise ValueError
     else let names = (if attrs \<noteq> [] then attrs else valid_names) in
       oneshot r (for_each names (attr_step r (attrs \<noteq> []) ad_value) []))"

section \<open>Grouped memory maps\<close>

lemma maps_item_nums:
  assumes "maps_item header data acc s = (Inr ms, t)" "\<forall>m \<in> set acc. length (mx_nums m) = 10"
  shows "\<forall>m \<in> set ms. length (mx_nums m) = 10"
  using assms by (auto simp: maps_item_def Let_def maps_keys_def split: list.splits if_splits sum.splits prod.splits)

lemma maps_blocks_nums:
  assumes "maps_blocks ls block data acc s = (Inr ms, t)" "\<forall>m \<in> set acc. length (mx_nums m) = 10"
  shows "\<forall>m \<in> set ms. length (mx_nums m) = 10"
  using assms
proof (induction ls block data acc arbitrary: s rule: maps_blocks.induct)
  case (1 block data acc)
  then show ?case by (auto dest: maps_item_nums)
next
  case (2 line ls block data acc)
  obtain key rest where k: "split_ws_max 5 line = key # rest"
    using 2(5) by (cases "split_ws_max 5 line") auto
  show ?case
  proof (cases "endswith key '':''")
    case False
    then obtain acc' u where "maps_item block data acc s = (Inr acc', u)" "maps_blocks ls line data acc' u = (Inr ms, t)"
      using 2(5) k by (auto simp: bnd_Inr simp del: bnd_run)
    then show ?thesis using 2(1) [OF k False] 2(6) maps_item_nums by blast
  next
    case True
    then show ?thesis using 2 k by (fastforce split: list.splits sum.splits if_splits)
  qed
qed

lemma proc_memory_maps_nums:
  assumes "proc_memory_maps s = (Inr ms, t)"
  shows "\<forall>m \<in> set ms. length (mx_nums m) = 10"
proof -
  from wrap_exceptions_Inr [OF assms [unfolded proc_memory_maps_def]] obtain data u where
    "(if data = [] then bnd raise_if_zombie (\<lambda>_. ret [])
       else case split_on nl data of first_line # ls \<Rightarrow> maps_blocks ls first_line [] [] | [] \<Rightarrow> raise IndexError) u
     = (Inr ms, t)"
    by (auto simp: bnd_Inr simp del: bnd_run)
  then show ?thesis
    using maps_blocks_nums by (fastforce split: if_splits list.splits prod.splits sum.splits)
qed

text \<open>The grouped entries: paths in order of appearance, numbers added up.\<close>

definition sum_nums :: "nat \<Rightarrow> pmmap_ext list \<Rightarrow> int list" where
  "sum_nums k ms = map (\<lambda>i. \<Sum>m\<leftarrow>ms. mx_nums m ! i) [0..<k]"

lemma group_fold:
  assumes "\<forall>m \<in> set ms. length (mx_nums m) = k"
  shows "dict_keys (fold group_map ms []) = rev (remdups (rev (map mx_path ms)))
     \<and> (\<forall>p \<in> mx_path ` set ms. map_of (fold group_map ms []) p = Some (sum_nums k (filter (\<lambda>m. mx_path m = p) ms)))"
  using assms
proof (induction ms rule: rev_induct)
  case Nil
  then show ?case by simp
next
  case (snoc m ms)
  define d where "d = fold group_map ms []"
  let ?sum = "\<lambda>p ms. sum_nums k (filter (\<lambda>m. mx_path m = p) ms)"
  have keys: "dict_keys d = rev (remdups (rev (map mx_path ms)))"
    and vals: "\<And>p. p \<in> mx_path ` set ms \<Longrightarrow> map_of d p = Some (?sum p ms)"
    and len: "length (mx_nums m) = k" using snoc by (auto simp: d_def)
  have kset: "set (dict_keys d) = mx_path ` set ms" unfolding keys by simp
  have "(case map_of d (mx_path m) of Some old \<Rightarrow> map2 (+) old (mx_nums m) | None \<Rightarrow> mx_nums m)
      = ?sum (mx_path m) (ms @ [m])"
  proof (cases "mx_path m \<in> mx_path ` set ms")
    case True
    show ?thesis unfolding vals [OF True] using len
      by (intro nth_equalityI) (simp_all add: sum_nums_def)
  next
    case False
    then have "map_of d (mx_path m) = None" using kset by (simp add: map_of_eq_None_iff)
    moreover have "filter (\<lambda>x. mx_path x = mx_path m) ms = []" using False unfolding filter_empty_conv image_iff by metis
    ultimately show ?thesis using len by (intro nth_equalityI) (simp_all add: sum_nums_def)
  qed
  then have step: "fold group_map (ms @ [m]) [] = AList.update (mx_path m) (?sum (mx_path m) (ms @ [m])) d"
    by (simp add: d_def [symmetric] group_map_def)
  have "dict_keys (AList.update (mx_path m) v d) = rev (remdups (rev (map mx_path (ms @ [m]))))" for v
    using keys kset keys_update_same [of "mx_path m" d v] keys_update_new [of "mx_path m" d v]
    by (cases "mx_path m \<in> mx_path ` set ms") auto
  moreover have "map_of (AList.update (mx_path m) (?sum (mx_path m) (ms @ [m])) d) p = Some (?sum p (ms @ [m]))"
    if "p \<in> mx_path ` set (ms @ [m])" for p
    using that vals [of p] by (cases "p = mx_path m") auto
  ultimately show ?case unfolding step by blast
qed

text \<open>
  C32: unless its value has been prefetched, \<open>memory_maps()\<close> is \<open>memory_maps(grouped=False)\<close> of the same process with the regions of
  a path merged: every path occurs once, in the order of its first region, and each of its
  numbers is the sum over its regions.
\<close>

theorem memory_maps_groups:
  assumes "memory_maps_ungrouped r s = (Inr ms, t)" and "map_of (p_prefetch (objs s r)) ''memory_maps'' = None"
  shows "pr_memory_maps r s = (Inr (PvMaps (map (\<lambda>p. \<lparr>mm_path = p,
       mm_nums = sum_nums 10 (filter (\<lambda>m. mx_path m = p) ms)\<rparr>) (rev (remdups (rev (map mx_path ms)))))), t)"
proof -
  have nums: "\<forall>m \<in> set ms. length (mx_nums m) = 10"
    using assms(1) proc_memory_maps_nums
    by (fastforce simp: memory_maps_ungrouped_def impl_def split: prod.splits)
  let ?d = "fold group_map ms []"
  have keys: "dict_keys ?d = rev (remdups (rev (map mx_path ms)))" using group_fold [OF nums] by simp
  then have ok: "dict_ok ?d" "set (dict_keys ?d) = mx_path ` set ms" by simp_all
  have "snd e = sum_nums 10 (filter (\<lambda>m. mx_path m = fst e) ms)" if "e \<in> set ?d" for e
  proof -
    have "map_of ?d (fst e) = Some (snd e)" using that ok(1) by simp
    moreover have "fst e \<in> mx_path ` set ms" using that ok(2) by force
    ultimately show ?thesis using group_fold [OF nums] by auto
  qed
  then have "group_maps ms = map (\<lambda>p. \<lparr>mm_path = p,
      mm_nums = sum_nums 10 (filter (\<lambda>m. mx_path m = p) ms)\<rparr>) (dict_keys ?d)"
    by (auto simp: group_maps_def case_prod_beta)
  then show ?thesis
    using assms unfolding keys by (simp add: pr_memory_maps_def use_prefetch_def memory_maps_ungrouped_def)
qed

section \<open>Names\<close>

text \<open>
  \<open>name()\<close> returns the name the kernel gives, or, when that is as long as a cut name, a
  longer one it is the beginning of; it is also remembered for the messages of later
  exceptions.
\<close>

theorem name_extends_kernel_name:
  assumes "pr_name r s = (Inr v, t)" and "map_of (p_prefetch (objs s r)) ''name'' = None"
    and "impl r proc_name s = (Inr name0, u)"
  shows "\<exists>n. v = PvStr n \<and> startswith n name0 \<and> (length name0 < 15 \<longrightarrow> n = name0)
     \<and> p_name (objs t r) = Some n \<and> l_name (p_impl (objs t r)) = Some n"
proof -
  obtain n w where n: "(if 15 \<le> length name0 then extended_name r name0 else ret name0) u = (Inr n, w)"
    "v = PvStr n" "t = upd r (\<lambda>p. p\<lparr>p_name := Some n, p_impl := (p_impl p)\<lparr>l_name := Some n\<rparr>\<rparr>) w"
    using assms by (auto simp: pr_name_def use_prefetch_def bnd_Inr simp del: bnd_run)
  have "startswith n name0 \<and> (length name0 < 15 \<longrightarrow> n = name0)"
    using n(1) startswith_append [of name0 "[]"]
    by (auto simp: extended_name_def Let_def split: if_splits sum.splits prod.splits)
  then show ?thesis using n(2,3) by simp
qed

section \<open>Examples\<close>

definition maps_text :: string where
  "maps_text = ''0-1 r 0 0 5 /l'' @ nl # ''Rss: 4 kB'' @ nl # ''1-2 w 0 0 5 /l''"

lemma demo_impl:
  assumes "m (demo_state\<lparr>sys_os := o', lp := null_lproc 42\<rparr>) = (Inr x, t)"
  shows "\<exists>u. impl 0 m (demo_state\<lparr>sys_os := o'\<rparr>) = (Inr x, u)"
  using assms by (simp add: impl_def demo_proc_def blank_proc_def)

theorem memory_maps_groups_witness:
  "\<exists>g t. pr_memory_maps 0 (demo_state\<lparr>sys_os := null_os\<lparr>os_read := \<lambda>h p. Inr maps_text\<rparr>\<rparr>)
     = (Inr (PvMaps [\<lparr>mm_path = ''/l'', mm_nums = g\<rparr>]), t)"
proof -
  let ?s = "demo_state\<lparr>sys_os := null_os\<lparr>os_read := \<lambda>h p. Inr maps_text\<rparr>\<rparr>"
  have i: "py_int ''4'' = Inr 4" by (simp add: py_int_def py_int_base_def strip_def lstrip_def rstrip_def ws_def split_sign_def digit_val_def Let_def)
  have st: "strip maps_text = maps_text" "maps_text \<noteq> []"
    by (simp_all add: maps_text_def strip_def lstrip_def rstrip_def ws_def)
  have sp: "split_on nl maps_text = [''0-1 r 0 0 5 /l'', ''Rss: 4 kB'', ''1-2 w 0 0 5 /l'']"
    by (simp add: maps_text_def)
  have w: "split_ws_max 5 ''0-1 r 0 0 5 /l'' = [''0-1'', ''r'', ''0'', ''0'', ''5'', ''/l'']"
    "split_ws_max 5 ''1-2 w 0 0 5 /l'' = [''1-2'', ''w'', ''0'', ''0'', ''5'', ''/l'']"
    "split_ws_max 5 ''Rss: 4 kB'' = [''Rss:'', ''4'', ''kB'']" "strip ''/l'' = ''/l''"
    by (simp_all add: numeral_eq_Suc lstrip_def rstrip_def strip_def ws_def Let_def)
  have e: "\<not> endswith ''1-2'' '':''" "endswith ''Rss:'' '':''" "\<not> endswith ''/l'' '' (deleted)''"
    by (simp_all add: endswith_def startswith_def)
  have read: "\<exists>t. read_smaps_file (?s\<lparr>lp := null_lproc 42\<rparr>) = (Inr maps_text, t)"
    using st by (simp add: read_smaps_file_def wrap_exceptions_def memoize_def has_cache_def null_lproc_def
        read_file_def bcat_def cat_def)
  let ?n = "\<lambda>d. map (\<lambda>k. dict_get d k 0) maps_keys"
  have item: "maps_item ''0-1 r 0 0 5 /l'' d acc t
        = (Inr (acc @ [\<lparr>mx_addr = ''0-1'', mx_perms = ''r'', mx_path = ''/l'', mx_nums = ?n d\<rparr>]), t)"
    "maps_item ''1-2 w 0 0 5 /l'' d acc t
        = (Inr (acc @ [\<lparr>mx_addr = ''1-2'', mx_perms = ''w'', mx_path = ''/l'', mx_nums = ?n d\<rparr>]), t)" for d acc t
    unfolding maps_item_def w Let_def using w(4) e(3) by (simp_all del: map_eq_conv)
  have blocks: "\<exists>a b. maps_blocks [''Rss: 4 kB'', ''1-2 w 0 0 5 /l''] ''0-1 r 0 0 5 /l'' [] [] t
      = (Inr [\<lparr>mx_addr = ''0-1'', mx_perms = ''r'', mx_path = ''/l'', mx_nums = a\<rparr>,
              \<lparr>mx_addr = ''1-2'', mx_perms = ''w'', mx_path = ''/l'', mx_nums = b\<rparr>], t)" for t
    by (simp add: w e i item)
  have "\<exists>a b t. proc_memory_maps (?s\<lparr>lp := null_lproc 42\<rparr>)
      = (Inr [\<lparr>mx_addr = ''0-1'', mx_perms = ''r'', mx_path = ''/l'', mx_nums = a\<rparr>,
              \<lparr>mx_addr = ''1-2'', mx_perms = ''w'', mx_path = ''/l'', mx_nums = b\<rparr>], t)"
  proof -
    obtain t where t: "read_smaps_file (?s\<lparr>lp := null_lproc 42\<rparr>) = (Inr maps_text, t)" using read by blast
    obtain a b where ab: "maps_blocks [''Rss: 4 kB'', ''1-2 w 0 0 5 /l''] ''0-1 r 0 0 5 /l'' [] [] t
      = (Inr [\<lparr>mx_addr = ''0-1'', mx_perms = ''r'', mx_path = ''/l'', mx_nums = a\<rparr>,
              \<lparr>mx_addr = ''1-2'', mx_perms = ''w'', mx_path = ''/l'', mx_nums = b\<rparr>], t)" using blocks by blast
    show ?thesis unfolding proc_memory_maps_def
      by (intro exI, rule wrap_exceptions_ok) (use ab in \<open>simp add: t st sp del: maps_blocks.simps\<close>)
  qed
  then obtain a b t where t: "proc_memory_maps (?s\<lparr>lp := null_lproc 42\<rparr>)
      = (Inr [\<lparr>mx_addr = ''0-1'', mx_perms = ''r'', mx_path = ''/l'', mx_nums = a\<rparr>,
              \<lparr>mx_addr = ''1-2'', mx_perms = ''w'', mx_path = ''/l'', mx_nums = b\<rparr>], t)" by (elim exE)
  obtain u where u: "memory_maps_ungrouped 0 ?s
      = (Inr [\<lparr>mx_addr = ''0-1'', mx_perms = ''r'', mx_path = ''/l'', mx_nums = a\<rparr>,
              \<lparr>mx_addr = ''1-2'', mx_perms = ''w'', mx_path = ''/l'', mx_nums = b\<rparr>], u)"
    unfolding memory_maps_ungrouped_def using demo_impl [of proc_memory_maps, OF t] by (elim exE)
  have "map_of (p_prefetch (objs ?s 0)) ''memory_maps'' = None" by (simp add: demo_proc_def blank_proc_def)
  from memory_maps_groups [OF u this] show ?thesis by simp
qed

lemma demo_name: "\<exists>t. proc_name (demo_state\<lparr>lp := null_lproc 42\<rparr>) = (Inr ''init'', t)"
proof -
  obtain v where v: "parse_stat (stat_text 42 ''init'' sample_fields) = Inr v" "ps_name v = ''init''"
    using demo_stat by blast
  then show ?thesis
    by (simp add: proc_name_def parse_stat_file_def wrap_exceptions_def memoize_def has_cache_def null_lproc_def
        bcat_def cat_def read_file_def demo_os_def)
qed

theorem name_extends_kernel_name_witness:
  "\<exists>t. pr_name 0 demo_state = (Inr (PvStr ''init''), t) \<and> p_name (objs t 0) = Some ''init''"
proof -
  obtain u where u: "impl 0 proc_name demo_state = (Inr ''init'', u)"
    using demo_name by (auto simp: impl_def demo_proc_def blank_proc_def)
  have p: "map_of (p_prefetch (objs demo_state 0)) ''name'' = None" by (simp add: demo_proc_def blank_proc_def)
  have "\<exists>t. pr_name 0 demo_state = (Inr (PvStr ''init''), t)"
    using u p by (simp add: pr_name_def use_prefetch_def)
  then obtain t where t: "pr_name 0 demo_state = (Inr (PvStr ''init''), t)" by blast
  from name_extends_kernel_name [OF t p u] t show ?thesis by auto
qed

end
