(* ===== verification/Init_Frames.thy ===== *)
theory Init_Frames
  imports Init_Methods
begin

text \<open>
  What the getters leave alone: the system, the other objects, and the identity of the
  object itself.  First the methods of the platform module, then those of \<open>Process\<close>.
\<close>

section \<open>The platform module\<close>

lemmas lfr_rules = lfr.pres_ret lfr.pres_raise lfr.pres_liftE lfr.pres_gets lfr.pres_bnd lfr.pres_try_else
  lfr.pres_try_except lfr.pres_if lfr.pres_for_each pres_wrap_exceptions pres_raise_if_zombie
  pres_confined_lframe [OF pres_self] pres_confined_lframe [OF pres_sys_reads(1)]
  pres_confined_lframe [OF pres_sys_reads(2)] pres_confined_lframe [OF pres_sys_reads(4)]
  pres_confined_lframe [OF pres_sys_reads(5)] pres_confined_lframe [OF pres_sys_const]
  pres_confined_lframe [OF pres_readlink] pres_confined_lframe [OF pres_isfile_strict]
  pres_confined_lframe [OF pres_path_exists] pres_confined_lframe [OF pres_path_exists_strict]
  pres_confined_lframe [OF pres_get_procfs_path]

lemma lframe_memo:
  assumes "pres lframe m" "\<And>v s. lframe s (store v s)"
  shows "pres lframe (memoize has look store m)"
  unfolding memoize_def using assms
  by (intro lfr.pres_bnd lfr.pres_gets) (auto intro!: lfr_rules lfr.pres_modify split: option.splits simp: lframe_refl)

lemma store_lframe: "lframe s (store_status v s)" "lframe s (store_smaps v s)"
  by (simp_all add: lframe_def store_status_def store_smaps_def upd_cache_def)

lemma pres_read_status: "pres lframe read_status_file"
  unfolding read_status_file_def bcat_def cat_def by (intro lfr_rules lframe_memo store_lframe)

lemma pres_read_smaps: "pres lframe read_smaps_file"
  unfolding read_smaps_file_def bcat_def cat_def by (intro lfr_rules lframe_memo store_lframe)

lemma pres_proc_readlink: "pres lframe (proc_readlink path fallback)"
  unfolding proc_readlink_def by (auto intro!: lfr_rules split: option.splits)

lemma pres_not_alive: "pres lframe raise_if_not_alive"
  unfolding raise_if_not_alive_def by (intro lfr_rules)

lemma pres_get_terminal: "pres lframe (get_terminal n :: ('z lsys_scheme, string option) py)"
proof -
  have map: "pres (confined read_calls) (build_terminal_map :: ('z lsys_scheme, (int, string) dict) py)"
    unfolding build_terminal_map_def by (auto intro!: pres_intros split: option.splits)
  have "pres lframe (get_terminal_map :: ('z lsys_scheme, (int, string) dict) py)"
    unfolding get_terminal_map_def
    by (auto intro!: lfr_rules pres_confined_lframe [OF map] lfr.pres_modify split: option.splits simp: lframe_def)
  then show ?thesis
    unfolding get_terminal_def terminal_cache_clear_def
    by (auto intro!: lfr_rules lfr.pres_modify split: option.splits simp: lframe_def)
qed

lemmas lfr_files = lfr_rules pres_parse_stat_file pres_read_status pres_read_smaps pres_proc_readlink
  pres_not_alive pres_get_terminal

lemma pres_stat_methods:
  "pres lframe proc_name" "pres lframe proc_terminal" "pres lframe proc_cpu_times" "pres lframe proc_cpu_num"
  "pres lframe proc_page_faults" "pres lframe proc_status" "pres lframe proc_ppid"
  unfolding proc_name_def proc_terminal_def proc_cpu_times_def proc_cpu_num_def proc_page_faults_def
    proc_status_def proc_ppid_def
  by (auto intro!: lfr_files)

lemma pres_status_methods:
  "pres lframe proc_num_ctx_switches" "pres lframe proc_num_threads" "pres lframe proc_uids"
  "pres lframe proc_gids" "pres lframe proc_memory_info_ex"
  unfolding proc_num_ctx_switches_def proc_num_threads_def proc_uids_def proc_gids_def proc_memory_info_ex_def
  by (auto intro!: lfr_files)

lemma pres_file_methods:
  "pres lframe proc_exe" "pres lframe proc_cwd" "pres lframe proc_cmdline" "pres lframe proc_environ"
  "pres lframe proc_io_counters" "pres lframe proc_memory_info" "pres lframe proc_num_fds"
  unfolding proc_exe_def proc_cwd_def proc_cmdline_def proc_environ_def proc_io_counters_def
    proc_memory_info_def proc_num_fds_def
  by (auto intro!: lfr_files split: list.splits)

lemma lframe_call: "read_only c \<Longrightarrow> pres lframe (sys_call c f)"
  by (rule pres_confined_lframe, rule pres_sys_call) simp

lemma pres_retrieve: "pres (confined read_calls) (retrieve kind pid)"
proof -
  have ask: "pres (confined read_calls) (get_proc_inodes procfs p)" for procfs p
    unfolding get_proc_inodes_def proc_inodes_step_def Let_def by (intro pres_intros)
  moreover have "pres (confined read_calls) (get_all_inodes procfs)" for procfs
    unfolding get_all_inodes_def using ask by (auto intro!: pres_intros)
  moreover have "pres (confined read_calls) (retrieve_step procfs pid inodes e acc)" for procfs inodes e acc
    unfolding retrieve_step_def process_inet_def process_unix_def Let_def
    by (auto intro!: pres_intros split: prod.splits option.splits)
  ultimately show ?thesis
    unfolding retrieve_def by (auto intro!: pres_intros split: option.splits)
qed

lemma pres_maps_blocks: "pres (confined read_calls) (maps_blocks ls block data acc)"
proof (induction ls block data acc rule: maps_blocks.induct)
  case (1 block data acc)
  show ?case by (auto simp: maps_item_def Let_def intro!: pres_intros split: list.splits)
next
  case (2 line ls block data acc)
  have item: "pres (confined read_calls) (maps_item block data acc)" for block data acc
    by (auto simp: maps_item_def Let_def intro!: pres_intros split: list.splits)
  show ?case using 2 by (auto intro!: pres_intros item split: list.splits sum.splits)
qed

lemma pres_listing_methods: "pres lframe proc_threads" "pres lframe proc_open_files"
proof -
  have t: "pres lframe (thread_step tid acc)" for tid acc
    by (auto simp: thread_step_def Let_def intro!: lfr_rules split: prod.splits)
  show "pres lframe proc_threads"
    unfolding proc_threads_def by (auto intro!: lfr_files t split: prod.splits)
  have f: "pres lframe (open_file_step fd acc)" for fd acc
    by (auto simp: open_file_step_def intro!: lfr_rules split: prod.splits)
  show "pres lframe proc_open_files"
    unfolding proc_open_files_def by (auto intro!: lfr_files f split: prod.splits)
qed

lemma pres_memory_methods: "pres lframe proc_memory_footprint" "pres lframe proc_memory_maps"
proof -
  have r: "pres lframe parse_smaps_rollup" unfolding parse_smaps_rollup_def by (intro lfr_rules)
  have m: "pres lframe parse_smaps" unfolding parse_smaps_def by (intro lfr_files)
  show "pres lframe proc_memory_footprint"
    unfolding proc_memory_footprint_def by (auto intro!: lfr_files r m split: prod.splits)
  show "pres lframe proc_memory_maps"
    unfolding proc_memory_maps_def
    by (auto intro!: lfr_files pres_confined_lframe [OF pres_maps_blocks] split: list.splits)
qed

lemma pres_other_methods:
  "pres lframe (proc_net_connections kind)" "pres lframe proc_nice_get"
  "pres lframe proc_cpu_affinity_get" "pres lframe proc_ionice_get"
  unfolding proc_net_connections_def proc_nice_get_def proc_cpu_affinity_get_def proc_ionice_get_def
  by (auto intro!: lfr_files lframe_call pres_confined_lframe [OF pres_retrieve] split: prod.splits)

lemmas platform_reads = pres_stat_methods pres_status_methods pres_file_methods pres_listing_methods
  pres_memory_methods pres_other_methods pres_create_time

section \<open>The class \<open>Process\<close>\<close>

text \<open>
  \<open>keeps R\<close>: the oracle and the table of \<open>process_iter\<close> are the same, only read-only calls
  were made, objects are only added, those outside \<open>R\<close> are unchanged, and all keep their pid
  and identity.
\<close>

definition keeps :: "nat set \<Rightarrow> 'z ustate_scheme \<Rightarrow> 'z ustate_scheme \<Rightarrow> bool" where
  "keeps R s t \<longleftrightarrow> uframe R s t
     \<and> (\<forall>q < g_next s. p_pid (objs t q) = p_pid (objs s q) \<and> p_ident (objs t q) = p_ident (objs s q))"

lemma keeps_refl: "keeps R s s"
  by (simp add: keeps_def uframe_refl)

lemma keeps_trans: "keeps R s t \<Longrightarrow> keeps R t u \<Longrightarrow> keeps R s u"
  unfolding keeps_def by (auto intro: uframe_trans simp: uframe_def)

interpretation kp: preserved "keeps R" for R
  by unfold_locales (auto intro: keeps_refl keeps_trans)

lemma uframe_keeps: "uframe {} s t \<Longrightarrow> keeps R s t"
  unfolding keeps_def using uframe_mono [of "{}" s t R] by (auto simp: uframe_def)

lemma keeps_new_process: "pres (keeps R) (new_process pid)"
  by (rule presI) (blast intro: uframe_keeps new_process_frame)

lemma keeps_obj: "pres (keeps R) (obj r f)"
  unfolding obj_def by (rule kp.pres_gets)

lemma keeps_set_obj:
  "r \<in> R \<Longrightarrow> (\<And>p. p_pid (f p) = p_pid p \<and> p_ident (f p) = p_ident p) \<Longrightarrow> pres (keeps R) (set_obj r f)"
  by (rule presI) (auto simp: keeps_def uframe_def)

lemma keeps_impl:
  assumes "r \<in> R" "pres lframe m"
  shows "pres (keeps R) (impl r m)"
proof (rule presI)
  fix s x t
  assume run: "impl r m s = (x, t)"
  have "uframe R s t" using pres_impl [OF assms(2,1)] run by (rule presD)
  moreover obtain i where "objs t = (objs s)(r := (objs s r)\<lparr>p_impl := i\<rparr>)"
    using impl_obj [OF run assms(2)] by blast
  ultimately show "keeps R s t" by (auto simp: keeps_def)
qed

lemma confined_keeps: "confined read_calls s t \<Longrightarrow> keeps R s (t :: 'z ustate_scheme)"
  by (cases s; cases t) (auto simp: confined_def keeps_def uframe_def remembered_def list_all_iff)

lemma keeps_confined: "pres (confined read_calls) m \<Longrightarrow> pres (keeps R) (m :: ('z ustate_scheme, 'a) py)"
  using confined_keeps by (auto simp: pres_def)

lemma keeps_ask: "read_only c \<Longrightarrow> pres (keeps R) (sys_ask c f)"
  by (rule keeps_confined, rule pres_sys_ask) simp

lemma keeps_modify:
  "(\<And>s. objs (f s) = objs s \<and> g_next (f s) = g_next s \<and> g_pmap (f s) = g_pmap s
      \<and> remembered (f s) = remembered s \<and> set (g_pids_reused s) \<subseteq> set (g_pids_reused (f s))
      \<and> sys_os (f s) = sys_os s \<and> procfs_path (f s) = procfs_path s \<and> hist (f s) = hist s) \<Longrightarrow> pres (keeps R) (modify f)"
  by (rule kp.pres_modify) (simp add: keeps_def uframe_def)

lemma keeps_mono: "pres (keeps R) m \<Longrightarrow> R \<subseteq> Q \<Longrightarrow> pres (keeps Q) m"
  unfolding pres_def keeps_def using uframe_mono by blast

lemmas kp_rules = kp.pres_ret kp.pres_raise kp.pres_liftE kp.pres_gets kp.pres_bnd kp.pres_try_else
  kp.pres_try_except kp.pres_try_finally kp.pres_if kp.pres_for_each keeps_obj

lemma keeps_memo:
  assumes "pres (keeps R) m" "\<And>v s. keeps R s (store v s)"
  shows "pres (keeps R) (memoize has look store m)"
  unfolding memoize_def using assms
  by (intro kp.pres_bnd kp.pres_gets) (auto intro!: kp_rules kp.pres_modify split: option.splits simp: keeps_refl)

lemma keeps_upd:
  "r \<in> R \<Longrightarrow> (\<And>p. p_pid (f p) = p_pid p \<and> p_ident (f p) = p_ident p) \<Longrightarrow> keeps R s (upd r f s)"
  by (auto simp: keeps_def uframe_def)

lemma keeps_pcache: "r \<in> R \<Longrightarrow> keeps R s (upd_pcache r f s)"
  unfolding upd_pcache_def by (rule keeps_upd) simp_all

lemma keeps_use_prefetch: "pres (keeps R) m \<Longrightarrow> pres (keeps R) (use_prefetch r n conv m)"
  unfolding use_prefetch_def by (auto intro!: kp_rules split: option.splits)

lemma keeps_is_ad_value: "pres (keeps R) (is_ad_value r v)"
  unfolding is_ad_value_def by (rule keeps_obj)

lemma keeps_is_running: "r \<in> R \<Longrightarrow> pres (keeps R) (is_running r)"
  unfolding is_running_def
  by (auto intro!: kp_rules keeps_new_process keeps_set_obj keeps_modify)

lemma keeps_raise_if_pid_reused: "r \<in> R \<Longrightarrow> pres (keeps R) (raise_if_pid_reused r)"
  unfolding raise_if_pid_reused_def by (auto intro!: kp_rules keeps_is_running)

lemmas kp_methods = kp_rules keeps_use_prefetch keeps_impl platform_reads keeps_raise_if_pid_reused
  keeps_is_ad_value keeps_memo keeps_pcache

lemma keeps_simple_methods:
  assumes "r \<in> R"
  shows "pres (keeps R) (pr_cmdline r)" "pres (keeps R) (pr_cwd r)" "pres (keeps R) (pr_gids r)"
    "pres (keeps R) (pr_terminal r)" "pres (keeps R) (pr_num_fds r)" "pres (keeps R) (pr_io_counters r)"
    "pres (keeps R) (pr_cpu_num r)" "pres (keeps R) (pr_environ r)" "pres (keeps R) (pr_num_ctx_switches r)"
    "pres (keeps R) (pr_num_threads r)" "pres (keeps R) (pr_threads r)" "pres (keeps R) (pr_page_faults r)"
    "pres (keeps R) (pr_open_files r)" "pres (keeps R) (pr_memory_footprint r)" "pres (keeps R) (pr_status r)"
    "pres (keeps R) (pr_nice r)" "pres (keeps R) (pr_ionice r)" "pres (keeps R) (pr_cpu_affinity r)"
    "pres (keeps R) (pr_memory_maps r)"
  unfolding pr_cmdline_def pr_cwd_def pr_gids_def pr_terminal_def pr_num_fds_def pr_io_counters_def
    pr_cpu_num_def pr_environ_def pr_num_ctx_switches_def pr_num_threads_def pr_threads_def pr_page_faults_def
    pr_open_files_def pr_memory_footprint_def pr_status_def pr_nice_def pr_ionice_def pr_cpu_affinity_def
    pr_memory_maps_def
  by (intro kp_methods assms)+

lemma keeps_memo_methods:
  assumes "r \<in> R"
  shows "pres (keeps R) (pr_ppid r)" "pres (keeps R) (pr_uids r)" "pres (keeps R) (pr_cpu_times r)"
    "pres (keeps R) (pr_memory_info r)"
  unfolding pr_ppid_def pr_uids_def pr_cpu_times_def pr_memory_info_def memo_ppid_def memo_uids_def
    memo_cpu_times_def memo_memory_info_def
  by (intro kp_methods assms)+

lemma keeps_name: "r \<in> R \<Longrightarrow> pres (keeps R) (pr_name r)"
  unfolding pr_name_def extended_name_def Let_def
  by (intro kp_methods keeps_simple_methods keeps_set_obj) simp_all

lemma keeps_guess: "r \<in> R \<Longrightarrow> pres (keeps R) (guess_it r e)"
  unfolding guess_it_def access_x_call_def
  by (intro kp_methods keeps_simple_methods keeps_confined [OF pres_path_isfile] keeps_ask) simp_all

lemma keeps_exe: "r \<in> R \<Longrightarrow> pres (keeps R) (pr_exe r)"
  unfolding pr_exe_def exe_uncached_def
  by (auto intro!: kp_methods keeps_guess keeps_set_obj split: option.splits)

lemma keeps_username: "r \<in> R \<Longrightarrow> pres (keeps R) (pr_username r)"
  unfolding pr_username_def getpwuid_call_def
  by (intro kp_methods keeps_memo_methods keeps_ask keeps_confined [OF pres_sys_const]) simp_all

lemma keeps_create_time: "r \<in> R \<Longrightarrow> pres (keeps R) (pr_create_time r)"
  unfolding pr_create_time_def
  by (auto intro!: kp_methods keeps_set_obj split: option.splits)

lemma keeps_memory_info_ex: "r \<in> R \<Longrightarrow> pres (keeps R) (pr_memory_info_ex r)"
  unfolding pr_memory_info_ex_def memo_memory_info_ex_def
  by (auto intro!: kp_methods keeps_memo_methods split: pval.splits)

lemma keeps_memory_full_info: "r \<in> R \<Longrightarrow> pres (keeps R) (memory_full_info r)"
  unfolding memory_full_info_def
  by (auto intro!: kp_methods keeps_memo_methods keeps_simple_methods keeps_confined [OF pres_sys_const]
      split: pval.splits prod.splits)

lemma pres_virtual_memory: "pres (confined read_calls) virtual_memory"
  unfolding virtual_memory_def virtual_memory_warn_def calculate_avail_vmem_def cat_def bcat_def Let_def
  by (auto intro!: pres_intros split: option.splits prod.splits)

lemma keeps_total_phymem: "pres (keeps R) total_phymem"
  unfolding total_phymem_def psutil_virtual_memory_def
  by (auto intro!: kp_rules keeps_modify keeps_confined [OF pres_virtual_memory] split: option.splits)

lemma keeps_memory_percent: "r \<in> R \<Longrightarrow> pres (keeps R) (pr_memory_percent r)"
  unfolding pr_memory_percent_def memory_percent_def
  by (intro kp_methods keeps_memo_methods keeps_simple_methods keeps_memory_info_ex keeps_total_phymem
      keeps_confined [OF pres_sys_const])

lemma keeps_net_connections: "r \<in> R \<Longrightarrow> pres (keeps R) (pr_net_connections r)"
  unfolding pr_net_connections_def connections_of_def check_conn_kind_def by (intro kp_methods)

lemma pres_cpu_count: "pres (confined read_calls) cpu_count_logical"
  unfolding cpu_count_logical_def nproc_online_call_def Let_def
  by (auto intro!: pres_intros split: option.splits)

lemma keeps_cpu_percent: "r \<in> R \<Longrightarrow> pres (keeps R) (pr_cpu_percent r)"
  unfolding pr_cpu_percent_def process_cpu_percent_def check_interval_def cpu_count_def cpu_timer_def
    remember_times_def Let_def option.case if_True
  by (intro kp_methods keeps_set_obj keeps_confined [OF pres_cpu_count]
      keeps_confined [OF pres_sys_reads(8)]) simp_all

section \<open>\<open>as_dict\<close>\<close>

lemma keeps_get_attr: "r \<in> R \<Longrightarrow> pres (keeps R) (get_attr r name)"
  unfolding get_attr_def attr_table_def
  by (auto intro!: kp_rules keeps_simple_methods keeps_memo_methods keeps_name keeps_exe keeps_username
      keeps_create_time keeps_memory_info_ex keeps_memory_full_info keeps_memory_percent keeps_net_connections
      keeps_cpu_percent split: option.splits)

lemma keeps_oneshot:
  assumes r: "r \<in> R" and m: "pres (keeps R) m"
  shows "pres (keeps R) (oneshot r m)"
proof -
  have lp: "pres lframe oneshot_enter" "pres lframe oneshot_exit"
    unfolding oneshot_enter_def oneshot_exit_def
    by (intro lfr.pres_bnd lfr.pres_modify; simp add: lframe_def cache_on_def cache_off_def)+
  have pc: "keeps R s (pcache_on r s)" "keeps R s (pcache_off r s)" for s
    using r unfolding pcache_on_def pcache_off_def by (intro keeps_upd; simp)+
  have "pres (keeps R) (pcaches_enter r)" "pres (keeps R) (pcaches_exit r)"
    unfolding pcaches_enter_def pcaches_exit_def
    by (intro kp.pres_bnd kp.pres_modify pc keeps_impl r lp)+
  then show ?thesis unfolding oneshot_def using m by (intro kp_rules)
qed

lemma keeps_as_dict: "r \<in> R \<Longrightarrow> pres (keeps R) (as_dict r attrs ad_value)"
  unfolding as_dict_def attr_step_def Let_def
  by (intro kp_rules keeps_oneshot keeps_get_attr keeps_confined [OF pres_sys_const])

lemma pcaches_exit_run:
  "\<exists>t. pcaches_exit r s = (Inr (), t) \<and> p_cache (objs t r) = None \<and> l_cache (p_impl (objs t r)) = None"
  by (auto simp: pcaches_exit_def impl_def oneshot_exit_def cache_off_def pcache_off_def upd_def)

lemma pcaches_enter_run: "\<exists>t. pcaches_enter r s = (Inr (), t)"
  by (auto simp: pcaches_enter_def impl_def oneshot_enter_def)

text \<open>
  How a block started in \<open>s\<close> and left in \<open>t\<close> runs under \<open>oneshot\<close>, from \<open>u\<close> to \<open>v\<close>: inside
  another \<open>oneshot\<close> there is nothing around it, otherwise the caches are created before it and
  dropped after it, whatever happened inside.
\<close>

definition in_oneshot :: "nat \<Rightarrow> 'z ustate_scheme \<Rightarrow> 'z ustate_scheme \<Rightarrow> 'z ustate_scheme \<Rightarrow> 'z ustate_scheme \<Rightarrow> bool" where
  "in_oneshot r s u v t \<longleftrightarrow> (if has_pcache r s then u = s \<and> t = v
     else pcaches_enter r s = (Inr (), u) \<and> pcaches_exit r v = (Inr (), t))"

lemma oneshot_run:
  assumes "oneshot r m s = (x, t)"
  obtains u v where "in_oneshot r s u v t" "m u = (x, v)"
proof (cases "has_pcache r s")
  case True
  then show thesis using assms by (intro that [of s t]) (simp_all add: in_oneshot_def oneshot_def)
next
  case False
  obtain u where u: "pcaches_enter r s = (Inr (), u)" using pcaches_enter_run by blast
  obtain y v where v: "m u = (y, v)" by (cases "m u")
  obtain w where w: "pcaches_exit r v = (Inr (), w)" using pcaches_exit_run by blast
  have "x = y" "t = w" using assms False u v w by (simp_all add: oneshot_def)
  then show thesis using False u v w by (intro that [of u v]) (simp_all add: in_oneshot_def)
qed

lemma in_oneshot_drops:
  assumes "in_oneshot r s u v t" "p_cache (objs s r) = None"
  shows "p_cache (objs t r) = None" "l_cache (p_impl (objs t r)) = None"
  using assms pcaches_exit_run [of r v] by (auto simp: in_oneshot_def has_pcache_def)

text \<open>
  The getters, called one after the other, and what each leads to: the value it returned, the
  \<open>ad_value\<close> when it was denied or found a zombie, or nothing when it is not implemented.
\<close>

inductive getters_run ::
  "nat \<Rightarrow> pval \<Rightarrow> 'z ustate_scheme \<Rightarrow> (string \<times> pval option) list \<Rightarrow> 'z ustate_scheme \<Rightarrow> bool"
  for r ad_value where
  finished: "getters_run r ad_value s [] s"
| returned: "get_attr r n s = (Inr v, u) \<Longrightarrow> getters_run r ad_value u ls t
    \<Longrightarrow> getters_run r ad_value s ((n, Some v) # ls) t"
| denied: "get_attr r n s = (Inl e, u) \<Longrightarrow> is_AccessDenied e \<or> is_ZombieProcess e
    \<Longrightarrow> getters_run r ad_value u ls t \<Longrightarrow> getters_run r ad_value s ((n, Some ad_value) # ls) t"
| missing: "get_attr r n s = (Inl NotImplementedError, u) \<Longrightarrow> getters_run r ad_value u ls t
    \<Longrightarrow> getters_run r ad_value s ((n, None) # ls) t"

fun stored :: "(string \<times> pval option) list \<Rightarrow> (string, pval) dict" where
  "stored [] = []"
| "stored ((n, Some v) # ls) = (n, v) # stored ls"
| "stored ((n, None) # ls) = stored ls"

lemma stored_keys: "subseq (dict_keys (stored ls)) (map fst ls)"
  by (induction ls rule: stored.induct) auto

lemma subseq_set: "subseq xs ys \<Longrightarrow> set xs \<subseteq> set ys"
  using list_emb_set [of "(=)" xs ys] by blast

lemma subseq_distinct: "subseq xs ys \<Longrightarrow> distinct ys \<Longrightarrow> distinct xs"
  by (auto simp: subseq_conv_nths intro: distinct_nthsI)

lemma stored_all: "None \<notin> snd ` set ls \<Longrightarrow> dict_keys (stored ls) = map fst ls"
  by (induction ls rule: stored.induct) auto

lemma attr_step_cases:
  assumes "attr_step r asked ad_value n d s = (y, u)" "n \<notin> set (dict_keys d)"
  obtains (returned) v where "get_attr r n s = (Inr v, u)" "y = Inr (d @ [(n, v)])"
  | (denied) e where "get_attr r n s = (Inl e, u)" "is_AccessDenied e \<or> is_ZombieProcess e" "y = Inr (d @ [(n, ad_value)])"
  | (missing) "get_attr r n s = (Inl NotImplementedError, u)" "\<not> asked" "y = Inr d"
  | (raised) e where "get_attr r n s = (Inl e, u)" "y = Inl e"
      "\<not> is_AccessDenied e \<and> \<not> is_ZombieProcess e \<and> (e = NotImplementedError \<longrightarrow> asked)"
  using assms keys_update_new [OF assms(2)] that
  by (auto simp: attr_step_def split: sum.splits prod.splits if_splits)

lemma attr_steps_run:
  assumes "for_each names (attr_step r asked ad_value) d s = (x, t)" and "distinct (dict_keys d @ names)"
  shows "\<exists>ls v. getters_run r ad_value s ls v \<and> (asked \<longrightarrow> None \<notin> snd ` set ls)
    \<and> (case x of
         Inr d' \<Rightarrow> v = t \<and> map fst ls = names \<and> d' = d @ stored ls
       | Inl e \<Rightarrow> (\<exists>n rest. names = map fst ls @ n # rest \<and> get_attr r n v = (Inl e, t)
           \<and> \<not> is_AccessDenied e \<and> \<not> is_ZombieProcess e \<and> (e = NotImplementedError \<longrightarrow> asked)))"
    (is "\<exists>ls v. getters_run r ad_value s ls v \<and> _ \<and> ?out names d x ls v")
  using assms
proof (induction names arbitrary: d s)
  case Nil
  then show ?case by (auto intro!: exI [of _ "[]"] getters_run.finished)
next
  case (Cons n names)
  obtain y u where step: "attr_step r asked ad_value n d s = (y, u)" by (cases "attr_step r asked ad_value n d s")
  have new: "n \<notin> set (dict_keys d)" using Cons.prems(2) by auto
  have go: "\<exists>ls v. getters_run r ad_value u ls v \<and> (asked \<longrightarrow> None \<notin> snd ` set ls) \<and> ?out names d1 x ls v"
    if "y = Inr d1" "distinct (dict_keys d1 @ names)" for d1
    using Cons.prems(1) step that by (intro Cons.IH) simp_all
  from step new show ?case
  proof (cases rule: attr_step_cases)
    case (returned v)
    then obtain ls w where "getters_run r ad_value u ls w" "asked \<longrightarrow> None \<notin> snd ` set ls"
      "?out names (d @ [(n, v)]) x ls w"
      using go [of "d @ [(n, v)]"] Cons.prems(2) by auto
    then show ?thesis using returned
      by (intro exI [of _ "(n, Some v) # ls"] exI [of _ w])
        (auto intro: getters_run.returned split: sum.splits)
  next
    case (denied e)
    then obtain ls w where "getters_run r ad_value u ls w" "asked \<longrightarrow> None \<notin> snd ` set ls"
      "?out names (d @ [(n, ad_value)]) x ls w"
      using go [of "d @ [(n, ad_value)]"] Cons.prems(2) by auto
    then show ?thesis using denied
      by (intro exI [of _ "(n, Some ad_value) # ls"] exI [of _ w])
        (auto intro: getters_run.denied split: sum.splits)
  next
    case missing
    then obtain ls w where "getters_run r ad_value u ls w" "?out names d x ls w"
      using go [of d] Cons.prems(2) by auto
    then show ?thesis using missing
      by (intro exI [of _ "(n, None) # ls"] exI [of _ w])
        (auto intro: getters_run.missing split: sum.splits)
  next
    case (raised e)
    then have "x = Inl e" "t = u" using Cons.prems(1) step by simp_all
    then show ?thesis using raised
      by (intro exI [of _ "[]"] exI [of _ s]) (auto intro: getters_run.finished)
  qed
qed

definition asked_names :: "string list option \<Rightarrow> string list" where
  "asked_names attrs = (case attrs of None \<Rightarrow> [] | Some l \<Rightarrow> remdups l)"

text \<open>The names \<open>as_dict\<close> goes through, and those it accepts.\<close>

definition dict_names :: "os \<Rightarrow> string list option \<Rightarrow> string list" where
  "dict_names os attrs = (if asked_names attrs \<noteq> [] then asked_names attrs else valid_attrs os)"

definition names_known :: "os \<Rightarrow> string list option \<Rightarrow> bool" where
  "names_known os attrs \<longleftrightarrow> set (asked_names attrs) \<subseteq> set (valid_attrs os) \<union> {''memory_full_info''}"

lemma valid_attrs_distinct: "distinct (valid_attrs os)"
  unfolding valid_attrs_def by (intro distinct_filter) simp

lemma dict_names_distinct: "distinct (dict_names os attrs)"
  by (simp add: dict_names_def asked_names_def valid_attrs_distinct split: option.splits)

lemma as_dict_unfold:
  "as_dict r attrs ad_value s = (if names_known (sys_os s) attrs
     then oneshot r (for_each (dict_names (sys_os s) attrs) (attr_step r (asked_names attrs \<noteq> []) ad_value) []) s
     else (Inl ValueError, s))"
  by (simp add: as_dict_def names_known_def dict_names_def asked_names_def Let_def)

lemma as_dict_run:
  assumes "as_dict r attrs ad_value s = (x, t)" "names_known (sys_os s) attrs"
  obtains ls u v w where "in_oneshot r s u w t" "getters_run r ad_value u ls v"
    "asked_names attrs \<noteq> [] \<longrightarrow> None \<notin> snd ` set ls"
    "case x of
         Inr d \<Rightarrow> v = w \<and> map fst ls = dict_names (sys_os s) attrs \<and> d = stored ls
       | Inl e \<Rightarrow> (\<exists>n rest. dict_names (sys_os s) attrs = map fst ls @ n # rest \<and> get_attr r n v = (Inl e, w)
           \<and> \<not> is_AccessDenied e \<and> \<not> is_ZombieProcess e \<and> (e = NotImplementedError \<longrightarrow> asked_names attrs \<noteq> []))"
proof -
  let ?m = "for_each (dict_names (sys_os s) attrs) (attr_step r (asked_names attrs \<noteq> []) ad_value) []"
  have "oneshot r ?m s = (x, t)" using assms by (simp add: as_dict_unfold)
  then obtain u w where u: "in_oneshot r s u w t" "?m u = (x, w)" by (rule oneshot_run)
  have "distinct (dict_keys [] @ dict_names (sys_os s) attrs)" using dict_names_distinct by simp
  from attr_steps_run [OF u(2) this, unfolded append_Nil] obtain ls v where "getters_run r ad_value u ls v"
    "asked_names attrs \<noteq> [] \<longrightarrow> None \<notin> snd ` set ls"
    "case x of
         Inr d \<Rightarrow> v = w \<and> map fst ls = dict_names (sys_os s) attrs \<and> d = stored ls
       | Inl e \<Rightarrow> (\<exists>n rest. dict_names (sys_os s) attrs = map fst ls @ n # rest \<and> get_attr r n v = (Inl e, w)
           \<and> \<not> is_AccessDenied e \<and> \<not> is_ZombieProcess e \<and> (e = NotImplementedError \<longrightarrow> asked_names attrs \<noteq> []))"
    by blast
  with u(1) show thesis by (intro that [of u w ls v]) simp_all
qed

lemma as_dict_known: "as_dict r attrs ad_value s = (Inr d, t) \<Longrightarrow> names_known (sys_os s) attrs"
  by (auto simp: as_dict_unfold split: if_splits)

lemma as_dict_raises:
  assumes "as_dict r attrs ad_value s = (Inl e, t)"
  shows "\<not> is_AccessDenied e \<and> \<not> is_ZombieProcess e"
proof (cases "names_known (sys_os s) attrs")
  case True
  with assms show ?thesis by (rule as_dict_run) auto
next
  case False
  then show ?thesis using assms by (auto simp: as_dict_unfold)
qed

lemma as_dict_returns:
  assumes "as_dict r attrs ad_value s = (Inr d, t)"
  obtains ls u v where "in_oneshot r s u v t" "getters_run r ad_value u ls v"
    "map fst ls = dict_names (sys_os s) attrs" "d = stored ls"
    "asked_names attrs \<noteq> [] \<longrightarrow> None \<notin> snd ` set ls"
  by (rule as_dict_run [OF assms as_dict_known [OF assms]]) (auto intro: that)

lemma as_dict_keys:
  assumes "as_dict r attrs ad_value s = (Inr d, t)"
  shows "subseq (dict_keys d) (dict_names (sys_os s) attrs)" "asked_names attrs \<noteq> [] \<Longrightarrow> dict_keys d = asked_names attrs"
proof -
  obtain ls where ls: "map fst ls = dict_names (sys_os s) attrs" "d = stored ls"
    "asked_names attrs \<noteq> [] \<longrightarrow> None \<notin> snd ` set ls" using assms by (rule as_dict_returns)
  show "subseq (dict_keys d) (dict_names (sys_os s) attrs)" using stored_keys [of ls] ls by simp
  show "asked_names attrs \<noteq> [] \<Longrightarrow> dict_keys d = asked_names attrs"
    using stored_all [of ls] ls by (simp add: dict_names_def)
qed

text \<open>
  C15: \<open>as_dict\<close>.  When it returns, its dict has each attribute asked for, once, or, when none
  were named, a sublist of \<open>Process.attrs\<close>.  Its entries come from one run of the getters over
  these names, in order, each called once in the state the one before left, inside \<open>oneshot\<close>:
  the entry is the value this call returned; it is \<open>ad_value\<close> when, and only when, the call
  raised \<open>AccessDenied\<close> or \<open>ZombieProcess\<close>; and it is missing when the call raised
  \<open>NotImplementedError\<close>.  When \<open>as_dict\<close> raises, nothing was called and it is the
  \<open>ValueError\<close> for an unknown name, or the exception is that of the getter where such a run
  stopped, none of the three, except \<open>NotImplementedError\<close> if the attributes were named.
\<close>

theorem as_dict_result:
  assumes "as_dict r attrs ad_value s = (x, t)"
  shows "case x of
      Inr d \<Rightarrow> dict_ok d
         \<and> (if asked_names attrs \<noteq> [] then dict_keys d = asked_names attrs
            else subseq (dict_keys d) (valid_attrs (sys_os s)))
         \<and> (\<exists>ls u v. in_oneshot r s u v t \<and> getters_run r ad_value u ls v
              \<and> map fst ls = dict_names (sys_os s) attrs \<and> d = stored ls)
    | Inl e \<Rightarrow> (\<not> names_known (sys_os s) attrs \<and> e = ValueError \<and> t = s)
         \<or> (\<exists>ls n rest u v w. in_oneshot r s u w t \<and> getters_run r ad_value u ls v
              \<and> dict_names (sys_os s) attrs = map fst ls @ n # rest \<and> get_attr r n v = (Inl e, w)
              \<and> \<not> is_AccessDenied e \<and> \<not> is_ZombieProcess e \<and> (e = NotImplementedError \<longrightarrow> asked_names attrs \<noteq> []))"
proof (cases x)
  case (Inl e)
  show ?thesis
  proof (cases "names_known (sys_os s) attrs")
    case True
    with assms obtain ls u v w where "in_oneshot r s u w t" "getters_run r ad_value u ls v"
      "case x of
         Inr d \<Rightarrow> v = w \<and> map fst ls = dict_names (sys_os s) attrs \<and> d = stored ls
       | Inl e \<Rightarrow> (\<exists>n rest. dict_names (sys_os s) attrs = map fst ls @ n # rest \<and> get_attr r n v = (Inl e, w)
           \<and> \<not> is_AccessDenied e \<and> \<not> is_ZombieProcess e \<and> (e = NotImplementedError \<longrightarrow> asked_names attrs \<noteq> []))"
      by (rule as_dict_run)
    then show ?thesis unfolding Inl sum.case by blast
  next
    case False
    then show ?thesis using assms Inl by (simp add: as_dict_unfold)
  qed
next
  case (Inr d)
  then have run: "as_dict r attrs ad_value s = (Inr d, t)" using assms by simp
  obtain ls u v where "in_oneshot r s u v t" "getters_run r ad_value u ls v"
    "map fst ls = dict_names (sys_os s) attrs" "d = stored ls"
    using run by (rule as_dict_returns)
  moreover have "distinct (dict_keys d)"
    using subseq_distinct [OF as_dict_keys(1) [OF run] dict_names_distinct] .
  moreover have "if asked_names attrs \<noteq> [] then dict_keys d = asked_names attrs
      else subseq (dict_keys d) (valid_attrs (sys_os s))"
    using as_dict_keys [OF run] by (auto simp: dict_names_def split: if_splits)
  ultimately show ?thesis using Inr by auto
qed

text \<open>
  C16: what \<open>as_dict\<close> leaves as it was, whether it returns or raises.  Every call it makes is
  read-only; the other objects that were there, the table of \<open>process_iter\<close>, the CPU times
  remembered by \<open>cpu_percent\<close> and \<open>cpu_times_percent\<close>, the lowest pid and the counters of
  \<open>wrap_numbers\<close> are the same; pids are only added to those noted as reused; and the object
  keeps its pid and identity.  Outside an enclosing \<open>oneshot\<close> both caches are gone at the end,
  the object's own and that of its platform object.
\<close>

theorem as_dict_only_reads:
  assumes "as_dict r attrs ad_value s = (x, t)"
  shows "sys_os t = sys_os s \<and> (\<exists>d. hist t = d @ hist s \<and> list_all read_only d)
     \<and> g_pmap t = g_pmap s \<and> remembered t = remembered s \<and> set (g_pids_reused s) \<subseteq> set (g_pids_reused t)
     \<and> (\<forall>q < g_next s. q \<noteq> r \<longrightarrow> objs t q = objs s q)
     \<and> (r < g_next s \<longrightarrow> p_pid (objs t r) = p_pid (objs s r) \<and> p_ident (objs t r) = p_ident (objs s r))
     \<and> (p_cache (objs s r) = None \<longrightarrow> p_cache (objs t r) = None
          \<and> (names_known (sys_os s) attrs \<longrightarrow> l_cache (p_impl (objs t r)) = None))"
proof -
  have "keeps {r} s t" using keeps_as_dict [of r "{r}"] assms by (auto dest: presD)
  moreover have "p_cache (objs t r) = None \<and> (names_known (sys_os s) attrs \<longrightarrow> l_cache (p_impl (objs t r)) = None)"
    if "p_cache (objs s r) = None"
  proof (cases "names_known (sys_os s) attrs")
    case True
    with assms show ?thesis by (rule as_dict_run) (use that in_oneshot_drops in auto)
  next
    case False
    then show ?thesis using assms that by (simp add: as_dict_unfold)
  qed
  ultimately show ?thesis by (auto simp: keeps_def uframe_def)
qed

lemma pcaches_enter_frame:
  assumes "pcaches_enter r s = (x, t)"
  shows "sys_os t = sys_os s \<and> p_pid (objs t r) = p_pid (objs s r) \<and> p_prefetch (objs t r) = p_prefetch (objs s r)"
  using assms by (auto simp: pcaches_enter_def impl_def oneshot_enter_def pcache_on_def cache_on_def upd_def)

text \<open>\<open>as_dict\<close> for one name, when its getter succeeds.\<close>

lemma as_dict_one:
  fixes s :: "'z ustate_scheme"
  assumes "p_cache (objs s r) = None" "n \<in> set (valid_attrs (sys_os s))"
    and get: "\<And>u. sys_os u = sys_os s \<and> p_pid (objs u r) = p_pid (objs s r)
        \<and> p_prefetch (objs u r) = p_prefetch (objs s r) \<Longrightarrow> \<exists>v. get_attr r n (u :: 'z ustate_scheme) = (Inr x, v)"
  shows "\<exists>t. as_dict r (Some [n]) ad_value s = (Inr [(n, x)], t)"
proof -
  obtain s1 where s1: "pcaches_enter r s = (Inr (), s1)" using pcaches_enter_run by blast
  obtain s2 where "get_attr r n s1 = (Inr x, s2)" using get [OF pcaches_enter_frame [OF s1]] by blast
  moreover obtain s3 where "pcaches_exit r s2 = (Inr (), s3)" using pcaches_exit_run by blast
  moreover have "\<not> has_pcache r s" using assms(1) by (simp add: has_pcache_def)
  ultimately show ?thesis using assms(2) s1 by (simp add: as_dict_def oneshot_def attr_step_def Let_def)
qed

lemma demo_as_dict: "\<exists>t. as_dict 0 (Some [''pid'']) PvNone demo_state = (Inr [(''pid'', PvInt 42)], t)"
proof (rule as_dict_one)
  show "p_cache (objs demo_state 0) = None" by (simp add: demo_proc_def blank_proc_def)
  show "''pid'' \<in> set (valid_attrs (sys_os demo_state))" by (simp add: valid_attrs_def)
qed (simp add: get_attr_def attr_table_def demo_proc_def blank_proc_def)

theorem as_dict_result_witness:
  "\<exists>d t. as_dict 0 (Some [''pid'']) PvNone demo_state = (Inr d, t) \<and> dict_keys d = [''pid'']
     \<and> (\<exists>ls u v. in_oneshot 0 demo_state u v t \<and> getters_run 0 PvNone u ls v \<and> d = stored ls)"
proof -
  obtain t where t: "as_dict 0 (Some [''pid'']) PvNone demo_state = (Inr [(''pid'', PvInt 42)], t)"
    using demo_as_dict by blast
  from as_dict_result [OF t] t show ?thesis by (auto simp: asked_names_def)
qed

theorem as_dict_only_reads_witness:
  "\<exists>x t. as_dict 0 (Some [''pid'']) PvNone demo_state = (Inr x, t) \<and> p_pid (objs t 0) = 42
     \<and> p_cache (objs t 0) = None \<and> l_cache (p_impl (objs t 0)) = None"
proof -
  obtain t where t: "as_dict 0 (Some [''pid'']) PvNone demo_state = (Inr [(''pid'', PvInt 42)], t)"
    using demo_as_dict by blast
  have "p_pid (objs demo_state 0) = 42" "p_cache (objs demo_state 0) = None" "0 < g_next demo_state"
    by (simp_all add: demo_proc_def blank_proc_def)
  moreover have "names_known (sys_os demo_state) (Some [''pid''])"
    by (simp add: names_known_def asked_names_def valid_attrs_def)
  ultimately show ?thesis using as_dict_only_reads [OF t] t by auto
qed

end
