(* ===== verification/Init_Tree.thy ===== *)
theory Init_Tree
  imports Init_Frames
begin

text \<open>
  The process tree as the class \<open>Process\<close> of \<open>psutil/__init__.py\<close> walks it: \<open>parent\<close>,
  \<open>parents\<close> and \<open>children\<close>.
\<close>

section \<open>Parents\<close>

text \<open>\<open>a <= b\<close> for two creation times, and the pid in a value that \<open>Process(pid)\<close> is called with.\<close>

fun ctime_le :: "pval \<Rightarrow> pval \<Rightarrow> exn + bool" where
  "ctime_le (PvFloat a) (PvFloat b) = Inr (a \<le> b)"
| "ctime_le _ _ = Inl TypeError"

fun as_pid :: "pval \<Rightarrow> exn + int" where
  "as_pid (PvInt n) = Inr n"
| "as_pid (PvFloat x) = Inl (if x < 0 then ValueError else TypeError)"
| "as_pid _ = Inl TypeError"

definition lowest_pid :: "('z ustate_scheme, int) py" where
  "lowest_pid = bnd (gets g_lowest_pid) (\<lambda>l. case l of
     Some n \<Rightarrow> ret n
   | None \<Rightarrow> bnd psutil_pids (\<lambda>ps. liftE (item ps 0)))"

text \<open>\<open>Process(self.pid).create_time()\<close>.\<close>

definition fresh_ctime :: "nat \<Rightarrow> ('z ustate_scheme, pval) py" where
  "fresh_ctime r = bnd (obj r p_pid) (\<lambda>pid. bnd (new_process (Some pid)) pr_create_time)"

definition parent :: "nat \<Rightarrow> ('z ustate_scheme, nat option) py" where
  "parent r = bnd lowest_pid (\<lambda>low. bnd (obj r p_pid) (\<lambda>pid.
     if pid = low then ret None
     else bnd (pr_ppid r) (\<lambda>ppid.
       if ppid = PvNone then ret None
       else bnd (fresh_ctime r) (\<lambda>proc_ctime.
         try_except (bnd (liftE (as_pid ppid)) (\<lambda>n. bnd (new_process (Some n)) (\<lambda>p.
             bnd (pr_create_time p) (\<lambda>c. bnd (liftE (ctime_le c proc_ctime)) (\<lambda>older.
             ret (if older then Some p else None))))))
           (\<lambda>e. if is_NoSuchProcess e then ret None else raise e)))))"

text \<open>The loop of \<open>parents\<close>; \<open>None\<close> when it does not end.\<close>

partial_function (option) parents_loop ::
  "nat option \<Rightarrow> nat list \<Rightarrow> 'z ustate_scheme \<Rightarrow> ('z ustate_scheme, nat list) result" where
  "parents_loop p acc s = (case p of
       None \<Rightarrow> Some (Inr acc, s)
     | Some q \<Rightarrow> (case parent q s of
           (Inl e, t) \<Rightarrow> Some (Inl e, t)
         | (Inr p', t) \<Rightarrow> parents_loop p' (acc @ [q]) t))"

definition parents :: "nat \<Rightarrow> 'z ustate_scheme \<Rightarrow> ('z ustate_scheme, nat list) result" where
  "parents r s = (case parent r s of
       (Inl e, t) \<Rightarrow> Some (Inl e, t)
     | (Inr p, t) \<Rightarrow> parents_loop p [] t)"

section \<open>Children\<close>

text \<open>A child, unless it is gone or older than its parent.\<close>

definition child_in_time :: "pval \<Rightarrow> int \<Rightarrow> ('z ustate_scheme, nat option) py" where
  "child_in_time proc_ctime pid = try_except
     (bnd (new_process (Some pid)) (\<lambda>child. bnd (pr_create_time child) (\<lambda>c.
      bnd (liftE (ctime_le proc_ctime c)) (\<lambda>intime. ret (if intime then Some child else None)))))
     (\<lambda>e. if is_NoSuchProcess e \<or> is_ZombieProcess e then ret None else raise e)"

definition child_step ::
  "int \<Rightarrow> pval \<Rightarrow> int \<times> int \<Rightarrow> nat list \<Rightarrow> ('z ustate_scheme, nat list) py" where
  "child_step self_pid proc_ctime e acc = (case e of (pid, ppid) \<Rightarrow>
     if ppid = self_pid
     then bnd (child_in_time proc_ctime pid) (\<lambda>c. ret (case c of None \<Rightarrow> acc | Some q \<Rightarrow> acc @ [q]))
     else ret acc)"

definition reverse_ppid_map :: "(int, int) dict \<Rightarrow> (int, int list) dict" where
  "reverse_ppid_map m = fold (\<lambda>(pid, ppid) d. AList.update ppid (dict_get d ppid [] @ [pid]) d) m []"

text \<open>The \<open>for\<close> loop of the recursive case; the stack's top is the head of the list.\<close>

definition visit_step ::
  "pval \<Rightarrow> int \<Rightarrow> nat list \<times> int list \<Rightarrow> ('z ustate_scheme, nat list \<times> int list) py" where
  "visit_step proc_ctime child_pid a = (case a of (acc, stack) \<Rightarrow>
     bnd (child_in_time proc_ctime child_pid) (\<lambda>c. ret (case c of
       None \<Rightarrow> (acc, stack)
     | Some q \<Rightarrow> (acc @ [q], child_pid # stack))))"

lemma stack_same:
  assumes "pid \<notin> set (dict_keys rm)"
    and "(Inr (acc', stack'), t) = for_each (dict_get rm pid []) (visit_step ct) (acc, stack) s"
  shows "stack' = stack"
proof -
  have "map_of rm pid = None" using assms(1) by (cases "map_of rm pid") (force dest: map_of_SomeD)+
  then have "dict_get rm pid [] = []" by (simp add: dict_get_def)
  then show ?thesis using assms(2) by simp
qed

function walk_tree ::
  "(int, int list) dict \<Rightarrow> pval \<Rightarrow> int list \<Rightarrow> int list \<Rightarrow> nat list \<Rightarrow> ('z ustate_scheme, nat list) py" where
  "walk_tree rm proc_ctime visited [] acc s = (Inr acc, s)"
| "walk_tree rm proc_ctime visited (pid # stack) acc s =
     (if pid \<in> set visited then walk_tree rm proc_ctime visited stack acc s
      else case for_each (dict_get rm pid []) (visit_step proc_ctime) (acc, stack) s of
          (Inl e, t) \<Rightarrow> (Inl e, t)
        | (Inr (acc', stack'), t) \<Rightarrow> walk_tree rm proc_ctime (pid # visited) stack' acc' t)"
  by pat_completeness auto
termination
proof (relation "measures [\<lambda>(rm, ct, visited, stack, acc, s). card (set (dict_keys rm) - set visited),
    \<lambda>(rm, ct, visited, stack, acc, s). length stack]", goal_cases)
  case (3 rm ct visited pid stack acc s p e t)
  show ?case
  proof (cases "pid \<in> set (dict_keys rm)")
    case True
    then have "set (dict_keys rm) - set (pid # visited) \<subset> set (dict_keys rm) - set visited" using 3(1) by auto
    then have "card (set (dict_keys rm) - set (pid # visited)) < card (set (dict_keys rm) - set visited)"
      by (intro psubset_card_mono) auto
    then show ?thesis by simp
  next
    case False
    then have "set (dict_keys rm) - set (pid # visited) = set (dict_keys rm) - set visited" by auto
    then show ?thesis using 3 by (auto dest: stack_same [OF False])
  qed
qed simp_all

definition children :: "nat \<Rightarrow> bool \<Rightarrow> ('z ustate_scheme, nat list) py" where
  "children r recursive = bnd (raise_if_pid_reused r) (\<lambda>_. bnd ppid_map (\<lambda>m.
     bnd (fresh_ctime r) (\<lambda>proc_ctime. bnd (obj r p_pid) (\<lambda>pid.
     if \<not> recursive then for_each m (child_step pid proc_ctime) []
     else walk_tree (reverse_ppid_map m) proc_ctime [] [pid] []))))"

section \<open>Fresh objects\<close>

lemma keeps_fresh:
  assumes "\<And>q. pres (keeps {q}) (f q)"
  shows "pres (keeps R) (bnd (new_process pid) f)"
proof (rule presI)
  fix s x t
  assume run: "bnd (new_process pid) f s = (x, t)"
  obtain y u where y: "new_process pid s = (y, u)" by (cases "new_process pid s")
  have u: "uframe {} s u" by (rule new_process_frame(1) [OF y])
  show "keeps R s t"
  proof (cases y)
    case (Inl e)
    then show ?thesis using run y u uframe_keeps by auto
  next
    case (Inr q)
    have q: "q = g_next s" using new_process_frame(2) [OF y Inr] by simp
    have "keeps {q} u t" using assms [of q] run y Inr by (auto dest: presD)
    moreover have "objs t x = objs s x" if "x < g_next s" for x
      using that q u \<open>keeps {q} u t\<close> by (simp add: keeps_def uframe_def)
    ultimately show ?thesis using u by (auto simp: keeps_def uframe_def)
  qed
qed

lemma keeps_child: "pres (keeps R) (child_in_time ct pid)"
  unfolding child_in_time_def by (intro kp_rules keeps_fresh keeps_create_time) simp_all

lemma keeps_fresh_ctime: "pres (keeps R) (fresh_ctime r)"
  unfolding fresh_ctime_def by (intro kp_rules keeps_fresh keeps_create_time) simp_all

text \<open>A fresh object answers from the system, and remembers the answer.\<close>

lemma create_time_fresh:
  assumes "pr_create_time q s = (Inr v, t)" "p_prefetch (objs s q) = []"
  shows "\<exists>c. v = PvFloat c \<and> p_create_time (objs t q) = Some c"
  using assms
  by (auto simp: pr_create_time_def use_prefetch_def bnd_Inr simp del: bnd_run split: option.splits)

lemma fresh_ctime_float:
  assumes "fresh_ctime r s = (Inr v, t)"
  shows "\<exists>c. v = PvFloat c"
proof -
  obtain q u where "new_process (Some (p_pid (objs s r))) s = (Inr q, u)" "pr_create_time q u = (Inr v, t)"
    using assms by (auto simp: fresh_ctime_def bnd_Inr simp del: bnd_run)
  then show ?thesis using create_time_fresh new_process_object(7) by blast
qed

lemma new_process_ctime:
  assumes "new_process (Some pid) s = (Inr q, u)" "pr_create_time q u = (Inr v, t)"
  shows "q = g_next s" "q < g_next t" "p_pid (objs t q) = pid"
    "\<exists>c. v = PvFloat c \<and> p_create_time (objs t q) = Some c"
proof -
  show q: "q = g_next s" using new_process_frame(2) [OF assms(1)] by simp
  have k: "keeps {q} u t" using keeps_create_time [of q "{q}"] assms(2) by (auto dest: presD)
  moreover have "q < g_next u" using new_process_frame(2) [OF assms(1)] by simp
  ultimately show "q < g_next t" "p_pid (objs t q) = pid"
    using new_process_object(1) [OF assms(1)] by (auto simp: keeps_def uframe_def)
  show "\<exists>c. v = PvFloat c \<and> p_create_time (objs t q) = Some c"
    using create_time_fresh [OF assms(2)] new_process_object(7) [OF assms(1)] by simp
qed

section \<open>What \<open>children\<close> finds\<close>

definition born_after :: "flt \<Rightarrow> 'z ustate_scheme \<Rightarrow> nat \<Rightarrow> bool" where
  "born_after ct s q \<longleftrightarrow> q < g_next s \<and> (\<exists>c. p_create_time (objs s q) = Some c \<and> ct \<le> c)"

definition pid_of :: "'z ustate_scheme \<Rightarrow> nat \<Rightarrow> int" where
  "pid_of s q = p_pid (objs s q)"

lemma child_in_time_Some:
  assumes "child_in_time (PvFloat ct) pid s = (Inr (Some q), t)"
  shows "born_after ct t q" "pid_of t q = pid"
proof -
  obtain x u where x: "new_process (Some pid) s = (x, u)" by (cases "new_process (Some pid) s")
  have "\<exists>q' v c. x = Inr q' \<and> pr_create_time q' u = (Inr v, t) \<and> ctime_le (PvFloat ct) v = Inr True \<and> q = q'"
    using assms x unfolding child_in_time_def
    by (auto split: sum.splits prod.splits if_splits)
  then obtain v where v: "new_process (Some pid) s = (Inr q, u)" "pr_create_time q u = (Inr v, t)"
    "ctime_le (PvFloat ct) v = Inr True" using x by auto
  from new_process_ctime [OF v(1,2)] v(3) show "born_after ct t q" "pid_of t q = pid"
    by (auto simp: born_after_def pid_of_def)
qed

lemma keeps_old:
  assumes "keeps {} s t" "q < g_next s"
  shows "objs t q = objs s q" "pid_of t q = pid_of s q" "q < g_next t"
  using assms by (simp_all add: keeps_def uframe_def pid_of_def)

lemma born_after_keeps: "keeps {} s t \<Longrightarrow> born_after ct s q \<Longrightarrow> born_after ct t q"
  by (auto simp: born_after_def keeps_old)

text \<open>The look at a pid succeeds in every state of the same system.\<close>

definition answers :: "pval \<Rightarrow> 'z ustate_scheme \<Rightarrow> int \<Rightarrow> bool" where
  "answers ct s pid \<longleftrightarrow> (\<forall>u. sys_os u = sys_os s \<and> procfs_path u = procfs_path s
     \<longrightarrow> (\<exists>q v. child_in_time ct pid (u :: 'z ustate_scheme) = (Inr (Some q), v)))"

lemma answers_keeps: "keeps R s t \<Longrightarrow> answers ct t pid = answers ct s pid"
  by (simp add: answers_def keeps_def uframe_def)

text \<open>The result of looking at some pids, in order: those that were found, as objects.\<close>

definition found_from ::
  "flt \<Rightarrow> 'z ustate_scheme \<Rightarrow> 'z ustate_scheme \<Rightarrow> int list \<Rightarrow> nat list \<Rightarrow> bool" where
  "found_from ct s t ks new \<longleftrightarrow> keeps {} s t \<and> subseq (map (pid_of t) new) ks
     \<and> (\<forall>q \<in> set new. born_after ct t q)
     \<and> ((\<forall>k \<in> set ks. answers (PvFloat ct) s k) \<longrightarrow> map (pid_of t) new = ks)"

lemma found_from_Nil: "found_from ct s s [] []"
  by (simp add: found_from_def keeps_refl)

lemma pid_of_later:
  assumes "keeps {} s t" "\<forall>q \<in> set qs. born_after ct s q"
  shows "map (pid_of t) qs = map (pid_of s) qs" "\<forall>q \<in> set qs. born_after ct t q"
  using assms by (auto simp: keeps_old born_after_def)

lemma found_from_Cons:
  assumes c: "child_in_time (PvFloat ct) k s = (Inr c, u)" and f: "found_from ct u t ks new"
  shows "found_from ct s t (k # ks) (case c of None \<Rightarrow> new | Some q \<Rightarrow> q # new)"
proof -
  have k: "keeps {} s u" using keeps_child c by (rule presD)
  have t: "keeps {} u t" using f by (simp add: found_from_def)
  have ans: "answers (PvFloat ct) s k \<Longrightarrow> c \<noteq> None"
    using c by (auto simp: answers_def dest!: spec [of _ s])
  have old: "c = Some q \<Longrightarrow> pid_of t q = k \<and> born_after ct t q" for q
    using child_in_time_Some [of ct k s q u] c t keeps_old(2) [OF t, of q] born_after_keeps [OF t]
    by (auto simp: born_after_def)
  show ?thesis
  proof (cases c)
    case None
    then show ?thesis using f ans k t by (auto simp: found_from_def answers_keeps [OF k] intro: keeps_trans)
  next
    case (Some q)
    then show ?thesis using f old k t by (auto simp: found_from_def answers_keeps [OF k] intro: keeps_trans)
  qed
qed

lemma visit_step_eq:
  "visit_step ct k (acc, stack) s = (Inr y, u) \<longleftrightarrow> (\<exists>c. child_in_time ct k s = (Inr c, u)
     \<and> y = (case c of None \<Rightarrow> (acc, stack) | Some q \<Rightarrow> (acc @ [q], k # stack)))"
  by (auto simp: visit_step_def bnd_Inr simp del: bnd_run)

lemma child_step_eq:
  "child_step pid ct e acc s = (Inr y, u) \<longleftrightarrow> (if snd e = pid
     then \<exists>c. child_in_time ct (fst e) s = (Inr c, u) \<and> y = (case c of None \<Rightarrow> acc | Some q \<Rightarrow> acc @ [q])
     else y = acc \<and> u = s)"
  by (auto simp: child_step_def bnd_Inr simp del: bnd_run split: prod.splits)

lemma visit_all:
  assumes "for_each ks (visit_step (PvFloat ct)) (acc, stack) s = (Inr (acc', stack'), t)"
  shows "\<exists>new. acc' = acc @ new \<and> stack' = rev (map (pid_of t) new) @ stack \<and> found_from ct s t ks new"
  using assms
proof (induction ks arbitrary: acc stack s)
  case Nil
  then show ?case by (simp add: found_from_Nil)
next
  case (Cons k ks)
  obtain c u where c: "child_in_time (PvFloat ct) k s = (Inr c, u)"
    and rest: "for_each ks (visit_step (PvFloat ct))
        (case c of None \<Rightarrow> (acc, stack) | Some q \<Rightarrow> (acc @ [q], k # stack)) u = (Inr (acc', stack'), t)"
    using Cons.prems by (auto simp: visit_step_eq bnd_Inr simp del: bnd_run)
  show ?case
  proof (cases c)
    case None
    with Cons.IH rest obtain new where
      new: "acc' = acc @ new" "stack' = rev (map (pid_of t) new) @ stack" "found_from ct u t ks new" by force
    then show ?thesis using found_from_Cons [OF c new(3)] None by auto
  next
    case (Some q)
    with Cons.IH rest obtain new where
      new: "acc' = acc @ q # new" "stack' = rev (map (pid_of t) new) @ k # stack" "found_from ct u t ks new" by force
    have "keeps {} u t" using new(3) by (simp add: found_from_def)
    then have "pid_of t q = k"
      using child_in_time_Some [of ct k s q u] c Some keeps_old(2) [of u t q] by (auto simp: born_after_def)
    then show ?thesis using new found_from_Cons [OF c new(3)] Some by (intro exI [of _ "q # new"]) simp
  qed
qed

lemma direct_all:
  assumes "for_each m (child_step pid (PvFloat ct)) acc s = (Inr acc', t)"
  shows "\<exists>new. acc' = acc @ new \<and> found_from ct s t (map fst (filter (\<lambda>e. snd e = pid) m)) new"
  using assms
proof (induction m arbitrary: acc s)
  case Nil
  then show ?case by (simp add: found_from_Nil)
next
  case (Cons e m)
  show ?case
  proof (cases "snd e = pid")
    case False
    then show ?thesis using Cons by (auto simp: child_step_eq bnd_Inr simp del: bnd_run)
  next
    case True
    then obtain c u where c: "child_in_time (PvFloat ct) (fst e) s = (Inr c, u)"
      and rest: "for_each m (child_step pid (PvFloat ct)) (case c of None \<Rightarrow> acc | Some q \<Rightarrow> acc @ [q]) u = (Inr acc', t)"
      using Cons.prems by (auto simp: child_step_eq bnd_Inr simp del: bnd_run)
    from Cons.IH [OF rest] obtain new where
      new: "acc' = (case c of None \<Rightarrow> acc | Some q \<Rightarrow> acc @ [q]) @ new"
        "found_from ct u t (map fst (filter (\<lambda>e. snd e = pid) m)) new" by blast
    then show ?thesis using found_from_Cons [OF c new(2)] True
      by (intro exI [of _ "case c of None \<Rightarrow> new | Some q \<Rightarrow> q # new"]) (auto split: option.splits)
  qed
qed

text \<open>The reversed map lists, under each pid, the pids whose parent it is.\<close>

lemma reverse_fold:
  "dict_get (fold (\<lambda>(pid, ppid) d. AList.update ppid (dict_get d ppid [] @ [pid]) d) m d) p []
     = dict_get d p [] @ map fst (filter (\<lambda>e. snd e = p) m)"
  by (induction m arbitrary: d) (auto split: prod.splits)

lemma reverse_ppid_map_get: "dict_get (reverse_ppid_map m) p [] = map fst (filter (\<lambda>e. snd e = p) m)"
  by (simp add: reverse_ppid_map_def reverse_fold)

definition parent_of :: "(int, int) dict \<Rightarrow> (int \<times> int) set" where
  "parent_of m = {(p, k). (k, p) \<in> set m}"

lemma ppid_map_ok:
  assumes "ppid_map s = (Inr m, t)"
  shows "dict_ok m"
proof -
  have "dict_ok m" if "for_each ps (ppid_map_step procfs) acc u = (Inr m, t)" "dict_ok acc" for ps procfs acc u
    using that
  proof (induction ps arbitrary: acc u)
    case (Cons p ps)
    obtain acc1 u1 where one: "ppid_map_step procfs p acc u = (Inr acc1, u1)"
      and rest: "for_each ps (ppid_map_step procfs) acc1 u1 = (Inr m, t)"
      using Cons.prems(1) by (auto simp: bnd_Inr simp del: bnd_run)
    have "dict_ok acc1" using one Cons.prems(2)
      by (auto simp: ppid_map_step_def dict_ok_update split: sum.splits prod.splits if_splits)
    then show ?case using Cons.IH rest by blast
  qed simp
  then show ?thesis using assms by (auto simp: ppid_map_def bnd_Inr simp del: bnd_run)
qed

text \<open>
  The traversal.  Every object found has a pid of its own, descends from the root and is a
  child of a visited pid; when every look succeeds, the children of the visited pids have
  all been found, and whatever was found is visited or waits on the stack.
\<close>

definition walk_inv ::
  "(int, int) dict \<Rightarrow> int \<Rightarrow> flt \<Rightarrow> 'z ustate_scheme \<Rightarrow> int list \<Rightarrow> int list \<Rightarrow> nat list \<Rightarrow> bool" where
  "walk_inv m top_pid ct s visited stack acc \<longleftrightarrow> distinct (map (pid_of s) acc)
     \<and> (\<forall>q \<in> set acc. born_after ct s q \<and> (top_pid, pid_of s q) \<in> (parent_of m)\<^sup>+
          \<and> (\<exists>p \<in> set visited. (p, pid_of s q) \<in> parent_of m))
     \<and> set visited \<union> set stack \<subseteq> insert top_pid (pid_of s ` set acc)"

definition walk_all :: "(int, int) dict \<Rightarrow> int \<Rightarrow> 'z ustate_scheme \<Rightarrow> int list \<Rightarrow> int list \<Rightarrow> nat list \<Rightarrow> bool" where
  "walk_all m top_pid s visited stack acc \<longleftrightarrow>
     (\<forall>p \<in> set visited. \<forall>k. (p, k) \<in> parent_of m \<longrightarrow> k \<in> pid_of s ` set acc)
     \<and> insert top_pid (pid_of s ` set acc) \<subseteq> set visited \<union> set stack"

abbreviation kids :: "(int, int) dict \<Rightarrow> int \<Rightarrow> int list" where
  "kids m p \<equiv> map fst (filter (\<lambda>e. snd e = p) m)"

lemma set_kids: "set (kids m p) = {k. (p, k) \<in> parent_of m}"
  by (force simp: parent_of_def)

lemma kids_ok: "dict_ok m \<Longrightarrow> distinct (kids m p)"
  "dict_ok m \<Longrightarrow> (p, k) \<in> parent_of m \<Longrightarrow> (p', k) \<in> parent_of m \<Longrightarrow> p = p'"
  by (auto simp: parent_of_def distinct_map_filter dest: eq_key_imp_eq_value)

lemma walk_inv_step:
  assumes ok: "dict_ok m" and inv: "walk_inv m top_pid ct s visited (pid # stack) acc"
    and pid: "pid \<notin> set visited" and new: "found_from ct s t (kids m pid) new"
  shows "walk_inv m top_pid ct t (pid # visited) (rev (map (pid_of t) new) @ stack) (acc @ new)"
proof -
  have k: "keeps {} s t" "\<forall>q \<in> set new. born_after ct t q" and sub: "subseq (map (pid_of t) new) (kids m pid)"
    using new by (auto simp: found_from_def)
  have born: "\<forall>q \<in> set acc. born_after ct s q" using inv by (simp add: walk_inv_def)
  note later = pid_of_later [OF k(1) born]
  then have eq: "\<forall>q \<in> set acc. pid_of t q = pid_of s q" by simp
  have kid: "(pid, pid_of t q) \<in> parent_of m" if "q \<in> set new" for q
    using subseq_set [OF sub] that set_kids [of pid m] by auto
  have dist: "distinct (map (pid_of t) new)" using sub kids_ok(1) [OF ok] by (rule subseq_distinct)
  have sep: "pid_of t q \<noteq> pid_of t q'" if "q \<in> set acc" "q' \<in> set new" for q q'
    using inv that eq kid [OF that(2)] kids_ok(2) [OF ok] pid by (fastforce simp: walk_inv_def)
  have top_pid: "(top_pid, pid) \<in> (parent_of m)\<^sup>*"
    using inv by (auto simp: walk_inv_def dest: trancl_into_rtrancl)
  then have "(top_pid, pid_of t q) \<in> (parent_of m)\<^sup>+" if "q \<in> set new" for q
    using kid [OF that] by (rule rtrancl_into_trancl1)
  moreover have "distinct (map (pid_of t) acc)"
    using inv unfolding later(1) by (simp add: walk_inv_def)
  then have "distinct (map (pid_of t) (acc @ new))" using dist sep by auto
  moreover have "set (pid # visited) \<union> set (rev (map (pid_of t) new) @ stack) \<subseteq> insert top_pid (pid_of t ` set (acc @ new))"
  proof -
    have "pid_of t ` set acc = pid_of s ` set acc" using eq by auto
    then show ?thesis using inv by (auto simp: walk_inv_def)
  qed
  ultimately show ?thesis
    using inv k(2) later(2) eq kid unfolding walk_inv_def by auto
qed

lemma walk_all_step:
  assumes all: "walk_all m top_pid s visited (pid # stack) acc" and inv: "walk_inv m top_pid ct s visited (pid # stack) acc"
    and k: "keeps {} s t" and new: "map (pid_of t) new = kids m pid"
  shows "walk_all m top_pid t (pid # visited) (rev (map (pid_of t) new) @ stack) (acc @ new)"
proof -
  have "pid_of t ` set acc = pid_of s ` set acc"
    using pid_of_later(1) [OF k, of acc ct] inv unfolding walk_inv_def by (metis list.set_map)
  moreover have "pid_of t ` set new = {k. (pid, k) \<in> parent_of m}" using new set_kids [of pid m] by (metis list.set_map)
  ultimately have "pid_of t ` set (acc @ new) = pid_of s ` set acc \<union> {k. (pid, k) \<in> parent_of m}"
    "pid_of t ` set new = {k. (pid, k) \<in> parent_of m}" by (auto simp: image_Un)
  then show ?thesis using all unfolding walk_all_def by (simp only: set_rev set_map set_append) auto
qed

lemma walk_tree_result:
  assumes "walk_tree (reverse_ppid_map m) (PvFloat ct) visited stack acc s = (Inr acc', t)"
    and "dict_ok m" and "walk_inv m top_pid ct s visited stack acc"
  shows "keeps {} s t \<and> (\<exists>visited'. walk_inv m top_pid ct t visited' [] acc'
     \<and> ((\<forall>k \<in> set (dict_keys m). answers (PvFloat ct) s k) \<and> walk_all m top_pid s visited stack acc
          \<longrightarrow> walk_all m top_pid t visited' [] acc'))"
  using assms
proof (induction "reverse_ppid_map m" "PvFloat ct" visited stack acc s rule: walk_tree.induct)
  case (1 visited acc s)
  then show ?case by (auto simp: keeps_refl)
next
  case (2 visited pid stack acc s)
  show ?case
  proof (cases "pid \<in> set visited")
    case True
    have "walk_inv m top_pid ct s visited stack acc" using "2.prems"(3) by (simp add: walk_inv_def)
    moreover have "walk_all m top_pid s visited stack acc" if "walk_all m top_pid s visited (pid # stack) acc"
      using that True by (auto simp: walk_all_def)
    ultimately show ?thesis using "2.hyps"(1) [OF True] "2.prems" True by fastforce
  next
    case False
    obtain acc1 stack1 u where step:
      "for_each (dict_get (reverse_ppid_map m) pid []) (visit_step (PvFloat ct)) (acc, stack) s = (Inr (acc1, stack1), u)"
      and rest: "walk_tree (reverse_ppid_map m) (PvFloat ct) (pid # visited) stack1 acc1 u = (Inr acc', t)"
      using "2.prems"(1) False by (auto split: sum.splits prod.splits)
    obtain new where new: "acc1 = acc @ new" "stack1 = rev (map (pid_of u) new) @ stack"
      "found_from ct s u (kids m pid) new"
      using visit_all [OF step] reverse_ppid_map_get [of m pid] by auto
    have k: "keeps {} s u" using new(3) by (simp add: found_from_def)
    have inv: "walk_inv m top_pid ct u (pid # visited) stack1 acc1"
      unfolding new(1,2) by (rule walk_inv_step [OF "2.prems"(2,3) False new(3)])
    have all: "walk_all m top_pid u (pid # visited) stack1 acc1"
      if "\<forall>k \<in> set (dict_keys m). answers (PvFloat ct) s k" "walk_all m top_pid s visited (pid # stack) acc"
    proof -
      have "map (pid_of u) new = kids m pid" using new(3) that(1) by (auto simp: found_from_def)
      from walk_all_step [OF that(2) "2.prems"(3) k this] show ?thesis unfolding new(1,2) .
    qed
    from "2.hyps"(2) [OF False step [symmetric] refl refl rest "2.prems"(2) inv] show ?thesis
      using all k answers_keeps [OF k] by (fastforce intro: keeps_trans)
  qed
qed

lemma children_parts:
  fixes s :: "'z ustate_scheme"
  assumes "children r recursive s = (Inr qs, t)" "r < g_next s"
  obtains m c u v w where "keeps {r} s u" "ppid_map u = (Inr m, v)" "fresh_ctime r v = (Inr (PvFloat c), w)"
    "keeps {r} s w" "dict_ok m"
    "if recursive then walk_tree (reverse_ppid_map m) (PvFloat c) [] [p_pid (objs s r)] [] w = (Inr qs, t)
     else for_each m (child_step (p_pid (objs s r)) (PvFloat c)) [] w = (Inr qs, t)"
proof -
  obtain u m v x w where u: "raise_if_pid_reused r s = (Inr (), u)" and v: "ppid_map u = (Inr m, v)"
    and w: "fresh_ctime r v = (Inr x, w)"
    and run: "(if \<not> recursive then for_each m (child_step (p_pid (objs w r)) x) []
        else walk_tree (reverse_ppid_map m) x [] [p_pid (objs w r)] []) w = (Inr qs, t)"
    using assms(1) by (auto simp: children_def bnd_Inr simp del: bnd_run walk_tree.simps for_each.simps)
  have k: "keeps {r} s u" using keeps_raise_if_pid_reused [of r "{r}"] u by (auto dest: presD)
  moreover have "keeps {r} u v" using keeps_confined [OF pres_ppid_map] v by (rule presD)
  moreover have "keeps {r} v w" using keeps_fresh_ctime w by (rule presD)
  ultimately have kw: "keeps {r} s w" by (blast intro: keeps_trans)
  then have pid: "p_pid (objs w r) = p_pid (objs s r)" using assms(2) by (simp add: keeps_def)
  obtain c where c: "x = PvFloat c" using fresh_ctime_float [OF w] by blast
  show thesis
    by (rule that [OF k v w [unfolded c] kw ppid_map_ok [OF v]]) (use run pid c in \<open>auto split: if_splits\<close>)
qed

text \<open>
  C7: what \<open>children()\<close> returns are processes of different pids; each is a child, and with
  \<open>recursive\<close> a descendant, of the object's pid in a table of parents just read, and was
  created no earlier than the process that has the object's pid now.
\<close>

theorem children_in_tree:
  fixes s :: "'z ustate_scheme"
  assumes "children r recursive s = (Inr qs, t)" and "r < g_next s"
  shows "\<exists>m c u v w. keeps {r} s u \<and> ppid_map u = (Inr m, v) \<and> fresh_ctime r v = (Inr (PvFloat c), w)
     \<and> distinct (map (pid_of t) qs)
     \<and> (\<forall>q \<in> set qs. born_after c t q
          \<and> (p_pid (objs s r), pid_of t q) \<in> (if recursive then (parent_of m)\<^sup>+ else parent_of m))"
proof -
  obtain m c u v w where p: "keeps {r} s u" "ppid_map u = (Inr m, v)" "fresh_ctime r v = (Inr (PvFloat c), w)"
    "dict_ok m" and run: "if recursive then walk_tree (reverse_ppid_map m) (PvFloat c) [] [p_pid (objs s r)] [] w = (Inr qs, t)
     else for_each m (child_step (p_pid (objs s r)) (PvFloat c)) [] w = (Inr qs, t)"
    using assms by (rule children_parts)
  have "distinct (map (pid_of t) qs) \<and> (\<forall>q \<in> set qs. born_after c t q
      \<and> (p_pid (objs s r), pid_of t q) \<in> (if recursive then (parent_of m)\<^sup>+ else parent_of m))"
  proof (cases recursive)
    case True
    then have "walk_tree (reverse_ppid_map m) (PvFloat c) [] [p_pid (objs s r)] [] w = (Inr qs, t)" using run by simp
    from walk_tree_result [OF this p(4), of "p_pid (objs s r)"] True show ?thesis by (auto simp: walk_inv_def)
  next
    case False
    then have "for_each m (child_step (p_pid (objs s r)) (PvFloat c)) [] w = (Inr qs, t)" using run by simp
    from direct_all [OF this] have f: "found_from c w t (kids m (p_pid (objs s r))) qs" by simp
    then have sub: "subseq (map (pid_of t) qs) (kids m (p_pid (objs s r)))" by (simp add: found_from_def)
    from subseq_distinct [OF sub] subseq_set [OF sub] set_kids [of "p_pid (objs s r)" m] f False kids_ok(1) [OF p(4)]
    show ?thesis by (auto simp: found_from_def)
  qed
  with p show ?thesis by blast
qed

text \<open>
  C8: when every process of the table can be looked up and is young enough, \<open>children()\<close>
  returns all children, and with \<open>recursive\<close> all descendants, of the object's pid, also when
  the table has a cycle.
\<close>

theorem children_complete:
  fixes s :: "'z ustate_scheme"
  assumes "children r recursive s = (Inr qs, t)" and "r < g_next s"
    and stable: "\<And>u m v c w k. keeps {r} s u \<Longrightarrow> ppid_map u = (Inr m, v) \<Longrightarrow> fresh_ctime r v = (Inr (PvFloat c), w)
       \<Longrightarrow> k \<in> set (dict_keys m) \<Longrightarrow> answers (PvFloat c) s k"
  shows "\<exists>m u v. keeps {r} s u \<and> ppid_map u = (Inr m, v)
     \<and> pid_of t ` set qs = {k. (p_pid (objs s r), k) \<in> (if recursive then (parent_of m)\<^sup>+ else parent_of m)}"
proof -
  let ?p = "p_pid (objs s r)"
  obtain m c u v w where p: "keeps {r} s u" "ppid_map u = (Inr m, v)" "fresh_ctime r v = (Inr (PvFloat c), w)"
    "keeps {r} s w" "dict_ok m" and run: "if recursive then walk_tree (reverse_ppid_map m) (PvFloat c) [] [?p] [] w = (Inr qs, t)
     else for_each m (child_step ?p (PvFloat c)) [] w = (Inr qs, t)"
    using assms(1,2) by (rule children_parts)
  have ans: "\<forall>k \<in> set (dict_keys m). answers (PvFloat c) w k"
    using stable [OF p(1-3)] answers_keeps [OF p(4)] by blast
  have "pid_of t ` set qs = {k. (?p, k) \<in> (if recursive then (parent_of m)\<^sup>+ else parent_of m)}"
  proof (cases recursive)
    case True
    then have "walk_tree (reverse_ppid_map m) (PvFloat c) [] [?p] [] w = (Inr qs, t)" using run by simp
    from walk_tree_result [OF this p(5), of ?p] ans obtain visited' where
      inv: "walk_inv m ?p c t visited' [] qs" and all: "walk_all m ?p t visited' [] qs"
      by (auto simp: walk_inv_def walk_all_def)
    have "k \<in> pid_of t ` set qs" if "(?p, k) \<in> (parent_of m)\<^sup>+" for k
      using that by (induction rule: trancl_induct) (use all in \<open>auto simp: walk_all_def\<close>)
    then show ?thesis using inv True by (auto simp: walk_inv_def)
  next
    case False
    then have "for_each m (child_step ?p (PvFloat c)) [] w = (Inr qs, t)" using run by simp
    from direct_all [OF this] have "found_from c w t (kids m ?p) qs" by simp
    then have "map (pid_of t) qs = kids m ?p" using ans by (auto simp: found_from_def)
    then have "pid_of t ` set qs = set (kids m ?p)" by (metis list.set_map)
    then show ?thesis using set_kids [of ?p m] False by simp
  qed
  with p(1,2) show ?thesis by blast
qed

section \<open>Examples\<close>

text \<open>Process 1 with the children 42 and 43, all started 19 ticks after the system.\<close>

definition tree_os :: os where
  "tree_os = null_os\<lparr>os_read := \<lambda>h p. Inr (if p = ''/proc/stat'' then ''btime 5'' else stat_text 42 ''init'' sample_fields),
     os_listdir := \<lambda>h p. Inr [''42'', ''43'']\<rparr>"

definition tree_state :: ustate where
  "tree_state = demo_state\<lparr>sys_os := tree_os, objs := \<lambda>_. (blank_proc 1 (null_lproc 1))\<lparr>p_gone := True\<rparr>\<rparr>"

lemma tree_os_simps [simp]:
  "os_clock_ticks tree_os = 100" "os_listdir tree_os h p = Inr [''42'', ''43'']" "os_check_pid tree_os h pid = Inr ()"
  "os_read tree_os h ''/proc/stat'' = Inr ''btime 5''"
  by (simp_all add: tree_os_def null_os_def)

lemma nat_str_ne: "nat_str n \<noteq> []" by (simp add: nat_str.simps [of n])

lemma tree_read: "os_read tree_os h (''/proc/'' @ int_str pid @ ''/stat'') = Inr (stat_text 42 ''init'' sample_fields)"
proof -
  have "int_str pid \<noteq> []" using nat_str_ne by (auto simp: int_str_def)
  then have "length (''/proc/'' @ int_str pid @ ''/stat'') \<noteq> length ''/proc/stat''" by (cases "int_str pid") simp_all
  then have "''/proc/'' @ int_str pid @ ''/stat'' \<noteq> ''/proc/stat''" by metis
  then show ?thesis by (simp add: tree_os_def)
qed

abbreviation tree_start :: flt where "tree_start \<equiv> fl (19 / 100)"

lemma tree_boot:
  assumes "sys_os s = tree_os" "procfs_path s = ''/proc''"
  shows "\<exists>t. boot_time s = (Inr (fl 5), t)"
proof -
  have "nat_str 5 = ''5''" by (simp add: nat_str.simps [of 5] digit_char_def char_of_def bit_0)
  then have f: "py_float ''5'' = Inr (fl 5)" using py_float_nat_str [of 5] by simp
  have w: "lines ''btime 5'' = [''btime 5'']" "strip ''btime 5'' = ''btime 5''"
    "split_ws ''btime 5'' = [''btime'', ''5'']" "startswith ''btime 5'' ''btime''"
    by (simp_all add: lines_def strip_def lstrip_def rstrip_def ws_def split_ws_def startswith_def)
  then show ?thesis using assms f by (simp add: boot_time_def item_def read_file_def)
qed


lemma tree_stat:
  assumes "sys_os s = tree_os" "l_procfs (lp s) = ''/proc''" "l_cache (lp s) = None"
  shows "\<exists>v h. parse_stat_file s = (Inr v, s\<lparr>hist := h\<rparr>) \<and> ticks_secs 100 (ps_create_time v) = Inr tree_start"
proof -
  obtain v where v: "parse_stat (stat_text 42 ''init'' sample_fields) = Inr v" "ps_create_time v = nat_str 19"
    using demo_stat by blast
  have "fl (19::rat) = 19" "fint 100 = 100" using fl_of_int [of 19] fint_exact [of 100] by simp_all
  then have "ticks_secs 100 (nat_str 19) = Inr tree_start"
    by (simp add: ticks_secs_def py_float_nat_str fdiv_def)
  moreover have "parse_stat_file s = (Inr v, s\<lparr>hist := SRead (proc_file (lp s) ''stat'') # hist s\<rparr>)"
    using assms v(1) tree_read [of _ "l_pid (lp s)"]
    by (simp add: parse_stat_file_def wrap_exceptions_def memoize_def has_cache_def
        bcat_def cat_def read_file_def proc_file_def proc_dir_def)
  ultimately show ?thesis using v(2) by metis
qed

lemma tree_ctime:
  assumes "sys_os s = tree_os" "procfs_path s = ''/proc''" "l_procfs (lp s) = ''/proc''" "l_cache (lp s) = None"
  shows "l_ctime (lp s) = None \<Longrightarrow>
      \<exists>h. proc_create_time True s = (Inr tree_start, s\<lparr>hist := h, lp := (lp s)\<lparr>l_ctime := Some tree_start\<rparr>\<rparr>)"
    "l_ctime (lp s) = Some tree_start \<Longrightarrow> \<exists>t. proc_create_time False s = (Inr (fadd tree_start (fl 5)), t)"
proof -
  obtain v h where "parse_stat_file s = (Inr v, s\<lparr>hist := h\<rparr>)" "ticks_secs 100 (ps_create_time v) = Inr tree_start"
    using tree_stat [OF assms(1,3,4)] by blast
  then show "l_ctime (lp s) = None \<Longrightarrow>
      \<exists>h. proc_create_time True s = (Inr tree_start, s\<lparr>hist := h, lp := (lp s)\<lparr>l_ctime := Some tree_start\<rparr>\<rparr>)"
    using assms by (auto simp: proc_create_time_def wrap_exceptions_def)
  show "l_ctime (lp s) = Some tree_start \<Longrightarrow> \<exists>t. proc_create_time False s = (Inr (fadd tree_start (fl 5)), t)"
    using assms tree_boot [of s] by (auto simp: proc_create_time_def wrap_exceptions_def)
qed

lemma tree_new:
  assumes "sys_os s = tree_os" "procfs_path s = ''/proc''" "0 \<le> pid"
  shows "\<exists>u t. new_process (Some pid) s = (Inr (g_next s), u)
     \<and> pr_create_time (g_next s) u = (Inr (PvFloat (fadd tree_start (fl 5))), t)"
proof -
  let ?r = "g_next s"
  let ?p = "blank_proc pid (null_lproc pid)"
  let ?s = "upd ?r (\<lambda>_. ?p) (s\<lparr>g_next := Suc ?r, hist := SCheckPid pid # hist s\<rparr>)"
  let ?i = "(null_lproc pid)\<lparr>l_ctime := Some tree_start\<rparr>"
  obtain h where "proc_create_time True (?s\<lparr>lp := null_lproc pid\<rparr>)
      = (Inr tree_start, ?s\<lparr>lp := null_lproc pid, hist := h, lp := ?i\<rparr>)"
    using tree_ctime(1) [of "?s\<lparr>lp := null_lproc pid\<rparr>"] assms by (auto simp: null_lproc_def)
  then have g: "get_ident ?r ?s = (Inr (pid, Some tree_start), upd ?r (\<lambda>p. p\<lparr>p_impl := ?i\<rparr>) (?s\<lparr>lp := null_lproc pid, hist := h, lp := ?i\<rparr>))"
    by (simp add: get_ident_def impl_def blank_proc_def)
  let ?u = "upd ?r (\<lambda>p. p\<lparr>p_ident := (pid, Some tree_start)\<rparr>) (upd ?r (\<lambda>p. p\<lparr>p_impl := ?i\<rparr>) (?s\<lparr>lp := null_lproc pid, hist := h, lp := ?i\<rparr>))"
  have "init_pid (Some pid) (s\<lparr>g_next := Suc ?r\<rparr>) = (Inr pid, s\<lparr>g_next := Suc ?r, hist := SCheckPid pid # hist s\<rparr>)"
    using assms by (simp add: init_pid_def check_pid_range_def)
  then have "new_process (Some pid) s = (Inr ?r, ?u)"
    using assms(2) g by (simp add: new_process_def proc_init_def lproc_init_def null_lproc_def init_ident_def)
  moreover have "\<exists>t. proc_create_time False (?u\<lparr>lp := ?i\<rparr>) = (Inr (fadd tree_start (fl 5)), t)"
    using assms by (intro tree_ctime(2)) (simp_all add: null_lproc_def)
  then have "\<exists>t. pr_create_time ?r ?u = (Inr (PvFloat (fadd tree_start (fl 5))), t)"
    by (auto simp: pr_create_time_def use_prefetch_def impl_def blank_proc_def)
  ultimately show ?thesis by blast
qed


abbreviation tree_world :: "'z ustate_scheme \<Rightarrow> bool" where
  "tree_world s \<equiv> sys_os s = tree_os \<and> procfs_path s = ''/proc''"

abbreviation tree_ctime_value :: pval where "tree_ctime_value \<equiv> PvFloat (fadd tree_start (fl 5))"

lemma tree_child:
  fixes s :: "'z ustate_scheme"
  assumes "tree_world s" "0 \<le> pid"
  shows "\<exists>q t. child_in_time tree_ctime_value pid s = (Inr (Some q), t) \<and> tree_world t"
proof -
  obtain u t where u: "new_process (Some pid) s = (Inr (g_next s), u)" "pr_create_time (g_next s) u = (Inr tree_ctime_value, t)"
    using tree_new [of s pid] assms by blast
  then have run: "child_in_time tree_ctime_value pid s = (Inr (Some (g_next s)), t)"
    by (simp add: child_in_time_def)
  have "keeps {} s t" using keeps_child run by (rule presD)
  then show ?thesis using run assms by (auto simp: keeps_def uframe_def)
qed

lemma tree_pids:
  assumes "sys_os s = tree_os" "procfs_path s = ''/proc''"
  shows "pids s = (Inr [42, 43], s\<lparr>hist := SListdir ''/proc'' # hist s\<rparr>)"
proof -
  have "str_isdigit ''42''" "str_isdigit ''43''" by (simp_all add: str_isdigit_def is_digit_def)
  moreover have "py_int ''42'' = Inr 42" "py_int ''43'' = Inr 43"
    by (simp_all add: py_int_def py_int_base_def strip_def lstrip_def rstrip_def ws_def split_sign_def digit_val_def Let_def)
  ultimately show ?thesis using assms by (simp add: pids_def listdir_def)
qed

lemma tree_map:
  fixes s :: "'z sys_scheme"
  assumes "sys_os s = tree_os" "procfs_path s = ''/proc''"
  shows "\<exists>h. ppid_map s = (Inr [(42, 1), (43, 1)], s\<lparr>hist := h\<rparr>)"
proof -
  have "split_ws (stat_tail (stat_text 42 ''init'' sample_fields)) = sample_fields"
    by (rule stat_words [OF sample_fields_ok(1)])
  moreover have "item sample_fields 1 = Inr (nat_str 1)" by (simp add: item_def sample_fields_def)
  moreover have "py_int (nat_str 1) = Inr 1" by (simp add: py_int_nat_str)
  ultimately have step: "ppid_map_step ''/proc'' pid acc u = (Inr (AList.update pid 1 acc), u\<lparr>hist := SRead (''/proc/'' @ int_str pid @ ''/stat'') # hist u\<rparr>)"
    if "sys_os u = tree_os" for pid acc and u :: "'z sys_scheme"
    using that tree_read [of "hist u" pid] by (simp add: ppid_map_step_def read_file_def)
  then show ?thesis using assms tree_pids [OF assms] step by (auto simp: ppid_map_def)
qed

lemma tree_fresh: "tree_world s \<Longrightarrow> p_pid (objs s 0) = 1 \<Longrightarrow> \<exists>t. fresh_ctime 0 s = (Inr tree_ctime_value, t)"
  using tree_new [of s 1] by (auto simp: fresh_ctime_def)

lemma tree_children:
  "\<exists>qs t. children 0 recursive tree_state = (Inr qs, t)"
proof -
  have w: "tree_world tree_state" "p_pid (objs tree_state 0) = 1"
    by (simp_all add: tree_state_def blank_proc_def)
  have r: "raise_if_pid_reused 0 tree_state = (Inr (), tree_state)"
    using is_running_over [of tree_state 0] by (simp add: raise_if_pid_reused_def tree_state_def blank_proc_def)
  obtain h where m: "ppid_map tree_state = (Inr [(42, 1), (43, 1)], tree_state\<lparr>hist := h\<rparr>)"
    using tree_map [of tree_state] w(1) by auto
  obtain u where u: "fresh_ctime 0 (tree_state\<lparr>hist := h\<rparr>) = (Inr tree_ctime_value, u)"
    using tree_fresh [of "tree_state\<lparr>hist := h\<rparr>"] w by auto
  have k: "keeps {0} (tree_state\<lparr>hist := h\<rparr>) u" using keeps_fresh_ctime u by (rule presD)
  then have pu: "tree_world u" "p_pid (objs u 0) = 1" using w
    by (auto simp: keeps_def uframe_def tree_state_def)
  obtain q1 t1 where q1: "child_in_time tree_ctime_value 42 u = (Inr (Some q1), t1)" "tree_world t1"
    using tree_child [of u 42] pu by auto
  obtain q2 t2 where q2: "child_in_time tree_ctime_value 43 t1 = (Inr (Some q2), t2)"
    using tree_child [of t1 43] q1(2) by auto
  have d: "dict_get (reverse_ppid_map [(42, 1), (43, 1)]) p [] = (if p = 1 then [42, 43] else [])" for p
    by (simp add: reverse_ppid_map_get)
  show ?thesis using r m u pu(2) q1(1) q2
    by (cases recursive) (simp_all add: children_def d visit_step_def child_step_def)
qed

lemma tree_answers:
  fixes s :: "'z ustate_scheme"
  assumes "k \<in> set (dict_keys [(42::int, 1::int), (43, 1)])" "sys_os s = tree_os" "procfs_path s = ''/proc''"
  shows "answers tree_ctime_value s k"
  unfolding answers_def
proof (intro allI impI)
  fix u :: "'z ustate_scheme"
  assume "sys_os u = sys_os s \<and> procfs_path u = procfs_path s"
  then show "\<exists>q v. child_in_time tree_ctime_value k u = (Inr (Some q), v)"
    using assms tree_child [of u k] by auto
qed

theorem children_in_tree_witness:
  "\<exists>qs t. children 0 False tree_state = (Inr qs, t) \<and> distinct (map (pid_of t) qs)"
proof -
  obtain qs t where run: "children 0 False tree_state = (Inr qs, t)" using tree_children by blast
  have "0 < g_next tree_state" by (simp add: tree_state_def)
  from children_in_tree [OF run this] run show ?thesis by blast
qed

theorem children_complete_witness:
  "\<exists>qs t. children 0 True tree_state = (Inr qs, t) \<and> {42, 43} \<subseteq> pid_of t ` set qs"
proof -
  obtain qs t where run: "children 0 True tree_state = (Inr qs, t)" using tree_children by blast
  have r: "0 < g_next tree_state" "p_pid (objs tree_state 0) = 1" and w: "tree_world tree_state"
    by (simp_all add: tree_state_def blank_proc_def)
  have same: "m = [(42, 1), (43, 1)]" if "keeps {0} tree_state u" "ppid_map u = (Inr m, v)" for u v :: ustate and m
    using tree_map [of u] that w by (auto simp: keeps_def uframe_def)
  have ans: "answers (PvFloat c) tree_state k"
    if "keeps {0} tree_state u" "ppid_map u = (Inr m, v)" "fresh_ctime 0 v = (Inr (PvFloat c), x)" "k \<in> set (dict_keys m)"
    for u v x :: ustate and m c k
  proof -
    have "keeps {0} u v" using keeps_confined [OF pres_ppid_map] that(2) by (rule presD)
    then have "tree_world v" "p_pid (objs v 0) = 1" using that(1) w r by (auto simp: keeps_def uframe_def)
    then have "PvFloat c = tree_ctime_value" using tree_fresh [of v] that(3) by auto
    then show ?thesis using tree_answers [of k tree_state] that(4) w same [OF that(1,2)] by simp
  qed
  have "\<exists>m u v. keeps {0} tree_state u \<and> ppid_map u = (Inr m, v) \<and> pid_of t ` set qs
      = {k. (p_pid (objs tree_state 0), k) \<in> (if True then (parent_of m)\<^sup>+ else parent_of m)}"
    using run r(1) by (rule children_complete) (rule ans)
  then obtain m u v where
    m: "keeps {0} tree_state u" "ppid_map u = (Inr m, v)" "pid_of t ` set qs = {k. (1, k) \<in> (parent_of m)\<^sup>+}"
    using r(2) by auto
  have "(1, 42) \<in> parent_of m" "(1, 43) \<in> parent_of m" using same [OF m(1,2)] by (simp_all add: parent_of_def)
  then have "(1, 42) \<in> (parent_of m)\<^sup>+" "(1, 43) \<in> (parent_of m)\<^sup>+" by blast+
  then show ?thesis using run m(3) by blast
qed

end
