(* ===== verification/Init_Iter.thy ===== *)
theory Init_Iter
  imports Init_Tree "HOL-Library.Multiset"
begin

text \<open>
  \<open>process_iter\<close> of \<open>psutil/__init__.py\<close>.  The generator is a value: not started, suspended
  at a \<open>yield\<close> with its local table and what is left of the list it walks, or finished.
  \<open>pgen_next\<close> resumes it and \<open>pgen_close\<close> is its \<open>close()\<close>, which also runs when the caller
  leaves its loop.  In between the caller may do what it likes.
\<close>

section \<open>The generator\<close>

type_synonym pmap = "(int, nat) dict"

datatype pgen = GStart | GRun pmap "(int \<times> nat option) list" | GDone

text \<open>
  What happens before the loop: the table without the pids that are gone and those marked
  as reused, and the list of pids, each with its object if it has one.
\<close>

definition iter_start :: "('z ustate_scheme, pmap \<times> (int \<times> nat option) list) py" where
  "iter_start = bnd (gets g_pmap) (\<lambda>pmap0. bnd psutil_pids (\<lambda>ps. bnd (gets g_pids_reused) (\<lambda>reused.
     bnd (modify (\<lambda>s. s\<lparr>g_pids_reused := []\<rparr>)) (\<lambda>_.
     let new_pids = filter (\<lambda>k. k \<notin> set (dict_keys pmap0)) (remdups ps);
         pmap = filter (\<lambda>e. fst e \<in> set ps \<and> fst e \<notin> set reused) pmap0
     in ret (pmap, sort_key fst (map (\<lambda>e. (fst e, Some (snd e))) pmap @ map (\<lambda>k. (k, None)) new_pids))))))"

text \<open>The values that later calls of the getters return.\<close>

definition iter_prefetch :: "string list option \<Rightarrow> pval \<Rightarrow> nat \<Rightarrow> ('z ustate_scheme, unit) py" where
  "iter_prefetch attrs ad_value r = bnd (set_obj r (\<lambda>p. p\<lparr>p_prefetch := [], p_ad_value := None\<rparr>)) (\<lambda>_.
     case attrs of
       None \<Rightarrow> ret ()
     | Some _ \<Rightarrow> bnd (as_dict r attrs ad_value) (\<lambda>d.
         set_obj r (\<lambda>p. p\<lparr>p_prefetch := d, p_ad_value := Some ad_value\<rparr>)))"

text \<open>
  The handlers of the loop body: the object to yield, if any, and the table; another
  exception leaves the loop with the table as it is.
\<close>

definition iter_handle :: "int \<Rightarrow> nat option \<Rightarrow> pmap \<Rightarrow> exn \<Rightarrow> (exn + nat option) \<times> pmap" where
  "iter_handle pid p pmap e =
     (if is_ZombieProcess e then (Inr p, pmap)
      else if is_NoSuchProcess e then (Inr None, AList.delete pid pmap)
      else (Inl e, pmap))"

definition iter_one ::
  "string list option \<Rightarrow> pval \<Rightarrow> int \<times> nat option \<Rightarrow> pmap \<Rightarrow> 'z ustate_scheme
     \<Rightarrow> ((exn + nat option) \<times> pmap) \<times> 'z ustate_scheme" where
  "iter_one attrs ad_value e pmap s = (case e of (pid, p0) \<Rightarrow>
     case (case p0 of Some r \<Rightarrow> ret r | None \<Rightarrow> new_process (Some pid)) s of
       (Inl x, t) \<Rightarrow> (iter_handle pid None pmap x, t)
     | (Inr r, t) \<Rightarrow>
         let pmap1 = (if p0 = None then AList.update (p_pid (objs t r)) r pmap else pmap) in
         (case iter_prefetch attrs ad_value r t of
            (Inl x, u) \<Rightarrow> (iter_handle pid (Some r) pmap1 x, u)
          | (Inr _, u) \<Rightarrow> ((Inr (Some r), pmap1), u)))"

text \<open>
  The loop up to the next \<open>yield\<close>: \<open>Inr (Some r)\<close> yields an object, \<open>Inr None\<close> is
  \<open>StopIteration\<close>; the \<open>finally\<close> clause stores the table.
\<close>

fun iter_loop ::
  "string list option \<Rightarrow> pval \<Rightarrow> (int \<times> nat option) list \<Rightarrow> pmap \<Rightarrow> 'z ustate_scheme
     \<Rightarrow> ((exn + nat option) \<times> pgen) \<times> 'z ustate_scheme" where
  "iter_loop attrs ad_value [] pmap s = ((Inr None, GDone), s\<lparr>g_pmap := pmap\<rparr>)"
| "iter_loop attrs ad_value (e # es) pmap s = (case iter_one attrs ad_value e pmap s of
       ((Inl x, pm), t) \<Rightarrow> ((Inl x, GDone), t\<lparr>g_pmap := pm\<rparr>)
     | ((Inr (Some r), pm), t) \<Rightarrow> ((Inr (Some r), GRun pm es), t)
     | ((Inr None, pm), t) \<Rightarrow> iter_loop attrs ad_value es pm t)"

fun pgen_next ::
  "string list option \<Rightarrow> pval \<Rightarrow> pgen \<Rightarrow> 'z ustate_scheme \<Rightarrow> ((exn + nat option) \<times> pgen) \<times> 'z ustate_scheme" where
  "pgen_next attrs ad_value GStart s = (case iter_start s of
       (Inl e, t) \<Rightarrow> ((Inl e, GDone), t)
     | (Inr (pmap, ls), t) \<Rightarrow> iter_loop attrs ad_value ls pmap t)"
| "pgen_next attrs ad_value (GRun pmap ls) s = iter_loop attrs ad_value ls pmap s"
| "pgen_next attrs ad_value GDone s = ((Inr None, GDone), s)"

fun pgen_close :: "pgen \<Rightarrow> 'z ustate_scheme \<Rightarrow> 'z ustate_scheme" where
  "pgen_close (GRun pmap ls) s = s\<lparr>g_pmap := pmap\<rparr>"
| "pgen_close _ s = s"

text \<open>\<open>process_iter.cache_clear()\<close>.\<close>

definition iter_cache_clear :: "('z ustate_scheme, unit) py" where
  "iter_cache_clear = modify (\<lambda>s. s\<lparr>g_pmap := []\<rparr>)"

section \<open>The list it walks\<close>

lemma psutil_pids_sets:
  assumes "psutil_pids s = (Inr ps, t)"
  shows "\<exists>u raw. pids s = (Inr raw, u) \<and> ps = sort raw \<and> t = u\<lparr>g_lowest_pid := Some (ps ! 0)\<rparr> \<and> ps \<noteq> []"
  using assms by (auto simp: psutil_pids_def bnd_Inr Let_def item_def simp del: bnd_run split: if_splits)

lemma iter_start_parts:
  assumes "iter_start s = (Inr (pmap, ls), t)"
  obtains ps u where "psutil_pids s = (Inr ps, u)" "t = u\<lparr>g_pids_reused := []\<rparr>"
    "pmap = filter (\<lambda>e. fst e \<in> set ps \<and> fst e \<notin> set (g_pids_reused u)) (g_pmap s)"
    "ls = sort_key fst (map (\<lambda>e. (fst e, Some (snd e))) pmap
       @ map (\<lambda>k. (k, None)) (filter (\<lambda>k. k \<notin> set (dict_keys (g_pmap s))) (remdups ps)))"
  using assms by (auto simp: iter_start_def bnd_Inr Let_def simp del: bnd_run)

lemma pids_keeps:
  fixes s :: "'z ustate_scheme"
  assumes "psutil_pids s = (Inr ps, t)"
  shows "objs t = objs s" "g_next t = g_next s" "g_pmap t = g_pmap s" "g_pids_reused t = g_pids_reused s"
proof -
  obtain u raw where u: "pids s = (Inr raw, u)" "t = u\<lparr>g_lowest_pid := Some (ps ! 0)\<rparr>"
    using psutil_pids_sets [OF assms] by blast
  have "confined read_calls s u" using pres_pids u(1) by (rule presD)
  then have "sys.more u = sys.more s" by (simp add: confined_def)
  then have "objs u = objs s \<and> g_next u = g_next s \<and> g_pmap u = g_pmap s \<and> g_pids_reused u = g_pids_reused s"
    by (cases s; cases u) simp
  then show "objs t = objs s" "g_next t = g_next s" "g_pmap t = g_pmap s" "g_pids_reused t = g_pids_reused s"
    using u(2) by simp_all
qed

text \<open>A table, or part of one, whose objects exist and have the pid they are listed under.\<close>

definition table_ok :: "'z ustate_scheme \<Rightarrow> pmap \<Rightarrow> bool" where
  "table_ok s pm \<longleftrightarrow> dict_ok pm \<and> (\<forall>(k, r) \<in> set pm. r < g_next s \<and> p_pid (objs s r) = k)"

definition entry_ok :: "'z ustate_scheme \<Rightarrow> int \<times> nat option \<Rightarrow> bool" where
  "entry_ok s e \<longleftrightarrow> (\<forall>r. snd e = Some r \<longrightarrow> r < g_next s \<and> p_pid (objs s r) = fst e)"

text \<open>What the caller may do in between: objects stay, and keep their pid.\<close>

definition pids_kept :: "'z ustate_scheme \<Rightarrow> 'z ustate_scheme \<Rightarrow> bool" where
  "pids_kept s t \<longleftrightarrow> g_next s \<le> g_next t \<and> (\<forall>q < g_next s. p_pid (objs t q) = p_pid (objs s q))"

lemma pids_kept_refl: "pids_kept s s"
  by (simp add: pids_kept_def)

lemma pids_kept_trans: "pids_kept s t \<Longrightarrow> pids_kept t u \<Longrightarrow> pids_kept s u"
  by (simp add: pids_kept_def)

lemma pids_kept_keeps: "keeps R s t \<Longrightarrow> pids_kept s t"
  by (simp add: pids_kept_def keeps_def uframe_def)

lemma pids_kept_pmap: "pids_kept s t \<Longrightarrow> pids_kept s (t\<lparr>g_pmap := pm\<rparr>)"
  by (simp add: pids_kept_def)

lemma table_ok_pmap: "table_ok (s\<lparr>g_pmap := q\<rparr>) pm = table_ok s pm"
  by (simp add: table_ok_def)

lemma table_ok_kept: "pids_kept s t \<Longrightarrow> table_ok s pm \<Longrightarrow> table_ok t pm"
  by (fastforce simp: table_ok_def pids_kept_def)

lemma entry_ok_kept: "pids_kept s t \<Longrightarrow> entry_ok s e \<Longrightarrow> entry_ok t e"
  by (fastforce simp: entry_ok_def pids_kept_def)

lemma table_ok_iff:
  "table_ok s pm \<longleftrightarrow> dict_ok pm \<and> (\<forall>k r. map_of pm k = Some r \<longrightarrow> r < g_next s \<and> p_pid (objs s r) = k)"
  by (auto simp: table_ok_def map_of_eq_Some_iff)

lemma table_ok_delete: "table_ok s pm \<Longrightarrow> table_ok s (AList.delete k pm)"
  by (simp add: table_ok_iff dict_ok_delete)

lemma table_ok_update:
  "table_ok s pm \<Longrightarrow> r < g_next s \<Longrightarrow> p_pid (objs s r) = k \<Longrightarrow> table_ok s (AList.update k r pm)"
  by (simp add: table_ok_iff dict_ok_update)

section \<open>One pid\<close>

lemma keeps_iter_prefetch: "r \<in> R \<Longrightarrow> pres (keeps R) (iter_prefetch attrs ad_value r)"
  unfolding iter_prefetch_def
  by (auto intro!: kp_rules keeps_set_obj keeps_as_dict split: option.splits)

lemma iter_handle_ok: "iter_handle pid p pm e = (x, pm') \<Longrightarrow> table_ok s pm \<Longrightarrow> table_ok s pm'"
  using table_ok_delete by (auto simp: iter_handle_def split: if_splits)

lemma iter_handle_yield: "iter_handle pid p pm e = (Inr (Some r), pm') \<Longrightarrow> p = Some r"
  by (auto simp: iter_handle_def split: if_splits)

lemma iter_one_ok:
  assumes one: "iter_one attrs ad_value e pm s = ((x, pm'), t)"
    and "entry_ok s e" "table_ok s pm"
  shows "pids_kept s t" "g_pmap t = g_pmap s" "table_ok t pm'"
    "x = Inr (Some r) \<Longrightarrow> r < g_next t \<and> p_pid (objs t r) = fst e \<and> (snd e = None \<or> snd e = Some r)"
proof -
  obtain pid p0 where e: "e = (pid, p0)" by (cases e)
  obtain y u where y: "(case p0 of Some r \<Rightarrow> ret r | None \<Rightarrow> new_process (Some pid)) s = (y, u)"
    by (cases "(case p0 of Some r \<Rightarrow> ret r | None \<Rightarrow> new_process (Some pid)) s")
  have ks: "keeps UNIV s u"
    using y keeps_new_process [of UNIV "Some pid"] by (cases p0) (auto simp: keeps_refl dest: presD)
  then have pu: "pids_kept s u" "g_pmap u = g_pmap s" using pids_kept_keeps by (blast, simp add: keeps_def uframe_def)
  have tu: "table_ok u pm" using pu(1) assms(3) by (rule table_ok_kept)
  have "pids_kept s t \<and> g_pmap t = g_pmap s \<and> table_ok t pm'
      \<and> (x = Inr (Some r) \<longrightarrow> r < g_next t \<and> p_pid (objs t r) = fst e \<and> (snd e = None \<or> snd e = Some r))"
  proof (cases y)
    case (Inl z)
    then have "iter_handle pid None pm z = (x, pm')" "t = u" using one e y by (auto simp: iter_one_def)
    then show ?thesis using iter_handle_ok [OF _ tu] iter_handle_yield pu by blast
  next
    case (Inr q)
    have q: "q < g_next u" "p_pid (objs u q) = pid" "p0 = None \<or> p0 = Some q"
    proof -
      have "q < g_next u \<and> p_pid (objs u q) = pid \<and> (p0 = None \<or> p0 = Some q)"
      proof (cases p0)
        case None
        then have np: "new_process (Some pid) s = (Inr q, u)" using y Inr by simp
        show ?thesis using new_process_frame(2) [OF np] new_process_object(1) [OF np] None by simp
      next
        case (Some p)
        then show ?thesis using y Inr assms(2) e by (simp add: entry_ok_def)
      qed
      then show "q < g_next u" "p_pid (objs u q) = pid" "p0 = None \<or> p0 = Some q" by simp_all
    qed
    define pm1 where "pm1 = (if p0 = None then AList.update (p_pid (objs u q)) q pm else pm)"
    have t1: "table_ok u pm1" using tu q table_ok_update [OF tu q(1) refl] by (simp add: pm1_def)
    obtain z w where z: "iter_prefetch attrs ad_value q u = (z, w)" by (cases "iter_prefetch attrs ad_value q u")
    have kw: "keeps UNIV u w" using keeps_iter_prefetch [of q UNIV] z by (auto dest: presD)
    then have pw: "pids_kept u w" "g_pmap w = g_pmap u" using pids_kept_keeps by (blast, simp add: keeps_def uframe_def)
    have tw: "table_ok w pm1" using pw(1) t1 by (rule table_ok_kept)
    have res: "(x, pm') = (case z of Inl z' \<Rightarrow> iter_handle pid (Some q) pm1 z' | Inr _ \<Rightarrow> (Inr (Some q), pm1))" "t = w"
      using one e y Inr z by (auto simp: iter_one_def pm1_def Let_def split: sum.splits)
    have "table_ok w pm' \<and> (x = Inr (Some r) \<longrightarrow> r = q)"
    proof (cases z)
      case (Inl z')
      then have h: "iter_handle pid (Some q) pm1 z' = (x, pm')" using res(1) by simp
      then show ?thesis using iter_handle_ok [OF h tw] iter_handle_yield by blast
    next
      case (Inr z')
      then show ?thesis using res(1) tw by simp
    qed
    moreover have "q < g_next w" "p_pid (objs w q) = pid" using q(1,2) pw(1) by (auto simp: pids_kept_def)
    ultimately show ?thesis using res(2) q(3) e pu pw by (auto intro: pids_kept_trans)
  qed
  then show "pids_kept s t" "g_pmap t = g_pmap s" "table_ok t pm'"
    "x = Inr (Some r) \<Longrightarrow> r < g_next t \<and> p_pid (objs t r) = fst e \<and> (snd e = None \<or> snd e = Some r)" by blast+
qed

section \<open>The whole loop\<close>

lemma iter_loop_ok:
  assumes "iter_loop attrs ad_value es pm s = ((x, g), t)" "\<forall>e \<in> set es. entry_ok s e" "table_ok s pm"
  shows "pids_kept s t \<and> (case x of
      Inr (Some r) \<Rightarrow> (\<exists>pre e rest pm'. es = pre @ e # rest \<and> g = GRun pm' rest \<and> table_ok t pm'
          \<and> (\<forall>e \<in> set rest. entry_ok t e) \<and> g_pmap t = g_pmap s
          \<and> r < g_next t \<and> p_pid (objs t r) = fst e \<and> (snd e = None \<or> snd e = Some r))
    | _ \<Rightarrow> g = GDone \<and> table_ok t (g_pmap t))"
  using assms
proof (induction es arbitrary: pm s)
  case Nil
  then show ?case by (auto simp: table_ok_pmap pids_kept_pmap pids_kept_refl)
next
  case (Cons e es)
  obtain y pm1 u where one: "iter_one attrs ad_value e pm s = ((y, pm1), u)"
    by (metis surj_pair)
  note ok = iter_one_ok [OF one _ Cons.prems(3)]
  have e: "entry_ok s e" using Cons.prems(2) by simp
  have k: "pids_kept s u" "g_pmap u = g_pmap s" "table_ok u pm1" using ok e by blast+
  have es: "\<forall>e \<in> set es. entry_ok u e" using Cons.prems(2) entry_ok_kept [OF k(1)] by simp
  consider (raised) z where "y = Inl z" | (yielded) r where "y = Inr (Some r)" | (skipped) "y = Inr None"
    by (cases y) auto
  then show ?case
  proof cases
    case raised
    then show ?thesis using Cons.prems(1) one k
      by (auto simp: table_ok_pmap pids_kept_pmap)
  next
    case yielded
    then have "x = Inr (Some r)" "g = GRun pm1 es" "t = u" using Cons.prems(1) one by simp_all
    moreover have "r < g_next u \<and> p_pid (objs u r) = fst e \<and> (snd e = None \<or> snd e = Some r)"
      using ok(4) e yielded by blast
    ultimately show ?thesis using k es by (auto intro!: exI [of _ "[]"])
  next
    case skipped
    then have "iter_loop attrs ad_value es pm1 u = ((x, g), t)" using Cons.prems(1) one by simp
    from Cons.IH [OF this es k(3)] k(1,2) show ?thesis
      by (auto split: sum.splits option.splits intro: pids_kept_trans)
  qed
qed

fun gen_ok :: "'z ustate_scheme \<Rightarrow> pgen \<Rightarrow> bool" where
  "gen_ok s (GRun pm ls) \<longleftrightarrow> table_ok s pm \<and> (\<forall>e \<in> set ls. entry_ok s e)"
| "gen_ok s _ \<longleftrightarrow> True"

lemma gen_ok_kept: "pids_kept s t \<Longrightarrow> gen_ok s g \<Longrightarrow> gen_ok t g"
  using table_ok_kept [of s t] entry_ok_kept [of s t] by (cases g) simp_all

lemma table_ok_filter: "table_ok s pm \<Longrightarrow> table_ok s (filter P pm)"
  by (auto simp: table_ok_def distinct_map_filter)

lemma iter_start_ok:
  assumes "iter_start s = (Inr (pm, ls), t)" "table_ok s (g_pmap s)"
  shows "pids_kept s t" "gen_ok t (GRun pm ls)" "g_pmap t = g_pmap s"
proof -
  obtain ps u where p: "psutil_pids s = (Inr ps, u)" "t = u\<lparr>g_pids_reused := []\<rparr>"
    "pm = filter (\<lambda>e. fst e \<in> set ps \<and> fst e \<notin> set (g_pids_reused u)) (g_pmap s)"
    "ls = sort_key fst (map (\<lambda>e. (fst e, Some (snd e))) pm
       @ map (\<lambda>k. (k, None)) (filter (\<lambda>k. k \<notin> set (dict_keys (g_pmap s))) (remdups ps)))"
    using assms(1) by (rule iter_start_parts)
  note q = pids_keeps [OF p(1)]
  show k: "pids_kept s t" "g_pmap t = g_pmap s" using q p(2) by (simp_all add: pids_kept_def)
  have "table_ok s pm" using assms(2) p(3) by (simp add: table_ok_filter)
  then have tm: "table_ok t pm" using table_ok_kept [OF k(1)] by blast
  then have "entry_ok t e" if "e \<in> set ls" for e
    using that p(4) by (auto simp: entry_ok_def table_ok_def)
  with tm show "gen_ok t (GRun pm ls)" by simp
qed

lemma pgen_next_ok:
  assumes "pgen_next attrs ad_value g s = ((x, g'), t)" "gen_ok s g" "table_ok s (g_pmap s)"
  shows "pids_kept s t \<and> gen_ok t g' \<and> table_ok t (g_pmap t)"
proof -
  have loop: "pids_kept u t \<and> gen_ok t g' \<and> table_ok t (g_pmap t)"
    if "iter_loop attrs ad_value ls pm u = ((x, g'), t)" "gen_ok u (GRun pm ls)" "table_ok u (g_pmap u)" for ls pm u
    using iter_loop_ok [OF that(1)] that(2,3) table_ok_kept [of u t "g_pmap u"]
    by (auto split: sum.splits option.splits)
  show ?thesis
  proof (cases g)
    case GStart
    obtain y u where y: "iter_start s = (y, u)" by (cases "iter_start s")
    show ?thesis
    proof (cases y)
      case (Inl e)
      then have "x = Inl e" "g' = GDone" "t = u" using assms(1) y GStart by simp_all
      moreover have "pids_kept s u \<and> g_pmap u = g_pmap s"
      proof -
        have "psutil_pids s = (Inl e, u)"
          using y Inl by (auto simp: iter_start_def bnd_Inl Let_def simp del: bnd_run)
        then have "pids s = (Inl e, u) \<or> (\<exists>raw v. pids s = (Inr raw, v) \<and> u = v)"
          by (auto simp: psutil_pids_def bnd_Inl Let_def simp del: bnd_run)
        then obtain z where "pids s = (z, u)" by blast
        then have "confined read_calls s u" by (rule presD [OF pres_pids])
        then have "keeps {} s u" by (rule confined_keeps)
        then show ?thesis using pids_kept_keeps by (auto simp: keeps_def uframe_def)
      qed
      ultimately show ?thesis using assms(3) table_ok_kept by auto
    next
      case (Inr pl)
      then obtain pm ls where pl: "iter_start s = (Inr (pm, ls), u)" using y by (cases pl) simp
      note ok = iter_start_ok [OF pl assms(3)]
      have "iter_loop attrs ad_value ls pm u = ((x, g'), t)" using assms(1) GStart pl by simp
      from loop [OF this ok(2)] ok show ?thesis using assms(3) table_ok_kept [OF ok(1)] pids_kept_trans by metis
    qed
  next
    case (GRun pm ls)
    then show ?thesis using loop [of ls pm s] assms by simp
  next
    case GDone
    then show ?thesis using assms by (simp add: pids_kept_refl)
  qed
qed

section \<open>What the caller sees\<close>

lemma iter_list:
  assumes "iter_start s = (Inr (pm, ls), t)" "table_ok s (g_pmap s)"
  shows "\<exists>ps u. psutil_pids s = (Inr ps, u) \<and> sorted_wrt (<) (map fst ls)
     \<and> set (map fst ls) = {k \<in> set ps. k \<notin> set (dict_keys (g_pmap s)) \<or> k \<notin> set (g_pids_reused s)}
     \<and> (\<forall>k r. (k, Some r) \<in> set ls \<longleftrightarrow> (k, r) \<in> set (g_pmap s) \<and> k \<in> set ps \<and> k \<notin> set (g_pids_reused s))
     \<and> (\<forall>k. (k, None) \<in> set ls \<longrightarrow> k \<notin> set (dict_keys (g_pmap s)))"
proof -
  obtain ps u where ps: "psutil_pids s = (Inr ps, u)" and "t = u\<lparr>g_pids_reused := []\<rparr>"
    and pm: "pm = filter (\<lambda>e. fst e \<in> set ps \<and> fst e \<notin> set (g_pids_reused u)) (g_pmap s)"
    and ls: "ls = sort_key fst (map (\<lambda>e. (fst e, Some (snd e))) pm
       @ map (\<lambda>k. (k, None)) (filter (\<lambda>k. k \<notin> set (dict_keys (g_pmap s))) (remdups ps)))"
    using assms(1) by (rule iter_start_parts)
  have r: "g_pids_reused u = g_pids_reused s" using pids_keeps [OF ps] by simp
  let ?new = "filter (\<lambda>k. k \<notin> set (dict_keys (g_pmap s))) (remdups ps)"
  have keys: "mset (map fst ls) = mset (map fst pm @ ?new)"
  proof -
    let ?l = "map (\<lambda>e. (fst e, Some (snd e))) pm @ map (\<lambda>k. (k, None)) ?new"
    have "mset (map fst ls) = image_mset fst (mset ?l)" unfolding ls by (simp only: mset_map mset_sort)
    also have "\<dots> = mset (map fst ?l)" by (simp only: mset_map)
    also have "map fst ?l = map fst pm @ ?new" by (simp add: comp_def)
    finally show ?thesis .
  qed
  have "distinct (map fst pm)" using assms(2) pm by (simp add: table_ok_def distinct_map_filter)
  then have "distinct (map fst pm @ ?new)" by (auto simp: pm)
  then have "distinct (map fst ls)" using mset_eq_imp_distinct_iff [OF keys] by blast
  moreover have "sorted (map fst ls)" by (simp add: ls)
  ultimately have "sorted_wrt (<) (map fst ls)" by (simp add: strict_sorted_iff)
  moreover have "set (map fst ls) = {k \<in> set ps. k \<notin> set (dict_keys (g_pmap s)) \<or> k \<notin> set (g_pids_reused s)}"
    using mset_eq_setD [OF keys] by (auto simp: pm r)
  moreover have "(k, Some q) \<in> set ls \<longleftrightarrow> (k, q) \<in> set (g_pmap s) \<and> k \<in> set ps \<and> k \<notin> set (g_pids_reused s)" for k q
    by (force simp: ls pm r)
  moreover have "(k, None) \<in> set ls \<longrightarrow> k \<notin> set (dict_keys (g_pmap s))" for k by (auto simp: ls)
  ultimately show ?thesis using ps by blast
qed

text \<open>
  C13: the table of \<open>process_iter\<close> is sound at every moment: resuming, closing and clearing keep
  every object in it, and in the generator's own copy, listed under its own pid, and no pid
  twice.
\<close>

theorem process_iter_keeps_table:
  assumes "pgen_next attrs ad_value g s = ((x, g'), t)" and "gen_ok s g" and "table_ok s (g_pmap s)"
  shows "gen_ok t g' \<and> table_ok t (g_pmap t)
     \<and> table_ok (pgen_close g' t) (g_pmap (pgen_close g' t))
     \<and> table_ok (snd (iter_cache_clear t)) (g_pmap (snd (iter_cache_clear t)))"
proof (intro conjI)
  show ok: "gen_ok t g'" "table_ok t (g_pmap t)" using pgen_next_ok [OF assms] by simp_all
  then show "table_ok (pgen_close g' t) (g_pmap (pgen_close g' t))" by (cases g') (simp_all add: table_ok_pmap)
  show "table_ok (snd (iter_cache_clear t)) (g_pmap (snd (iter_cache_clear t)))"
    by (simp add: iter_cache_clear_def table_ok_def)
qed

text \<open>
  A caller's loop over the generator: the objects yielded so far.  Between two yields the
  state may change in any way that keeps the objects and their pids.
\<close>

inductive iter_run ::
  "string list option \<Rightarrow> pval \<Rightarrow> 'z ustate_scheme \<Rightarrow> nat list \<Rightarrow> pgen \<Rightarrow> 'z ustate_scheme \<Rightarrow> bool"
  for attrs ad_value s where
  first: "pgen_next attrs ad_value GStart s = ((Inr (Some r), g), t) \<Longrightarrow> iter_run attrs ad_value s [r] g t"
| more: "iter_run attrs ad_value s rs g t \<Longrightarrow> pids_kept t u
     \<Longrightarrow> pgen_next attrs ad_value g u = ((Inr (Some r), g'), v) \<Longrightarrow> iter_run attrs ad_value s (rs @ [r]) g' v"

definition walked :: "'z ustate_scheme \<Rightarrow> (int \<times> nat option) list \<Rightarrow> nat list \<Rightarrow> bool" where
  "walked t es rs \<longleftrightarrow> subseq (map (pid_of t) rs) (map fst es)
     \<and> (\<forall>r \<in> set rs. r < g_next t \<and> ((pid_of t r, None) \<in> set es \<or> (pid_of t r, Some r) \<in> set es))"

lemma subseq_sorted_wrt: "subseq xs ys \<Longrightarrow> sorted_wrt P ys \<Longrightarrow> sorted_wrt P xs"
  by (induction rule: list_emb.induct) (auto dest: subseq_set)

lemma walked_kept:
  assumes "walked s es rs" "pids_kept s t"
  shows "walked t es rs"
proof -
  have "\<forall>r \<in> set rs. pid_of t r = pid_of s r" using assms by (simp add: walked_def pids_kept_def pid_of_def)
  moreover from this have m: "map (pid_of t) rs = map (pid_of s) rs" by simp
  ultimately show ?thesis using assms unfolding walked_def pids_kept_def m by auto
qed

lemma walked_snoc:
  assumes "walked t es rs" "r < g_next t" "p_pid (objs t r) = fst e" "snd e = None \<or> snd e = Some r"
  shows "walked t (es @ pre @ e # []) (rs @ [r])"
proof -
  have "subseq (map (pid_of t) rs @ [pid_of t r]) (map fst es @ map fst pre @ [fst e])"
    using assms(1,3) by (intro list_emb_append_mono) (auto simp: walked_def pid_of_def)
  moreover have "e = (pid_of t r, None) \<or> e = (pid_of t r, Some r)"
    using assms(3,4) by (cases e) (auto simp: pid_of_def)
  ultimately show ?thesis using assms(1,2) by (auto simp: walked_def)
qed

lemma iter_run_inv:
  assumes "iter_run attrs ad_value s rs g t" "table_ok s (g_pmap s)"
  shows "\<exists>pm0 ls t0 past rest pm. iter_start s = (Inr (pm0, ls), t0) \<and> ls = past @ rest
     \<and> g = GRun pm rest \<and> gen_ok t g \<and> walked t past rs"
  using assms
proof (induction rule: iter_run.induct)
  case (first r g t)
  obtain pm0 ls t0 where st: "iter_start s = (Inr (pm0, ls), t0)"
    and run: "iter_loop attrs ad_value ls pm0 t0 = ((Inr (Some r), g), t)"
    using first(1) by (cases "iter_start s") (auto split: sum.splits prod.splits)
  have ok: "\<forall>e \<in> set ls. entry_ok t0 e" "table_ok t0 pm0" using iter_start_ok [OF st first(2)] by simp_all
  from iter_loop_ok [OF run ok] obtain pre e rest pm where
    l: "ls = pre @ e # rest" "g = GRun pm rest" "table_ok t pm" "\<forall>e \<in> set rest. entry_ok t e"
    and r: "r < g_next t" "p_pid (objs t r) = fst e" "snd e = None \<or> snd e = Some r" by auto
  have "walked t [] []" by (simp add: walked_def)
  from walked_snoc [OF this r, of pre] have "walked t (pre @ [e]) [r]" by simp
  moreover have "ls = (pre @ [e]) @ rest" "gen_ok t g" using l by simp_all
  ultimately show ?case using st l(2) by blast
next
  case (more rs g t u r g' v)
  then obtain pm0 ls t0 past rest pm where st: "iter_start s = (Inr (pm0, ls), t0)" "ls = past @ rest"
    "g = GRun pm rest" and ok: "gen_ok t g" and w: "walked t past rs" by blast
  have run: "iter_loop attrs ad_value rest pm u = ((Inr (Some r), g'), v)" using more(3) st(3) by simp
  have "\<forall>e \<in> set rest. entry_ok u e" "table_ok u pm" using gen_ok_kept [OF more(2) ok] st(3) by simp_all
  from iter_loop_ok [OF run this] obtain pre e rest' pm' where k: "pids_kept u v" and
    l: "rest = pre @ e # rest'" "g' = GRun pm' rest'" "table_ok v pm'" "\<forall>e \<in> set rest'. entry_ok v e"
    and r: "r < g_next v" "p_pid (objs v r) = fst e" "snd e = None \<or> snd e = Some r" by auto
  have "walked v past rs" using w pids_kept_trans [OF more(2) k] by (rule walked_kept)
  from walked_snoc [OF this r, of pre] have "walked v (past @ pre @ [e]) (rs @ [r])" .
  moreover have "ls = (past @ pre @ [e]) @ rest'" "gen_ok v g'" using st(2) l by simp_all
  ultimately show ?case using st(1) l(2) by blast
qed

text \<open>
  Whatever the caller does between two yields, \<open>process_iter\<close> yields processes in strictly
  ascending order of pid, all of them listed by the system when it started; a process that was
  in the table is yielded as the same object as before.
\<close>

theorem process_iter_ascending:
  assumes "iter_run attrs ad_value s rs g t" and "table_ok s (g_pmap s)"
  shows "sorted_wrt (<) (map (pid_of t) rs)
     \<and> (\<exists>ps u. psutil_pids s = (Inr ps, u) \<and> (\<forall>r \<in> set rs. pid_of t r \<in> set ps
          \<and> (\<forall>q. map_of (g_pmap s) (pid_of t r) = Some q \<longrightarrow> r = q)))"
proof -
  obtain pm0 ls t0 past rest where st: "iter_start s = (Inr (pm0, ls), t0)" "ls = past @ rest"
    and w: "walked t past rs" using iter_run_inv [OF assms] by blast
  obtain ps u where ps: "psutil_pids s = (Inr ps, u)" "sorted_wrt (<) (map fst ls)"
    "set (map fst ls) \<subseteq> set ps"
    and old: "\<forall>k r. (k, Some r) \<in> set ls \<longrightarrow> (k, r) \<in> set (g_pmap s)"
    and new: "\<forall>k. (k, None) \<in> set ls \<longrightarrow> k \<notin> set (dict_keys (g_pmap s))"
    using iter_list [OF st(1) assms(2)] by auto
  have "sorted_wrt (<) (map fst past)" using ps(2) st(2) by (simp add: sorted_wrt_append)
  then have "sorted_wrt (<) (map (pid_of t) rs)"
    using w by (auto simp: walked_def intro: subseq_sorted_wrt)
  moreover have "pid_of t r \<in> set ps \<and> (\<forall>q. map_of (g_pmap s) (pid_of t r) = Some q \<longrightarrow> r = q)"
    if "r \<in> set rs" for r
  proof -
    have r: "(pid_of t r, None) \<in> set ls \<or> (pid_of t r, Some r) \<in> set ls"
      using w that st(2) by (auto simp: walked_def)
    moreover from r have "pid_of t r \<in> set (map fst ls)" by force
    moreover have "map_of (g_pmap s) (pid_of t r) = Some r" if "(pid_of t r, Some r) \<in> set ls"
      using old that assms(2) by (simp add: table_ok_def)
    ultimately show ?thesis using ps(3) new by (force dest: map_of_SomeD)
  qed
  ultimately show ?thesis using ps(1) by blast
qed

lemma iter_prefetch_raises: "iter_prefetch attrs ad_value r s = (Inl e, t) \<Longrightarrow> \<not> is_ZombieProcess e"
  by (auto simp: iter_prefetch_def bnd_Inl simp del: bnd_run dest: as_dict_raises split: option.splits)

section \<open>The whole iteration\<close>

text \<open>
  What happens to one entry of the list: the object, made now if there was none, is yielded
  after its values have been fetched, or the process turned out to be gone.
\<close>

definition entry_step ::
  "string list option \<Rightarrow> pval \<Rightarrow> int \<times> nat option \<Rightarrow> 'z ustate_scheme \<Rightarrow> nat option \<Rightarrow> 'z ustate_scheme \<Rightarrow> bool" where
  "entry_step attrs ad_value e s y t \<longleftrightarrow>
     (\<exists>x. snd e = None \<and> new_process (Some (fst e)) s = (Inl x, t) \<and> is_NoSuchProcess x \<and> y = None)
   \<or> (\<exists>r u. (case snd e of Some q \<Rightarrow> r = q \<and> u = s | None \<Rightarrow> new_process (Some (fst e)) s = (Inr r, u))
        \<and> (iter_prefetch attrs ad_value r u = (Inr (), t) \<and> y = Some r
           \<or> (\<exists>x. iter_prefetch attrs ad_value r u = (Inl x, t) \<and> is_NoSuchProcess x \<and> y = None)))"

lemma entry_stepI:
  assumes "case snd e of Some q \<Rightarrow> r = q \<and> u = s | None \<Rightarrow> new_process (Some (fst e)) s = (Inr r, u)"
  shows "iter_prefetch attrs ad_value r u = (Inr (), t) \<Longrightarrow> entry_step attrs ad_value e s (Some r) t"
    and "iter_prefetch attrs ad_value r u = (Inl x, t) \<Longrightarrow> is_NoSuchProcess x \<Longrightarrow> entry_step attrs ad_value e s None t"
  using assms unfolding entry_step_def by blast+

text \<open>
  The entries one after the other.  The caller may change the state while it has a yielded
  object, as long as objects and their pids stay; nobody does at an entry that is skipped.
\<close>

inductive entries_run ::
  "string list option \<Rightarrow> pval \<Rightarrow> 'z ustate_scheme \<Rightarrow> (int \<times> nat option) list \<Rightarrow> nat option list \<Rightarrow> 'z ustate_scheme \<Rightarrow> bool"
  for attrs ad_value where
  none: "entries_run attrs ad_value s [] [] s"
| gone: "entry_step attrs ad_value e s None u \<Longrightarrow> entries_run attrs ad_value u es ys t
    \<Longrightarrow> entries_run attrs ad_value s (e # es) (None # ys) t"
| yield: "entry_step attrs ad_value e s (Some r) u \<Longrightarrow> pids_kept u v \<Longrightarrow> entries_run attrs ad_value v es ys t
    \<Longrightarrow> entries_run attrs ad_value s (e # es) (Some r # ys) t"

lemma entries_run_append:
  "entries_run attrs ad_value s es ys u \<Longrightarrow> entries_run attrs ad_value u fs zs t
     \<Longrightarrow> entries_run attrs ad_value s (es @ fs) (ys @ zs) t"
  by (induction rule: entries_run.induct) (auto intro: entries_run.intros)

text \<open>The table after a list of entries.\<close>

fun settle :: "(int \<Rightarrow> nat option) \<Rightarrow> (int \<times> nat option) list \<Rightarrow> nat option list \<Rightarrow> int \<Rightarrow> nat option" where
  "settle m (e # es) (y # ys) = settle (m(fst e := y)) es ys"
| "settle m es ys = m"

lemma settle_append: "length es = length ys \<Longrightarrow> settle m (es @ fs) (ys @ zs) = settle (settle m es ys) fs zs"
  by (induction m es ys rule: settle.induct) simp_all

lemma settle_other: "k \<notin> set (map fst es) \<Longrightarrow> settle m es ys k = m k"
  by (induction m es ys rule: settle.induct) simp_all

lemma settle_at:
  "distinct (map fst es) \<Longrightarrow> length es = length ys \<Longrightarrow> i < length es \<Longrightarrow> settle m es ys (fst (es ! i)) = ys ! i"
proof (induction m es ys arbitrary: i rule: settle.induct)
  case (1 m e es y ys)
  show ?case
  proof (cases i)
    case 0
    then show ?thesis using 1(2) by (simp add: settle_other)
  next
    case (Suc j)
    then show ?thesis using 1(1) [of j] 1(2-4) by (simp del: fun_upd_apply)
  qed
qed simp_all

text \<open>The generator's table agrees with the entries that are left.\<close>

definition agrees :: "pmap \<Rightarrow> (int \<times> nat option) list \<Rightarrow> bool" where
  "agrees pm es \<longleftrightarrow> distinct (map fst es) \<and> (\<forall>e \<in> set es. map_of pm (fst e) = snd e)"

lemma agrees_settle:
  assumes "agrees pm (es @ fs)" "map_of pm' = settle (map_of pm) es ys"
  shows "agrees pm' fs"
  unfolding agrees_def assms(2)
proof (intro conjI ballI)
  show "distinct (map fst fs)" using assms(1) by (simp add: agrees_def)
  fix e assume e: "e \<in> set fs"
  then have "fst e \<notin> set (map fst es)" using assms(1) by (auto simp: agrees_def)
  then show "settle (map_of pm) es ys (fst e) = snd e"
    using e assms(1) by (simp add: settle_other agrees_def)
qed

lemma iter_one_entry:
  assumes one: "iter_one attrs ad_value e pm s = ((Inr y, pm'), t)"
    and "entry_ok s e" "table_ok s pm" "map_of pm (fst e) = snd e"
  shows "entry_step attrs ad_value e s y t" "map_of pm' = (map_of pm)(fst e := y)"
proof -
  obtain pid p0 where e: "e = (pid, p0)" by (cases e)
  have d: "dict_ok pm" using assms(3) by (simp add: table_ok_def)
  have del: "map_of (AList.delete pid q) = (map_of q)(pid := None)" for q :: pmap
    by (simp add: delete_conv')
  obtain z u where z: "(case p0 of Some r \<Rightarrow> ret r | None \<Rightarrow> new_process (Some pid)) s = (z, u)"
    by (cases "(case p0 of Some r \<Rightarrow> ret r | None \<Rightarrow> new_process (Some pid)) s")
  have "entry_step attrs ad_value e s y t \<and> map_of pm' = (map_of pm)(fst e := y)"
  proof (cases z)
    case (Inl x)
    then have p0: "p0 = None" using z by (cases p0) simp_all
    have h: "iter_handle pid None pm x = (Inr y, pm')" "t = u" using one e z Inl by (auto simp: iter_one_def)
    have y: "y = None" "is_NoSuchProcess x"
      using h(1) by (cases x; auto simp: iter_handle_def split: if_splits)+
    moreover have "map_of pm' = (map_of pm)(pid := None)"
      using h(1) assms(4) e p0 by (auto simp: iter_handle_def del split: if_splits)
    ultimately show ?thesis using z Inl p0 h(2) e by (simp add: entry_step_def)
  next
    case (Inr q)
    have q: "p_pid (objs u q) = pid" "case p0 of Some p \<Rightarrow> q = p \<and> u = s | None \<Rightarrow> new_process (Some pid) s = (Inr q, u)"
      using z Inr assms(2) e new_process_object(1) [of pid s q u]
      by (auto simp: entry_ok_def split: option.splits)
    have get: "case snd e of Some p \<Rightarrow> q = p \<and> u = s | None \<Rightarrow> new_process (Some (fst e)) s = (Inr q, u)"
      using q(2) e by (auto split: option.splits)
    define pm1 where "pm1 = (if p0 = None then AList.update pid q pm else pm)"
    have m1: "map_of pm1 = (map_of pm)(pid := Some q)"
      using assms(4) e q(2) by (cases p0) (auto simp: pm1_def update_conv')
    obtain w v where w: "iter_prefetch attrs ad_value q u = (w, v)" by (cases "iter_prefetch attrs ad_value q u")
    have res: "(Inr y, pm') = (case w of Inl x \<Rightarrow> iter_handle pid (Some q) pm1 x | Inr _ \<Rightarrow> (Inr (Some q), pm1))" "t = v"
      using one e z Inr w q(1) by (auto simp: iter_one_def pm1_def Let_def split: sum.splits)
    show ?thesis
    proof (cases w)
      case (Inl x)
      then have "\<not> is_ZombieProcess x" using w iter_prefetch_raises by blast
      then have "y = None" "is_NoSuchProcess x" "pm' = AList.delete pid pm1"
        using res(1) Inl by (auto simp: iter_handle_def split: if_splits)
      moreover from this m1 have "map_of pm' = (map_of pm)(pid := None)" by (simp add: del)
      ultimately show ?thesis using w Inl res(2) e entry_stepI(2) [OF get] by simp
    next
      case (Inr x)
      then have "y = Some q" "pm' = pm1" using res(1) by simp_all
      then show ?thesis using w Inr res(2) e m1 entry_stepI(1) [OF get] by simp
    qed
  qed
  then show "entry_step attrs ad_value e s y t" "map_of pm' = (map_of pm)(fst e := y)" by blast+
qed

text \<open>One \<open>next()\<close>: it runs over the entries that turn out to be gone.\<close>

definition all_gone :: "'a list \<Rightarrow> nat option list" where
  "all_gone es = map (\<lambda>_. None) es"

lemma all_gone_simps [simp]: "all_gone [] = []" "all_gone (e # es) = None # all_gone es" "length (all_gone es) = length es"
  by (simp_all add: all_gone_def)

lemma iter_loop_entries:
  assumes "iter_loop attrs ad_value es pm s = ((Inr x, g), t)"
    and "\<forall>e \<in> set es. entry_ok s e" "table_ok s pm" "agrees pm es"
  shows "case x of
      None \<Rightarrow> g = GDone \<and> (\<exists>v pm'. entries_run attrs ad_value s es (all_gone es) v \<and> t = v\<lparr>g_pmap := pm'\<rparr>
          \<and> map_of pm' = settle (map_of pm) es (all_gone es))
    | Some r \<Rightarrow> (\<exists>pre e rest pm' u. es = pre @ e # rest \<and> g = GRun pm' rest
          \<and> entries_run attrs ad_value s pre (all_gone pre) u \<and> entry_step attrs ad_value e u (Some r) t
          \<and> map_of pm' = settle (map_of pm) (pre @ [e]) (all_gone pre @ [Some r]))"
  using assms
proof (induction es arbitrary: pm s)
  case Nil
  then show ?case by (auto intro: entries_run.none)
next
  case (Cons e es)
  obtain y pm1 u where one: "iter_one attrs ad_value e pm s = ((y, pm1), u)" by (metis surj_pair)
  have e: "entry_ok s e" "map_of pm (fst e) = snd e" using Cons.prems(2,4) by (simp_all add: agrees_def)
  consider (raised) z where "y = Inl z" | (yielded) r where "y = Inr (Some r)" | (skipped) "y = Inr None"
    by (cases y) auto
  then show ?case
  proof cases
    case raised
    then show ?thesis using Cons.prems(1) one by simp
  next
    case yielded
    then have "x = Some r" "g = GRun pm1 es" "t = u" using Cons.prems(1) one by simp_all
    then show ?thesis
      using iter_one_entry [OF one [unfolded yielded] e(1) Cons.prems(3) e(2)]
      by (auto intro!: exI [of _ "[]"] exI [of _ e] exI [of _ pm1] exI [of _ s] entries_run.none)
  next
    case skipped
    note step = iter_one_entry [OF one [unfolded skipped] e(1) Cons.prems(3) e(2)]
    note ok = iter_one_ok [OF one e(1) Cons.prems(3)]
    have run: "iter_loop attrs ad_value es pm1 u = ((Inr x, g), t)" using Cons.prems(1) one skipped by simp
    have "agrees pm1 es" using agrees_settle [of pm "[e]" es pm1 "[None]"] Cons.prems(4) step(2) by simp
    moreover have "\<forall>e \<in> set es. entry_ok u e" using Cons.prems(2) entry_ok_kept [OF ok(1)] by simp
    ultimately have IH: "case x of
        None \<Rightarrow> g = GDone \<and> (\<exists>v pm'. entries_run attrs ad_value u es (all_gone es) v \<and> t = v\<lparr>g_pmap := pm'\<rparr>
            \<and> map_of pm' = settle (map_of pm1) es (all_gone es))
      | Some r \<Rightarrow> (\<exists>pre e rest pm' w. es = pre @ e # rest \<and> g = GRun pm' rest
            \<and> entries_run attrs ad_value u pre (all_gone pre) w \<and> entry_step attrs ad_value e w (Some r) t
            \<and> map_of pm' = settle (map_of pm1) (pre @ [e]) (all_gone pre @ [Some r]))"
      using Cons.IH [OF run _ ok(3)] by blast
    show ?thesis
    proof (cases x)
      case None
      then show ?thesis using IH step by (auto intro: entries_run.gone)
    next
      case (Some r)
      then obtain pre f rest pm' w where "es = pre @ f # rest" "g = GRun pm' rest"
        "entries_run attrs ad_value u pre (all_gone pre) w" "entry_step attrs ad_value f w (Some r) t"
        "map_of pm' = settle (map_of pm1) (pre @ [f]) (all_gone pre @ [Some r])" using IH by auto
      then show ?thesis using Some step
        by (auto intro!: exI [of _ "e # pre"] exI [of _ f] exI [of _ pm'] exI [of _ w] intro: entries_run.gone)
    qed
  qed
qed

text \<open>
  A caller's loop over the whole generator, with the objects it is given.  Between a yield and
  the next \<open>next()\<close> the state may change in any way that keeps the objects and their pids.
\<close>

inductive iter_drain ::
  "string list option \<Rightarrow> pval \<Rightarrow> pgen \<Rightarrow> 'z ustate_scheme \<Rightarrow> nat list \<Rightarrow> 'z ustate_scheme \<Rightarrow> bool"
  for attrs ad_value where
  stop: "pgen_next attrs ad_value g s = ((Inr None, g'), t) \<Longrightarrow> iter_drain attrs ad_value g s [] t"
| next_one: "pgen_next attrs ad_value g s = ((Inr (Some r), g'), t) \<Longrightarrow> pids_kept t u
    \<Longrightarrow> iter_drain attrs ad_value g' u rs v \<Longrightarrow> iter_drain attrs ad_value g s (r # rs) v"

definition yielded :: "nat option list \<Rightarrow> nat list" where
  "yielded ys = List.map_filter id ys"

lemma yielded_simps [simp]:
  "yielded (all_gone es) = []" "yielded (ys @ Some r # zs) = yielded ys @ r # yielded zs"
  by (induction es) (simp_all add: yielded_def map_filter_def)

lemma set_yielded: "r \<in> set (yielded ys) \<longleftrightarrow> Some r \<in> set ys"
  by (force simp: yielded_def map_filter_def)

text \<open>Each yielded object has the pid of its entry and is the entry's object, if it had one.\<close>

definition right_object :: "'z ustate_scheme \<Rightarrow> int \<times> nat option \<Rightarrow> nat option \<Rightarrow> bool" where
  "right_object t e y \<longleftrightarrow> (\<forall>r. y = Some r \<longrightarrow> pid_of t r = fst e \<and> (snd e = None \<or> snd e = Some r))"

lemma right_all_gone: "list_all2 (right_object t) es (all_gone es)"
  by (simp add: all_gone_def right_object_def list_all2_conv_all_nth)

lemma pids_kept_pid: "pids_kept s t \<Longrightarrow> r < g_next s \<Longrightarrow> pid_of t r = pid_of s r"
  by (simp add: pids_kept_def pid_of_def)

lemma iter_drain_run:
  assumes "iter_drain attrs ad_value g s rs t" "g = GRun pm es" "gen_ok s g" "agrees pm es"
  shows "\<exists>ys v pm'. entries_run attrs ad_value s es ys v \<and> t = v\<lparr>g_pmap := pm'\<rparr> \<and> rs = yielded ys
    \<and> map_of pm' = settle (map_of pm) es ys \<and> length ys = length es \<and> pids_kept s t
    \<and> list_all2 (right_object t) es ys"
  using assms
proof (induction arbitrary: pm es rule: iter_drain.induct)
  case (stop g s g' t)
  have run: "iter_loop attrs ad_value es pm s = ((Inr None, g'), t)" using stop(1,2) by simp
  have ok: "\<forall>e \<in> set es. entry_ok s e" "table_ok s pm" using stop(2,3) by simp_all
  from iter_loop_entries [OF run ok stop(4)] obtain v pm' where
    v: "entries_run attrs ad_value s es (all_gone es) v" "t = v\<lparr>g_pmap := pm'\<rparr>"
    "map_of pm' = settle (map_of pm) es (all_gone es)" by auto
  moreover have "pids_kept s t" using iter_loop_ok [OF run ok] by simp
  ultimately show ?case
    using right_all_gone [of t es] by (intro exI [of _ "all_gone es"] exI [of _ v] exI [of _ pm']) simp
next
  case (next_one g s r g' t u rs v)
  have run: "iter_loop attrs ad_value es pm s = ((Inr (Some r), g'), t)" using next_one(1,5) by simp
  have ok: "\<forall>e \<in> set es. entry_ok s e" "table_ok s pm" using next_one(5,6) by simp_all
  from iter_loop_entries [OF run ok next_one(7)] obtain pre e rest pm1 w where
    es: "es = pre @ e # rest" and g': "g' = GRun pm1 rest"
    and w: "entries_run attrs ad_value s pre (all_gone pre) w" "entry_step attrs ad_value e w (Some r) t"
    and m1: "map_of pm1 = settle (map_of pm) (pre @ [e]) (all_gone pre @ [Some r])" by auto
  have next_ok: "pids_kept s t" "gen_ok t g'"
    and r: "r < g_next t" "pid_of t r = fst e" "snd e = None \<or> snd e = Some r"
    using iter_loop_ok [OF run ok] es g' by (auto simp: pid_of_def)
  have "agrees pm1 rest" using agrees_settle [of pm "pre @ [e]" rest pm1] next_one(7) es m1 by simp
  then obtain ys x pm' where ys: "entries_run attrs ad_value u rest ys x" "v = x\<lparr>g_pmap := pm'\<rparr>" "rs = yielded ys"
    "map_of pm' = settle (map_of pm1) rest ys" "length ys = length rest" "pids_kept u v"
    "list_all2 (right_object v) rest ys"
    using next_one.IH [OF g' gen_ok_kept [OF next_one(2) next_ok(2)]] by blast
  have tv: "pids_kept t v" using pids_kept_trans [OF next_one(2) ys(6)] .
  then have "right_object v e (Some r)" using pids_kept_pid [OF tv r(1)] r(2,3) by (simp add: right_object_def)
  moreover have "entries_run attrs ad_value s (pre @ e # rest) (all_gone pre @ Some r # ys) x"
    by (rule entries_run_append [OF w(1) entries_run.yield [OF w(2) next_one(2) ys(1)]])
  moreover have "map_of pm' = settle (map_of pm) (pre @ e # rest) (all_gone pre @ Some r # ys)"
    using ys(4) m1 by (simp add: settle_append)
  ultimately show ?case
    using ys(2,3,5,7) right_all_gone [of v pre] pids_kept_trans [OF next_ok(1) tv] unfolding es
    by (intro exI [of _ "all_gone pre @ Some r # ys"] exI [of _ x] exI [of _ pm'])
      (simp add: list_all2_appendI)
qed

lemma iter_start_agrees:
  assumes "iter_start s = (Inr (pm, ls), t)" "table_ok s (g_pmap s)"
  shows "agrees pm ls" "set (dict_keys pm) \<subseteq> set (map fst ls)"
proof -
  obtain ps u where "psutil_pids s = (Inr ps, u)" "t = u\<lparr>g_pids_reused := []\<rparr>"
    and p: "pm = filter (\<lambda>e. fst e \<in> set ps \<and> fst e \<notin> set (g_pids_reused u)) (g_pmap s)"
    and ls: "ls = sort_key fst (map (\<lambda>e. (fst e, Some (snd e))) pm
       @ map (\<lambda>k. (k, None)) (filter (\<lambda>k. k \<notin> set (dict_keys (g_pmap s))) (remdups ps)))"
    using assms(1) by (rule iter_start_parts)
  have "sorted_wrt (<) (map fst ls)" using iter_list [OF assms] by blast
  then have "distinct (map fst ls)" by (simp add: strict_sorted_iff)
  moreover have "dict_ok pm" using assms(2) p by (simp add: table_ok_def distinct_map_filter)
  then have "map_of pm (fst e) = snd e" if "e \<in> set ls" for e
    using that by (auto simp: ls p map_of_eq_None_iff image_iff intro: map_of_is_SomeI)
  ultimately show "agrees pm ls" by (simp add: agrees_def)
  show "set (dict_keys pm) \<subseteq> set (map fst ls)" by (force simp: ls)
qed

text \<open>
  C9: a loop over \<open>process_iter\<close> that runs to the end, whatever the caller does in between to
  the rest of the state, goes once and in ascending order through the pids the system listed
  at its start, except those whose object was marked as reused, which are left out of this
  iteration; a pid that is in the table comes with the object of the table.  Each of these pids
  has its turn, in this order: its object, which is the table's or a new one, is yielded after
  its values have been fetched, or it is skipped, and then \<open>NoSuchProcess\<close> was raised, by the
  constructor or while fetching, at this very moment.  Nothing else is yielded, each object has
  the pid whose turn it is, and at the end the table holds exactly the yielded objects under
  their pids.
\<close>

theorem process_iter_walks:
  assumes "iter_drain attrs ad_value GStart s rs t" and "table_ok s (g_pmap s)"
  shows "\<exists>ps u pm ls t0 ys v. psutil_pids s = (Inr ps, u) \<and> iter_start s = (Inr (pm, ls), t0)
     \<and> sorted_wrt (<) (map fst ls)
     \<and> set (map fst ls) = {k \<in> set ps. k \<notin> set (dict_keys (g_pmap s)) \<or> k \<notin> set (g_pids_reused s)}
     \<and> (\<forall>k r. (k, Some r) \<in> set ls \<longleftrightarrow> (k, r) \<in> set (g_pmap s) \<and> k \<in> set ps \<and> k \<notin> set (g_pids_reused s))
     \<and> entries_run attrs ad_value t0 ls ys v \<and> rs = yielded ys \<and> t = v\<lparr>g_pmap := g_pmap t\<rparr>
     \<and> list_all2 (right_object t) ls ys
     \<and> (\<forall>k r. map_of (g_pmap t) k = Some r \<longleftrightarrow> r \<in> set rs \<and> pid_of t r = k)"
proof -
  obtain pm ls t0 where st: "iter_start s = (Inr (pm, ls), t0)" and drain: "iter_drain attrs ad_value (GRun pm ls) t0 rs t"
  proof -
    have "\<exists>pm ls t0. iter_start s = (Inr (pm, ls), t0) \<and> iter_drain attrs ad_value (GRun pm ls) t0 rs t"
      using assms(1)
      by (cases rule: iter_drain.cases; cases "iter_start s")
        (auto split: sum.splits prod.splits intro: iter_drain.intros)
    then show thesis using that by blast
  qed
  note start = iter_list [OF st assms(2)] and agree = iter_start_agrees [OF st assms(2)]
  from iter_drain_run [OF drain refl iter_start_ok(2) [OF st assms(2)] agree(1)] obtain ys v pm' where
    run: "entries_run attrs ad_value t0 ls ys v" "t = v\<lparr>g_pmap := pm'\<rparr>" "rs = yielded ys"
    and m: "map_of pm' = settle (map_of pm) ls ys" and len: "length ys = length ls"
    and right: "list_all2 (right_object t) ls ys" by blast
  have dist: "distinct (map fst ls)" using agree(1) by (simp add: agrees_def)
  have at: "map_of pm' (fst (ls ! i)) = ys ! i" if "i < length ls" for i
    unfolding m using dist len that by (simp add: settle_at)
  have "map_of pm' k = Some r \<longleftrightarrow> r \<in> set rs \<and> pid_of t r = k" for k r
  proof
    assume k: "map_of pm' k = Some r"
    have "k \<in> set (map fst ls)"
    proof (rule ccontr)
      assume n: "k \<notin> set (map fst ls)"
      then have "map_of pm k = Some r" using k m by (simp add: settle_other)
      then show False using n agree(2) by (force dest: map_of_SomeD)
    qed
    then obtain i where i: "i < length ls" "fst (ls ! i) = k" by (auto simp: in_set_conv_nth)
    then have y: "ys ! i = Some r" using at [OF i(1)] k by simp
    then have "pid_of t r = k" using right i by (auto simp: list_all2_conv_all_nth right_object_def)
    moreover have "Some r \<in> set ys" using y i len nth_mem by metis
    ultimately show "r \<in> set rs \<and> pid_of t r = k" using run(3) by (simp add: set_yielded)
  next
    assume r: "r \<in> set rs \<and> pid_of t r = k"
    then have "Some r \<in> set ys" using run(3) set_yielded by metis
    then obtain i where i: "i < length ls" "ys ! i = Some r" using len by (auto simp: in_set_conv_nth)
    then have "fst (ls ! i) = k" using right r by (auto simp: list_all2_conv_all_nth right_object_def)
    then show "map_of pm' k = Some r" using at [OF i(1)] i(2) by simp
  qed
  then show ?thesis using start st run right by (auto simp del: set_map)
qed

section \<open>Prefetched values\<close>

lemma iter_one_keeps:
  assumes "iter_one attrs ad_value e pm s = ((x, pm'), t)"
  shows "keeps UNIV s t" and "x = Inr (Some r) \<Longrightarrow> \<exists>u. keeps UNIV s u \<and> iter_prefetch attrs ad_value r u = (Inr (), t)"
proof -
  obtain pid p0 where e: "e = (pid, p0)" by (cases e)
  obtain y u where y: "(case p0 of Some r \<Rightarrow> ret r | None \<Rightarrow> new_process (Some pid)) s = (y, u)"
    by (cases "(case p0 of Some r \<Rightarrow> ret r | None \<Rightarrow> new_process (Some pid)) s")
  have ks: "keeps UNIV s u"
    using y keeps_new_process [of UNIV "Some pid"] by (cases p0) (auto simp: keeps_refl dest: presD)
  have "keeps UNIV s t \<and> (x = Inr (Some r) \<longrightarrow> (\<exists>u. keeps UNIV s u \<and> iter_prefetch attrs ad_value r u = (Inr (), t)))"
  proof (cases y)
    case (Inl z)
    then have "iter_handle pid None pm z = (x, pm')" "t = u" using assms e y by (auto simp: iter_one_def)
    then show ?thesis using ks iter_handle_yield by blast
  next
    case (Inr q)
    obtain z w where z: "iter_prefetch attrs ad_value q u = (z, w)" by (cases "iter_prefetch attrs ad_value q u")
    have kw: "keeps UNIV u w" using keeps_iter_prefetch [of q UNIV] z by (auto dest: presD)
    show ?thesis
    proof (cases z)
      case (Inl f)
      then have "\<not> is_ZombieProcess f" using z iter_prefetch_raises by blast
      then have "x \<noteq> Inr (Some r)" "t = w" using assms e y Inr z Inl
        by (auto simp: iter_one_def iter_handle_def Let_def split: if_splits)
      then show ?thesis using keeps_trans [OF ks kw] by simp
    next
      case (Inr f)
      then have "x = Inr (Some q)" "t = w" using assms e y \<open>y = Inr q\<close> z by (auto simp: iter_one_def Let_def)
      then show ?thesis using z Inr ks keeps_trans [OF ks kw] by auto
    qed
  qed
  then show "keeps UNIV s t"
    and "x = Inr (Some r) \<Longrightarrow> \<exists>u. keeps UNIV s u \<and> iter_prefetch attrs ad_value r u = (Inr (), t)" by blast+
qed

lemma iter_loop_yield:
  assumes "iter_loop attrs ad_value es pm s = ((Inr (Some r), g), t)"
  shows "\<exists>u. keeps UNIV s u \<and> iter_prefetch attrs ad_value r u = (Inr (), t)"
  using assms
proof (induction es arbitrary: pm s)
  case (Cons e es)
  obtain y pm1 u where one: "iter_one attrs ad_value e pm s = ((y, pm1), u)" by (metis surj_pair)
  note k = iter_one_keeps [OF one]
  consider (raised) z where "y = Inl z" | (yielded) q where "y = Inr (Some q)" | (skipped) "y = Inr None"
    by (cases y) auto
  then show ?case
  proof cases
    case raised
    then show ?thesis using Cons.prems one by simp
  next
    case (yielded q)
    then have "q = r" "u = t" using Cons.prems one by simp_all
    then show ?thesis using k(2) yielded by blast
  next
    case skipped
    then have "iter_loop attrs ad_value es pm1 u = ((Inr (Some r), g), t)" using Cons.prems one by simp
    from Cons.IH [OF this] show ?thesis using keeps_trans [OF k(1)] by blast
  qed
qed simp

text \<open>\<open>w\<close> is reached from \<open>s\<close> on the same system, by making system calls.\<close>

definition later :: "'z ustate_scheme \<Rightarrow> 'z ustate_scheme \<Rightarrow> bool" where
  "later s w \<longleftrightarrow> sys_os w = sys_os s \<and> (\<exists>d. hist w = d @ hist s)"

lemma keeps_later: "keeps R s t \<Longrightarrow> later s t"
  by (auto simp: later_def keeps_def uframe_def)

lemma later_trans: "later s t \<Longrightarrow> later t u \<Longrightarrow> later s u"
  by (auto simp: later_def)

lemma pgen_next_yield:
  assumes "pgen_next attrs ad_value g s = ((Inr (Some r), g'), t)"
  shows "\<exists>u. later s u \<and> iter_prefetch attrs ad_value r u = (Inr (), t)"
proof (cases g)
  case GStart
  then obtain pm ls u where u: "iter_start s = (Inr (pm, ls), u)"
    "iter_loop attrs ad_value ls pm u = ((Inr (Some r), g'), t)"
    using assms by (auto split: sum.splits prod.splits)
  obtain ps v where v: "psutil_pids s = (Inr ps, v)" "u = v\<lparr>g_pids_reused := []\<rparr>"
    using u(1) by (rule iter_start_parts)
  obtain raw w where w: "pids s = (Inr raw, w)" "v = w\<lparr>g_lowest_pid := Some (ps ! 0)\<rparr>"
    using psutil_pids_sets [OF v(1)] by blast
  have "confined read_calls s w" using pres_pids w(1) by (rule presD)
  then have "later s u" using v(2) w(2) by (auto simp: later_def confined_def)
  then show ?thesis using iter_loop_yield [OF u(2)] keeps_later later_trans by blast
next
  case (GRun pm ls)
  then show ?thesis using iter_loop_yield [of attrs ad_value ls pm s] assms keeps_later by fastforce
qed (use assms in simp)

lemma table_prefetched:
  fixes s :: "'z ustate_scheme"
  shows "list_all (\<lambda>e. fst e \<noteq> ''pid'' \<longrightarrow>
     (\<forall>v. map_of (p_prefetch (objs s r)) (fst e) = Some v \<longrightarrow> snd e s = (Inr v, s))) (attr_table r)"
  unfolding attr_table_def list.pred_inject fst_conv snd_conv
    pr_cmdline_def pr_cwd_def pr_gids_def pr_terminal_def pr_num_fds_def
    pr_io_counters_def pr_cpu_num_def pr_environ_def pr_num_ctx_switches_def pr_num_threads_def pr_threads_def
    pr_page_faults_def pr_open_files_def pr_memory_footprint_def pr_status_def pr_nice_def pr_ionice_def
    pr_cpu_affinity_def pr_memory_maps_def pr_ppid_def pr_uids_def pr_cpu_times_def pr_memory_info_def
    pr_name_def pr_exe_def pr_username_def pr_create_time_def pr_memory_info_ex_def pr_memory_percent_def
    pr_net_connections_def pr_cpu_percent_def
  by (intro conjI TrueI impI allI; (rule use_prefetch_hit, assumption)?) simp_all

lemma attr_table_names: "set (valid_attrs os) \<subseteq> set (dict_keys (attr_table r))"
  unfolding valid_attrs_def set_filter attr_table_def by auto

lemma get_attr_prefetched:
  fixes s :: "'z ustate_scheme"
  assumes "map_of (p_prefetch (objs s r)) n = Some v" "n \<in> set (valid_attrs os)" "n \<noteq> ''pid''"
  shows "get_attr r n s = (Inr v, s)"
proof -
  let ?t = "attr_table r :: (string, ('z ustate_scheme, pval) py) dict"
  have "n \<noteq> ''memory_full_info''"
  proof
    assume "n = ''memory_full_info''"
    then show False using assms(2) unfolding valid_attrs_def set_filter by simp
  qed
  moreover have "n \<in> set (dict_keys ?t)" using attr_table_names assms(2) by blast
  then obtain m where m: "map_of ?t n = Some m" by (cases "map_of ?t n") (auto simp: map_of_eq_None_iff)
  then have "(n, m) \<in> set ?t" by (rule map_of_SomeD)
  then have "m s = (Inr v, s)" using table_prefetched [of s r] assms(1,3) by (auto simp: list_all_iff)
  ultimately show ?thesis using m by (simp add: get_attr_def)
qed

text \<open>
  C14: when \<open>process_iter(attrs)\<close> yields a process, the values stored in its object are those of
  one run of the getters made since this \<open>next()\<close> was called, with the store emptied before it:
  over the attributes named, each once, or, for an empty list, over \<open>Process.attrs\<close>; each value
  is what its getter returned in this run, or \<open>ad_value\<close> when it raised \<open>AccessDenied\<close> or
  \<open>ZombieProcess\<close>.  From then on calling the getter of a stored attribute returns the stored
  value without a system call or any other effect; the two names this does not hold for are
  \<open>pid\<close>, which is not a method, and the deprecated \<open>memory_full_info\<close>, which is computed again.
\<close>

theorem process_iter_prefetched:
  assumes "pgen_next (Some attrs) ad_value g s = ((Inr (Some r), g'), t)"
  shows "(\<exists>w ls u v x. later s w \<and> p_prefetch (objs w r) = [] \<and> in_oneshot r w u v x
        \<and> getters_run r ad_value u ls v \<and> map fst ls = dict_names (sys_os s) (Some attrs)
        \<and> t = upd r (\<lambda>p. p\<lparr>p_prefetch := stored ls, p_ad_value := Some ad_value\<rparr>) x)
     \<and> (attrs \<noteq> [] \<longrightarrow> dict_keys (p_prefetch (objs t r)) = remdups attrs)
     \<and> (\<forall>n v. map_of (p_prefetch (objs t r)) n = Some v \<and> n \<noteq> ''pid'' \<and> n \<noteq> ''memory_full_info''
          \<longrightarrow> get_attr r n t = (Inr v, t))"
proof -
  obtain u where u: "later s u" "iter_prefetch (Some attrs) ad_value r u = (Inr (), t)"
    using pgen_next_yield [OF assms] by blast
  define w where "w = upd r (\<lambda>p. p\<lparr>p_prefetch := [], p_ad_value := None\<rparr>) u"
  obtain d x where d: "as_dict r (Some attrs) ad_value w = (Inr d, x)"
    and t: "t = upd r (\<lambda>p. p\<lparr>p_prefetch := d, p_ad_value := Some ad_value\<rparr>) x"
    using u(2) by (auto simp: iter_prefetch_def bnd_Inr w_def simp del: bnd_run)
  have w: "later s w" "p_prefetch (objs w r) = []" "sys_os w = sys_os s" using u(1) by (simp_all add: w_def later_def)
  have p: "p_prefetch (objs t r) = d" using t by simp
  obtain ls v z where ls: "in_oneshot r w v z x" "getters_run r ad_value v ls z"
    "map fst ls = dict_names (sys_os s) (Some attrs)" "d = stored ls"
    using d unfolding w(3) [symmetric] by (rule as_dict_returns)
  have asked: "asked_names (Some attrs) = remdups attrs" by (simp add: asked_names_def)
  have keys: "set (dict_keys d) \<subseteq> set (valid_attrs (sys_os s)) \<union> {''memory_full_info''}"
  proof -
    have "set (dict_keys d) \<subseteq> set (dict_names (sys_os s) (Some attrs))"
      using subseq_set [OF as_dict_keys(1) [OF d]] w(3) by simp
    also have "\<dots> \<subseteq> set (valid_attrs (sys_os s)) \<union> {''memory_full_info''}"
      using as_dict_known [OF d] w(3) by (auto simp: names_known_def dict_names_def split: if_splits)
    finally show ?thesis .
  qed
  have hit: "get_attr r n t = (Inr y, t)"
    if y: "map_of (p_prefetch (objs t r)) n = Some y" and n: "n \<noteq> ''pid''" "n \<noteq> ''memory_full_info''" for n y
  proof -
    have "(n, y) \<in> set d" using y p by (simp add: map_of_SomeD)
    then have "n \<in> set (valid_attrs (sys_os s))" using keys n(2) by force
    then show ?thesis using get_attr_prefetched [OF y] n(1) by blast
  qed
  have "dict_keys (p_prefetch (objs t r)) = remdups attrs" if "attrs \<noteq> []"
    using as_dict_keys(2) [OF d] that p asked by simp
  moreover have "\<exists>w ls u v x. later s w \<and> p_prefetch (objs w r) = [] \<and> in_oneshot r w u v x
        \<and> getters_run r ad_value u ls v \<and> map fst ls = dict_names (sys_os s) (Some attrs)
        \<and> t = upd r (\<lambda>p. p\<lparr>p_prefetch := stored ls, p_ad_value := Some ad_value\<rparr>) x"
    using w ls t by blast
  ultimately show ?thesis using hit by blast
qed

section \<open>Examples\<close>

text \<open>Pid 42 is in the table, with the object 0; the system lists 42 and 43.\<close>

definition iter_state :: ustate where
  "iter_state = tree_state\<lparr>objs := \<lambda>_. blank_proc 42 (null_lproc 42), g_pmap := [(42, 0)]\<rparr>"

lemma iter_state_simps [simp]:
  "g_pmap iter_state = [(42, 0)]" "g_next iter_state = 1" "objs iter_state = (\<lambda>_. blank_proc 42 (null_lproc 42))"
  "sys_os iter_state = tree_os" "procfs_path iter_state = ''/proc''" "g_pids_reused iter_state = []"
  by (simp_all add: iter_state_def tree_state_def)

lemma iter_state_table: "table_ok iter_state (g_pmap iter_state)"
  by (simp add: table_ok_def blank_proc_def)

lemma iter_state_pids: "\<exists>h. psutil_pids iter_state = (Inr [42, 43], iter_state\<lparr>hist := h, g_lowest_pid := Some 42\<rparr>)"
  using tree_pids [of iter_state] by (auto simp: psutil_pids_def Let_def item_def)

lemma iter_state_start:
  "\<exists>h. iter_start iter_state = (Inr ([(42, 0)], [(42, Some 0), (43, None)]),
     iter_state\<lparr>hist := h, g_lowest_pid := Some 42, g_pids_reused := []\<rparr>)"
  using iter_state_pids by (auto simp: iter_start_def Let_def)

lemma iter_state_next:
  "\<exists>t. pgen_next None ad_value GStart iter_state = ((Inr (Some 0), GRun [(42, 0)] [(43, None)]), t)"
  using iter_state_start by (auto simp: iter_one_def iter_prefetch_def)

theorem process_iter_keeps_table_witness:
  "\<exists>g t. pgen_next None PvNone GStart iter_state = ((Inr (Some 0), g), t) \<and> gen_ok t g
     \<and> table_ok t (g_pmap t)"
proof -
  obtain t where t: "pgen_next None PvNone GStart iter_state = ((Inr (Some 0), GRun [(42, 0)] [(43, None)]), t)"
    using iter_state_next by blast
  have "gen_ok iter_state GStart" by simp
  from process_iter_keeps_table [OF t this iter_state_table] t show ?thesis by blast
qed

theorem process_iter_ascending_witness:
  "\<exists>t r g v. iter_run None PvNone iter_state [0, r] g v \<and> pid_of v 0 = 42 \<and> pid_of v r = 43
     \<and> sorted_wrt (<) (map (pid_of v) [0, r])"
proof -
  obtain t where t: "pgen_next None PvNone GStart iter_state = ((Inr (Some 0), GRun [(42, 0)] [(43, None)]), t)"
    using iter_state_next by blast
  have g: "gen_ok iter_state GStart" by simp
  note ok = pgen_next_ok [OF t g iter_state_table]
  have "\<exists>h. t = upd 0 (\<lambda>p. p\<lparr>p_prefetch := [], p_ad_value := None\<rparr>)
      (iter_state\<lparr>hist := h, g_lowest_pid := Some 42, g_pids_reused := []\<rparr>)"
    using t iter_state_start by (auto simp: iter_one_def iter_prefetch_def)
  then have "tree_world t" by auto
  then obtain u where u: "new_process (Some 43) t = (Inr (g_next t), u)" using tree_new [of t 43] by auto
  let ?r = "g_next t"
  have "\<exists>pm v. pgen_next None PvNone (GRun [(42, 0)] [(43, None)]) t = ((Inr (Some ?r), GRun pm []), v)"
    using u by (simp add: iter_one_def iter_prefetch_def Let_def)
  then obtain pm v where v: "pgen_next None PvNone (GRun [(42, 0)] [(43, None)]) t = ((Inr (Some ?r), GRun pm []), v)"
    by blast
  have run: "iter_run None PvNone iter_state [0, ?r] (GRun pm []) v"
    using iter_run.more [OF iter_run.first [OF t] pids_kept_refl v] by simp
  have "pids_kept t v" "gen_ok t (GRun [(42, 0)] [(43, None)])"
    using pgen_next_ok [OF v] ok by auto
  moreover have "0 < g_next t" "p_pid (objs t 0) = 42"
    using ok by (auto simp: table_ok_def pids_kept_def blank_proc_def)
  ultimately have p0: "pid_of v 0 = 42" by (simp add: pids_kept_def pid_of_def)
  have "p_pid (objs u ?r) = 43" by (rule new_process_object(1) [OF u])
  then have "pid_of v ?r = 43" using u v by (auto simp: iter_one_def iter_prefetch_def Let_def pid_of_def)
  then show ?thesis using run p0 process_iter_ascending [OF run iter_state_table] by blast
qed

text \<open>The same loop to its end: the object 0, a new object for 43, and nothing more.\<close>

theorem process_iter_walks_witness:
  "\<exists>r t. iter_drain None PvNone GStart iter_state [0, r] t \<and> pid_of t 0 = 42 \<and> pid_of t r = 43
     \<and> map_of (g_pmap t) 42 = Some 0 \<and> map_of (g_pmap t) 43 = Some r"
proof -
  obtain t where t: "pgen_next None PvNone GStart iter_state = ((Inr (Some 0), GRun [(42, 0)] [(43, None)]), t)"
    using iter_state_next by blast
  have ok: "pids_kept iter_state t" using pgen_next_ok [OF t _ iter_state_table] by simp
  have "\<exists>h. t = upd 0 (\<lambda>p. p\<lparr>p_prefetch := [], p_ad_value := None\<rparr>)
      (iter_state\<lparr>hist := h, g_lowest_pid := Some 42, g_pids_reused := []\<rparr>)"
    using t iter_state_start by (auto simp: iter_one_def iter_prefetch_def)
  then have "tree_world t" by auto
  then obtain u where u: "new_process (Some 43) t = (Inr (g_next t), u)" using tree_new [of t 43] by auto
  let ?r = "g_next t"
  obtain pm v where v: "pgen_next None PvNone (GRun [(42, 0)] [(43, None)]) t = ((Inr (Some ?r), GRun pm []), v)"
    using u by (simp add: iter_one_def iter_prefetch_def Let_def)
  have last: "pgen_next None PvNone (GRun pm []) v = ((Inr None, GDone), v\<lparr>g_pmap := pm\<rparr>)" by simp
  let ?v = "v\<lparr>g_pmap := pm\<rparr>"
  have drain: "iter_drain None PvNone GStart iter_state [0, ?r] ?v"
    by (rule iter_drain.next_one [OF t pids_kept_refl iter_drain.next_one [OF v pids_kept_refl iter_drain.stop [OF last]]])
  have "gen_ok t (GRun [(42, 0)] [(43, None)])" "table_ok t (g_pmap t)"
    using pgen_next_ok [OF t _ iter_state_table] by simp_all
  then have "pids_kept t v" using pgen_next_ok [OF v] by blast
  then have p0: "pid_of ?v 0 = 42"
    using ok by (simp add: pids_kept_def pid_of_def blank_proc_def)
  have "p_pid (objs u ?r) = 43" by (rule new_process_object(1) [OF u])
  then have p1: "pid_of ?v ?r = 43" using u v by (auto simp: iter_one_def iter_prefetch_def Let_def pid_of_def)
  have "map_of (g_pmap ?v) k = Some q \<longleftrightarrow> q \<in> set [0, ?r] \<and> pid_of ?v q = k" for k q
    using process_iter_walks [OF drain iter_state_table] by blast
  then show ?thesis using drain p0 p1 by (intro exI [of _ ?r] exI [of _ ?v]) simp
qed

lemma iter_num_fds:
  assumes "sys_os u = tree_os" "p_prefetch (objs u 0) = []"
  shows "\<exists>v. get_attr 0 ''num_fds'' u = (Inr (PvInt 2), v)"
proof -
  have "get_attr 0 ''num_fds'' u = pr_num_fds 0 u" by (simp add: get_attr_def attr_table_def)
  moreover have "\<exists>w. proc_num_fds (u\<lparr>lp := p_impl (objs u 0)\<rparr>) = (Inr 2, w)"
    using assms(1) by (simp add: proc_num_fds_def wrap_exceptions_def listdir_def)
  ultimately show ?thesis using assms(2) by (auto simp: pr_num_fds_def use_prefetch_def impl_def)
qed

theorem process_iter_prefetched_witness:
  "\<exists>g t v. pgen_next (Some [''num_fds'']) PvNone GStart iter_state = ((Inr (Some 0), g), t)
     \<and> map_of (p_prefetch (objs t 0)) ''num_fds'' = Some v \<and> get_attr 0 ''num_fds'' t = (Inr v, t)"
proof -
  obtain h where st: "iter_start iter_state = (Inr ([(42, 0)], [(42, Some 0), (43, None)]),
      iter_state\<lparr>hist := h, g_lowest_pid := Some 42, g_pids_reused := []\<rparr>)" using iter_state_start by blast
  let ?u = "upd 0 (\<lambda>p. p\<lparr>p_prefetch := [], p_ad_value := None\<rparr>)
      (iter_state\<lparr>hist := h, g_lowest_pid := Some 42, g_pids_reused := []\<rparr>)"
  have "\<exists>w. as_dict 0 (Some [''num_fds'']) PvNone ?u = (Inr [(''num_fds'', PvInt 2)], w)"
    by (rule as_dict_one) (auto simp: blank_proc_def valid_attrs_def intro: iter_num_fds)
  then obtain w where w: "as_dict 0 (Some [''num_fds'']) PvNone ?u = (Inr [(''num_fds'', PvInt 2)], w)" by blast
  then have "\<exists>g t. pgen_next (Some [''num_fds'']) PvNone GStart iter_state = ((Inr (Some 0), g), t)"
    using st by (simp add: iter_one_def iter_prefetch_def)
  then obtain g t where t: "pgen_next (Some [''num_fds'']) PvNone GStart iter_state = ((Inr (Some 0), g), t)" by blast
  from process_iter_prefetched [OF t] have
    "dict_keys (p_prefetch (objs t 0)) = [''num_fds'']"
    "\<And>v. map_of (p_prefetch (objs t 0)) ''num_fds'' = Some v \<Longrightarrow> get_attr 0 ''num_fds'' t = (Inr v, t)"
    by simp_all
  moreover from this(1) obtain v where "map_of (p_prefetch (objs t 0)) ''num_fds'' = Some v"
    by (cases "map_of (p_prefetch (objs t 0)) ''num_fds''") (auto simp: map_of_eq_None_iff)
  ultimately show ?thesis using t by blast
qed

end
