(* ===== verification/Init_Wait.thy ===== *)
theory Init_Wait
  imports Init_Tree
begin

text \<open>
  Waiting, at the level of the package: \<open>Process.wait\<close>, \<open>Popen\<close> and \<open>wait_procs\<close> of
  \<open>psutil/__init__.py\<close>.  As in the platform module a wait may never return, which is \<open>None\<close>;
  \<open>can_pidfd\<close> and \<open>can_kqueue\<close> are the cached answers of the platform module about how it can
  wait.
\<close>

section \<open>\<open>Process.wait\<close>\<close>

definition impl_d ::
  "nat \<Rightarrow> ('z ustate_scheme \<Rightarrow> ('z ustate_scheme, 'a) result) \<Rightarrow> 'z ustate_scheme \<Rightarrow> ('z ustate_scheme, 'a) result" where
  "impl_d r m s = (case m (s\<lparr>lp := p_impl (objs s r)\<rparr>) of
       None \<Rightarrow> None
     | Some (x, t) \<Rightarrow> Some (x, upd r (\<lambda>p. p\<lparr>p_impl := lp t\<rparr>) t))"

definition process_wait ::
  "bool \<Rightarrow> bool \<Rightarrow> nat \<Rightarrow> flt option \<Rightarrow> 'z ustate_scheme \<Rightarrow> ('z ustate_scheme, int option) result" where
  "process_wait can_pidfd can_kqueue r timeout s =
     (if p_pid (objs s r) = 0 then Some (Inl ValueError, s)
      else if (case timeout of Some x \<Rightarrow> x < 0 | None \<Rightarrow> False) then Some (Inl ValueError, s)
      else case p_exitcode (objs s r) of
        Some code \<Rightarrow> Some (Inr code, s)
      | None \<Rightarrow> (case impl_d r (proc_wait can_pidfd can_kqueue timeout) s of
            None \<Rightarrow> None
          | Some (Inl e, t) \<Rightarrow>
              if is_TimeoutExpired e
              then Some (Inl (mk_TimeoutExpired (secs_of timeout) (Some (p_pid (objs t r))) (p_name (objs t r))), t)
              else Some (Inl e, t)
          | Some (Inr code, t) \<Rightarrow> Some (Inr code, upd r (\<lambda>p. p\<lparr>p_exitcode := Some code\<rparr>) t)))"

section \<open>\<open>Popen\<close>\<close>

text \<open>The object, and the \<open>returncode\<close> of the \<open>subprocess.Popen\<close> inside it.\<close>

record popen =
  po_proc :: nat
  po_returncode :: "int option"

definition spawn_call :: "string list \<Rightarrow> ('z sys_scheme, int) py" where
  "spawn_call args = sys_try (SSpawn args) (\<lambda>os h. os_spawn os h args)"

definition popen_init :: "string list \<Rightarrow> ('z ustate_scheme, popen) py" where
  "popen_init args = bnd (spawn_call args) (\<lambda>pid. bnd alloc (\<lambda>r.
     bnd (proc_init r (Some pid) True) (\<lambda>_. ret \<lparr>po_proc = r, po_returncode = None\<rparr>)))"

definition popen_wait ::
  "bool \<Rightarrow> bool \<Rightarrow> popen \<Rightarrow> flt option \<Rightarrow> 'z ustate_scheme \<Rightarrow> ('z ustate_scheme, int option \<times> popen) result" where
  "popen_wait can_pidfd can_kqueue p timeout s =
     (if po_returncode p \<noteq> None then Some (Inr (po_returncode p, p), s)
      else case process_wait can_pidfd can_kqueue (po_proc p) timeout s of
          None \<Rightarrow> None
        | Some (Inl e, t) \<Rightarrow> Some (Inl e, t)
        | Some (Inr code, t) \<Rightarrow> Some (Inr (code, p\<lparr>po_returncode := code\<rparr>), t))"

section \<open>\<open>wait_procs\<close>\<close>

text \<open>
  Sets of objects are lists without two equal ones, in the order Python iterates over them;
  membership is \<open>__eq__\<close>.  \<open>gone\<close> also keeps the \<open>returncode\<close> set on each object.
\<close>

type_synonym gone = "(nat \<times> int option) list"

definition has_equal :: "'z ustate_scheme \<Rightarrow> nat list \<Rightarrow> nat \<Rightarrow> bool" where
  "has_equal s rs r \<longleftrightarrow> list_ex (\<lambda>q. proc_eq (objs s q) (objs s r)) rs"

definition proc_set :: "'z ustate_scheme \<Rightarrow> nat list \<Rightarrow> nat list" where
  "proc_set s procs = fold (\<lambda>r acc. if has_equal s acc r then acc else acc @ [r]) procs []"

definition still_alive :: "'z ustate_scheme \<Rightarrow> nat list \<Rightarrow> gone \<Rightarrow> nat list" where
  "still_alive s alive gone = filter (\<lambda>r. \<not> has_equal s (map fst gone) r) alive"

type_synonym 'z callback = "(nat \<Rightarrow> ('z ustate_scheme, unit) py) option"

text \<open>The end of \<open>check_gone\<close>, after a wait that returned \<open>returncode\<close>.\<close>

definition note_gone :: "'z callback \<Rightarrow> nat \<Rightarrow> int option \<Rightarrow> gone \<Rightarrow> ('z ustate_scheme, gone) py" where
  "note_gone callback r returncode gone =
     bnd (if returncode \<noteq> None then ret True else bnd (is_running r) (\<lambda>b. ret (\<not> b))) (\<lambda>is_gone.
     if is_gone
     then bnd (gets (\<lambda>s. if has_equal s (map fst gone) r then gone else gone @ [(r, returncode)])) (\<lambda>gone'.
       case callback of None \<Rightarrow> ret gone' | Some f \<Rightarrow> bnd (f r) (\<lambda>_. ret gone'))
     else ret gone)"

definition check_gone ::
  "bool \<Rightarrow> bool \<Rightarrow> 'z callback \<Rightarrow> nat \<Rightarrow> flt \<Rightarrow> gone \<Rightarrow> 'z ustate_scheme \<Rightarrow> ('z ustate_scheme, gone) result" where
  "check_gone can_pidfd can_kqueue callback r timeout gone s =
     (case process_wait can_pidfd can_kqueue r (Some timeout) s of
        None \<Rightarrow> None
      | Some (Inl e, t) \<Rightarrow> Some (if is_TimeoutExpired e then Inr gone else Inl e, t)
      | Some (Inr returncode, t) \<Rightarrow> Some (note_gone callback r returncode gone t))"

text \<open>One pass over \<open>alive\<close>; \<open>n\<close> is \<open>len(alive)\<close>.\<close>

fun wait_each ::
  "bool \<Rightarrow> bool \<Rightarrow> 'z callback \<Rightarrow> flt \<Rightarrow> nat \<Rightarrow> nat list \<Rightarrow> flt option \<Rightarrow> gone \<Rightarrow> 'z ustate_scheme
     \<Rightarrow> ('z ustate_scheme, flt option \<times> gone) result" where
  "wait_each cp ck callback deadline n [] timeout gone s = Some (Inr (timeout, gone), s)"
| "wait_each cp ck callback deadline n (r # rs) timeout gone s = (case fdiv 1 (fint (int n)) of
      Inl e \<Rightarrow> Some (Inl e, s)
    | Inr max_timeout \<Rightarrow> (case timeout of
        None \<Rightarrow> (case check_gone cp ck callback r max_timeout gone s of
            None \<Rightarrow> None
          | Some (Inl e, t) \<Rightarrow> Some (Inl e, t)
          | Some (Inr gone', t) \<Rightarrow> wait_each cp ck callback deadline n rs None gone' t)
      | Some _ \<Rightarrow> (case monotonic s of
            (Inl e, t) \<Rightarrow> Some (Inl e, t)
          | (Inr now, t) \<Rightarrow>
              let left = min (fsub deadline now) max_timeout in
              if left \<le> 0 then Some (Inr (Some left, gone), t)
              else (case check_gone cp ck callback r left gone t of
                  None \<Rightarrow> None
                | Some (Inl e, u) \<Rightarrow> Some (Inl e, u)
                | Some (Inr gone', u) \<Rightarrow> wait_each cp ck callback deadline n rs (Some left) gone' u))))"

partial_function (option) wait_rounds ::
  "bool \<Rightarrow> bool \<Rightarrow> 'z callback \<Rightarrow> flt \<Rightarrow> flt option \<Rightarrow> nat list \<Rightarrow> gone \<Rightarrow> 'z ustate_scheme
     \<Rightarrow> ('z ustate_scheme, nat list \<times> gone) result" where
  "wait_rounds cp ck callback deadline timeout alive gone s =
     (if alive = [] \<or> (case timeout of Some x \<Rightarrow> x \<le> 0 | None \<Rightarrow> False)
      then Some (Inr (alive, gone), s)
      else case wait_each cp ck callback deadline (length alive) alive timeout gone s of
          None \<Rightarrow> None
        | Some (Inl e, t) \<Rightarrow> Some (Inl e, t)
        | Some (Inr (timeout', gone'), t) \<Rightarrow>
            wait_rounds cp ck callback deadline timeout' (still_alive t alive gone') gone' t)"

text \<open>The last attempt, with a timeout of zero.\<close>

fun wait_last ::
  "bool \<Rightarrow> bool \<Rightarrow> 'z callback \<Rightarrow> nat list \<Rightarrow> gone \<Rightarrow> 'z ustate_scheme \<Rightarrow> ('z ustate_scheme, gone) result" where
  "wait_last cp ck callback [] gone s = Some (Inr gone, s)"
| "wait_last cp ck callback (r # rs) gone s = (case check_gone cp ck callback r 0 gone s of
       None \<Rightarrow> None
     | Some (Inl e, t) \<Rightarrow> Some (Inl e, t)
     | Some (Inr gone', t) \<Rightarrow> wait_last cp ck callback rs gone' t)"

definition wait_procs ::
  "bool \<Rightarrow> bool \<Rightarrow> nat list \<Rightarrow> flt option \<Rightarrow> 'z callback \<Rightarrow> 'z ustate_scheme
     \<Rightarrow> ('z ustate_scheme, gone \<times> nat list) result" where
  "wait_procs cp ck procs timeout callback s =
     (if (case timeout of Some x \<Rightarrow> x < 0 | None \<Rightarrow> False) then Some (Inl ValueError, s)
      else case (case timeout of None \<Rightarrow> ret 0 | Some x \<Rightarrow> bnd monotonic (\<lambda>now. ret (fadd now x))) s of
          (Inl e, t) \<Rightarrow> Some (Inl e, t)
        | (Inr deadline, t) \<Rightarrow>
            (case wait_rounds cp ck callback deadline timeout (proc_set s procs) [] t of
               None \<Rightarrow> None
             | Some (Inl e, u) \<Rightarrow> Some (Inl e, u)
             | Some (Inr (alive, gone), u) \<Rightarrow>
                 (case wait_last cp ck callback alive gone u of
                    None \<Rightarrow> None
                  | Some (Inl e, v) \<Rightarrow> Some (Inl e, v)
                  | Some (Inr gone', v) \<Rightarrow> Some (Inr (gone', still_alive v alive gone'), v))))"

section \<open>What a wait leaves alone\<close>

text \<open>
  The oracle stays, calls are only added, and so are objects, which keep their pid and
  identity.  A callback is expected to behave like that too.
\<close>

definition wframe :: "'z ustate_scheme \<Rightarrow> 'z ustate_scheme \<Rightarrow> bool" where
  "wframe s t \<longleftrightarrow> sys_os t = sys_os s \<and> (\<exists>d. hist t = d @ hist s) \<and> g_next s \<le> g_next t
     \<and> (\<forall>q < g_next s. p_pid (objs t q) = p_pid (objs s q) \<and> p_ident (objs t q) = p_ident (objs s q))"

lemma wframe_refl: "wframe s s"
  by (simp add: wframe_def)

lemma wframe_trans: "wframe s t \<Longrightarrow> wframe t u \<Longrightarrow> wframe s u"
  by (fastforce simp: wframe_def)

interpretation wf: preserved wframe
  by unfold_locales (auto intro: wframe_refl wframe_trans)

lemma keeps_wframe: "keeps R s t \<Longrightarrow> wframe s t"
  by (auto simp: keeps_def uframe_def wframe_def)

lemma pres_keeps_wframe: "pres (keeps R) m \<Longrightarrow> pres wframe m"
  unfolding pres_def using keeps_wframe by blast

definition callback_ok :: "'z callback \<Rightarrow> bool" where
  "callback_ok callback \<longleftrightarrow> (\<forall>f r. callback = Some f \<longrightarrow> pres wframe (f r))"

lemma wait_pid_frame:
  assumes "wait_pid cp ck pid timeout s = Some (x, t)"
  shows "confined (wait_calls pid timeout) s t"
proof (cases "0 < pid")
  case True
  then show ?thesis using assms by (rule wp.wait_confined)
next
  case False
  then show ?thesis using assms by (simp add: wait_pid_def confined_refl)
qed

lemma proc_wait_frame:
  assumes "proc_wait cp ck timeout s = Some (x, t)"
  shows "sys_os t = sys_os s \<and> lsys.more t = lsys.more s \<and> (\<exists>d. hist t = d @ hist s)"
proof -
  obtain y u where y: "wait_pid cp ck (l_pid (lp s)) timeout s = Some (y, u)"
    and t: "case y of Inl e \<Rightarrow> translate (l_pid (lp s)) (l_name (lp s)) e u = (x, t) | Inr c \<Rightarrow> t = u"
    using assms by (auto simp: proc_wait_def wrap_exceptions_d_def split: option.splits sum.splits)
  have c: "confined (wait_calls (l_pid (lp s)) timeout) s u" using y by (rule wait_pid_frame)
  then have "sys.more u = sys.more s" by (simp add: confined_def)
  then have u: "lsys.more u = lsys.more s" by (cases s; cases u) simp
  have l: "lframe u t"
  proof (cases y)
    case (Inl e)
    then have "translate (l_pid (lp s)) (l_name (lp s)) e u = (x, t)" using t by simp
    then show ?thesis by (rule presD [OF pres_translate])
  next
    case (Inr code)
    then show ?thesis using t by (simp add: lframe_refl)
  qed
  obtain d d' where "hist u = d @ hist s" "hist t = d' @ hist u" "sys_os u = sys_os s"
    using c l unfolding confined_def lframe_def by blast
  then show ?thesis using l u by (simp add: lframe_def)
qed

lemma impl_d_frame:
  assumes "impl_d r (proc_wait cp ck timeout) s = Some (x, t)"
  shows "wframe s t"
proof -
  obtain u where u: "proc_wait cp ck timeout (s\<lparr>lp := p_impl (objs s r)\<rparr>) = Some (x, u)"
    "t = upd r (\<lambda>p. p\<lparr>p_impl := lp u\<rparr>) u"
    using assms by (auto simp: impl_d_def split: option.splits)
  from proc_wait_frame [OF u(1)] have f: "lsys.more u = lsys.more (s\<lparr>lp := p_impl (objs s r)\<rparr>)"
    "sys_os u = sys_os s" "\<exists>d. hist u = d @ hist s" by simp_all
  from lsys_more_fields [OF f(1)] f(2,3) show ?thesis by (auto simp: u(2) wframe_def)
qed

lemma process_wait_frame: "process_wait cp ck r timeout s = Some (x, t) \<Longrightarrow> wframe s t"
  by (auto simp: process_wait_def wframe_refl wframe_def [of _ "upd _ _ _"] dest!: impl_d_frame
      split: if_splits option.splits sum.splits) (simp_all add: wframe_def)

lemma pres_note_gone: "callback_ok callback \<Longrightarrow> pres wframe (note_gone callback r code gone)"
  unfolding note_gone_def
  by (auto intro!: wf.pres_bnd wf.pres_if wf.pres_ret wf.pres_gets pres_keeps_wframe [OF keeps_is_running]
      simp: callback_ok_def split: option.splits)

lemma check_gone_frame:
  assumes "check_gone cp ck callback r x gone s = Some (y, t)" "callback_ok callback"
  shows "wframe s t"
proof -
  obtain z u where z: "process_wait cp ck r (Some x) s = Some (z, u)"
    and t: "case z of Inl e \<Rightarrow> t = u | Inr code \<Rightarrow> note_gone callback r code gone u = (y, t)"
    using assms(1) by (auto simp: check_gone_def split: option.splits sum.splits)
  have "wframe u t" using t pres_note_gone [OF assms(2)] wframe_refl by (auto split: sum.splits dest: presD)
  then show ?thesis using process_wait_frame [OF z] by (blast intro: wframe_trans)
qed

section \<open>Sets of processes\<close>

text \<open>No two objects of \<open>A\<close> are equal in the sense of \<open>__eq__\<close>.\<close>

definition apart :: "'z ustate_scheme \<Rightarrow> nat set \<Rightarrow> bool" where
  "apart s A \<longleftrightarrow> (\<forall>a \<in> A. a < g_next s \<and> (\<forall>b \<in> A. proc_eq (objs s a) (objs s b) \<longrightarrow> a = b))"

lemma proc_eq_refl: "proc_eq p p"
  by (auto simp: proc_eq_def cmp_idents_def split: prod.splits)

lemma proc_eq_sym: "proc_eq p q = proc_eq q p"
  by (simp add: proc_eq_def cmp_idents_sym)

lemma proc_eq_kept:
  "wframe s t \<Longrightarrow> a < g_next s \<Longrightarrow> b < g_next s \<Longrightarrow> proc_eq (objs t a) (objs t b) = proc_eq (objs s a) (objs s b)"
  by (simp add: wframe_def proc_eq_def)

lemma apart_kept: "wframe s t \<Longrightarrow> apart s A \<Longrightarrow> apart t A"
proof -
  assume w: "wframe s t" and a: "apart s A"
  then have "a < g_next t \<and> (\<forall>b \<in> A. proc_eq (objs t a) (objs t b) \<longrightarrow> a = b)" if "a \<in> A" for a
    using that proc_eq_kept [OF w] by (fastforce simp: apart_def wframe_def)
  then show "apart t A" by (simp add: apart_def)
qed

lemma has_equal_apart: "apart s A \<Longrightarrow> set rs \<subseteq> A \<Longrightarrow> r \<in> A \<Longrightarrow> has_equal s rs r \<longleftrightarrow> r \<in> set rs"
  using proc_eq_refl by (auto simp: has_equal_def list_ex_iff apart_def)

lemma still_alive_apart:
  assumes "apart s A" "set (map fst gone) \<subseteq> A" "set alive \<subseteq> A"
  shows "still_alive s alive gone = filter (\<lambda>r. r \<notin> set (map fst gone)) alive"
  unfolding still_alive_def using has_equal_apart [OF assms(1,2)] assms(3) by (intro filter_cong) auto

lemma proc_set_step:
  assumes "fold (\<lambda>r acc. if has_equal s acc r then acc else acc @ [r]) procs acc = out"
    and "distinct acc" "apart s (set acc)" "\<forall>r \<in> set procs. r < g_next s"
  shows "distinct out \<and> apart s (set out) \<and> set out \<subseteq> set acc \<union> set procs \<and> set acc \<subseteq> set out
     \<and> (\<forall>r \<in> set procs. has_equal s out r)"
  using assms
proof (induction procs arbitrary: acc)
  case (Cons r procs)
  have mono: "has_equal s xs q \<Longrightarrow> set xs \<subseteq> set ys \<Longrightarrow> has_equal s ys q" for xs ys q
    by (auto simp: has_equal_def list_ex_iff)
  show ?case
  proof (cases "has_equal s acc r")
    case True
    then have "fold (\<lambda>r acc. if has_equal s acc r then acc else acc @ [r]) procs acc = out" using Cons.prems(1) by simp
    from Cons.IH [OF this Cons.prems(2,3)] Cons.prems(4) mono [OF True, of out] show ?thesis by auto
  next
    case False
    then have run: "fold (\<lambda>r acc. if has_equal s acc r then acc else acc @ [r]) procs (acc @ [r]) = out"
      using Cons.prems(1) by simp
    have "\<forall>q \<in> set acc. \<not> proc_eq (objs s q) (objs s r)" using False by (auto simp: has_equal_def list_ex_iff)
    then have d: "distinct (acc @ [r])" "apart s (set (acc @ [r]))"
      using Cons.prems proc_eq_refl proc_eq_sym by (auto simp: apart_def)
    have "has_equal s (acc @ [r]) r" using proc_eq_refl by (simp add: has_equal_def)
    with Cons.IH [OF run d] Cons.prems(4) mono [of "acc @ [r]" r out] show ?thesis by auto
  qed
qed simp

lemma proc_set_ok:
  assumes "\<forall>r \<in> set procs. r < g_next s"
  shows "distinct (proc_set s procs)" "apart s (set (proc_set s procs))" "set (proc_set s procs) \<subseteq> set procs"
    "\<forall>r \<in> set procs. has_equal s (proc_set s procs) r"
  using proc_set_step [of s procs "[]" "proc_set s procs"] assms by (auto simp: proc_set_def apart_def)

section \<open>Where the processes go\<close>

lemma check_gone_result:
  assumes run: "check_gone cp ck callback r x gone s = Some (Inr gone', t)" and cb: "callback_ok callback"
    and "apart s A" "set (map fst gone) \<subseteq> A" "r \<in> A" "r \<notin> set (map fst gone)"
  shows "wframe s t \<and> (gone' = gone \<or> (\<exists>code. gone' = gone @ [(r, code)]))"
proof -
  obtain z u where z: "process_wait cp ck r (Some x) s = Some (z, u)"
    and t: "case z of Inl e \<Rightarrow> gone' = gone | Inr code \<Rightarrow> note_gone callback r code gone u = (Inr gone', t)"
    using run by (auto simp: check_gone_def split: option.splits sum.splits if_splits)
  have "gone' = gone \<or> (\<exists>code. gone' = gone @ [(r, code)])"
  proof (cases z)
    case (Inl e)
    then show ?thesis using t by simp
  next
    case (Inr code)
    then have n: "note_gone callback r code gone u = (Inr gone', t)" using t by simp
    then show ?thesis
      by (auto simp: note_gone_def bnd_Inr simp del: bnd_run split: if_splits option.splits)
  qed
  then show ?thesis using check_gone_frame [OF run cb] by blast
qed

text \<open>One pass moves some of the processes it looks at to \<open>gone\<close>.\<close>

definition moved :: "'z ustate_scheme \<Rightarrow> 'z ustate_scheme \<Rightarrow> nat list \<Rightarrow> gone \<Rightarrow> gone \<Rightarrow> bool" where
  "moved s t rs gone gone' \<longleftrightarrow> wframe s t
     \<and> (\<exists>new. gone' = gone @ new \<and> distinct (map fst new) \<and> set (map fst new) \<subseteq> set rs)"

lemma moved_none: "wframe s t \<Longrightarrow> moved s t rs gone gone"
  by (simp add: moved_def)

lemma moved_step:
  assumes "wframe s u" "gone1 = gone \<or> (\<exists>code. gone1 = gone @ [(r, code)])" "moved u t rs gone1 gone'" "r \<notin> set rs"
  shows "moved s t (r # rs) gone gone'"
proof -
  obtain new where new: "wframe u t" "gone' = gone1 @ new" "distinct (map fst new)" "set (map fst new) \<subseteq> set rs"
    using assms(3) by (auto simp: moved_def)
  have w: "wframe s t" using assms(1) new(1) by (rule wframe_trans)
  from assms(2) show ?thesis
  proof
    assume "gone1 = gone"
    then show ?thesis using new w by (auto simp: moved_def)
  next
    assume "\<exists>code. gone1 = gone @ [(r, code)]"
    then obtain code where "gone' = gone @ (r, code) # new" using new(2) by auto
    moreover have "distinct (map fst ((r, code) # new))" using new(3,4) assms(4) by auto
    moreover have "set (map fst ((r, code) # new)) \<subseteq> set (r # rs)" using new(4) by auto
    ultimately show ?thesis using w unfolding moved_def by blast
  qed
qed

lemma wait_each_moved:
  assumes "wait_each cp ck callback deadline n rs timeout gone s = Some (Inr (timeout', gone'), t)"
    and cb: "callback_ok callback" and "apart s A" "set (map fst gone) \<subseteq> A" "set rs \<subseteq> A"
    and "distinct rs" "set rs \<inter> set (map fst gone) = {}"
  shows "moved s t rs gone gone'"
  using assms
proof (induction rs arbitrary: timeout gone s)
  case Nil
  then show ?case by (simp add: moved_none wframe_refl)
next
  case (Cons r rs)
  obtain m where m: "fdiv 1 (fint (int n)) = Inr m" using Cons.prems(1) by (auto split: sum.splits)
  have r: "r \<in> A" "r \<notin> set (map fst gone)" "r \<notin> set rs" using Cons.prems by auto
  have go: "moved u t (r # rs) gone gone'"
    if c: "check_gone cp ck callback r y gone u = Some (Inr gone1, v)" and w: "wframe s u"
      and rest: "wait_each cp ck callback deadline n rs to gone1 v = Some (Inr (timeout', gone'), t)" for y u gone1 v to
  proof -
    have a: "apart u A" using w Cons.prems(3) by (rule apart_kept)
    from check_gone_result [OF c cb a Cons.prems(4) r(1,2)]
    have one: "wframe u v" "gone1 = gone \<or> (\<exists>code. gone1 = gone @ [(r, code)])" by simp_all
    have g: "set (map fst gone1) \<subseteq> insert r (set (map fst gone))" using one(2) by auto
    have "moved v t rs gone1 gone'"
    proof (rule Cons.IH [OF rest cb apart_kept [OF one(1) a]])
      show "set (map fst gone1) \<subseteq> A" using g Cons.prems(4) r(1) by blast
      show "set rs \<inter> set (map fst gone1) = {}" using g Cons.prems(7) r(3) by auto
      show "set rs \<subseteq> A" "distinct rs" using Cons.prems(5,6) by simp_all
    qed
    from moved_step [OF one this r(3)] show ?thesis .
  qed
  show ?case
  proof (cases timeout)
    case None
    then obtain gone1 v where "check_gone cp ck callback r m gone s = Some (Inr gone1, v)"
      "wait_each cp ck callback deadline n rs None gone1 v = Some (Inr (timeout', gone'), t)"
      using Cons.prems(1) m by (auto split: option.splits sum.splits)
    from go [OF this(1) wframe_refl this(2)] show ?thesis .
  next
    case (Some x)
    let ?u = "s\<lparr>hist := SNow # hist s\<rparr>"
    have mono: "monotonic s = (Inr (os_now (sys_os s) (hist s)), ?u)" by (simp add: monotonic_def)
    have w: "wframe s ?u" by (simp add: wframe_def)
    consider "gone' = gone" "t = ?u" | y gone1 v to where "check_gone cp ck callback r y gone ?u = Some (Inr gone1, v)"
        "wait_each cp ck callback deadline n rs to gone1 v = Some (Inr (timeout', gone'), t)"
      using Cons.prems(1) m Some mono by (auto simp: Let_def split: option.splits sum.splits if_splits)
    then show ?thesis
    proof cases
      case 1
      then show ?thesis using moved_none [OF w] by simp
    next
      case 2
      from go [OF 2(1) w 2(2)] w show ?thesis unfolding moved_def by (blast intro: wframe_trans)
    qed
  qed
qed

text \<open>\<open>A\<close> is divided into the processes that are gone and those that are alive.\<close>

definition divided :: "'z ustate_scheme \<Rightarrow> nat set \<Rightarrow> gone \<Rightarrow> nat list \<Rightarrow> bool" where
  "divided s A gone alive \<longleftrightarrow> apart s A \<and> distinct (map fst gone @ alive)
     \<and> set (map fst gone) \<union> set alive = A"

lemma divided_moved:
  assumes d: "divided s A gone alive" and m: "moved s t alive gone gone'"
  shows "divided t A gone' (still_alive t alive gone')"
proof -
  obtain new where new: "wframe s t" "gone' = gone @ new" "distinct (map fst new)" "set (map fst new) \<subseteq> set alive"
    using m by (auto simp: moved_def)
  have a: "apart t A" using apart_kept [OF new(1)] d by (simp add: divided_def)
  have sub: "set (map fst gone') \<subseteq> A" "set alive \<subseteq> A" using d new(2,4) by (auto simp: divided_def)
  have alive: "still_alive t alive gone' = filter (\<lambda>r. r \<notin> set (map fst gone')) alive"
    using still_alive_apart [OF a sub] .
  have dist: "distinct (map fst gone)" "distinct alive" "set (map fst gone) \<inter> set alive = {}"
    "set (map fst gone) \<union> set alive = A" using d by (simp_all add: divided_def)
  have "distinct (map fst gone')" using dist(1,3) new(2-4) by auto
  then have "distinct (map fst gone' @ still_alive t alive gone')" using dist(2) by (auto simp: alive)
  moreover have "set (map fst gone') \<union> set (still_alive t alive gone') = A"
    unfolding alive using sub(1) dist(4) new(2) by auto
  ultimately show ?thesis using a by (simp add: divided_def)
qed

lemma wait_rounds_divided:
  assumes ret: "wait_rounds cp ck callback deadline timeout alive gone s = Some (Inr (alive', gone'), t)"
    and cb: "callback_ok callback" and "divided s A gone alive"
  shows "wframe s t \<and> divided t A gone' alive'"
proof -
  have "callback_ok callback \<and> divided s A gone alive
      \<longrightarrow> (\<forall>al go u. (Inr (alive', gone'), t) = (Inr (al, go) :: exn + _, u) \<longrightarrow> wframe s u \<and> divided u A go al)"
  proof (rule wait_rounds.raw_induct [where P = "\<lambda>cp ck callback deadline timeout alive gone s q.
      callback_ok callback \<and> divided s A gone alive
      \<longrightarrow> (\<forall>al go u. q = (Inr (al, go), u) \<longrightarrow> wframe s u \<and> divided u A go al)", OF _ ret], intro impI allI)
    fix f cp ck callback deadline timeout alive gone q al go and s u :: "'a ustate_scheme"
    assume IH: "\<And>cp ck callback deadline timeout alive gone s q.
        f cp ck callback deadline timeout alive gone s = Some q \<Longrightarrow> callback_ok callback \<and> divided s A gone alive
        \<longrightarrow> (\<forall>al go u. q = (Inr (al, go), u) \<longrightarrow> wframe s u \<and> divided u A go al)"
      and eq: "(if alive = [] \<or> (case timeout of None \<Rightarrow> False | Some x \<Rightarrow> x \<le> 0)
         then Some (Inr (alive, gone), s)
         else case wait_each cp ck callback deadline (length alive) alive timeout gone s of
             None \<Rightarrow> None
           | Some (Inl e, t) \<Rightarrow> Some (Inl e, t)
           | Some (Inr (timeout', gone'), t) \<Rightarrow>
               f cp ck callback deadline timeout' (still_alive t alive gone') gone' t) = Some q"
      and pre: "callback_ok callback \<and> divided s A gone alive" and q: "q = (Inr (al, go), u)"
    show "wframe s u \<and> divided u A go al"
    proof (cases "alive = [] \<or> (case timeout of None \<Rightarrow> False | Some x \<Rightarrow> x \<le> 0)")
      case True
      then show ?thesis using eq q pre by (auto simp: wframe_refl)
    next
      case False
      then obtain timeout' gone1 v where
        each: "wait_each cp ck callback deadline (length alive) alive timeout gone s = Some (Inr (timeout', gone1), v)"
        and rec: "f cp ck callback deadline timeout' (still_alive v alive gone1) gone1 v = Some q"
        using eq q by (auto split: option.splits sum.splits)
      have m: "moved s v alive gone gone1"
        using pre by (intro wait_each_moved [OF each, of A]) (auto simp: divided_def)
      have "divided v A gone1 (still_alive v alive gone1)" by (rule divided_moved [OF conjunct2 [OF pre] m])
      moreover have "wframe s v" using m by (simp add: moved_def)
      ultimately have "divided v A gone1 (still_alive v alive gone1)" "wframe s v" .
      with IH [OF rec] pre q show ?thesis by (blast intro: wframe_trans)
    qed
  qed
  then show ?thesis using assms(2,3) by blast
qed

lemma wait_last_moved:
  assumes "wait_last cp ck callback rs gone s = Some (Inr gone', t)"
    and cb: "callback_ok callback" and "apart s A" "set (map fst gone) \<subseteq> A" "set rs \<subseteq> A"
    and "distinct rs" "set rs \<inter> set (map fst gone) = {}"
  shows "moved s t rs gone gone'"
  using assms
proof (induction rs arbitrary: gone s)
  case Nil
  then show ?case by (simp add: moved_none wframe_refl)
next
  case (Cons r rs)
  obtain gone1 v where c: "check_gone cp ck callback r 0 gone s = Some (Inr gone1, v)"
    and rest: "wait_last cp ck callback rs gone1 v = Some (Inr gone', t)"
    using Cons.prems(1) by (auto split: option.splits sum.splits)
  have r: "r \<in> A" "r \<notin> set (map fst gone)" "r \<notin> set rs" using Cons.prems by auto
  from check_gone_result [OF c cb Cons.prems(3,4) r(1,2)]
  have one: "wframe s v" "gone1 = gone \<or> (\<exists>code. gone1 = gone @ [(r, code)])" by simp_all
  then have g: "set (map fst gone1) \<subseteq> insert r (set (map fst gone))" by auto
  have "moved v t rs gone1 gone'"
  proof (rule Cons.IH [OF rest cb apart_kept [OF one(1) Cons.prems(3)]])
    show "set (map fst gone1) \<subseteq> A" using g Cons.prems(4) r(1) by blast
    show "set rs \<inter> set (map fst gone1) = {}" using g Cons.prems(7) r(3) by auto
    show "set rs \<subseteq> A" "distinct rs" using Cons.prems(5,6) by simp_all
  qed
  from moved_step [OF one this r(3)] show ?case .
qed

text \<open>
  C10: the two lists \<open>wait_procs\<close> returns divide the processes it was given: each one, or the
  one of several equal objects that stands for them, is in exactly one of the lists, once, and
  nothing else is in them.
\<close>

theorem wait_procs_divides:
  assumes "wait_procs cp ck procs timeout callback s = Some (Inr (gone, alive), t)"
    and "\<forall>r \<in> set procs. r < g_next s" and "callback_ok callback"
  shows "distinct (map fst gone @ alive) \<and> set (map fst gone @ alive) \<subseteq> set procs
     \<and> (\<forall>r \<in> set procs. \<exists>q \<in> set (map fst gone @ alive). proc_eq (objs t q) (objs t r))
     \<and> (\<forall>q \<in> set (map fst gone). \<forall>a \<in> set alive. \<not> proc_eq (objs t q) (objs t a))"
proof -
  let ?P = "proc_set s procs"
  note P = proc_set_ok [OF assms(2)]
  obtain deadline u alive1 gone1 v where
    u: "(case timeout of None \<Rightarrow> ret 0 | Some x \<Rightarrow> bnd monotonic (\<lambda>now. ret (fadd now x))) s = (Inr deadline, u)"
    and rounds: "wait_rounds cp ck callback deadline timeout ?P [] u = Some (Inr (alive1, gone1), v)"
    and last: "wait_last cp ck callback alive1 gone1 v = Some (Inr gone, t)"
    and alive: "alive = still_alive t alive1 gone"
    using assms(1) unfolding wait_procs_def
    by (auto split: if_splits option.splits sum.splits prod.splits)
  have su: "wframe s u" using u by (cases timeout) (auto simp: monotonic_def wframe_def)
  have "divided u (set ?P) [] ?P" using P(1) apart_kept [OF su P(2)] by (simp add: divided_def)
  with wait_rounds_divided [OF rounds assms(3)] have uv: "wframe u v" "divided v (set ?P) gone1 alive1" by blast+
  have m: "moved v t alive1 gone1 gone"
    using uv(2) by (intro wait_last_moved [OF last assms(3), of "set ?P"]) (auto simp: divided_def)
  have d: "divided t (set ?P) gone alive" unfolding alive using uv(2) m by (rule divided_moved)
  have st: "wframe s t" using su uv(1) m by (auto simp: moved_def intro: wframe_trans)
  have all: "set (map fst gone @ alive) = set ?P" using d by (simp add: divided_def)
  have "\<exists>q \<in> set (map fst gone @ alive). proc_eq (objs t q) (objs t r)" if r: "r \<in> set procs" for r
  proof -
    obtain q where q: "q \<in> set ?P" "proc_eq (objs s q) (objs s r)"
      using bspec [OF P(4) r] unfolding has_equal_def list_ex_iff by (rule bexE)
    have "q < g_next s" "r < g_next s" using q(1) P(3) assms(2) that by blast+
    from proc_eq_kept [OF st this] q(2) have "proc_eq (objs t q) (objs t r)" by simp
    then show ?thesis unfolding all using q(1) by blast
  qed
  moreover have "\<not> proc_eq (objs t q) (objs t a)" if "q \<in> set (map fst gone)" "a \<in> set alive" for q a
  proof -
    have "q \<in> set ?P" "a \<in> set ?P" "q \<noteq> a" using that d by (auto simp: divided_def)
    then show ?thesis using d unfolding divided_def apart_def by blast
  qed
  moreover have "distinct (map fst gone @ alive)" using d by (simp add: divided_def)
  ultimately show ?thesis using P(3) unfolding all by blast
qed

text \<open>Three objects for two processes that have been waited for.\<close>

definition waited_state :: ustate where
  "waited_state = demo_state\<lparr>g_next := 3, objs :=
     \<lambda>r. (blank_proc (if r < 2 then 7 else 8) (null_lproc 7))\<lparr>p_exitcode := Some (Some 3)\<rparr>\<rparr>"

lemma waited_wait:
  "process_wait cp ck r (Some x) waited_state = (if x < 0 then Some (Inl ValueError, waited_state)
     else Some (Inr (Some 3), waited_state))"
  by (simp add: process_wait_def waited_state_def blank_proc_def)

lemma waited_equal: "proc_eq (objs waited_state a) (objs waited_state b) \<longleftrightarrow> (a < 2 \<longleftrightarrow> b < 2)"
  by (simp add: waited_state_def proc_eq_def cmp_idents_def blank_proc_def ctime_true_def)

lemma waited_check:
  "0 \<le> x \<Longrightarrow> check_gone cp ck None r x gone waited_state =
     Some (Inr (if has_equal waited_state (map fst gone) r then gone else gone @ [(r, Some 3)]), waited_state)"
  by (simp add: check_gone_def waited_wait note_gone_def)

lemma waited_procs:
  "wait_procs cp ck [0, 1, 2] None None waited_state = Some (Inr ([(0, Some 3), (2, Some 3)], []), waited_state)"
proof -
  have set: "proc_set waited_state [0, Suc 0, 2] = [0, 2]" by (simp add: proc_set_def has_equal_def waited_equal)
  have m: "fdiv 1 (fint 2) = Inr (fl (1 / fl 2))" "0 \<le> fl (1 / fl 2)"
    using fl_of_int [of 2] fl_mono [of 0 "1 / 2"] by (simp_all add: fdiv_def fint_def)
  have "wait_rounds cp ck None 0 None [0, 2] [] waited_state
      = Some (Inr ([], [(0, Some 3), (2, Some 3)]), waited_state)"
    by (subst wait_rounds.simps, simp add: m waited_check has_equal_def waited_equal)
       (subst wait_rounds.simps, simp add: still_alive_def has_equal_def waited_equal)
  then show ?thesis by (simp add: wait_procs_def set still_alive_def)
qed

theorem wait_procs_divides_witness:
  "\<exists>gone alive t. wait_procs True False [0, 1, 2] None None waited_state = Some (Inr (gone, alive), t)
     \<and> distinct (map fst gone @ alive)"
  using wait_procs_divides [OF waited_procs] waited_procs
  by (simp add: waited_state_def callback_ok_def)

section \<open>A wait with a timeout comes back\<close>

lemma wait_pid_some: "0 \<le> x \<Longrightarrow> timed_waits (sys_os s) \<Longrightarrow> wait_pid cp ck pid (Some x) s \<noteq> None"
  using wp.wait_returns [of pid x s cp ck] by (cases "0 < pid") (simp_all add: wait_pid_def)

lemma process_wait_returns:
  assumes "0 \<le> x" "timed_waits (sys_os s)"
  shows "process_wait cp ck r (Some x) s \<noteq> None"
proof -
  let ?u = "s\<lparr>lp := p_impl (objs s r)\<rparr>"
  have "wait_pid cp ck (l_pid (lp ?u)) (Some x) ?u \<noteq> None"
    using assms by (intro wait_pid_some) simp_all
  then have "impl_d r (proc_wait cp ck (Some x)) s \<noteq> None"
    by (auto simp: impl_d_def proc_wait_def wrap_exceptions_d_def split: option.splits sum.splits)
  then show ?thesis by (auto simp: process_wait_def split: option.splits sum.splits)
qed

lemma check_gone_returns:
  assumes "0 \<le> x" "timed_waits (sys_os s)"
  shows "check_gone cp ck callback r x gone s \<noteq> None"
  using process_wait_returns [OF assms] by (auto simp: check_gone_def split: option.splits sum.splits)

lemma wframe_os: "wframe s t \<Longrightarrow> sys_os t = sys_os s"
  and wframe_hist: "wframe s t \<Longrightarrow> length (hist s) \<le> length (hist t)"
  by (auto simp: wframe_def)

text \<open>
  The pass returns, and either it has used up the timeout, or the clock had not reached the
  deadline and at least one more call has been made.
\<close>

lemma wait_each_returns:
  assumes "timed_waits (sys_os s)" and cb: "callback_ok callback"
  shows "wait_each cp ck callback deadline n rs (Some x) gone s \<noteq> None"
  using assms(1)
proof (induction rs arbitrary: x gone s)
  case Nil
  then show ?case by simp
next
  case (Cons r rs)
  let ?u = "s\<lparr>hist := SNow # hist s\<rparr>"
  have mono: "monotonic s = (Inr (os_now (sys_os s) (hist s)), ?u)" by (simp add: monotonic_def)
  have c: "check_gone cp ck callback r y gone ?u \<noteq> None" if "0 < y" for y
    using that Cons.prems by (intro check_gone_returns) simp_all
  have rest: "wait_each cp ck callback deadline n rs (Some y) gone' v \<noteq> None"
    if "check_gone cp ck callback r z gone ?u = Some (Inr gone', v)" for y z gone' v
    using wframe_os [OF check_gone_frame [OF that cb]] Cons.prems by (intro Cons.IH) simp
  show ?case
  proof (cases "fdiv 1 (fint (int n))")
    case (Inl e)
    then show ?thesis by simp
  next
    case (Inr m)
    let ?l = "min (fsub deadline (os_now (sys_os s) (hist s))) m"
    show ?thesis
    proof (cases "?l \<le> 0")
      case True
      then show ?thesis using Inr mono by (simp add: Let_def)
    next
      case False
      then obtain y v where y: "check_gone cp ck callback r ?l gone ?u = Some (y, v)" using c [of ?l] by fastforce
      show ?thesis
      proof (cases y)
        case (Inl e)
        then show ?thesis using Inr mono False y by (simp add: Let_def)
      next
        case (Inr gone')
        then show ?thesis using rest y \<open>fdiv 1 (fint (int n)) = Inr m\<close> mono False by (simp add: Let_def)
      qed
    qed
  qed
qed

lemma fsub_neg: "a \<le> b \<Longrightarrow> fsub a b \<le> 0"
  using fl_mono [of "a - b" 0] by (simp add: fsub_def)

lemma wait_each_some:
  "wait_each cp ck callback deadline n rs (Some x) gone s = Some (Inr (to, gone'), t) \<Longrightarrow> to \<noteq> None"
  by (induction rs arbitrary: x gone s)
    (auto simp: Let_def split: sum.splits prod.splits option.splits if_splits)

lemma wait_each_frame:
  assumes "wait_each cp ck callback deadline n rs timeout gone s = Some (z, t)" and cb: "callback_ok callback"
  shows "wframe s t"
  using assms(1)
proof (induction rs arbitrary: timeout gone s)
  case Nil
  then show ?case by (simp add: wframe_refl)
next
  case (Cons r rs)
  let ?u = "s\<lparr>hist := SNow # hist s\<rparr>"
  have w: "wframe s ?u" by (simp add: wframe_def)
  have one: "wframe u v" if "check_gone cp ck callback r y gone u = Some (q, v)" for y q u v
    using that cb by (rule check_gone_frame)
  have both: "wframe u t" if "check_gone cp ck callback r y gone u = Some (Inr gone1, v)"
    "wait_each cp ck callback deadline n rs to gone1 v = Some (z, t)" for y u gone1 v to
    using one [OF that(1)] Cons.IH [OF that(2)] by (rule wframe_trans)
  have mono: "monotonic s = (Inr (os_now (sys_os s) (hist s)), ?u)" by (simp add: monotonic_def)
  consider "s = t" | "?u = t" | y q where "check_gone cp ck callback r y gone s = Some (q, t)"
    | y q where "check_gone cp ck callback r y gone ?u = Some (q, t)"
    | y gone1 v to where "check_gone cp ck callback r y gone s = Some (Inr gone1, v)"
        "wait_each cp ck callback deadline n rs to gone1 v = Some (z, t)"
    | y gone1 v to where "check_gone cp ck callback r y gone ?u = Some (Inr gone1, v)"
        "wait_each cp ck callback deadline n rs to gone1 v = Some (z, t)"
    using Cons.prems mono by (auto simp: Let_def split: option.splits sum.splits if_splits)
  then show ?case
    by cases (use wframe_refl w one both wframe_trans [OF w] in \<open>blast+\<close>)
qed

lemma wait_each_progress:
  assumes run: "wait_each cp ck callback deadline n (r # rs) (Some x) gone s = Some (Inr (to, gone'), t)"
    and cb: "callback_ok callback"
    and late: "\<forall>h. N \<le> length h \<longrightarrow> deadline \<le> os_now (sys_os s) h"
  obtains y where "to = Some y" "y \<le> 0"
  | y where "to = Some y" "length (hist s) < N" "length (hist s) < length (hist t)"
proof -
  let ?now = "os_now (sys_os s) (hist s)" and ?u = "s\<lparr>hist := SNow # hist s\<rparr>"
  have mono: "monotonic s = (Inr ?now, ?u)" by (simp add: monotonic_def)
  obtain m where m: "fdiv 1 (fint (int n)) = Inr m" using run by (auto split: sum.splits)
  let ?l = "min (fsub deadline ?now) m"
  obtain y where y: "to = Some y" using wait_each_some [OF run] by auto
  show thesis
  proof (cases "?l \<le> 0")
    case True
    then have "to = Some ?l" using run m mono by (simp add: Let_def)
    then show thesis using True by (rule that(1))
  next
    case False
    then obtain gone1 v where c: "check_gone cp ck callback r ?l gone ?u = Some (Inr gone1, v)"
      and rest: "wait_each cp ck callback deadline n rs (Some ?l) gone1 v = Some (Inr (to, gone'), t)"
      using run m mono by (auto simp: Let_def split: option.splits sum.splits)
    have "\<not> deadline \<le> ?now" using False fsub_neg by fastforce
    then have "length (hist s) < N" using late by (meson not_le_imp_less)
    moreover have "length (hist s) < length (hist t)"
      using wframe_hist [OF check_gone_frame [OF c cb]] wframe_hist [OF wait_each_frame [OF rest cb]] by simp
    ultimately show thesis using that(2) y by blast
  qed
qed

lemma wait_rounds_returns:
  assumes "timed_waits (sys_os s)" and cb: "callback_ok callback"
    and "\<forall>h. N \<le> length h \<longrightarrow> deadline \<le> os_now (sys_os s) h"
  shows "wait_rounds cp ck callback deadline (Some x) alive gone s \<noteq> None"
  using assms(1,3)
proof (induction "N - length (hist s)" arbitrary: x alive gone s rule: less_induct)
  case less
  show ?case
  proof (cases "alive = [] \<or> x \<le> 0")
    case True
    then show ?thesis by (subst wait_rounds.simps) auto
  next
    case False
    then obtain r rs where alive: "alive = r # rs" by (cases alive) auto
    obtain z t where each: "wait_each cp ck callback deadline (length alive) alive (Some x) gone s = Some (z, t)"
      using wait_each_returns [OF less.prems(1) cb] by fastforce
    show ?thesis
    proof (cases z)
      case (Inl e)
      then show ?thesis using False each by (subst wait_rounds.simps) simp
    next
      case (Inr p)
      obtain to gone' where p: "p = (to, gone')" by (cases p)
      have run: "wait_each cp ck callback deadline (length alive) (r # rs) (Some x) gone s = Some (Inr (to, gone'), t)"
        using each unfolding alive Inr p .
      have os: "sys_os t = sys_os s" using wframe_os [OF wait_each_frame [OF run cb]] .
      have "wait_rounds cp ck callback deadline to (still_alive t alive gone') gone' t \<noteq> None"
      proof (rule wait_each_progress [OF run cb less.prems(2)])
        fix y assume "to = Some y" "y \<le> 0"
        then show ?thesis by (subst wait_rounds.simps) simp
      next
        fix y assume y: "to = Some y" "length (hist s) < N" "length (hist s) < length (hist t)"
        then have "N - length (hist t) < N - length (hist s)" by linarith
        then show ?thesis unfolding y(1) using less.prems os by (intro less.hyps) simp_all
      qed
      then show ?thesis using False each Inr p by (subst wait_rounds.simps) simp
    qed
  qed
qed

lemma wait_rounds_frame:
  assumes ret: "wait_rounds cp ck callback deadline timeout alive gone s = Some (z, t)" and cb: "callback_ok callback"
  shows "wframe s t"
proof -
  have "callback_ok callback \<longrightarrow> wframe s (snd (z, t))"
  proof (rule wait_rounds.raw_induct [where P = "\<lambda>cp ck callback deadline timeout alive gone s q.
      callback_ok callback \<longrightarrow> wframe s (snd q)", OF _ ret], intro impI)
    fix f cp ck callback deadline timeout alive gone q and s :: "'a ustate_scheme"
    assume IH: "\<And>cp ck callback deadline timeout alive gone s q.
        f cp ck callback deadline timeout alive gone s = Some q \<Longrightarrow> callback_ok callback \<longrightarrow> wframe s (snd q)"
      and eq: "(if alive = [] \<or> (case timeout of None \<Rightarrow> False | Some x \<Rightarrow> x \<le> 0)
         then Some (Inr (alive, gone), s)
         else case wait_each cp ck callback deadline (length alive) alive timeout gone s of
             None \<Rightarrow> None
           | Some (Inl e, t) \<Rightarrow> Some (Inl e, t)
           | Some (Inr (timeout', gone'), t) \<Rightarrow>
               f cp ck callback deadline timeout' (still_alive t alive gone') gone' t) = Some q"
      and pre: "callback_ok callback"
    show "wframe s (snd q)"
    proof (cases "alive = [] \<or> (case timeout of None \<Rightarrow> False | Some x \<Rightarrow> x \<le> 0)")
      case True
      then show ?thesis using eq by (auto simp: wframe_refl)
    next
      case False
      then obtain y v where each: "wait_each cp ck callback deadline (length alive) alive timeout gone s = Some (y, v)"
        using eq by (auto split: option.splits)
      have sv: "wframe s v" using wait_each_frame [OF each pre] .
      show ?thesis
      proof (cases y)
        case (Inl e)
        then show ?thesis using eq False each sv by auto
      next
        case (Inr p)
        obtain timeout' gone' where p: "p = (timeout', gone')" by (cases p)
        have "f cp ck callback deadline timeout' (still_alive v alive gone') gone' v = Some q"
          using eq False each Inr p by auto
        from IH [OF this] pre sv show ?thesis by (blast intro: wframe_trans)
      qed
    qed
  qed
  then show ?thesis using cb by simp
qed

lemma wait_last_frame:
  assumes "wait_last cp ck callback rs gone s = Some (z, t)" and cb: "callback_ok callback"
  shows "wframe s t"
  using assms(1)
proof (induction rs arbitrary: gone s)
  case Nil
  then show ?case by (simp add: wframe_refl)
next
  case (Cons r rs)
  obtain y v where c: "check_gone cp ck callback r 0 gone s = Some (y, v)"
    using Cons.prems by (auto split: option.splits)
  have "wframe v t" using Cons c by (auto simp: wframe_refl split: sum.splits)
  with check_gone_frame [OF c cb] show ?case by (rule wframe_trans)
qed

lemma wait_last_returns:
  assumes "timed_waits (sys_os s)" and cb: "callback_ok callback"
  shows "wait_last cp ck callback rs gone s \<noteq> None"
  using assms(1)
proof (induction rs arbitrary: gone s)
  case Nil
  then show ?case by simp
next
  case (Cons r rs)
  obtain z t where c: "check_gone cp ck callback r 0 gone s = Some (z, t)"
    using check_gone_returns [of 0 s] Cons.prems by fastforce
  have "wait_last cp ck callback rs gone' t \<noteq> None" for gone'
    using wframe_os [OF check_gone_frame [OF c cb]] Cons.prems by (intro Cons.IH) simp
  then show ?case using c by (auto split: sum.splits)
qed

text \<open>
  C11: with a timeout, on a system whose clock keeps advancing and whose calls block for ever only
  where they are allowed to (as in the property of \<open>wait_pid\<close>), and with a callback that keeps the
  objects and returns, \<open>wait_procs\<close> comes back, whatever the processes do and however often
  they have to be looked at.
\<close>

theorem wait_procs_returns:
  assumes "timed_waits (sys_os s)" and "callback_ok callback"
  shows "\<exists>z t. wait_procs cp ck procs (Some x) callback s = Some (z, t) \<and> sys_os t = sys_os s
    \<and> (\<exists>d. hist t = d @ hist s)"
proof (cases "x < 0")
  case True
  then show ?thesis by (simp add: wait_procs_def)
next
  case False
  let ?u = "s\<lparr>hist := SNow # hist s\<rparr>" and ?d = "fadd (os_now (sys_os s) (hist s)) x"
  have mono: "monotonic s = (Inr (os_now (sys_os s) (hist s)), ?u)" by (simp add: monotonic_def)
  have su: "wframe s ?u" by (simp add: wframe_def)
  obtain n where "\<forall>h. n \<le> length h \<longrightarrow> ?d \<le> os_now (sys_os ?u) h"
    using assms(1) unfolding timed_waits_def clock_advances_def by auto
  then have "wait_rounds cp ck callback ?d (Some x) (proc_set s procs) [] ?u \<noteq> None"
    using assms by (intro wait_rounds_returns) simp_all
  then obtain z v where r: "wait_rounds cp ck callback ?d (Some x) (proc_set s procs) [] ?u = Some (z, v)"
    by fastforce
  have uv: "wframe ?u v" using wait_rounds_frame [OF r assms(2)] .
  show ?thesis
  proof (cases z)
    case (Inl e)
    then have "wait_procs cp ck procs (Some x) callback s = Some (Inl e, v)"
      using False mono r by (simp add: wait_procs_def bnd_Inr)
    then show ?thesis using wframe_trans [OF su uv] by (auto simp: wframe_def)
  next
    case (Inr p)
    obtain alive gone where p: "p = (alive, gone)" by (cases p)
    obtain y w where l: "wait_last cp ck callback alive gone v = Some (y, w)"
      using wait_last_returns [of v callback] wframe_os [OF uv] assms by fastforce
    have vw: "wframe v w" using wait_last_frame [OF l assms(2)] .
    have "\<exists>q. wait_procs cp ck procs (Some x) callback s = Some (q, w)"
      using False mono r l Inr p by (cases y) (simp_all add: wait_procs_def)
    then show ?thesis using wframe_trans [OF wframe_trans [OF su uv] vw] by (auto simp: wframe_def)
  qed
qed

theorem wait_procs_returns_witness:
  "\<exists>z t. wait_procs True False [0] (Some (3 / 2)) None
      (tree_state\<lparr>sys_os := null_os\<rparr>) = Some (z, t)"
  using wait_procs_returns [of "tree_state\<lparr>sys_os := null_os\<rparr>" None True False "[0]" "3 / 2"] timed_null
  by (auto simp: callback_ok_def)

section \<open>A wait is remembered\<close>

lemma process_wait_first:
  assumes "process_wait cp ck r timeout s = Some (Inr code, t)" and "p_exitcode (objs s r) = None"
  obtains u where
    "wait_pid cp ck (l_pid (p_impl (objs s r))) timeout (s\<lparr>lp := p_impl (objs s r)\<rparr>) = Some (Inr code, u)"
    and "p_pid (objs s r) \<noteq> 0" and "hist t = hist u"
    and "p_pid (objs t r) = p_pid (objs s r)" and "p_exitcode (objs t r) = Some code"
proof -
  let ?l = "s\<lparr>lp := p_impl (objs s r)\<rparr>"
  have pid: "p_pid (objs s r) \<noteq> 0" using assms(1) by (auto simp: process_wait_def)
  obtain v where v: "impl_d r (proc_wait cp ck timeout) s = Some (Inr code, v)"
    and t: "t = upd r (\<lambda>p. p\<lparr>p_exitcode := Some code\<rparr>) v"
    using assms by (auto simp: process_wait_def split: if_splits option.splits sum.splits)
  obtain w where w: "proc_wait cp ck timeout ?l = Some (Inr code, w)" "v = upd r (\<lambda>p. p\<lparr>p_impl := lp w\<rparr>) w"
    using v by (auto simp: impl_d_def split: option.splits)
  obtain y u where y: "wait_pid cp ck (l_pid (lp ?l)) timeout ?l = Some (y, u)"
    and c: "case y of Inl e \<Rightarrow> translate (l_pid (lp ?l)) (l_name (lp ?l)) e u = (Inr code, w) | Inr c \<Rightarrow> c = code \<and> w = u"
    using w(1) by (auto simp: proc_wait_def wrap_exceptions_d_def split: option.splits sum.splits)
  have yu: "y = Inr code \<and> w = u"
  proof (cases y)
    case (Inl e)
    then have "translate (l_pid (lp ?l)) (l_name (lp ?l)) e u = (Inr code, w)" using c by simp
    from translate_cases [OF this] show ?thesis by simp
  next
    case (Inr c')
    then show ?thesis using c by simp
  qed
  from proc_wait_frame [OF w(1)] have "lsys.more w = lsys.more ?l" by simp
  from lsys_more_fields [OF this] have "objs w = objs s" by simp
  then show thesis using y yu pid t w(2) by (intro that [of u]) simp_all
qed

text \<open>
  C12: the first \<open>Process.wait\<close> that returns fixes the answer.  It is what that wait saw during
  its calls: the exit code of a status the process left, or \<open>None\<close> after the pid was found not
  to exist.
  From then on every wait with a valid timeout gives the same answer at once, without a system
  call.
\<close>

theorem process_wait_remembers:
  assumes "process_wait cp ck r timeout s = Some (Inr code, t)" and "p_exitcode (objs s r) = None"
    and "\<forall>x. timeout' = Some x \<longrightarrow> 0 \<le> x"
  shows "process_wait cp' ck' r timeout' t = Some (Inr code, t)
    \<and> (case code of
         None \<Rightarrow> gone_seen (sys_os s) (hist s) (hist t) (l_pid (p_impl (objs s r)))
       | Some c \<Rightarrow> - 126 \<le> c \<and> c \<le> 255 \<and> exit_seen (sys_os s) (hist s) (hist t) (l_pid (p_impl (objs s r))) c)"
proof -
  let ?pid = "l_pid (p_impl (objs s r))" and ?l = "s\<lparr>lp := p_impl (objs s r)\<rparr>"
  obtain u where u: "wait_pid cp ck ?pid timeout ?l = Some (Inr code, u)"
    "p_pid (objs s r) \<noteq> 0" "hist t = hist u" "p_pid (objs t r) = p_pid (objs s r)" "p_exitcode (objs t r) = Some code"
    by (rule process_wait_first [OF assms(1,2)])
  have "0 < ?pid" using u(1) by (auto simp: wait_pid_def split: if_splits)
  from wp.wait_outcome [OF this u(1)] have out: "wait_outcome ?pid timeout ?l (Inr code, u)" .
  have "case code of None \<Rightarrow> gone_seen (sys_os s) (hist s) (hist t) ?pid
      | Some c \<Rightarrow> - 126 \<le> c \<and> c \<le> 255 \<and> exit_seen (sys_os s) (hist s) (hist t) ?pid c"
  proof (cases code)
    case None
    then show ?thesis using out u(3) by (simp add: wait_outcome_def)
  next
    case (Some c)
    then have "exit_seen (sys_os s) (hist s) (hist t) ?pid c" using out u(3) by (simp add: wait_outcome_def)
    then show ?thesis using exit_seen_range [of "sys_os s" "hist s" "hist t" ?pid c] Some by simp
  qed
  moreover have "process_wait cp' ck' r timeout' t = Some (Inr code, t)"
    using u(2,4,5) assms(3) by (auto simp: process_wait_def split: option.splits)
  ultimately show ?thesis by blast
qed

text \<open>A child that has exited with the code 3.\<close>

definition child_os :: os where
  "child_os = null_os\<lparr>os_waitpid := \<lambda>h pid f. Inr (pid, exited_status 3)\<rparr>"

definition child_state :: ustate where
  "child_state = demo_state\<lparr>sys_os := child_os, objs := \<lambda>_. blank_proc 7 (null_lproc 7)\<rparr>"

lemma child_wait: "\<exists>t. process_wait False False 0 None child_state = Some (Inr (Some 3), t)"
proof -
  have w: "wait_loop 7 None None 0 wait_interval s = Some (Inr (Some 3), s\<lparr>hist := SWaitpid 7 0 # hist s\<rparr>)"
    if "sys_os s = child_os" for s :: ustate
    using that by (subst wait_loop.simps)
      (simp add: waitpid_d_run waitpid_call_def child_os_def null_os_def status_defs exited_status_def)
  show ?thesis
    using w [of "child_state\<lparr>lp := null_lproc 7\<rparr>"]
    by (simp add: process_wait_def child_state_def blank_proc_def impl_d_def proc_wait_def wrap_exceptions_d_def
        null_lproc_def wait_pid_def wait_pid_posix_def)
qed

theorem process_wait_remembers_witness:
  "\<exists>t. process_wait False False 0 None child_state = Some (Inr (Some 3), t)
     \<and> process_wait True False 0 (Some 0) t = Some (Inr (Some 3), t)"
proof -
  obtain t where t: "process_wait False False 0 None child_state = Some (Inr (Some 3), t)" using child_wait by auto
  have "p_exitcode (objs child_state 0) = None" by (simp add: child_state_def blank_proc_def)
  from process_wait_remembers [OF t this, of "Some 0" True False] t show ?thesis by simp
qed

end
