(* ===== verification/Ext_Base.thy ===== *)
theory Ext_Base
  imports Posix_Files Posix_Wait
begin

text \<open>
  What the platform modules for Windows, macOS, the BSDs, SunOS and AIX share.  Nearly all
  their data comes from compiled functions of the module \<open>_psutil\<close>, which the field \<open>ext\<close>
  of the state stands for, one record of functions for each platform: as with \<open>os\<close>, what they
  answer depends on the calls made so far.  \<open>ext_const\<close> gives the numeric constants of
  \<open>_psutil\<close> by name.  \<open>xp\<close> is the \<open>Process\<close> object in use; \<open>x_cache\<close> is its \<open>_cache\<close>, with a
  slot for each memoized method, or missing.
\<close>

record 'c xproc =
  x_pid :: int
  x_name :: "string option"
  x_ppid :: "int option"
  x_procfs :: string
  x_cache :: "'c option"

record ('x, 'c) esys = psx +
  ext :: 'x
  ext_const :: "string \<Rightarrow> int"
  xp :: "'c xproc"

section \<open>Calling the extension\<close>

text \<open>\<open>ext_try\<close> for functions that look, \<open>ext_do\<close> for those that change the system.\<close>

definition ext_try ::
  "string \<Rightarrow> int list \<Rightarrow> string list \<Rightarrow> ('x \<Rightarrow> (exn + 'a) answer) \<Rightarrow> (('x, 'c, 'z) esys_scheme, 'a) py" where
  "ext_try fn is ss f = (\<lambda>s. (f (ext s) (hist s), s\<lparr>hist := SExt fn is ss # hist s\<rparr>))"

definition ext_do ::
  "string \<Rightarrow> int list \<Rightarrow> string list \<Rightarrow> ('x \<Rightarrow> (exn + 'a) answer) \<Rightarrow> (('x, 'c, 'z) esys_scheme, 'a) py" where
  "ext_do fn is ss f = (\<lambda>s. (f (ext s) (hist s), s\<lparr>hist := SExtSet fn is ss # hist s\<rparr>))"

lemma ext_try_run [simp, py_run]:
  "ext_try fn is ss f s = (f (ext s) (hist s), s\<lparr>hist := SExt fn is ss # hist s\<rparr>)"
  by (simp add: ext_try_def)

lemma ext_do_run [simp, py_run]:
  "ext_do fn is ss f s = (f (ext s) (hist s), s\<lparr>hist := SExtSet fn is ss # hist s\<rparr>)"
  by (simp add: ext_do_def)

definition me :: "('c xproc \<Rightarrow> 'a) \<Rightarrow> (('x, 'c, 'z) esys_scheme, 'a) py" where
  "me f = gets (\<lambda>s. f (xp s))"

lemma me_run [simp, py_run]: "me f s = (Inr (f (xp s)), s)"
  by (simp add: me_def)

text \<open>\<open>self.pid\<close>, \<open>self._name\<close> and \<open>self._ppid\<close>.\<close>

definition ident3 :: "(('x, 'c, 'z) esys_scheme, int \<times> string option \<times> int option) py" where
  "ident3 = me (\<lambda>p. (x_pid p, x_name p, x_ppid p))"

lemma ident3_run [simp, py_run]: "ident3 s = (Inr (x_pid (xp s), x_name (xp s), x_ppid (xp s)), s)"
  by (simp add: ident3_def)

section \<open>The memoized methods\<close>

definition x_has :: "('x, 'c, 'z) esys_scheme \<Rightarrow> bool" where
  "x_has s \<longleftrightarrow> x_cache (xp s) \<noteq> None"

definition x_look :: "('c \<Rightarrow> 'a option) \<Rightarrow> ('x, 'c, 'z) esys_scheme \<Rightarrow> 'a option" where
  "x_look sel s = Option.bind (x_cache (xp s)) sel"

definition x_store ::
  "('a \<Rightarrow> 'c \<Rightarrow> 'c) \<Rightarrow> 'a \<Rightarrow> ('x, 'c, 'z) esys_scheme \<Rightarrow> ('x, 'c, 'z) esys_scheme" where
  "x_store put r s = s\<lparr>xp := (xp s)\<lparr>x_cache := map_option (put r) (x_cache (xp s))\<rparr>\<rparr>"

text \<open>\<open>cache_activate\<close>, which starts from an empty \<open>_cache\<close>, and \<open>cache_deactivate\<close>.\<close>

definition x_on :: "'c \<Rightarrow> ('x, 'c, 'z) esys_scheme \<Rightarrow> ('x, 'c, 'z) esys_scheme" where
  "x_on blank s = s\<lparr>xp := (xp s)\<lparr>x_cache := Some blank\<rparr>\<rparr>"

definition x_off :: "('x, 'c, 'z) esys_scheme \<Rightarrow> ('x, 'c, 'z) esys_scheme" where
  "x_off s = s\<lparr>xp := (xp s)\<lparr>x_cache := None\<rparr>\<rparr>"

lemmas x_slot_defs = x_has_def x_look_def x_store_def x_on_def x_off_def

lemma x_slot:
  assumes "\<And>r c. sel (put r c) = Some r" and "sel blank = None"
  shows "memo_slot x_has (x_look sel) (x_store put) (x_on blank) x_off"
  by unfold_locales (auto simp: x_slot_defs assms)

text \<open>The attributes a new \<open>Process\<close> object of a platform module gets.\<close>

definition xproc_init :: "int \<Rightarrow> string \<Rightarrow> 'c xproc" where
  "xproc_init pid procfs = \<lparr>x_pid = pid, x_name = None, x_ppid = None, x_procfs = procfs, x_cache = None\<rparr>"

text \<open>
  A method of a new object \<open>Process(pid)\<close>, which is used for this one call; \<open>self\<close> is the same
  object as before afterwards.
\<close>

definition on_new :: "int \<Rightarrow> (('x, 'c, 'z) esys_scheme, 'a) py \<Rightarrow> (('x, 'c, 'z) esys_scheme, 'a) py" where
  "on_new pid m = (\<lambda>s. case m (s\<lparr>xp := xproc_init pid (procfs_path s)\<rparr>) of (r, t) \<Rightarrow> (r, t\<lparr>xp := xp s\<rparr>))"

lemma on_new_run [py_run]:
  "on_new pid m s = (case m (s\<lparr>xp := xproc_init pid (procfs_path s)\<rparr>) of (r, t) \<Rightarrow> (r, t\<lparr>xp := xp s\<rparr>))"
  by (simp add: on_new_def)

section \<open>What a call leaves alone\<close>

text \<open>
  The oracles and the identity of the object stay; calls are added, and the cached data of the
  object may change.
\<close>

definition xframe :: "('x, 'c, 'z) esys_scheme \<Rightarrow> ('x, 'c, 'z) esys_scheme \<Rightarrow> bool" where
  "xframe s t \<longleftrightarrow> sys_os t = sys_os s \<and> ext t = ext s \<and> ext_const t = ext_const s
     \<and> procfs_path t = procfs_path s \<and> (\<exists>d. hist t = d @ hist s)
     \<and> x_pid (xp t) = x_pid (xp s) \<and> x_name (xp t) = x_name (xp s) \<and> x_procfs (xp t) = x_procfs (xp s)"

lemma xframe_refl: "xframe s s"
  by (simp add: xframe_def)

lemma xframe_trans: "xframe s t \<Longrightarrow> xframe t u \<Longrightarrow> xframe s u"
  by (fastforce simp: xframe_def)

interpretation xf: preserved xframe
  by unfold_locales (auto intro: xframe_refl xframe_trans)

lemma xframe_confined:
  fixes s t :: "('x, 'c, 'z) esys_scheme"
  assumes "confined A s t"
  shows "xframe s t"
proof -
  have "ext t = ext s \<and> ext_const t = ext_const s \<and> xp t = xp s"
    using assms unfolding confined_def by (cases s rule: esys.cases_scheme, cases t rule: esys.cases_scheme) simp
  then show ?thesis using assms by (auto simp: xframe_def confined_def)
qed

lemma pres_xframe_confined: "pres (confined A) m \<Longrightarrow> pres xframe (m :: (('x, 'c, 'z) esys_scheme, 'a) py)"
  by (auto simp: pres_def intro: xframe_confined)

lemma pres_sys_ask_xframe [pres_intros]: "pres xframe (sys_ask c f :: (('x, 'c, 'z) esys_scheme, 'a) py)"
  by (rule pres_xframe_confined [of UNIV], rule pres_sys_ask) simp

lemma pres_sys_call_xframe [pres_intros]: "pres xframe (sys_call c f :: (('x, 'c, 'z) esys_scheme, 'a) py)"
  by (rule pres_xframe_confined [of UNIV], rule pres_sys_call) simp

lemma pres_memo_xframe [pres_intros]:
  "pres xframe f \<Longrightarrow> pres xframe (memoize x_has (x_look sel) (x_store put) f)"
  unfolding memoize_def
  by (intro pres_intros, auto split: option.splits intro!: pres_intros xf.pres_modify simp: xframe_def x_store_def)

lemma pres_ext_try [pres_intros]: "pres xframe (ext_try fn is ss f)"
  and pres_ext_do [pres_intros]: "pres xframe (ext_do fn is ss f)"
  by (auto simp: pres_def xframe_def)

lemma pres_me [pres_intros]: "pres xframe (me f)"
  by (auto simp: pres_def xframe_refl)

section \<open>Sockets\<close>

text \<open>
  The rows the compiled functions return.  An Internet end point is a pair or an empty tuple,
  so turning it into \<open>ntp.addr\<close> does not change it.
\<close>

record rawconn =
  rc_fd :: int
  rc_fam :: int
  rc_type :: int
  rc_laddr :: endpoint
  rc_raddr :: endpoint
  rc_status :: int
  rc_pid :: "int option"

text \<open>
  \<open>sockfam_to_enum\<close> and \<open>socktype_to_enum\<close>: a member of an \<open>IntEnum\<close> is equal to its number,
  so a known number stands for the member.
\<close>

definition sockfam_to_enum :: "int \<Rightarrow> int" where "sockfam_to_enum num = num"
definition socktype_to_enum :: "int \<Rightarrow> int" where "socktype_to_enum num = num"

definition conn_to_ntuple ::
  "int \<Rightarrow> int \<Rightarrow> int \<Rightarrow> endpoint \<Rightarrow> endpoint \<Rightarrow> int \<Rightarrow> (int, ConnectionStatus) dict \<Rightarrow> int option \<Rightarrow> sconn" where
  "conn_to_ntuple fd fam ty laddr raddr status status_map pid =
     \<lparr>cn_fd = fd, cn_family = sockfam_to_enum fam, cn_type = socktype_to_enum ty,
      cn_laddr = laddr, cn_raddr = raddr,
      cn_status = (if ty = SOCK_STREAM \<and> fam \<in> {AF_INET, AF_INET6}
                   then dict_get status_map status CONN_NONE else CONN_NONE),
      cn_pid = pid\<rparr>"

text \<open>
  The families and types of each kind of socket, on a system with IPv6 sockets; \<open>unix\<close> says that
  there are UNIX sockets and the system is not SunOS.
\<close>

definition conn_tmap :: "bool \<Rightarrow> (string, int list \<times> int list) dict" where
  "conn_tmap unix =
     [(''all'', [AF_INET, AF_INET6, AF_UNIX], [SOCK_STREAM, SOCK_DGRAM]),
      (''tcp'', [AF_INET, AF_INET6], [SOCK_STREAM]),
      (''tcp4'', [AF_INET], [SOCK_STREAM]),
      (''udp'', [AF_INET, AF_INET6], [SOCK_DGRAM]),
      (''udp4'', [AF_INET], [SOCK_DGRAM]),
      (''inet'', [AF_INET, AF_INET6], [SOCK_STREAM, SOCK_DGRAM]),
      (''inet4'', [AF_INET], [SOCK_STREAM, SOCK_DGRAM]),
      (''inet6'', [AF_INET6], [SOCK_STREAM, SOCK_DGRAM]),
      (''tcp6'', [AF_INET6], [SOCK_STREAM]),
      (''udp6'', [AF_INET6], [SOCK_DGRAM])]
     @ (if unix then [(''unix'', [AF_UNIX], [SOCK_STREAM, SOCK_DGRAM])] else [])"

definition conn_kind :: "bool \<Rightarrow> string \<Rightarrow> exn + (int list \<times> int list)" where
  "conn_kind unix kind = of_option KeyError (map_of (conn_tmap unix) kind)"

text \<open>A dict display whose keys are constants of the extension: a later entry wins.\<close>

definition const_dict :: "(string \<Rightarrow> int) \<Rightarrow> (string \<times> 'a) list \<Rightarrow> (int, 'a) dict" where
  "const_dict c es = fold (\<lambda>e d. AList.update (c (fst e)) (snd e) d) es []"

lemma const_dict_ok: "distinct (map fst (const_dict c es))"
  unfolding const_dict_def
  by (rule fold_invariant [where P = "\<lambda>d. distinct (map fst d)" and Q = "\<lambda>_. True"])
     (simp_all add: distinct_update)

text \<open>\<open>NicDuplex(n)\<close>.\<close>

definition nic_duplex :: "int \<Rightarrow> exn + NicDuplex" where
  "nic_duplex n = (if n = 2 then Inr NIC_DUPLEX_FULL else if n = 1 then Inr NIC_DUPLEX_HALF
     else if n = 0 then Inr NIC_DUPLEX_UNKNOWN else Inl ValueError)"

text \<open>\<open>d[k]\<close> of a dict, and a list without repetitions in the order of first occurrence.\<close>

definition uniq :: "'a list \<Rightarrow> 'a list" where
  "uniq xs = rev (fold (\<lambda>x acc. if x \<in> set acc then acc else x # acc) xs [])"

lemma uniq_acc:
  "distinct acc \<Longrightarrow> distinct (fold (\<lambda>x acc. if x \<in> set acc then acc else x # acc) xs acc)
     \<and> set (fold (\<lambda>x acc. if x \<in> set acc then acc else x # acc) xs acc) = set acc \<union> set xs"
  by (induction xs arbitrary: acc) (auto simp: insert_absorb)

lemma set_uniq [simp]: "set (uniq xs) = set xs"
  and distinct_uniq [simp]: "distinct (uniq xs)"
  using uniq_acc [of "[]" xs] by (simp_all add: uniq_def)

section \<open>Shared by several platforms\<close>

text \<open>\<open>pcputimes\<close> and \<open>popenfile\<close> without the fields of Linux.\<close>

record pcputimes4 =
  pc4_user :: flt
  pc4_system :: flt
  pc4_children_user :: flt
  pc4_children_system :: flt

record popenfile2 =
  of2_path :: string
  of2_fd :: int

record pmem2 =
  pm2_rss :: int
  pm2_vms :: int

record pio4 =
  pio4_read_count :: int
  pio4_write_count :: int
  pio4_read_bytes :: int
  pio4_write_bytes :: int

definition mk_threads :: "(int \<times> flt \<times> flt) list \<Rightarrow> pthread list" where
  "mk_threads rawlist = map (\<lambda>(thread_id, utime, stime).
     \<lparr>th_id = thread_id, th_user_time = utime, th_system_time = stime\<rparr>) rawlist"

text \<open>\<open>hex(n)\<close>.\<close>

definition py_hex :: "int \<Rightarrow> string" where
  "py_hex n = (if n < 0 then ''-0x'' else ''0x'') @ hex_str (nat \<bar>n\<bar>)"

text \<open>
  The statistics of a network interface from three calls; an interface that is gone
  (\<open>ENODEV\<close>) is left out.
\<close>

definition if_stats_step ::
  "(string \<Rightarrow> (('x, 'c, 'z) esys_scheme, int) py) \<Rightarrow> (string \<Rightarrow> (('x, 'c, 'z) esys_scheme, string list) py)
     \<Rightarrow> (string \<Rightarrow> (('x, 'c, 'z) esys_scheme, int \<times> int) py) \<Rightarrow> string
     \<Rightarrow> (string, snicstats) dict \<Rightarrow> (('x, 'c, 'z) esys_scheme, (string, snicstats) dict) py" where
  "if_stats_step mtu_of flags_of duplex_of name acc =
     try_else (bnd (mtu_of name) (\<lambda>mtu. bnd (flags_of name) (\<lambda>flags. bnd (duplex_of name) (\<lambda>d. ret (mtu, flags, d)))))
       (\<lambda>e. if is_OSError e \<and> errno_of e = Some ENODEV then ret acc else raise e)
       (\<lambda>(mtu, flags, duplex, speed). bnd (liftE (nic_duplex duplex)) (\<lambda>d.
          ret (AList.update name \<lparr>ns_isup = (''running'' \<in> set flags), ns_duplex = d, ns_speed = speed,
             ns_mtu = mtu, ns_flags = join '','' flags\<rparr> acc)))"

text \<open>\<open>adjust_proc_create_time\<close> of macOS and NetBSD, with the boot time read at import and now.\<close>

definition adjust_ctime :: "flt \<Rightarrow> flt \<Rightarrow> flt \<Rightarrow> flt" where
  "adjust_ctime init now ctime = (let diff = fsub init now in
     if diff = 0 \<or> \<bar>diff\<bar> < 1 then ctime
     else if diff < 0 then fsub ctime diff else fadd ctime diff)"

text \<open>The battery of macOS and FreeBSD.\<close>

definition mk_battery :: "int \<times> int \<times> int \<Rightarrow> sbattery" where
  "mk_battery b = (case b of (percent, minsleft, plugged) \<Rightarrow>
     let power_plugged = (plugged = 1) in
     \<lparr>bat_percent = of_int percent,
      bat_secsleft = (if power_plugged then POWER_TIME_UNLIMITED
         else if minsleft = -1 then POWER_TIME_UNKNOWN else minsleft * 60),
      bat_power_plugged = Some power_plugged\<rparr>)"

definition bsd_tcp_names :: "(string \<times> ConnectionStatus) list" where
  "bsd_tcp_names =
     [(''TCPS_ESTABLISHED'', CONN_ESTABLISHED), (''TCPS_SYN_SENT'', CONN_SYN_SENT),
      (''TCPS_SYN_RECEIVED'', CONN_SYN_RECV), (''TCPS_FIN_WAIT_1'', CONN_FIN_WAIT1),
      (''TCPS_FIN_WAIT_2'', CONN_FIN_WAIT2), (''TCPS_TIME_WAIT'', CONN_TIME_WAIT),
      (''TCPS_CLOSED'', CONN_CLOSE), (''TCPS_CLOSE_WAIT'', CONN_CLOSE_WAIT),
      (''TCPS_LAST_ACK'', CONN_LAST_ACK), (''TCPS_LISTEN'', CONN_LISTEN),
      (''TCPS_CLOSING'', CONN_CLOSING), (''PSUTIL_CONN_NONE'', CONN_NONE)]"

end
