(* ===== verification/Py_Ntpath.thy ===== *)
theory Py_Ntpath
  imports Py_Str
begin

text \<open>
  The functions of Python's \<open>ntpath\<close>, that is of \<open>os.path\<close> on Windows, that the library uses.
\<close>

abbreviation bslash :: char where "bslash \<equiv> CHR 0x5C"

definition is_sep :: "char \<Rightarrow> bool" where
  "is_sep c \<longleftrightarrow> c = bslash \<or> c = CHR ''/''"

definition norm_sep :: "string \<Rightarrow> string" where
  "norm_sep = map (\<lambda>c. if c = CHR ''/'' then bslash else c)"

text \<open>Positions of the next separator at or after \<open>i\<close>.\<close>

definition sep_from :: "string \<Rightarrow> nat \<Rightarrow> nat option" where
  "sep_from s i = (let k = length (takeWhile (\<lambda>c. c \<noteq> bslash) (drop i s)) in
     if i + k < length s then Some (i + k) else None)"

text \<open>\<open>splitroot\<close>: the drive, or the share of a UNC path, the root, and the rest.\<close>

definition splitroot :: "string \<Rightarrow> string \<times> string \<times> string" where
  "splitroot p = (let n = norm_sep p in
     if take 1 n = [bslash] then
       if take 1 (drop 1 n) = [bslash] then
         (let start = (if str_upper (take 8 n) = [bslash, bslash] @ ''?'' @ [bslash] @ ''UNC'' @ [bslash] then 8 else 2) in
          case sep_from n start of None \<Rightarrow> (p, [], [])
          | Some i \<Rightarrow> (case sep_from n (i + 1) of None \<Rightarrow> (p, [], [])
              | Some j \<Rightarrow> (take j p, take 1 (drop j p), drop (j + 1) p)))
       else ([], take 1 p, drop 1 p)
     else if take 1 (drop 1 n) = '':'' then
       if take 1 (drop 2 n) = [bslash] then (take 2 p, take 1 (drop 2 p), drop 3 p) else (take 2 p, [], drop 2 p)
     else ([], [], p))"

lemma take_one: "take j p @ take (Suc 0) (drop j p) @ drop (Suc j) p = p"
proof -
  have "drop (Suc j) p = drop (Suc 0) (drop j p)" by simp
  then show ?thesis by (simp only: append_take_drop_id)
qed

lemma splitroot_concat: "splitroot p = (d, r, q) \<Longrightarrow> d @ r @ q = p"
  unfolding splitroot_def Let_def
  using take_one [of _ p] take_one [of 2 p]
  by (auto simp: numeral_3_eq_3 numeral_2_eq_2 simp del: take_Suc_Cons drop_Suc_Cons
      split: if_split_asm option.split_asm)

definition no_sep_end :: "string \<Rightarrow> bool" where
  "no_sep_end s \<longleftrightarrow> s \<noteq> [] \<and> \<not> is_sep (last s)"

text \<open>\<open>os.path.join(path, p)\<close>.\<close>

definition nt_join :: "string \<Rightarrow> string \<Rightarrow> string" where
  "nt_join path p = (case splitroot path of (d0, r0, q0) \<Rightarrow> case splitroot p of (pd, pr, pp) \<Rightarrow>
     let (d, r, q) =
       (if pr \<noteq> [] then (if pd \<noteq> [] \<or> d0 = [] then pd else d0, pr, pp)
        else if pd \<noteq> [] \<and> pd \<noteq> d0 \<and> str_lower pd \<noteq> str_lower d0 then (pd, pr, pp)
        else (if pd \<noteq> [] then pd else d0, r0, (if no_sep_end q0 then q0 @ [bslash] else q0) @ pp))
     in if q \<noteq> [] \<and> r = [] \<and> d \<noteq> [] \<and> \<not> (is_sep (last d) \<or> last d = CHR '':'') then d @ [bslash] @ q
        else d @ r @ q)"

text \<open>\<open>os.path.split\<close>, and its halves.\<close>

definition nt_split :: "string \<Rightarrow> string \<times> string" where
  "nt_split p = (case splitroot p of (d, r, q) \<Rightarrow>
     let tail = rev (takeWhile (\<lambda>c. \<not> is_sep c) (rev q));
         head = take (length q - length tail) q
     in (d @ r @ rev (dropWhile is_sep (rev head)), tail))"

definition nt_dirname :: "string \<Rightarrow> string" where "nt_dirname p = fst (nt_split p)"
definition nt_basename :: "string \<Rightarrow> string" where "nt_basename p = snd (nt_split p)"

definition nt_isabs :: "string \<Rightarrow> bool" where
  "nt_isabs p \<longleftrightarrow> (let n = norm_sep (take 3 p) in
     take 2 (drop 1 n) = '':'' @ [bslash] \<or> take 2 n = [bslash, bslash])"

text \<open>\<open>os.path.normpath\<close>: empty parts and dots go, and a part before two dots with them.\<close>

fun norm_parts :: "bool \<Rightarrow> string list \<Rightarrow> string list \<Rightarrow> string list" where
  "norm_parts rooted acc [] = rev acc"
| "norm_parts rooted acc (c # cs) =
     (if c = [] \<or> c = ''.'' then norm_parts rooted acc cs
      else if c = ''..'' then
        (case acc of
           a # as \<Rightarrow> if a \<noteq> ''..'' then norm_parts rooted as cs else norm_parts rooted (c # acc) cs
         | [] \<Rightarrow> if rooted then norm_parts rooted [] cs else norm_parts rooted [c] cs)
      else norm_parts rooted (c # acc) cs)"

definition nt_normpath :: "string \<Rightarrow> string" where
  "nt_normpath p = (case splitroot (norm_sep p) of (d, r, q) \<Rightarrow>
     let parts = norm_parts (r \<noteq> []) [] (split_on bslash q);
         parts = (if d @ r = [] \<and> parts = [] then [''.''] else parts)
     in d @ r @ join [bslash] parts)"

lemma nt_basename_no_sep: "\<forall>c \<in> set (nt_basename p). \<not> is_sep c"
  by (auto simp: nt_basename_def nt_split_def Let_def split: prod.splits dest: set_takeWhileD)

end
