(* ===== verification/Win_System.thy ===== *)
theory Win_System
  imports Ext_Base Py_Ntpath
begin

text \<open>
  \<open>psutil/_pswindows.py\<close>: the compiled functions it calls, the translation of DOS paths, the
  system-wide functions and the services.  An \<open>OSError\<close> with a Windows error code is
  \<open>WinError\<close>.
\<close>

section \<open>The extension\<close>

record perf_info =
  pi_PageSize :: int
  pi_PhysicalTotal :: int
  pi_PhysicalAvailable :: int
  pi_SystemCache :: int
  pi_KernelNonpaged :: int
  pi_CommitLimit :: int

text \<open>The dicts \<open>proc_oneshot\<close> and \<open>proc_memory_info\<close> return.\<close>

record win_meminfo =
  wm_PageFaultCount :: int
  wm_PeakWorkingSetSize :: int
  wm_WorkingSetSize :: int
  wm_QuotaPeakPagedPoolUsage :: int
  wm_QuotaPagedPoolUsage :: int
  wm_QuotaPeakNonPagedPoolUsage :: int
  wm_QuotaNonPagedPoolUsage :: int
  wm_PagefileUsage :: int
  wm_PeakPagefileUsage :: int
  wm_PrivateUsage :: int

record win_oneshot =
  wo_PageFaultCount :: int
  wo_HardFaultCount :: int
  wo_PeakWorkingSetSize :: int
  wo_WorkingSetSize :: int
  wo_QuotaPeakPagedPoolUsage :: int
  wo_QuotaPagedPoolUsage :: int
  wo_QuotaPeakNonPagedPoolUsage :: int
  wo_QuotaNonPagedPoolUsage :: int
  wo_PagefileUsage :: int
  wo_PeakPagefileUsage :: int
  wo_PrivatePageCount :: int
  wo_VirtualSize :: int
  wo_PeakVirtualSize :: int
  wo_create_time :: flt
  wo_user_time :: flt
  wo_kernel_time :: flt
  wo_num_threads :: int
  wo_num_handles :: int
  wo_ctx_switches :: int
  wo_is_suspended :: bool
  wo_io_rcount :: int
  wo_io_wcount :: int
  wo_io_rbytes :: int
  wo_io_wbytes :: int
  wo_io_count_others :: int
  wo_io_bytes_others :: int

type_synonym flt5 = "flt \<times> flt \<times> flt \<times> flt \<times> flt"

record win_ext =
  w_perf_info :: "(exn + perf_info) answer"
  w_swap_percent :: "(exn + flt) answer"
  w_query_dos_device :: "(string \<Rightarrow> exn + string) answer"
  w_getpagesize :: "(exn + int) answer"
  w_disk_usage :: "(string \<Rightarrow> exn + (int \<times> int \<times> int)) answer"
  w_getcwd :: "(exn + string) answer"
  w_disk_partitions :: "(bool \<Rightarrow> exn + (string \<times> string \<times> string \<times> string) list) answer"
  w_cpu_times :: "(exn + (flt \<times> flt \<times> flt)) answer"
  w_per_cpu_times :: "(exn + flt5 list) answer"
  w_cpu_count_logical :: "(exn + int option) answer"
  w_cpu_count_cores :: "(exn + int option) answer"
  w_cpu_stats :: "(exn + (int \<times> int \<times> int \<times> int)) answer"
  w_cpu_freq :: "(exn + (int \<times> int)) answer"
  w_init_loadavg :: "(exn + unit) answer"
  w_getloadavg :: "(exn + (flt \<times> flt \<times> flt)) answer"
  w_has_unix :: bool
  w_net_connections :: "(int \<Rightarrow> int list \<Rightarrow> int list \<Rightarrow> exn + rawconn list) answer"
  w_net_if_stats :: "(exn + (string, bool \<times> int \<times> int \<times> int) dict) answer"
  w_net_io_counters :: "(exn + (string, int list) dict) answer"
  w_net_if_addrs :: "(exn + (string \<times> int \<times> string option \<times> string option \<times> string option \<times> string option) list) answer"
  w_sensors_battery :: "(exn + (int \<times> int \<times> int \<times> int)) answer"
  w_boot_time :: "(exn + flt) answer"
  w_users :: "(exn + (string \<times> string option \<times> flt) list) answer"
  w_svc_enumerate :: "(exn + (string \<times> string) list) answer"
  w_svc_query_config :: "(string \<Rightarrow> exn + (string \<times> string \<times> string \<times> string)) answer"
  w_svc_query_status :: "(string \<Rightarrow> exn + (string \<times> int)) answer"
  w_svc_query_descr :: "(string \<Rightarrow> exn + string) answer"
  w_pids :: "(exn + int list) answer"
  w_pid_exists :: "(int \<Rightarrow> exn + bool) answer"
  w_ppid_map :: "(exn + (int, int) dict) answer"
  w_proc_oneshot :: "(int \<Rightarrow> exn + win_oneshot) answer"
  w_proc_exe :: "(int \<Rightarrow> exn + string) answer"
  w_proc_cmdline :: "(int \<Rightarrow> bool \<Rightarrow> exn + string list) answer"
  w_proc_environ :: "(int \<Rightarrow> exn + string) answer"
  w_proc_ppid :: "(int \<Rightarrow> exn + int) answer"
  w_proc_memory_info :: "(int \<Rightarrow> exn + win_meminfo) answer"
  w_proc_memory_uss :: "(int \<Rightarrow> exn + int) answer"
  w_proc_memory_maps :: "(int \<Rightarrow> exn + (int \<times> string \<times> string \<times> int) list) answer"
  w_proc_kill :: "(int \<Rightarrow> exn + unit) answer"
  w_os_kill :: "(int \<Rightarrow> int \<Rightarrow> exn + unit) answer"
  w_proc_wait :: "(int \<Rightarrow> int \<Rightarrow> exn + int option) answer"
  w_proc_username :: "(int \<Rightarrow> exn + (string \<times> string)) answer"
  w_proc_times :: "(int \<Rightarrow> exn + (flt \<times> flt \<times> flt)) answer"
  w_proc_threads :: "(int \<Rightarrow> exn + (int \<times> flt \<times> flt) list) answer"
  w_proc_suspend_or_resume :: "(int \<Rightarrow> bool \<Rightarrow> exn + unit) answer"
  w_proc_cwd :: "(int \<Rightarrow> exn + string) answer"
  w_proc_open_files :: "(int \<Rightarrow> exn + string list) answer"
  w_priority_get :: "(int \<Rightarrow> exn + int) answer"
  w_priority_set :: "(int \<Rightarrow> int \<Rightarrow> exn + unit) answer"
  w_io_priority_get :: "(int \<Rightarrow> exn + int) answer"
  w_io_priority_set :: "(int \<Rightarrow> int \<Rightarrow> exn + unit) answer"
  w_io_counters :: "(int \<Rightarrow> exn + (int \<times> int \<times> int \<times> int \<times> int \<times> int)) answer"
  w_affinity_get :: "(int \<Rightarrow> exn + int) answer"
  w_affinity_set :: "(int \<Rightarrow> int \<Rightarrow> exn + unit) answer"
  w_num_handles :: "(int \<Rightarrow> exn + int) answer"

text \<open>
  \<open>_cache\<close> with its slots for \<open>_oneshot\<close> and \<open>exe\<close>, and the state of the module: the results
  \<open>functools.lru_cache\<close> keeps for \<open>convert_dos_path\<close>, the one used last in front, and for
  \<open>getpagesize\<close>, and \<open>_loadavg_initialized\<close>.
\<close>

record win_cache =
  wc_oneshot :: "win_oneshot option"
  wc_exe :: "string option"

record wsys = "(win_ext, win_cache) esys" +
  dos_cache :: "(string \<times> string) list"
  page_cache :: "int option"
  loadavg_initialized :: bool

section \<open>Paths\<close>

text \<open>\<open>s.split('\')\<close> cut to its first parts and joined again.\<close>

definition parts_upto :: "string \<Rightarrow> nat \<Rightarrow> string" where
  "parts_upto s n = join [bslash] (take n (split_on bslash s))"

definition dos_path :: "string \<Rightarrow> ('z wsys_scheme, string) py" where
  "dos_path s =
     (if startswith s [bslash, bslash] then ret s
      else
        let rawdrive = parts_upto s 3 in
        bnd (if rawdrive \<in> {[bslash] @ ''??'' @ [bslash] @ ''UNC'', [bslash] @ ''Device'' @ [bslash] @ ''Mup''}
             then ret (parts_upto s 5, [bslash, bslash] @ join [bslash] (drop 3 (take 5 (split_on bslash s))))
             else if startswith rawdrive ([bslash] @ ''??'' @ [bslash])
             then bnd (liftE (item (split_on bslash s) 2)) (\<lambda>driveletter. ret (rawdrive, driveletter))
             else bnd (ext_try ''QueryDosDevice'' [] [rawdrive] (\<lambda>x h. w_query_dos_device x h rawdrive))
                    (\<lambda>driveletter. ret (rawdrive, driveletter)))
          (\<lambda>(rawdrive, driveletter). ret (nt_join driveletter (drop (length rawdrive) s))))"

text \<open>\<open>lru_cache(maxsize=512)\<close>: a hit moves its entry to the front, the last entry is dropped.\<close>

definition convert_dos_path :: "string \<Rightarrow> ('z wsys_scheme, string) py" where
  "convert_dos_path s = bnd (gets dos_cache) (\<lambda>c. case map_of c s of
       Some p \<Rightarrow> bnd (modify (\<lambda>t. t\<lparr>dos_cache := (s, p) # AList.delete s c\<rparr>)) (\<lambda>_. ret p)
     | None \<Rightarrow> bnd (dos_path s) (\<lambda>p.
         bnd (modify (\<lambda>t. t\<lparr>dos_cache := take 512 ((s, p) # dos_cache t)\<rparr>)) (\<lambda>_. ret p)))"

definition win_getpagesize :: "('z wsys_scheme, int) py" where
  "win_getpagesize = bnd (gets page_cache) (\<lambda>c. case c of Some n \<Rightarrow> ret n
     | None \<Rightarrow> bnd (ext_try ''getpagesize'' [] [] w_getpagesize) (\<lambda>n.
         bnd (modify (\<lambda>t. t\<lparr>page_cache := Some n\<rparr>)) (\<lambda>_. ret n)))"

section \<open>Memory and disks\<close>

record win_svmem =
  wvm_total :: int
  wvm_available :: int
  wvm_percent :: flt
  wvm_used :: int
  wvm_free :: int
  wvm_cached :: int
  wvm_wired :: int

definition win_virtual_memory :: "('z wsys_scheme, win_svmem) py" where
  "win_virtual_memory = bnd (ext_try ''GetPerformanceInfo'' [] [] w_perf_info) (\<lambda>info.
     let pagesize = pi_PageSize info;
         tot = pi_PhysicalTotal info * pagesize;
         avail = pi_PhysicalAvailable info * pagesize;
         cached = pi_SystemCache info * pagesize;
         wired = pi_KernelNonpaged info * pagesize;
         free = avail;
         used = tot - avail;
         percent = usage_percent (tot - avail) tot (Some 1)
     in ret \<lparr>wvm_total = tot, wvm_available = avail, wvm_percent = percent, wvm_used = used,
             wvm_free = free, wvm_cached = cached, wvm_wired = wired\<rparr>)"

definition win_swap_memory :: "('z wsys_scheme, sswap) py" where
  "win_swap_memory = bnd (ext_try ''GetPerformanceInfo'' [] [] w_perf_info) (\<lambda>info.
     let pagesize = pi_PageSize info;
         total_phys = pi_PhysicalTotal info * pagesize;
         total_system = pi_CommitLimit info * pagesize;
         tot = total_system - total_phys
     in bnd (if 0 < tot
             then bnd (ext_try ''swap_percent'' [] [] w_swap_percent) (\<lambda>percentswap.
               ret (percentswap, trunc_int (fmul (fmul (fl (1 / 100)) percentswap) (fint tot))))
             else ret (0, 0)) (\<lambda>(percentswap, used).
        ret \<lparr>sw_total = tot, sw_used = used, sw_free = tot - used, sw_percent = fround 1 percentswap,
             sw_sin = 0, sw_sout = 0\<rparr>))"

definition is_NotADirectoryError :: "exn \<Rightarrow> bool" where
  "is_NotADirectoryError e \<longleftrightarrow> errno_of e = Some ENOTDIR"

text \<open>The path is a \<open>str\<close>.\<close>

definition win_disk_usage :: "string \<Rightarrow> ('z wsys_scheme, sdiskusage) py" where
  "win_disk_usage path =
     bnd (try_except (ext_try ''disk_usage'' [] [path] (\<lambda>x h. w_disk_usage x h path))
       (\<lambda>e. if is_NotADirectoryError e
          then bnd (if nt_isabs path then ret path
                    else bnd (ext_try ''getcwd'' [] [] w_getcwd) (\<lambda>d. ret (nt_join d path))) (\<lambda>path.
               ext_try ''disk_usage'' [] [nt_dirname path] (\<lambda>x h. w_disk_usage x h (nt_dirname path)))
          else raise e)) (\<lambda>(tot, used, free).
     ret \<lparr>du_total = tot, du_used = used, du_free = free, du_percent = usage_percent used tot (Some 1)\<rparr>)"

definition win_disk_partitions :: "bool \<Rightarrow> ('z wsys_scheme, sdiskpart list) py" where
  "win_disk_partitions all = bnd (ext_try ''disk_partitions'' [] [] (\<lambda>x h. w_disk_partitions x h all)) (\<lambda>rawlist.
     ret (map (\<lambda>(dev, mount, fstype, opts). \<lparr>dp_device = dev, dp_mountpoint = mount, dp_fstype = fstype,
                dp_opts = opts\<rparr>) rawlist))"

section \<open>CPU\<close>

record win_scputimes =
  wct_user :: flt
  wct_system :: flt
  wct_idle :: flt
  wct_irq :: flt
  wct_dpc :: flt

definition win_ct :: "flt5 \<Rightarrow> win_scputimes" where
  "win_ct t = (case t of (u, s, i, q, d) \<Rightarrow> \<lparr>wct_user = u, wct_system = s, wct_idle = i, wct_irq = q, wct_dpc = d\<rparr>)"

text \<open>\<open>sum(n)\<close> for each column of the rows; with no row at all there is no column.\<close>

definition win_sum_rows :: "flt5 list \<Rightarrow> exn + win_scputimes" where
  "win_sum_rows rows = (if rows = [] then Inl TypeError
     else let col = (\<lambda>f. foldl fadd 0 (map f rows)) in
       Inr \<lparr>wct_user = col (\<lambda>(a, b, c, d, e). a), wct_system = col (\<lambda>(a, b, c, d, e). b),
            wct_idle = col (\<lambda>(a, b, c, d, e). c), wct_irq = col (\<lambda>(a, b, c, d, e). d),
            wct_dpc = col (\<lambda>(a, b, c, d, e). e)\<rparr>)"

definition win_cpu_times :: "('z wsys_scheme, win_scputimes) py" where
  "win_cpu_times = bnd (ext_try ''cpu_times'' [] [] w_cpu_times) (\<lambda>(user, system, idle).
     bnd (ext_try ''per_cpu_times'' [] [] w_per_cpu_times) (\<lambda>rows.
     bnd (liftE (win_sum_rows rows)) (\<lambda>percpu_summed.
     ret \<lparr>wct_user = user, wct_system = system, wct_idle = idle,
          wct_irq = wct_irq percpu_summed, wct_dpc = wct_dpc percpu_summed\<rparr>)))"

definition win_per_cpu_times :: "('z wsys_scheme, win_scputimes list) py" where
  "win_per_cpu_times = bnd (ext_try ''per_cpu_times'' [] [] w_per_cpu_times) (\<lambda>rows. ret (map win_ct rows))"

definition win_cpu_count_logical :: "('z wsys_scheme, int option) py" where
  "win_cpu_count_logical = ext_try ''cpu_count_logical'' [] [] w_cpu_count_logical"

definition win_cpu_count_cores :: "('z wsys_scheme, int option) py" where
  "win_cpu_count_cores = ext_try ''cpu_count_cores'' [] [] w_cpu_count_cores"

definition win_cpu_stats :: "('z wsys_scheme, scpustats) py" where
  "win_cpu_stats = bnd (ext_try ''cpu_stats'' [] [] w_cpu_stats) (\<lambda>(ctx_switches, interrupts, dpcs, syscalls).
     ret \<lparr>cs_ctx_switches = Some ctx_switches, cs_interrupts = Some interrupts,
          cs_soft_interrupts = Some 0, cs_syscalls = syscalls\<rparr>)"

definition win_cpu_freq :: "('z wsys_scheme, scpufreq list) py" where
  "win_cpu_freq = bnd (ext_try ''cpu_freq'' [] [] w_cpu_freq) (\<lambda>(curr, mx).
     ret [\<lparr>cf_current = fint curr, cf_min = Some 0, cf_max = Some (fint mx)\<rparr>])"

definition getloadavg_impl :: "('z wsys_scheme, flt \<times> flt \<times> flt) py" where
  "getloadavg_impl = bnd (ext_try ''getloadavg'' [] [] w_getloadavg) (\<lambda>(a, b, c).
     ret (fround 2 a, fround 2 b, fround 2 c))"

definition win_getloadavg :: "('z wsys_scheme, flt \<times> flt \<times> flt) py" where
  "win_getloadavg = bnd (gets loadavg_initialized) (\<lambda>b.
     if b then getloadavg_impl
     else bnd (ext_do ''init_loadavg_counter'' [] [] w_init_loadavg) (\<lambda>_.
          bnd (modify (\<lambda>s. s\<lparr>loadavg_initialized := True\<rparr>)) (\<lambda>_. getloadavg_impl)))"

section \<open>Network\<close>

definition win_tcp_names :: "(string \<times> ConnectionStatus) list" where
  "win_tcp_names =
     [(''MIB_TCP_STATE_ESTAB'', CONN_ESTABLISHED), (''MIB_TCP_STATE_SYN_SENT'', CONN_SYN_SENT),
      (''MIB_TCP_STATE_SYN_RCVD'', CONN_SYN_RECV), (''MIB_TCP_STATE_FIN_WAIT1'', CONN_FIN_WAIT1),
      (''MIB_TCP_STATE_FIN_WAIT2'', CONN_FIN_WAIT2), (''MIB_TCP_STATE_TIME_WAIT'', CONN_TIME_WAIT),
      (''MIB_TCP_STATE_CLOSED'', CONN_CLOSE), (''MIB_TCP_STATE_CLOSE_WAIT'', CONN_CLOSE_WAIT),
      (''MIB_TCP_STATE_LAST_ACK'', CONN_LAST_ACK), (''MIB_TCP_STATE_LISTEN'', CONN_LISTEN),
      (''MIB_TCP_STATE_CLOSING'', CONN_CLOSING), (''MIB_TCP_STATE_DELETE_TCB'', CONN_DELETE_TCB),
      (''PSUTIL_CONN_NONE'', CONN_NONE)]"

definition win_TCP_STATUSES :: "(string \<Rightarrow> int) \<Rightarrow> (int, ConnectionStatus) dict" where
  "win_TCP_STATUSES c = const_dict c win_tcp_names"

text \<open>\<open>_pid = -1\<close> asks for all processes; the set is returned as a list.\<close>

definition win_net_connections :: "string \<Rightarrow> int \<Rightarrow> ('z wsys_scheme, sconn list) py" where
  "win_net_connections kind pid = bnd (gets (\<lambda>s. (w_has_unix (ext s), win_TCP_STATUSES (ext_const s)))) (\<lambda>(unix, statuses).
     bnd (liftE (conn_kind unix kind)) (\<lambda>(families, types).
     bnd (ext_try ''net_connections'' (pid # families @ types) [] (\<lambda>x h. w_net_connections x h pid families types)) (\<lambda>rawlist.
     ret (uniq (map (\<lambda>c. conn_to_ntuple (rc_fd c) (rc_fam c) (rc_type c) (rc_laddr c) (rc_raddr c) (rc_status c)
          statuses (if pid = -1 then rc_pid c else None)) rawlist)))))"

definition win_net_if_stats :: "('z wsys_scheme, (string, snicstats) dict) py" where
  "win_net_if_stats = bnd (ext_try ''net_if_stats'' [] [] w_net_if_stats) (\<lambda>rawdict.
     for_each rawdict (\<lambda>(name, isup, duplex, speed, mtu) acc. bnd (liftE (nic_duplex duplex)) (\<lambda>d.
       ret (AList.update name \<lparr>ns_isup = isup, ns_duplex = d, ns_speed = speed, ns_mtu = mtu, ns_flags = []\<rparr> acc))) [])"

definition win_net_io_counters :: "('z wsys_scheme, (string, int list) dict) py" where
  "win_net_io_counters = ext_try ''net_io_counters'' [] [] w_net_io_counters"

definition win_net_if_addrs ::
  "('z wsys_scheme, (string \<times> int \<times> string option \<times> string option \<times> string option \<times> string option) list) py" where
  "win_net_if_addrs = ext_try ''net_if_addrs'' [] [] w_net_if_addrs"

section \<open>Battery, boot time, users\<close>

definition flag_set :: "int \<Rightarrow> nat \<Rightarrow> bool" where
  "flag_set flags n \<longleftrightarrow> bit flags n"

definition win_sensors_battery :: "('z wsys_scheme, sbattery option) py" where
  "win_sensors_battery = bnd (ext_try ''sensors_battery'' [] [] w_sensors_battery) (\<lambda>(acline_status, flags, percent, secsleft).
     let power_plugged = (acline_status = 1); no_battery = flag_set flags 7; charging = flag_set flags 3 in
     if no_battery then ret None
     else ret (Some \<lparr>bat_percent = of_int percent,
        bat_secsleft = (if power_plugged \<or> charging then POWER_TIME_UNLIMITED
           else if secsleft = -1 then POWER_TIME_UNKNOWN else secsleft),
        bat_power_plugged = Some power_plugged\<rparr>))"

definition win_boot_time :: "('z wsys_scheme, flt) py" where
  "win_boot_time = ext_try ''boot_time'' [] [] w_boot_time"

definition win_users :: "('z wsys_scheme, suser list) py" where
  "win_users = bnd (ext_try ''users'' [] [] w_users) (\<lambda>rawlist. ret (map (\<lambda>(user, hostname, tstamp).
     \<lparr>us_name = user, us_terminal = None, us_host = hostname, us_started = tstamp, us_pid = None\<rparr>) rawlist))"

section \<open>Errors\<close>

definition winerror_of :: "exn \<Rightarrow> int option" where
  "winerror_of e = (case e of WinError _ w \<Rightarrow> Some w | _ \<Rightarrow> None)"

text \<open>Its \<open>assert\<close> holds wherever it is called: the argument is an \<open>OSError\<close>.\<close>

definition is_permission_err :: "(string \<Rightarrow> int) \<Rightarrow> exn \<Rightarrow> bool" where
  "is_permission_err c e \<longleftrightarrow> is_PermissionError e
     \<or> winerror_of e \<in> {Some (c ''ERROR_ACCESS_DENIED''), Some (c ''ERROR_PRIVILEGE_NOT_HELD'')}"

section \<open>Services\<close>

record WindowsService =
  svc_name :: string
  svc_display_name :: "string option"

record svc_config =
  sc_display_name :: string
  sc_binpath :: string
  sc_username :: string
  sc_start_type :: string

definition quoted :: "string \<Rightarrow> string" where
  "quoted name = [CHR 0x27] @ name @ [CHR 0x27]"

definition svc_msg_denied :: "string \<Rightarrow> string" where
  "svc_msg_denied name = ''service '' @ quoted name @ '' is not querable (not enough privileges)''"

definition svc_msg_missing :: "string \<Rightarrow> string" where
  "svc_msg_missing name = ''service '' @ quoted name @ '' does not exist''"

text \<open>The context manager \<open>_wrap_exceptions\<close>; \<open>name!r\<close> is the name in quotes,
  for a name without characters that \<open>repr\<close> escapes.\<close>

definition svc_wrap_exceptions :: "string \<Rightarrow> ('z wsys_scheme, 'a) py \<Rightarrow> ('z wsys_scheme, 'a) py" where
  "svc_wrap_exceptions name m = try_except m (\<lambda>e. bnd (gets ext_const) (\<lambda>c.
     if \<not> is_OSError e then raise e
     else if is_permission_err c e then raise (mk_AccessDenied None (Some name) (Some (svc_msg_denied name)))
     else if winerror_of e \<in> {Some (c ''ERROR_INVALID_NAME''), Some (c ''ERROR_SERVICE_DOES_NOT_EXIST'')}
     then raise (mk_NoSuchProcess_opt None (Some name) (Some (svc_msg_missing name)))
     else raise e))"

definition svc_query_config :: "WindowsService \<Rightarrow> ('z wsys_scheme, svc_config) py" where
  "svc_query_config v = bnd (svc_wrap_exceptions (svc_name v)
       (ext_try ''winservice_query_config'' [] [svc_name v] (\<lambda>x h. w_svc_query_config x h (svc_name v))))
     (\<lambda>(display_name, binpath, username, start_type).
       ret \<lparr>sc_display_name = display_name, sc_binpath = binpath, sc_username = username, sc_start_type = start_type\<rparr>)"

definition svc_query_status :: "WindowsService \<Rightarrow> ('z wsys_scheme, string \<times> int option) py" where
  "svc_query_status v = bnd (svc_wrap_exceptions (svc_name v)
       (ext_try ''winservice_query_status'' [] [svc_name v] (\<lambda>x h. w_svc_query_status x h (svc_name v))))
     (\<lambda>(status, pid). ret (status, if pid = 0 then None else Some pid))"

definition svc_eq :: "WindowsService \<Rightarrow> WindowsService \<Rightarrow> bool" where
  "svc_eq a b \<longleftrightarrow> svc_name a = svc_name b"

definition svc_binpath :: "WindowsService \<Rightarrow> ('z wsys_scheme, string) py" where
  "svc_binpath v = bnd (svc_query_config v) (\<lambda>d. ret (sc_binpath d))"
definition svc_username :: "WindowsService \<Rightarrow> ('z wsys_scheme, string) py" where
  "svc_username v = bnd (svc_query_config v) (\<lambda>d. ret (sc_username d))"
definition svc_start_type :: "WindowsService \<Rightarrow> ('z wsys_scheme, string) py" where
  "svc_start_type v = bnd (svc_query_config v) (\<lambda>d. ret (sc_start_type d))"
definition svc_pid :: "WindowsService \<Rightarrow> ('z wsys_scheme, int option) py" where
  "svc_pid v = bnd (svc_query_status v) (\<lambda>d. ret (snd d))"
definition svc_status :: "WindowsService \<Rightarrow> ('z wsys_scheme, string) py" where
  "svc_status v = bnd (svc_query_status v) (\<lambda>d. ret (fst d))"
definition svc_description :: "WindowsService \<Rightarrow> ('z wsys_scheme, string) py" where
  "svc_description v = ext_try ''winservice_query_descr'' [] [svc_name v] (\<lambda>x h. w_svc_query_descr x h (svc_name v))"

text \<open>\<open>as_dict\<close>; \<open>display_name\<close> is the cached one.\<close>

record svc_dict =
  sd_display_name :: "string option"
  sd_binpath :: string
  sd_username :: string
  sd_start_type :: string
  sd_status :: string
  sd_pid :: "int option"
  sd_name :: string
  sd_description :: string

definition svc_as_dict :: "WindowsService \<Rightarrow> ('z wsys_scheme, svc_dict) py" where
  "svc_as_dict v = bnd (svc_query_config v) (\<lambda>d. bnd (svc_query_status v) (\<lambda>(status, pid).
     bnd (svc_description v) (\<lambda>descr.
     ret \<lparr>sd_display_name = svc_display_name v, sd_binpath = sc_binpath d, sd_username = sc_username d,
          sd_start_type = sc_start_type d, sd_status = status, sd_pid = pid, sd_name = svc_name v,
          sd_description = descr\<rparr>)))"

definition win_service_iter :: "('z wsys_scheme, WindowsService list) py" where
  "win_service_iter = bnd (ext_try ''winservice_enumerate'' [] [] w_svc_enumerate) (\<lambda>l.
     ret (map (\<lambda>(name, display_name). \<lparr>svc_name = name, svc_display_name = Some display_name\<rparr>) l))"

definition win_service_get :: "string \<Rightarrow> ('z wsys_scheme, WindowsService) py" where
  "win_service_get name = (let service = \<lparr>svc_name = name, svc_display_name = None\<rparr> in
     bnd (svc_query_config service) (\<lambda>d. ret (service\<lparr>svc_display_name := Some (sc_display_name d)\<rparr>)))"

end
