(* ===== verification/Win_Process.thy ===== *)
theory Win_Process
  imports Win_System "HOL-Library.Word"
begin

text \<open>
  \<open>psutil/_pswindows.py\<close>: the translation of errors, the retries for errors the system makes
  up, and the class \<open>Process\<close>.
\<close>

section \<open>Errors\<close>

text \<open>\<open>raise convert_oserror(exc, pid, name)\<close> for an \<open>OSError\<close>.\<close>

definition convert_oserror :: "(string \<Rightarrow> int) \<Rightarrow> exn \<Rightarrow> int option \<Rightarrow> string option \<Rightarrow> exn" where
  "convert_oserror c e pid name =
     (if is_permission_err c e then mk_AccessDenied pid name None
      else if is_ProcessLookupError e then mk_NoSuchProcess_opt pid name None
      else e)"

definition win_wrap_exceptions :: "('z wsys_scheme, 'a) py \<Rightarrow> ('z wsys_scheme, 'a) py" where
  "win_wrap_exceptions m = try_except m (\<lambda>e. bnd (gets ext_const) (\<lambda>c. bnd (me (\<lambda>p. (x_pid p, x_name p))) (\<lambda>(pid, name).
     raise (if is_OSError e then convert_oserror c e (Some pid) name else e))))"

definition ERROR_PARTIAL_COPY :: int where "ERROR_PARTIAL_COPY = 299"

definition retry_delay :: flt where "retry_delay = fl (1 / 10000)"
definition retry_max_delay :: flt where "retry_max_delay = fl (4 / 100)"

text \<open>
  \<open>retry_error_partial_copy\<close>: the loop with \<open>n\<close> attempts left, then \<open>AccessDenied\<close>, with the
  text of the message left out.
\<close>

fun retry_partial_copy :: "nat \<Rightarrow> flt \<Rightarrow> ('z wsys_scheme, 'a) py \<Rightarrow> ('z wsys_scheme, 'a) py" where
  "retry_partial_copy 0 delay m = bnd (me (\<lambda>p. (x_pid p, x_name p))) (\<lambda>(pid, name).
     raise (mk_AccessDenied (Some pid) name (Some ''retried'')))"
| "retry_partial_copy (Suc n) delay m = try_except m (\<lambda>e.
     if is_OSError e \<and> winerror_of e = Some ERROR_PARTIAL_COPY
     then bnd (sleep_call delay) (\<lambda>_. retry_partial_copy n (min (fmul delay 2) retry_max_delay) m)
     else raise e)"

definition retry_error_partial_copy :: "('z wsys_scheme, 'a) py \<Rightarrow> ('z wsys_scheme, 'a) py" where
  "retry_error_partial_copy m = retry_partial_copy 33 retry_delay m"

section \<open>The caches of \<open>oneshot()\<close>\<close>

definition win_blank :: win_cache where
  "win_blank = \<lparr>wc_oneshot = None, wc_exe = None\<rparr>"

definition put_wc_oneshot :: "win_oneshot \<Rightarrow> win_cache \<Rightarrow> win_cache" where
  "put_wc_oneshot r c = c\<lparr>wc_oneshot := Some r\<rparr>"
definition put_wc_exe :: "string \<Rightarrow> win_cache \<Rightarrow> win_cache" where
  "put_wc_exe r c = c\<lparr>wc_exe := Some r\<rparr>"

interpretation win_oneshot_slot: memo_slot x_has "x_look wc_oneshot" "x_store put_wc_oneshot" "x_on win_blank" x_off
  by (rule x_slot) (simp_all add: put_wc_oneshot_def win_blank_def)

interpretation win_exe_slot: memo_slot x_has "x_look wc_exe" "x_store put_wc_exe" "x_on win_blank" x_off
  by (rule x_slot) (simp_all add: put_wc_exe_def win_blank_def)

definition win_oneshot_enter :: "('z wsys_scheme, unit) py" where
  "win_oneshot_enter = bnd (modify (x_on win_blank)) (\<lambda>_. modify (x_on win_blank))"

definition win_oneshot_exit :: "('z wsys_scheme, unit) py" where
  "win_oneshot_exit = bnd (modify x_off) (\<lambda>_. modify x_off)"

text \<open>A function of \<open>_psutil\<close> applied to \<open>self.pid\<close>.\<close>

definition w_get :: "string \<Rightarrow> (win_ext \<Rightarrow> (int \<Rightarrow> exn + 'a) answer) \<Rightarrow> ('z wsys_scheme, 'a) py" where
  "w_get fn f = bnd (me x_pid) (\<lambda>pid. ext_try fn [pid] [] (\<lambda>x h. f x h pid))"

definition win_oneshot :: "('z wsys_scheme, win_oneshot) py" where
  "win_oneshot = memoize x_has (x_look wc_oneshot) (x_store put_wc_oneshot) (w_get ''proc_oneshot'' w_proc_oneshot)"

text \<open>
  A call that falls back to another statement on a permission error, as many methods do.
\<close>

definition or_if_denied :: "('z wsys_scheme, 'a) py \<Rightarrow> ('z wsys_scheme, 'a) py \<Rightarrow> ('z wsys_scheme, 'a) py" where
  "or_if_denied m k = try_except m (\<lambda>e. bnd (gets ext_const) (\<lambda>c.
     if is_OSError e \<and> is_permission_err c e then k else raise e))"

section \<open>Methods\<close>

text \<open>\<open>exe\<close>, on CPython.\<close>

definition win_exe :: "('z wsys_scheme, string) py" where
  "win_exe = win_wrap_exceptions (memoize x_has (x_look wc_exe) (x_store put_wc_exe)
     (bnd (w_get ''proc_exe'' w_proc_exe) (\<lambda>exe.
      if startswith exe [bslash] then convert_dos_path exe else ret exe)))"

definition win_name :: "('z wsys_scheme, string) py" where
  "win_name = bnd (me x_pid) (\<lambda>pid.
     if pid = 0 then ret ''System Idle Process''
     else if pid = 4 then ret ''System''
     else bnd win_exe (\<lambda>exe. ret (nt_basename exe)))"

definition win_proc_cmdline :: "bool \<Rightarrow> ('z wsys_scheme, string list) py" where
  "win_proc_cmdline use_peb = w_get (if use_peb then ''proc_cmdline_peb'' else ''proc_cmdline'')
     (\<lambda>x h pid. w_proc_cmdline x h pid use_peb)"

definition win_cmdline :: "('z wsys_scheme, string list) py" where
  "win_cmdline = win_wrap_exceptions (retry_error_partial_copy
     (or_if_denied (win_proc_cmdline True) (win_proc_cmdline False)))"

definition win_environ :: "('z wsys_scheme, (string, string) dict) py" where
  "win_environ = win_wrap_exceptions (retry_error_partial_copy
     (bnd (w_get ''proc_environ'' w_proc_environ) (\<lambda>s. ret (parse_environ_block True s))))"

definition win_ppid :: "('z wsys_scheme, int) py" where
  "win_ppid = win_wrap_exceptions (or_if_denied (w_get ''proc_ppid'' w_proc_ppid)
     (bnd (me (\<lambda>p. (x_pid p, x_name p))) (\<lambda>(pid, name).
      bnd (ext_try ''ppid_map'' [] [] w_ppid_map) (\<lambda>d.
      case map_of d pid of Some ppid \<Rightarrow> ret ppid | None \<Rightarrow> raise (mk_NoSuchProcess pid name None)))))"

definition meminfo_of_oneshot :: "win_oneshot \<Rightarrow> win_meminfo" where
  "meminfo_of_oneshot info =
     \<lparr>wm_PageFaultCount = wo_PageFaultCount info, wm_PeakWorkingSetSize = wo_PeakWorkingSetSize info,
      wm_WorkingSetSize = wo_WorkingSetSize info, wm_QuotaPeakPagedPoolUsage = wo_QuotaPeakPagedPoolUsage info,
      wm_QuotaPagedPoolUsage = wo_QuotaPagedPoolUsage info,
      wm_QuotaPeakNonPagedPoolUsage = wo_QuotaPeakNonPagedPoolUsage info,
      wm_QuotaNonPagedPoolUsage = wo_QuotaNonPagedPoolUsage info, wm_PagefileUsage = wo_PagefileUsage info,
      wm_PeakPagefileUsage = wo_PeakPagefileUsage info, wm_PrivateUsage = wo_PrivatePageCount info\<rparr>"

definition get_raw_meminfo :: "('z wsys_scheme, win_meminfo) py" where
  "get_raw_meminfo = or_if_denied (w_get ''proc_memory_info'' w_proc_memory_info)
     (bnd win_oneshot (\<lambda>info. ret (meminfo_of_oneshot info)))"

text \<open>\<open>pmem\<close> with the deprecated aliases, a dict that \<open>__getattr__\<close> looks into.\<close>

record win_pmem =
  wpm_rss :: int
  wpm_vms :: int
  wpm_peak_rss :: int
  wpm_peak_vms :: int
  wpm_deprecated :: "(string, int) dict"

definition win_memory_info :: "('z wsys_scheme, win_pmem) py" where
  "win_memory_info = win_wrap_exceptions (bnd get_raw_meminfo (\<lambda>d.
     ret \<lparr>wpm_rss = wm_WorkingSetSize d, wpm_vms = wm_PrivateUsage d, wpm_peak_rss = wm_PeakWorkingSetSize d,
          wpm_peak_vms = wm_PeakPagefileUsage d,
          wpm_deprecated =
            [(''wset'', wm_WorkingSetSize d), (''peak_wset'', wm_PeakWorkingSetSize d),
             (''pagefile'', wm_PrivateUsage d), (''private'', wm_PrivateUsage d),
             (''peak_pagefile'', wm_PeakPagefileUsage d), (''paged_pool'', wm_QuotaPagedPoolUsage d),
             (''nonpaged_pool'', wm_QuotaNonPagedPoolUsage d), (''peak_paged_pool'', wm_QuotaPeakPagedPoolUsage d),
             (''peak_nonpaged_pool'', wm_QuotaPeakNonPagedPoolUsage d), (''num_page_faults'', wm_PageFaultCount d)]\<rparr>))"

text \<open>\<open>pmem.__getattr__\<close>, for a name that is not a field.\<close>

definition pmem_getattr :: "win_pmem \<Rightarrow> string \<Rightarrow> exn + int" where
  "pmem_getattr p name = of_option AttributeError (map_of (wpm_deprecated p) name)"

definition win_memory_info_ex :: "('z wsys_scheme, (string, int) dict) py" where
  "win_memory_info_ex = win_wrap_exceptions (bnd win_oneshot (\<lambda>d. bnd get_raw_meminfo (\<lambda>raw.
     ret [(''virtual'', wo_VirtualSize d), (''peak_virtual'', wo_PeakVirtualSize d),
          (''paged_pool'', wm_QuotaPagedPoolUsage raw), (''nonpaged_pool'', wm_QuotaNonPagedPoolUsage raw),
          (''peak_paged_pool'', wm_QuotaPeakPagedPoolUsage raw),
          (''peak_nonpaged_pool'', wm_QuotaPeakNonPagedPoolUsage raw)])))"

definition win_memory_footprint :: "('z wsys_scheme, int) py" where
  "win_memory_footprint = win_wrap_exceptions (bnd (w_get ''proc_memory_uss'' w_proc_memory_uss) (\<lambda>uss.
     bnd win_getpagesize (\<lambda>p. ret (uss * p))))"

definition win_page_faults :: "('z wsys_scheme, ppagefaults) py" where
  "win_page_faults = win_wrap_exceptions (bnd win_oneshot (\<lambda>info.
     let major = wo_HardFaultCount info; minor = wo_PageFaultCount info - major
     in ret \<lparr>pf_minor = minor, pf_major = major\<rparr>))"

definition win_memory_maps :: "('z wsys_scheme, (string \<times> string \<times> string \<times> int) list) py" where
  "win_memory_maps = bnd (win_wrap_exceptions (w_get ''proc_memory_maps'' w_proc_memory_maps)) (\<lambda>raw.
     for_each raw (\<lambda>(addr, perm, path, rss) acc. bnd (convert_dos_path path) (\<lambda>path.
       ret (acc @ [(py_hex addr, perm, path, rss)]))) [])"

text \<open>Functions that change the process.\<close>

definition w_do :: "string \<Rightarrow> int list \<Rightarrow> (win_ext \<Rightarrow> (int \<Rightarrow> exn + 'a) answer) \<Rightarrow> ('z wsys_scheme, 'a) py" where
  "w_do fn is f = bnd (me x_pid) (\<lambda>pid. ext_do fn (pid # is) [] (\<lambda>x h. f x h pid))"

definition win_kill :: "('z wsys_scheme, unit) py" where
  "win_kill = win_wrap_exceptions (w_do ''proc_kill'' [] w_proc_kill)"

definition SIGTERM :: int where "SIGTERM = 15"
definition CTRL_C_EVENT :: int where "CTRL_C_EVENT = 0"
definition CTRL_BREAK_EVENT :: int where "CTRL_BREAK_EVENT = 1"

definition win_send_signal :: "int \<Rightarrow> ('z wsys_scheme, unit) py" where
  "win_send_signal sig = win_wrap_exceptions
     (if sig = SIGTERM then w_do ''proc_kill'' [] w_proc_kill
      else if sig \<in> {CTRL_C_EVENT, CTRL_BREAK_EVENT}
      then w_do ''kill'' [sig] (\<lambda>x h pid. w_os_kill x h pid sig)
      else raise ValueError)"

definition win_suspend :: "('z wsys_scheme, unit) py" where
  "win_suspend = win_wrap_exceptions (w_do ''proc_suspend_or_resume'' [1] (\<lambda>x h pid. w_proc_suspend_or_resume x h pid True))"

definition win_resume :: "('z wsys_scheme, unit) py" where
  "win_resume = win_wrap_exceptions (w_do ''proc_suspend_or_resume'' [0] (\<lambda>x h pid. w_proc_suspend_or_resume x h pid False))"

definition win_username :: "('z wsys_scheme, string) py" where
  "win_username = win_wrap_exceptions (bnd (me x_pid) (\<lambda>pid.
     if pid \<in> {0, 4} then ret (''NT AUTHORITY'' @ [bslash] @ ''SYSTEM'')
     else bnd (w_get ''proc_username'' w_proc_username) (\<lambda>(domain, user). ret (domain @ [bslash] @ user))))"

definition win_create_time :: "bool \<Rightarrow> ('z wsys_scheme, flt) py" where
  "win_create_time fast_only = win_wrap_exceptions
     (let fast = bnd (w_get ''proc_times'' w_proc_times) (\<lambda>(user, system, created). ret created) in
      if fast_only then fast else or_if_denied fast (bnd win_oneshot (\<lambda>info. ret (wo_create_time info))))"

definition win_num_threads :: "('z wsys_scheme, int) py" where
  "win_num_threads = win_wrap_exceptions (bnd win_oneshot (\<lambda>info. ret (wo_num_threads info)))"

definition win_threads :: "('z wsys_scheme, pthread list) py" where
  "win_threads = win_wrap_exceptions (bnd (w_get ''proc_threads'' w_proc_threads) (\<lambda>rawlist.
     ret (mk_threads rawlist)))"

definition win_proc_cpu_times :: "('z wsys_scheme, pcputimes4) py" where
  "win_proc_cpu_times = win_wrap_exceptions
     (bnd (or_if_denied (bnd (w_get ''proc_times'' w_proc_times) (\<lambda>(user, system, created). ret (user, system)))
             (bnd win_oneshot (\<lambda>info. ret (wo_user_time info, wo_kernel_time info)))) (\<lambda>(user, system).
      ret \<lparr>pc4_user = user, pc4_system = system, pc4_children_user = 0, pc4_children_system = 0\<rparr>))"

definition win_cwd :: "('z wsys_scheme, string) py" where
  "win_cwd = win_wrap_exceptions (retry_error_partial_copy
     (bnd (me (\<lambda>p. (x_pid p, x_name p))) (\<lambda>(pid, name).
      if pid \<in> {0, 4} then raise (mk_AccessDenied (Some pid) name None)
      else bnd (w_get ''proc_cwd'' w_proc_cwd) (\<lambda>path. ret (nt_normpath path)))))"

definition win_open_files :: "('z wsys_scheme, popenfile2 list) py" where
  "win_open_files = win_wrap_exceptions (bnd (me x_pid) (\<lambda>pid.
     if pid \<in> {0, 4} then ret []
     else bnd (w_get ''proc_open_files'' w_proc_open_files) (\<lambda>raw.
       bnd (for_each raw (\<lambda>file acc. bnd (convert_dos_path file) (\<lambda>path.
              ret (acc @ [\<lparr>of2_path = path, of2_fd = -1\<rparr>]))) []) (\<lambda>files. ret (uniq files)))))"

definition win_proc_net_connections :: "string \<Rightarrow> ('z wsys_scheme, sconn list) py" where
  "win_proc_net_connections kind = win_wrap_exceptions (bnd (me x_pid) (\<lambda>pid. win_net_connections kind pid))"

definition win_priorities :: "string list" where
  "win_priorities = [''ABOVE_NORMAL_PRIORITY_CLASS'', ''BELOW_NORMAL_PRIORITY_CLASS'', ''HIGH_PRIORITY_CLASS'',
     ''IDLE_PRIORITY_CLASS'', ''NORMAL_PRIORITY_CLASS'', ''REALTIME_PRIORITY_CLASS'']"

text \<open>\<open>ProcessPriority(value)\<close> and \<open>ProcessIOPriority(value)\<close> are their numbers.\<close>

definition process_priority :: "(string \<Rightarrow> int) \<Rightarrow> int \<Rightarrow> exn + int" where
  "process_priority c v = (if v \<in> set (map c win_priorities) then Inr v else Inl ValueError)"

definition io_priority :: "int \<Rightarrow> exn + int" where
  "io_priority v = (if v \<in> {0, 1, 2, 3} then Inr v else Inl ValueError)"

definition win_nice_get :: "('z wsys_scheme, int) py" where
  "win_nice_get = win_wrap_exceptions (bnd (w_get ''proc_priority_get'' w_priority_get) (\<lambda>v.
     bnd (gets ext_const) (\<lambda>c. liftE (process_priority c v))))"

definition win_nice_set :: "int \<Rightarrow> ('z wsys_scheme, unit) py" where
  "win_nice_set v = win_wrap_exceptions (w_do ''proc_priority_set'' [v] (\<lambda>x h pid. w_priority_set x h pid v))"

definition win_ionice_get :: "('z wsys_scheme, int) py" where
  "win_ionice_get = win_wrap_exceptions (bnd (w_get ''proc_io_priority_get'' w_io_priority_get) (\<lambda>v. liftE (io_priority v)))"

text \<open>\<open>value\<close> is \<open>None\<close> or a number.\<close>

definition win_ionice_set :: "int \<Rightarrow> int option \<Rightarrow> ('z wsys_scheme, unit) py" where
  "win_ionice_set ioclass v = win_wrap_exceptions
     (if v \<noteq> None \<and> v \<noteq> Some 0 then raise TypeError
      else if ioclass \<notin> {0, 1, 2, 3} then raise ValueError
      else w_do ''proc_io_priority_set'' [ioclass] (\<lambda>x h pid. w_io_priority_set x h pid ioclass))"

record win_pio =
  wio_read_count :: int
  wio_write_count :: int
  wio_read_bytes :: int
  wio_write_bytes :: int
  wio_other_count :: int
  wio_other_bytes :: int

definition win_io_counters :: "('z wsys_scheme, win_pio) py" where
  "win_io_counters = win_wrap_exceptions
     (bnd (or_if_denied (w_get ''proc_io_counters'' w_io_counters)
             (bnd win_oneshot (\<lambda>info. ret (wo_io_rcount info, wo_io_wcount info, wo_io_rbytes info,
                wo_io_wbytes info, wo_io_count_others info, wo_io_bytes_others info)))) (\<lambda>(a, b, c, d, e, f).
      ret \<lparr>wio_read_count = a, wio_write_count = b, wio_read_bytes = c, wio_write_bytes = d,
           wio_other_count = e, wio_other_bytes = f\<rparr>))"

definition win_status :: "('z wsys_scheme, ProcessStatus) py" where
  "win_status = win_wrap_exceptions (bnd win_oneshot (\<lambda>info.
     ret (if wo_is_suspended info then STATUS_STOPPED else STATUS_RUNNING)))"

definition from_bitmask :: "int \<Rightarrow> int list" where
  "from_bitmask x = map int (filter (\<lambda>i. bit x i) [0..<64])"

definition to_bitmask :: "int list \<Rightarrow> exn + int" where
  "to_bitmask ls = (if ls = [] then Inl ValueError
     else Inr (fold (\<lambda>b out. or out (2 ^ nat b)) ls 0))"

definition win_cpu_affinity_get :: "('z wsys_scheme, int list) py" where
  "win_cpu_affinity_get = win_wrap_exceptions (bnd (w_get ''proc_cpu_affinity_get'' w_affinity_get) (\<lambda>bitmask.
     ret (from_bitmask bitmask)))"

definition win_cpu_affinity_set :: "int list \<Rightarrow> ('z wsys_scheme, unit) py" where
  "win_cpu_affinity_set v = win_wrap_exceptions (bnd win_per_cpu_times (\<lambda>ts.
     if \<exists>cpu \<in> set v. \<not> (0 \<le> cpu \<and> cpu < int (length ts)) then raise ValueError
     else bnd (liftE (to_bitmask v)) (\<lambda>bitmask.
       w_do ''proc_cpu_affinity_set'' [bitmask] (\<lambda>x h pid. w_affinity_set x h pid bitmask))))"

definition win_num_handles :: "('z wsys_scheme, int) py" where
  "win_num_handles = win_wrap_exceptions (or_if_denied (w_get ''proc_num_handles'' w_num_handles)
     (bnd win_oneshot (\<lambda>info. ret (wo_num_handles info))))"

definition win_num_ctx_switches :: "('z wsys_scheme, pctxsw) py" where
  "win_num_ctx_switches = win_wrap_exceptions (bnd win_oneshot (\<lambda>info.
     ret \<lparr>cx_voluntary = wo_ctx_switches info, cx_involuntary = 0\<rparr>))"

section \<open>\<open>wait\<close>\<close>

text \<open>The internal polling, with \<open>stop_at\<close> missing when there is no timeout.\<close>

definition win_pid_exists :: "('z wsys_scheme, bool) py" where
  "win_pid_exists = w_get ''pid_exists'' w_pid_exists"

definition win_late :: "flt option \<Rightarrow> ('z wsys_scheme, bool) py" where
  "win_late stop_at = (case stop_at of None \<Rightarrow> ret False
     | Some t \<Rightarrow> if t = 0 then ret False else bnd monotonic (\<lambda>now. ret (t \<le> now)))"

partial_function (option) win_poll ::
  "int option \<Rightarrow> flt option \<Rightarrow> flt option \<Rightarrow> flt \<Rightarrow> 'z wsys_scheme \<Rightarrow> ('z wsys_scheme, int option) result" where
  "win_poll exit_code timeout stop_at delay s =
     (case win_pid_exists s of
        (Inl e, t) \<Rightarrow> Some (Inl e, t)
      | (Inr ex, t) \<Rightarrow>
          if \<not> ex then Some (Inr exit_code, t)
          else (case win_late stop_at t of
              (Inl e, u) \<Rightarrow> Some (Inl e, u)
            | (Inr late, u) \<Rightarrow>
                if late then Some (Inl (mk_TimeoutExpired (secs_of timeout) (Some (x_pid (xp u))) (x_name (xp u))), u)
                else (case sleep_call delay u of (q, v) \<Rightarrow>
                  win_poll exit_code timeout stop_at (min (fmul delay 2) retry_max_delay) v)))"

text \<open>
  The statements before it: the deadline, and the wait of the extension, which can block for as
  long as the milliseconds it is given say, or for ever with \<open>INFINITE\<close>.
\<close>

definition win_deadline :: "flt option \<Rightarrow> ('z wsys_scheme, flt option) py" where
  "win_deadline timeout = (case timeout of None \<Rightarrow> ret None
     | Some x \<Rightarrow> bnd monotonic (\<lambda>now. ret (Some (fadd now x))))"

definition win_proc_wait :: "flt option \<Rightarrow> int \<Rightarrow> ('z wsys_scheme, int option) py" where
  "win_proc_wait timeout cext_timeout = bnd (me (\<lambda>p. (x_pid p, x_name p))) (\<lambda>(pid, name).
     try_except (ext_try ''proc_wait'' [pid, cext_timeout] [] (\<lambda>x h. w_proc_wait x h pid cext_timeout))
       (\<lambda>e. if e = CextTimeoutExpired then raise (mk_TimeoutExpired (secs_of timeout) (Some pid) name)
            else if e = CextTimeoutAbandoned then ret None
            else raise e))"

definition win_wait_start :: "flt option \<Rightarrow> 'z wsys_scheme \<Rightarrow> ('z wsys_scheme, int option \<times> flt option) result" where
  "win_wait_start timeout s =
     (let cext_timeout = (case timeout of None \<Rightarrow> ext_const s ''INFINITE'' | Some x \<Rightarrow> trunc_int (fmul x 1000)) in
      case win_deadline timeout s of
        (Inl e, t) \<Rightarrow> Some (Inl e, t)
      | (Inr stop_at, t) \<Rightarrow>
          (case may_block (SExt ''proc_wait'' [x_pid (xp t), cext_timeout] []) (win_proc_wait timeout cext_timeout) t of
             None \<Rightarrow> None
           | Some (Inl e, u) \<Rightarrow> Some (Inl e, u)
           | Some (Inr exit_code, u) \<Rightarrow> Some (Inr (exit_code, stop_at), u)))"

definition win_wait_body :: "flt option \<Rightarrow> 'z wsys_scheme \<Rightarrow> ('z wsys_scheme, int option) result" where
  "win_wait_body timeout s = (case win_wait_start timeout s of
       None \<Rightarrow> None
     | Some (Inl e, t) \<Rightarrow> Some (Inl e, t)
     | Some (Inr (exit_code, stop_at), t) \<Rightarrow> win_poll exit_code timeout stop_at retry_delay t)"

definition win_wait :: "flt option \<Rightarrow> 'z wsys_scheme \<Rightarrow> ('z wsys_scheme, int option) result" where
  "win_wait timeout s = (case win_wait_body timeout s of
       None \<Rightarrow> None
     | Some (r, t) \<Rightarrow> Some (win_wrap_exceptions (\<lambda>_. (r, t)) s))"

end
