(* ===== verification/Win_Facts.thy ===== *)
theory Win_Facts
  imports Win_Process
begin

text \<open>
  What the Windows module guarantees: no bare system error leaves a method, retries are
  bounded, waiting ends, and CPU masks and DOS paths are translated as they should be.
\<close>

section \<open>A system to start from\<close>

text \<open>On it every compiled function is missing; the witnesses supply those they need.\<close>

definition null_win :: win_ext where
  "null_win = \<lparr>w_perf_info = (\<lambda>h. Inl NotImplementedError), w_swap_percent = (\<lambda>h. Inl NotImplementedError),
     w_query_dos_device = (\<lambda>h a. Inl NotImplementedError), w_getpagesize = (\<lambda>h. Inl NotImplementedError),
     w_disk_usage = (\<lambda>h a. Inl NotImplementedError), w_getcwd = (\<lambda>h. Inl NotImplementedError),
     w_disk_partitions = (\<lambda>h a. Inl NotImplementedError), w_cpu_times = (\<lambda>h. Inl NotImplementedError),
     w_per_cpu_times = (\<lambda>h. Inl NotImplementedError), w_cpu_count_logical = (\<lambda>h. Inl NotImplementedError),
     w_cpu_count_cores = (\<lambda>h. Inl NotImplementedError), w_cpu_stats = (\<lambda>h. Inl NotImplementedError),
     w_cpu_freq = (\<lambda>h. Inl NotImplementedError), w_init_loadavg = (\<lambda>h. Inl NotImplementedError),
     w_getloadavg = (\<lambda>h. Inl NotImplementedError), w_has_unix = True,
     w_net_connections = (\<lambda>h a b c. Inl NotImplementedError), w_net_if_stats = (\<lambda>h. Inl NotImplementedError),
     w_net_io_counters = (\<lambda>h. Inl NotImplementedError), w_net_if_addrs = (\<lambda>h. Inl NotImplementedError),
     w_sensors_battery = (\<lambda>h. Inl NotImplementedError), w_boot_time = (\<lambda>h. Inl NotImplementedError),
     w_users = (\<lambda>h. Inl NotImplementedError), w_svc_enumerate = (\<lambda>h. Inl NotImplementedError),
     w_svc_query_config = (\<lambda>h a. Inl NotImplementedError), w_svc_query_status = (\<lambda>h a. Inl NotImplementedError),
     w_svc_query_descr = (\<lambda>h a. Inl NotImplementedError), w_pids = (\<lambda>h. Inl NotImplementedError),
     w_pid_exists = (\<lambda>h a. Inl NotImplementedError), w_ppid_map = (\<lambda>h. Inl NotImplementedError),
     w_proc_oneshot = (\<lambda>h a. Inl NotImplementedError), w_proc_exe = (\<lambda>h a. Inl NotImplementedError),
     w_proc_cmdline = (\<lambda>h a b. Inl NotImplementedError), w_proc_environ = (\<lambda>h a. Inl NotImplementedError),
     w_proc_ppid = (\<lambda>h a. Inl NotImplementedError), w_proc_memory_info = (\<lambda>h a. Inl NotImplementedError),
     w_proc_memory_uss = (\<lambda>h a. Inl NotImplementedError), w_proc_memory_maps = (\<lambda>h a. Inl NotImplementedError),
     w_proc_kill = (\<lambda>h a. Inl NotImplementedError), w_os_kill = (\<lambda>h a b. Inl NotImplementedError),
     w_proc_wait = (\<lambda>h a b. Inl NotImplementedError), w_proc_username = (\<lambda>h a. Inl NotImplementedError),
     w_proc_times = (\<lambda>h a. Inl NotImplementedError), w_proc_threads = (\<lambda>h a. Inl NotImplementedError),
     w_proc_suspend_or_resume = (\<lambda>h a b. Inl NotImplementedError), w_proc_cwd = (\<lambda>h a. Inl NotImplementedError),
     w_proc_open_files = (\<lambda>h a. Inl NotImplementedError), w_priority_get = (\<lambda>h a. Inl NotImplementedError),
     w_priority_set = (\<lambda>h a b. Inl NotImplementedError), w_io_priority_get = (\<lambda>h a. Inl NotImplementedError),
     w_io_priority_set = (\<lambda>h a b. Inl NotImplementedError), w_io_counters = (\<lambda>h a. Inl NotImplementedError),
     w_affinity_get = (\<lambda>h a. Inl NotImplementedError), w_affinity_set = (\<lambda>h a b. Inl NotImplementedError),
     w_num_handles = (\<lambda>h a. Inl NotImplementedError)\<rparr>"

definition null_wsys :: "int \<Rightarrow> wsys" where
  "null_wsys pid = esys.extend (psx.extend null_psx (esys.fields null_win (\<lambda>_. 0) (xproc_init pid [])))
     (wsys.fields [] None False)"

lemma null_wsys_simps [simp]:
  "sys_os (null_wsys pid) = null_os" "hist (null_wsys pid) = []" "ext (null_wsys pid) = null_win"
  "ext_const (null_wsys pid) = (\<lambda>_. 0)" "xp (null_wsys pid) = xproc_init pid []" "dos_cache (null_wsys pid) = []"
  by (simp_all add: null_wsys_def null_psx_def null_sys_def sys.defs psx.defs esys.defs wsys.defs)

section \<open>Errors\<close>

lemma convert_oserror_cases:
  assumes "is_OSError e"
  shows "is_AccessDenied (convert_oserror c e pid name) \<or> is_NoSuchProcess (convert_oserror c e pid name)
     \<or> convert_oserror c e pid name = e \<and> \<not> is_permission_err c e \<and> \<not> is_ProcessLookupError e"
  by (auto simp: convert_oserror_def mk_AccessDenied_def mk_NoSuchProcess_opt_def)

lemma win_wrap_Inr: "win_wrap_exceptions m s = (Inr x, t) \<longleftrightarrow> m s = (Inr x, t)"
  by (auto simp: win_wrap_exceptions_def split: sum.splits prod.splits)

lemma win_wrap_Inl:
  assumes "win_wrap_exceptions m s = (Inl e', t)"
  obtains e where "m s = (Inl e, t)"
    "e' = (if is_OSError e then convert_oserror (ext_const t) e (Some (x_pid (xp t))) (x_name (xp t)) else e)"
  using assms by (auto simp: win_wrap_exceptions_def split: sum.splits prod.splits)

section \<open>Retries\<close>

text \<open>The delay before the \<open>k\<close>-th retry.\<close>

fun retry_delays :: "nat \<Rightarrow> flt \<Rightarrow> flt" where
  "retry_delays 0 d = d"
| "retry_delays (Suc k) d = retry_delays k (min (fmul d 2) retry_max_delay)"

definition partial_copy :: "exn \<Rightarrow> bool" where
  "partial_copy e \<longleftrightarrow> is_OSError e \<and> winerror_of e = Some ERROR_PARTIAL_COPY"

text \<open>\<open>k\<close> attempts that failed with \<open>ERROR_PARTIAL_COPY\<close>, each followed by its delay.\<close>

inductive failed :: "('z wsys_scheme, 'a) py \<Rightarrow> flt \<Rightarrow> 'z wsys_scheme \<Rightarrow> nat \<Rightarrow> 'z wsys_scheme \<Rightarrow> bool"
  for m d s where
  start: "failed m d s 0 s"
| again: "failed m d s k t \<Longrightarrow> m t = (Inl e, u) \<Longrightarrow> partial_copy e
     \<Longrightarrow> failed m d s (Suc k) (u\<lparr>hist := SSleep (retry_delays k d) # hist u\<rparr>)"

lemma failed_first:
  assumes "m s = (Inl e, u)" "partial_copy e"
    and "failed m (min (fmul d 2) retry_max_delay) (u\<lparr>hist := SSleep d # hist u\<rparr>) k t"
  shows "failed m d s (Suc k) t"
  using assms(3)
proof (induction rule: failed.induct)
  case start
  then show ?case using failed.again [of m d s 0 s e u, OF failed.start assms(1,2)] by simp
next
  case (again k t e' u')
  from failed.again [OF again.IH again.hyps(2,3)] show ?case by simp
qed

lemma retry_outcome:
  assumes "retry_partial_copy n d m s = (r, t)"
  shows "(\<exists>k < n. \<exists>u. failed m d s k u \<and> m u = (r, t) \<and> (\<forall>e. r = Inl e \<longrightarrow> \<not> partial_copy e))
     \<or> (failed m d s n t \<and> r = Inl (mk_AccessDenied (Some (x_pid (xp t))) (x_name (xp t)) (Some ''retried'')))"
  using assms
proof (induction n arbitrary: d s)
  case 0
  then show ?case by (auto intro: failed.start)
next
  case (Suc n)
  obtain q u where m: "m s = (q, u)" by (cases "m s")
  note first = failed_first [of m s _ u d]
  show ?case
  proof (cases "\<exists>e. q = Inl e \<and> partial_copy e")
    case False
    then have "r = q \<and> t = u" using Suc.prems m
      by (cases q) (auto simp: partial_copy_def)
    then show ?thesis using m False by (auto intro: failed.start)
  next
    case True
    then obtain e where e: "q = Inl e" "partial_copy e" by blast
    let ?v = "u\<lparr>hist := SSleep d # hist u\<rparr>" and ?d = "min (fmul d 2) retry_max_delay"
    have "retry_partial_copy n ?d m ?v = (r, t)"
      using Suc.prems m e by (simp add: partial_copy_def sleep_call_def)
    from Suc.IH [OF this] show ?thesis
    proof (elim disjE exE conjE)
      fix k w assume "k < n" "failed m ?d ?v k w" "m w = (r, t)" "\<forall>e. r = Inl e \<longrightarrow> \<not> partial_copy e"
      then show ?thesis using first [OF m [unfolded e(1)] e(2)] by (intro disjI1 exI [of _ "Suc k"]) auto
    next
      assume "failed m ?d ?v n t" "r = Inl (mk_AccessDenied (Some (x_pid (xp t))) (x_name (xp t)) (Some ''retried''))"
      then show ?thesis using first [OF m [unfolded e(1)] e(2)] by auto
    qed
  qed
qed

lemma retry_max_pos: "0 \<le> retry_max_delay" and retry_delay_le: "0 \<le> retry_delay" "retry_delay \<le> retry_max_delay"
  using fl_mono [of 0 "4 / 100"] fl_mono [of 0 "1 / 10000"] fl_mono [of "1 / 10000" "4 / 100"]
  by (simp_all add: retry_max_delay_def retry_delay_def)

lemma retry_delays_bounds: "0 \<le> d \<Longrightarrow> d \<le> retry_max_delay \<Longrightarrow> 0 \<le> retry_delays k d \<and> retry_delays k d \<le> retry_max_delay"
proof (induction k arbitrary: d)
  case (Suc k)
  have "0 \<le> fmul d 2" using fl_mono [of 0 "d * 2"] Suc.prems by (simp add: fmul_def)
  then show ?case using Suc.IH [of "min (fmul d 2) retry_max_delay"] retry_max_pos by simp
qed simp

text \<open>
  C26: \<open>retry_error_partial_copy\<close> makes at most 33 attempts, with a delay between 0 and 0.04
  seconds after each failure; what it returns or raises is what the first attempt that did not
  fail with \<open>ERROR_PARTIAL_COPY\<close> returned or raised, and \<open>AccessDenied\<close> when all 33 failed that
  way.  That error itself never gets out.
\<close>

theorem retry_bounded:
  assumes "retry_error_partial_copy m s = (r, t)"
  shows "((\<exists>k < 33. \<exists>u. failed m retry_delay s k u \<and> m u = (r, t))
       \<or> failed m retry_delay s 33 t \<and> (\<exists>e. r = Inl e \<and> is_AccessDenied e))
     \<and> (\<forall>e. r = Inl e \<longrightarrow> \<not> partial_copy e)
     \<and> (\<forall>k. 0 \<le> retry_delays k retry_delay \<and> retry_delays k retry_delay \<le> retry_max_delay)"
proof -
  have d: "0 \<le> retry_delays k retry_delay \<and> retry_delays k retry_delay \<le> retry_max_delay" for k
    using retry_delay_le by (rule retry_delays_bounds)
  have "(\<exists>k < 33. \<exists>u. failed m retry_delay s k u \<and> m u = (r, t) \<and> (\<forall>e. r = Inl e \<longrightarrow> \<not> partial_copy e))
     \<or> (failed m retry_delay s 33 t \<and> r = Inl (mk_AccessDenied (Some (x_pid (xp t))) (x_name (xp t)) (Some ''retried'')))"
    using assms unfolding retry_error_partial_copy_def by (rule retry_outcome)
  moreover have "\<not> partial_copy (mk_AccessDenied p n q)" "is_AccessDenied (mk_AccessDenied p n q)" for p n q
    by (simp_all add: partial_copy_def mk_AccessDenied_def)
  ultimately show ?thesis using d by blast
qed

theorem retry_bounded_witness:
  "\<exists>r t. retry_error_partial_copy (raise (WinError EINVAL 299) :: (wsys, unit) py) (null_wsys 7) = (r, t)
     \<and> (\<forall>e. r = Inl e \<longrightarrow> \<not> partial_copy e)"
proof -
  obtain r t where "retry_error_partial_copy (raise (WinError EINVAL 299) :: (wsys, unit) py) (null_wsys 7) = (r, t)"
    by (cases "retry_error_partial_copy (raise (WinError EINVAL 299) :: (wsys, unit) py) (null_wsys 7)")
  from this retry_bounded [OF this] show ?thesis by blast
qed

section \<open>CPU masks\<close>

lemma fold_mask_bit:
  "bit (fold (\<lambda>b out. or out (2 ^ nat b)) ls x) n \<longleftrightarrow> bit (x :: int) n \<or> (\<exists>b \<in> set ls. nat b = n)"
  by (induction ls arbitrary: x) (auto simp: bit_or_iff bit_exp_iff)

lemma mask_roundtrip:
  assumes "to_bitmask ls = Inr m" "\<forall>b \<in> set ls. 0 \<le> b \<and> b < 64"
  shows "from_bitmask m = sorted_list_of_set (set ls)"
proof -
  have bits: "bit m i \<longleftrightarrow> int i \<in> set ls" for i
  proof -
    have "(\<exists>b \<in> set ls. nat b = i) \<longleftrightarrow> int i \<in> set ls"
      using assms(2) by (auto intro: bexI [of _ "int i"])
    then show ?thesis using assms(1) fold_mask_bit [of ls 0 i] by (auto simp: to_bitmask_def split: if_splits)
  qed
  let ?ns = "filter (\<lambda>i. int i \<in> set ls) [0..<64]"
  have "set (map int ?ns) = set ls"
  proof
    show "set (map int ?ns) \<subseteq> set ls" by auto
    show "set ls \<subseteq> set (map int ?ns)"
    proof
      fix b assume b: "b \<in> set ls"
      then have "0 \<le> b" "b < 64" using assms(2) by auto
      then have "b = int (nat b)" "nat b \<in> set ?ns" using b by auto
      then show "b \<in> set (map int ?ns)" by (metis imageI list.set_map)
    qed
  qed
  moreover have "sorted (map int ?ns)" "distinct (map int ?ns)"
    by (auto simp: sorted_map distinct_map intro: sorted_wrt_filter)
  ultimately have "sorted_list_of_set (set ls) = map int ?ns"
    using sorted_list_of_set.idem_if_sorted_distinct by metis
  then show ?thesis by (simp only: from_bitmask_def bits)
qed

text \<open>
  C25: \<open>cpu_affinity_set\<close> refuses a CPU the system does not have before it changes anything;
  otherwise, and if there are at most 64 CPUs, the one mask it hands to the system is that which
  \<open>cpu_affinity_get\<close> reads back as the given CPUs, each once and in order.
\<close>

theorem affinity_set_mask:
  assumes "win_cpu_affinity_set cpus s = (r, t)"
    and "w_per_cpu_times (ext s) (hist s) = Inr rows" and "length rows \<le> 64"
  shows "if cpus \<noteq> [] \<and> (\<forall>c \<in> set cpus. 0 \<le> c \<and> c < int (length rows))
     then \<exists>mask. hist t = SExtSet ''proc_cpu_affinity_set'' [x_pid (xp s), mask] [] # SExt ''per_cpu_times'' [] [] # hist s
        \<and> from_bitmask mask = sorted_list_of_set (set cpus)
     else r = Inl ValueError \<and> hist t = SExt ''per_cpu_times'' [] [] # hist s"
proof (cases "\<exists>c \<in> set cpus. \<not> (0 \<le> c \<and> c < int (length rows))")
  case True
  then show ?thesis using assms(1,2)
    by (auto simp: win_cpu_affinity_set_def win_per_cpu_times_def win_wrap_exceptions_def)
next
  case False
  then have ok: "\<forall>c \<in> set cpus. 0 \<le> c \<and> c < 64" using assms(3) by fastforce
  show ?thesis
  proof (cases "to_bitmask cpus")
    case (Inl e)
    then have "cpus = []" "e = ValueError" by (auto simp: to_bitmask_def split: if_splits)
    then show ?thesis using assms(1,2) Inl
      by (auto simp: win_cpu_affinity_set_def win_per_cpu_times_def win_wrap_exceptions_def)
  next
    case (Inr mask)
    then have "cpus \<noteq> []" by (auto simp: to_bitmask_def)
    moreover have "hist t = SExtSet ''proc_cpu_affinity_set'' [x_pid (xp s), mask] [] # SExt ''per_cpu_times'' [] [] # hist s"
      using assms(1,2) False Inr
      by (auto simp: win_cpu_affinity_set_def win_per_cpu_times_def win_wrap_exceptions_def w_do_def
          split: sum.splits)
    ultimately show ?thesis using mask_roundtrip [OF Inr ok] False by auto
  qed
qed

theorem affinity_set_mask_witness:
  "let s = (null_wsys 7)\<lparr>ext := null_win\<lparr>w_per_cpu_times := \<lambda>h. Inr (replicate 4 (0, 0, 0, 0, 0))\<rparr>\<rparr> in
   \<exists>mask. hist (snd (win_cpu_affinity_set [3, 1, 3] s))
       = [SExtSet ''proc_cpu_affinity_set'' [7, mask] [], SExt ''per_cpu_times'' [] []]
     \<and> from_bitmask mask = [1, 3]"
proof -
  let ?s = "(null_wsys 7)\<lparr>ext := null_win\<lparr>w_per_cpu_times := \<lambda>h. Inr (replicate 4 (0, 0, 0, 0, 0))\<rparr>\<rparr>"
  obtain r t where run: "win_cpu_affinity_set [3, 1, 3] ?s = (r, t)" by (cases "win_cpu_affinity_set [3, 1, 3] ?s")
  have rows: "w_per_cpu_times (ext ?s) (hist ?s) = Inr (replicate 4 (0, 0, 0, 0, 0))" by simp
  have "set [3, 1, 3 :: int] = set [1, 3]" by auto
  then have "sorted_list_of_set (set [3, 1, 3 :: int]) = [1, 3]"
    by (simp only: sorted_list_of_set.idem_if_sorted_distinct) simp
  with affinity_set_mask [OF run rows] show ?thesis by (simp add: run Let_def xproc_init_def)
qed

section \<open>DOS paths\<close>

lemma dos_device_run:
  assumes "bslash \<notin> set a" "bslash \<notin> set b" "a \<noteq> []" "a \<noteq> ''??''" "\<not> (a = ''Device'' \<and> b = ''Mup'')"
    and rest: "rest = [] \<or> (\<exists>r. rest = bslash # r \<and> (r = [] \<or> \<not> is_sep (hd r)))"
    and q: "w_query_dos_device (ext s) (hist s) ([bslash] @ a @ [bslash] @ b) = Inr [d, CHR '':'']"
    and d: "\<not> is_sep d"
  shows "dos_path ([bslash] @ a @ [bslash] @ b @ rest) s
     = (Inr ([d, CHR '':''] @ rest), s\<lparr>hist := SExt ''QueryDosDevice'' [] [[bslash] @ a @ [bslash] @ b] # hist s\<rparr>)"
proof -
  let ?raw = "[bslash] @ a @ [bslash] @ b" and ?s = "[bslash] @ a @ [bslash] @ b @ rest"
  obtain more where m: "split_on bslash (b @ rest) = b # more"
  proof (cases rest)
    case Nil
    then show ?thesis using that assms(2) by (simp add: split_on_notin)
  next
    case (Cons c r)
    then have "c = bslash" using rest by auto
    then show ?thesis using that assms(2) Cons by (simp add: split_on_append)
  qed
  have parts: "split_on bslash ?s = [] # a # b # more"
    using assms(1) m split_on_append [of bslash a "b @ rest"] by simp
  then have raw: "parts_upto ?s 3 = ?raw" by (simp add: parts_upto_def)
  obtain a0 as where a: "a = a0 # as" "a0 \<noteq> bslash" using assms(1,3) by (cases a) auto
  have n1: "\<not> startswith ?s [bslash, bslash]" using a by (simp add: startswith_def)
  have eq: "a = a' \<and> b = b'" if "?raw = [bslash] @ a' @ [bslash] @ b'" "bslash \<notin> set a'" "bslash \<notin> set b'" for a' b'
    using arg_cong [OF that(1), of "split_on bslash"] that(2,3) assms(1,2)
    by (simp add: split_on_append split_on_notin)
  have n2: "?raw \<notin> {[bslash] @ ''??'' @ [bslash] @ ''UNC'', [bslash] @ ''Device'' @ [bslash] @ ''Mup''}"
    using eq [of "''??''" "''UNC''"] eq [of "''Device''" "''Mup''"] assms(4,5) by auto
  have n3: "\<not> startswith ?raw ([bslash] @ ''??'' @ [bslash])"
  proof
    assume st: "startswith ?raw ([bslash] @ ''??'' @ [bslash])"
    have "take 4 ?raw = [bslash] @ ''??'' @ [bslash]" using st by (simp add: startswith_def numeral_3_eq_3)
    then have "?raw = ([bslash] @ ''??'' @ [bslash]) @ drop 4 ?raw"
      using append_take_drop_id [of 4 ?raw] by (simp del: take_Suc_Cons append_take_drop_id)
    then have "a @ bslash # b = ''??'' @ bslash # drop 4 ?raw" by simp
    then have "takeWhile (\<lambda>c. c \<noteq> bslash) (a @ bslash # b) = ''??''" by (simp only:) simp
    moreover have "takeWhile (\<lambda>c. c \<noteq> bslash) (a @ bslash # b) = a"
      using assms(1) by (subst takeWhile_append2) auto
    ultimately show False using assms(4) by simp
  qed
  have split_drive: "splitroot [d, CHR '':''] = ([d, CHR '':''], [], [])"
    using d by (simp add: splitroot_def norm_sep_def is_sep_def)
  have splitroot_nil: "splitroot [] = ([], [], [])" by (simp add: splitroot_def norm_sep_def)
  have j: "nt_join [d, CHR '':''] rest = [d, CHR '':''] @ rest"
  proof (cases rest)
    case Nil
    then show ?thesis by (simp add: nt_join_def split_drive splitroot_nil no_sep_end_def)
  next
    case (Cons c r)
    then have "rest = bslash # r" "r = [] \<or> \<not> is_sep (hd r)" using rest by auto
    then have "splitroot rest = ([], [bslash], r)" by (cases r) (simp_all add: splitroot_def norm_sep_def is_sep_def)
    then show ?thesis using \<open>rest = bslash # r\<close> by (simp add: nt_join_def split_drive)
  qed
  show ?thesis
    unfolding dos_path_def Let_def raw using n1 n2 n3 q j by simp
qed

text \<open>The cache of \<open>convert_dos_path\<close> holds at most 512 paths, each once.\<close>

definition dos_cache_ok :: "'z wsys_scheme \<Rightarrow> bool" where
  "dos_cache_ok s \<longleftrightarrow> distinct (map fst (dos_cache s)) \<and> length (dos_cache s) \<le> 512"

lemma pres_dos_path: "pres (\<lambda>s t. xframe s t \<and> wsys.more t = wsys.more s \<and> dos_cache t = dos_cache s) (dos_path s)"
  unfolding dos_path_def Let_def pres_def
  by (auto simp: xframe_def split: sum.splits prod.splits)

lemma dos_path_cache: "dos_path p s = (r, t) \<Longrightarrow> dos_cache t = dos_cache s \<and> xframe s t"
  using presD [OF pres_dos_path] by blast

text \<open>
  C36: \<open>convert_dos_path\<close> turns a path on a device into the path on the drive the system names
  for the device; it keeps a cache of at most 512 paths, each of them once, and when it is called
  again for the same path it gives the same answer without asking the system.
\<close>

theorem convert_dos_path_cached:
  assumes "convert_dos_path p s = (Inr q, t)" and "dos_cache_ok s"
  shows "dos_cache_ok t \<and> fst (convert_dos_path p t) = Inr q \<and> hist (snd (convert_dos_path p t)) = hist t
     \<and> (p \<notin> set (map fst (dos_cache s)) \<longrightarrow>
          (\<forall>dev rest d. p = dev @ rest \<and> (\<exists>a b. dev = [bslash] @ a @ [bslash] @ b \<and> bslash \<notin> set a \<and> bslash \<notin> set b
               \<and> a \<noteq> [] \<and> a \<noteq> ''??'' \<and> \<not> (a = ''Device'' \<and> b = ''Mup''))
             \<and> (rest = [] \<or> (\<exists>r. rest = bslash # r \<and> (r = [] \<or> \<not> is_sep (hd r)))) \<and> \<not> is_sep d
             \<and> w_query_dos_device (ext s) (hist s) dev = Inr [d, CHR '':'']
             \<longrightarrow> q = [d, CHR '':''] @ rest))"
proof (cases "map_of (dos_cache s) p")
  case (Some q')
  then have t: "q' = q" "t = s\<lparr>dos_cache := (p, q) # AList.delete p (dos_cache s)\<rparr>"
    using assms(1) by (auto simp: convert_dos_path_def)
  have "length (AList.delete p (dos_cache s)) < length (dos_cache s)"
    using Some length_filter_less [of "(p, q')" "dos_cache s"]
    by (auto simp: AList.delete_eq dest!: map_of_SomeD)
  then have "dos_cache_ok t" using assms(2) t
    by (simp add: dos_cache_ok_def distinct_delete) (auto simp: AList.delete_eq)
  moreover have "p \<in> set (map fst (dos_cache s))" using Some by (auto dest!: map_of_SomeD simp: image_iff) force
  ultimately show ?thesis using t by (simp add: convert_dos_path_def)
next
  case None
  then obtain u where u: "dos_path p s = (Inr q, u)" "t = u\<lparr>dos_cache := take 512 ((p, q) # dos_cache u)\<rparr>"
    using assms(1) by (auto simp: convert_dos_path_def split: sum.splits prod.splits)
  have c: "dos_cache u = dos_cache s" using dos_path_cache [OF u(1)] by simp
  have new: "p \<notin> set (map fst (dos_cache s))" using None by (auto simp: map_of_eq_None_iff)
  have sub: "map fst (take 511 (dos_cache s)) = take 511 (map fst (dos_cache s))" by (simp add: take_map)
  have "dos_cache_ok t" using assms(2) new u(2) c
    by (auto simp: dos_cache_ok_def sub dest: in_set_takeD)
  moreover have "map_of (dos_cache t) p = Some q" using u(2) by simp
  moreover have "q = [d, CHR '':''] @ rest"
    if "p = dev @ rest" "dev = [bslash] @ a @ [bslash] @ b" "bslash \<notin> set a" "bslash \<notin> set b"
      "a \<noteq> []" "a \<noteq> ''??''" "\<not> (a = ''Device'' \<and> b = ''Mup'')"
      "rest = [] \<or> (\<exists>r. rest = bslash # r \<and> (r = [] \<or> \<not> is_sep (hd r)))" "\<not> is_sep d"
      "w_query_dos_device (ext s) (hist s) dev = Inr [d, CHR '':'']" for dev rest d a b
    using dos_device_run [of a b rest s d] that u(1) by simp
  ultimately show ?thesis by (auto simp: convert_dos_path_def)
qed

definition dos_demo :: wsys where
  "dos_demo = (null_wsys 7)\<lparr>ext := null_win\<lparr>w_query_dos_device := \<lambda>h p. Inr ''C:''\<rparr>\<rparr>"

theorem convert_dos_path_cached_witness:
  "let p = [bslash] @ ''Device'' @ [bslash] @ ''HarddiskVolume1'' @ [bslash] @ ''Windows'' in
   \<exists>t. convert_dos_path p dos_demo = (Inr (''C:'' @ [bslash] @ ''Windows''), t)
     \<and> fst (convert_dos_path p t) = Inr (''C:'' @ [bslash] @ ''Windows'')"
proof -
  let ?d = "[bslash] @ ''Device'' @ [bslash] @ ''HarddiskVolume1''" and ?r = "[bslash] @ ''Windows''"
  have "dos_path (?d @ ?r) dos_demo = (Inr (''C:'' @ ?r), dos_demo\<lparr>hist := SExt ''QueryDosDevice'' [] [?d] # hist dos_demo\<rparr>)"
    using dos_device_run [of "''Device''" "''HarddiskVolume1''" ?r dos_demo "CHR ''C''"]
    by (simp add: dos_demo_def is_sep_def)
  then obtain t where t: "convert_dos_path (?d @ ?r) dos_demo = (Inr (''C:'' @ ?r), t)"
    by (simp add: convert_dos_path_def dos_demo_def)
  have "dos_cache_ok dos_demo" by (simp add: dos_cache_ok_def dos_demo_def)
  from convert_dos_path_cached [OF t this] t show ?thesis by (simp add: Let_def)
qed

section \<open>Waiting\<close>

text \<open>What \<open>win_poll\<close> returns with an exit code, and when it gives up.\<close>

definition win_done :: "'z wsys_scheme \<Rightarrow> flt option \<Rightarrow> int option \<Rightarrow> (exn + int option) \<times> 'z wsys_scheme \<Rightarrow> bool" where
  "win_done s stop_at code q \<longleftrightarrow> (case q of (r, t) \<Rightarrow> xframe s t \<and>
     (case r of
        Inr c \<Rightarrow> c = code \<and> (\<exists>h. hist t = SExt ''pid_exists'' [x_pid (xp s)] [] # h
           \<and> w_pid_exists (ext s) h (x_pid (xp s)) = Inr False)
      | Inl e \<Rightarrow> (\<exists>h. hist t = SExt ''pid_exists'' [x_pid (xp s)] [] # h
              \<and> w_pid_exists (ext s) h (x_pid (xp s)) = Inl e)
          \<or> (\<exists>T h. stop_at = Some T \<and> hist t = SNow # h \<and> T \<le> os_now (sys_os s) h \<and> is_TimeoutExpired e)))"

lemma win_done_step: "xframe s t \<Longrightarrow> win_done t stop_at code q \<Longrightarrow> win_done s stop_at code q"
  unfolding win_done_def by (auto simp: xframe_def split: prod.splits sum.splits)

lemma win_pid_exists_run:
  "win_pid_exists s = (w_pid_exists (ext s) (hist s) (x_pid (xp s)), s\<lparr>hist := SExt ''pid_exists'' [x_pid (xp s)] [] # hist s\<rparr>)"
  by (simp add: win_pid_exists_def w_get_def)

lemma xframe_call: "xframe s (s\<lparr>hist := c # hist s\<rparr>)"
  by (simp add: xframe_def)

lemma win_late_run:
  "\<exists>late v. win_late stop_at s = (Inr late, v) \<and> xframe s v
     \<and> (late \<longrightarrow> (\<exists>T h. stop_at = Some T \<and> hist v = SNow # h \<and> T \<le> os_now (sys_os s) h))"
proof (cases "stop_at = None \<or> stop_at = Some 0")
  case True
  then show ?thesis by (auto simp: win_late_def xframe_refl)
next
  case False
  then obtain T where "stop_at = Some T" "T \<noteq> 0" by auto
  then have "win_late stop_at s = (Inr (T \<le> os_now (sys_os s) (hist s)), s\<lparr>hist := SNow # hist s\<rparr>)"
    by (simp add: win_late_def monotonic_def)
  then show ?thesis using \<open>stop_at = Some T\<close> xframe_call by fastforce
qed

lemma win_poll_done:
  assumes "win_poll code timeout stop_at delay s = Some q"
  shows "win_done s stop_at code q"
proof (rule win_poll.raw_induct [where P = "\<lambda>code timeout stop_at delay s q. win_done s stop_at code q", OF _ assms])
  fix f code timeout stop_at delay q and s :: "'a wsys_scheme"
  assume IH: "\<And>code timeout stop_at delay s q. f code timeout stop_at delay s = Some q \<Longrightarrow> win_done s stop_at code q"
    and eq: "(case win_pid_exists s of
        (Inl e, t) \<Rightarrow> Some (Inl e, t)
      | (Inr ex, t) \<Rightarrow>
          if \<not> ex then Some (Inr code, t)
          else (case win_late stop_at t of
              (Inl e, u) \<Rightarrow> Some (Inl e, u)
            | (Inr late, u) \<Rightarrow>
                if late then Some (Inl (mk_TimeoutExpired (secs_of timeout) (Some (x_pid (xp u))) (x_name (xp u))), u)
                else (case sleep_call delay u of (z, v) \<Rightarrow>
                  f code timeout stop_at (min (fmul delay 2) retry_max_delay) v))) = Some q"
  let ?c = "SExt ''pid_exists'' [x_pid (xp s)] []"
  let ?u = "s\<lparr>hist := ?c # hist s\<rparr>"
  note run = win_pid_exists_run [of s]
  show "win_done s stop_at code q"
  proof (cases "w_pid_exists (ext s) (hist s) (x_pid (xp s)) = Inr True")
    case False
    then show ?thesis using eq run
      by (cases "w_pid_exists (ext s) (hist s) (x_pid (xp s))") (auto simp: win_done_def xframe_call)
  next
    case True
    obtain late v where v: "win_late stop_at ?u = (Inr late, v)" "xframe ?u v"
      "late \<longrightarrow> (\<exists>T h. stop_at = Some T \<and> hist v = SNow # h \<and> T \<le> os_now (sys_os s) h)"
      using win_late_run [of stop_at ?u] by auto
    have sv: "xframe s v" using xframe_trans [OF xframe_call v(2)] .
    show ?thesis
    proof (cases late)
      case True
      then have "q = (Inl (mk_TimeoutExpired (secs_of timeout) (Some (x_pid (xp v))) (x_name (xp v))), v)"
        using eq run v(1) \<open>w_pid_exists _ _ _ = Inr True\<close> by simp
      then show ?thesis using sv v(3) True by (auto simp: win_done_def mk_TimeoutExpired_def)
    next
      case False
      let ?w = "v\<lparr>hist := SSleep delay # hist v\<rparr>"
      have "f code timeout stop_at (min (fmul delay 2) retry_max_delay) ?w = Some q"
        using eq run v(1) True False by (simp add: sleep_call_def)
      from IH [OF this] show ?thesis
        by (rule win_done_step [OF xframe_trans [OF sv xframe_call]])
    qed
  qed
qed

lemma win_poll_returns:
  assumes "\<forall>h. n \<le> length h \<longrightarrow> T \<le> os_now (sys_os s) h" and "T \<noteq> 0"
  shows "win_poll code timeout (Some T) delay s \<noteq> None"
  using assms(1)
proof (induction "n - length (hist s)" arbitrary: s delay rule: less_induct)
  case less
  let ?u = "s\<lparr>hist := SExt ''pid_exists'' [x_pid (xp s)] [] # hist s\<rparr>"
  let ?v = "s\<lparr>hist := SNow # hist ?u\<rparr>" and ?w = "s\<lparr>hist := SSleep delay # SNow # hist ?u\<rparr>"
  have late: "win_late (Some T) ?u = (Inr (T \<le> os_now (sys_os s) (hist ?u)), ?v)"
    using assms(2) by (simp add: win_late_def monotonic_def)
  show ?case
  proof (cases "T \<le> os_now (sys_os s) (hist ?u)")
    case True
    then show ?thesis using late by (subst win_poll.simps) (auto simp: win_pid_exists_run split: sum.splits)
  next
    case False
    then have "length (hist ?u) < n" using less.prems by (meson not_le_imp_less)
    then have "n - length (hist ?w) < n - length (hist s)" by simp
    then have "win_poll code timeout (Some T) (min (fmul delay 2) retry_max_delay) ?w \<noteq> None"
      using less.prems by (intro less.hyps) simp_all
    then show ?thesis using late False
      by (subst win_poll.simps) (auto simp: win_pid_exists_run sleep_call_def split: sum.splits)
  qed
qed

text \<open>
  The system promises that \<open>proc_wait\<close> does not block for ever when the milliseconds are below
  \<open>INFINITE\<close>.
\<close>

definition bounded_proc_wait :: "'z wsys_scheme \<Rightarrow> bool" where
  "bounded_proc_wait s \<longleftrightarrow> (\<forall>h pid ms. 0 \<le> ms \<and> ms < ext_const s ''INFINITE''
     \<longrightarrow> \<not> os_blocks (sys_os s) h (SExt ''proc_wait'' [pid, ms] []))"

lemma win_wait_start_run:
  fixes s :: "'z wsys_scheme"
  assumes "win_wait_start (Some x) s = Some (r, t)"
  shows "xframe s t \<and> (\<exists>d. hist t = d @ SExt ''proc_wait'' [x_pid (xp s), trunc_int (fmul x 1000)] [] # SNow # hist s)
     \<and> (\<forall>code stop_at. r = Inr (code, stop_at) \<longrightarrow> stop_at = Some (fadd (os_now (sys_os s) (hist s)) x))"
proof -
  let ?m = "trunc_int (fmul x 1000)" and ?pid = "x_pid (xp s)"
  let ?u = "s\<lparr>hist := SExt ''proc_wait'' [?pid, ?m] [] # SNow # hist s\<rparr>"
  have "t = ?u \<and> (\<forall>code stop_at. r = Inr (code, stop_at) \<longrightarrow> stop_at = Some (fadd (os_now (sys_os s) (hist s)) x))"
    using assms by (auto simp: win_wait_start_def win_deadline_def win_proc_wait_def may_block_def monotonic_def Let_def
        split: sum.splits if_splits option.splits)
  then show ?thesis by (auto simp: xframe_def)
qed

lemma win_wait_start_returns:
  fixes s :: "'z wsys_scheme"
  assumes "bounded_proc_wait s" and "0 \<le> x" and "trunc_int (fmul x 1000) < ext_const s ''INFINITE''"
  shows "win_wait_start (Some x) s \<noteq> None"
  using assms trunc_ms_nonneg [OF assms(2)]
  by (auto simp: win_wait_start_def win_deadline_def may_block_def monotonic_def bounded_proc_wait_def Let_def
      split: sum.splits prod.splits)

text \<open>
  C24: \<open>Process.wait\<close> with a timeout comes back when the clock keeps advancing and shows at
  least one second, and the extension's \<open>proc_wait\<close>, which may block for ever, does not when it
  gets fewer milliseconds than \<open>INFINITE\<close>.  It is passed the timeout in milliseconds, and a value is
  returned only after the system said that the pid does not exist any more.
\<close>

theorem win_wait_returns:
  fixes s :: "'z wsys_scheme"
  assumes "clock_advances (sys_os s)" and "1 \<le> os_now (sys_os s) (hist s)" and "0 \<le> x"
    and "bounded_proc_wait s" and "trunc_int (fmul x 1000) < ext_const s ''INFINITE''"
  shows "\<exists>r t. win_wait (Some x) s = Some (r, t) \<and> xframe s t
     \<and> (\<exists>d. hist t = d @ SExt ''proc_wait'' [x_pid (xp s), trunc_int (fmul x 1000)] [] # SNow # hist s)
     \<and> (\<forall>code. r = Inr code \<longrightarrow> (\<exists>h. hist t = SExt ''pid_exists'' [x_pid (xp s)] [] # h
            \<and> w_pid_exists (ext s) h (x_pid (xp s)) = Inr False))"
    (is "\<exists>r t. win_wait (Some x) s = Some (r, t) \<and> ?good r t")
proof -
  let ?T = "fadd (os_now (sys_os s) (hist s)) x"
  have "fl 1 \<le> ?T" unfolding fadd_def using assms(2,3) by (intro fl_mono) simp
  then have T: "?T \<noteq> 0" using fl_of_int [of 1] by auto
  obtain n where n: "\<forall>h. n \<le> length h \<longrightarrow> ?T \<le> os_now (sys_os s) h"
    using assms(1) unfolding clock_advances_def by blast
  obtain q u where u: "win_wait_start (Some x) s = Some (q, u)"
    using win_wait_start_returns [OF assms(4,3,5)] by (cases "win_wait_start (Some x) s") auto
  note st = win_wait_start_run [OF u]
  have "\<exists>r t. win_wait_body (Some x) s = Some (r, t) \<and> ?good r t"
  proof (cases q)
    case (Inl e)
    then show ?thesis using u st by (simp add: win_wait_body_def)
  next
    case (Inr c)
    then obtain code where c: "c = (code, Some ?T)" using st by (cases c) auto
    have "sys_os u = sys_os s" using st by (simp add: xframe_def)
    then have "win_poll code (Some x) (Some ?T) retry_delay u \<noteq> None"
      using n T by (intro win_poll_returns) simp_all
    then obtain r t where p: "win_poll code (Some x) (Some ?T) retry_delay u = Some (r, t)" by fastforce
    have "win_done u (Some ?T) code (r, t)" using win_poll_done [OF p] .
    then obtain d where ut: "hist t = d @ hist u" by (auto simp: win_done_def xframe_def)
    have d: "win_done s (Some ?T) code (r, t)"
      using win_poll_done [OF p] by (rule win_done_step [OF conjunct1 [OF st]])
    have "win_wait_body (Some x) s = Some (r, t)" using u Inr c p by (simp add: win_wait_body_def)
    then show ?thesis using d ut st by (auto simp: win_done_def)
  qed
  then obtain r t where b: "win_wait_body (Some x) s = Some (r, t)" "?good r t" by blast
  obtain z v where z: "win_wrap_exceptions (\<lambda>_. (r, t)) s = (z, v)" by (cases "win_wrap_exceptions (\<lambda>_. (r, t)) s")
  have "v = t" "\<And>code. z = Inr code \<Longrightarrow> r = Inr code"
    using z by (auto simp: win_wrap_exceptions_def split: sum.splits)
  then have "win_wait (Some x) s = Some (z, t) \<and> ?good z t" using b z by (simp add: win_wait_def)
  then show ?thesis by blast
qed

text \<open>A system on which \<open>proc_wait\<close> with \<open>INFINITE\<close> never returns.\<close>

definition late_os :: os where
  "late_os = null_os\<lparr>os_now := \<lambda>h. 1 + of_nat (length h),
     os_blocks := \<lambda>h c. case c of SExt _ [_, ms] _ \<Rightarrow> ms = 4294967295 | _ \<Rightarrow> False\<rparr>"

lemma late_clock: "clock_advances late_os"
  unfolding clock_advances_def
proof
  fix T :: flt
  obtain n where n: "\<forall>h. n \<le> length h \<longrightarrow> T \<le> os_now null_os h"
    using null_clock unfolding clock_advances_def by blast
  have "T \<le> os_now late_os h" if "n \<le> length h" for h
  proof -
    have "T \<le> of_nat (length h)" using n that by (simp add: null_os_def)
    then show ?thesis by (simp add: late_os_def)
  qed
  then show "\<exists>n. \<forall>h. n \<le> length h \<longrightarrow> T \<le> os_now late_os h" by blast
qed

definition late_state :: wsys where
  "late_state = (null_wsys 7)\<lparr>sys_os := late_os, ext_const := \<lambda>_. 4294967295\<rparr>"

theorem win_wait_returns_witness:
  "\<exists>r t d. win_wait (Some 1) late_state = Some (r, t) \<and> hist t = d @ [SExt ''proc_wait'' [7, 1000] [], SNow]"
proof -
  have "clock_advances (sys_os late_state)" by (simp add: late_state_def late_clock)
  moreover have "1 \<le> os_now (sys_os late_state) (hist late_state)" by (simp add: late_state_def late_os_def)
  moreover have "bounded_proc_wait late_state"
    by (auto simp: bounded_proc_wait_def late_state_def late_os_def)
  moreover have m: "trunc_int (fmul 1 1000) = 1000"
    using fl_of_int [of 1000] trunc_int_of_int [of 1000] by (simp add: fmul_def)
  moreover have "hist late_state = []" "x_pid (xp late_state) = 7" "ext_const late_state ''INFINITE'' = 4294967295"
    by (simp_all add: late_state_def xproc_init_def)
  ultimately show ?thesis using win_wait_returns [of late_state 1] by auto
qed

end
