(* ===== verification/Bsd.thy ===== *)
theory Bsd
  imports Ext_Base
begin

text \<open>
  \<open>psutil/_psbsd.py\<close>: FreeBSD, OpenBSD and NetBSD.  \<open>b_os\<close> says which of them it is, and the
  functions the code defines for one of them only are meant for that one.
\<close>

section \<open>The extension\<close>

datatype bsd = FREEBSD | OPENBSD | NETBSD

record bsd_kinfo =
  bk_name :: "string option"
  bk_ppid :: int
  bk_status :: int
  bk_ttynr :: int
  bk_real_uid :: int
  bk_effective_uid :: int
  bk_saved_uid :: int
  bk_real_gid :: int
  bk_effective_gid :: int
  bk_saved_gid :: int
  bk_user_time :: flt
  bk_sys_time :: flt
  bk_ch_user_time :: flt
  bk_ch_sys_time :: flt
  bk_cpunum :: int
  bk_rss :: int
  bk_vms :: int
  bk_memtext :: int
  bk_memdata :: int
  bk_memstack :: int
  bk_peak_rss :: int
  bk_create_time :: flt
  bk_ctx_switches_vol :: int
  bk_ctx_switches_unvol :: int
  bk_min_faults :: int
  bk_maj_faults :: int
  bk_nice :: int
  bk_read_io_count :: int
  bk_write_io_count :: int

record bsd_svmem =
  bvm_total :: int
  bvm_available :: int
  bvm_percent :: flt
  bvm_used :: int
  bvm_free :: int
  bvm_active :: int
  bvm_inactive :: int
  bvm_buffers :: int
  bvm_cached :: int
  bvm_shared :: int
  bvm_wired :: int

type_synonym flt5 = "flt \<times> flt \<times> flt \<times> flt \<times> flt"

text \<open>
  \<open>b_init_boot_time\<close> is \<open>INIT_BOOT_TIME\<close>, \<open>b_depth\<close> how many nested calls of \<open>pids()\<close> the
  interpreter allows before it raises \<open>RecursionError\<close>, and \<open>b_which\<close> is \<open>shutil.which\<close>.
\<close>

record bsd_ext =
  b_os :: bsd
  b_has_num_threads :: bool
  b_has_unix :: bool
  b_init_boot_time :: flt
  b_depth :: nat
  b_virtual_mem :: "(exn + bsd_svmem) answer"
  b_swap_mem :: "(exn + sswap) answer"
  b_cpu_times :: "(exn + flt5) answer"
  b_per_cpu_times :: "(exn + flt5 list) answer"
  b_cpu_count_logical :: "(exn + int option) answer"
  b_cpu_count_cores :: "(exn + int option) answer"
  b_cpu_stats :: "(exn + (int \<times> int \<times> int \<times> int)) answer"
  b_cpu_freq :: "(int \<Rightarrow> exn + (flt \<times> string)) answer"
  b_disk_partitions :: "(exn + (string \<times> string \<times> string \<times> string) list) answer"
  b_net_io_counters :: "(exn + (string, int list) dict) answer"
  b_net_if_mtu :: "(string \<Rightarrow> exn + int) answer"
  b_net_if_flags :: "(string \<Rightarrow> exn + string list) answer"
  b_net_if_duplex_speed :: "(string \<Rightarrow> exn + (int \<times> int)) answer"
  b_net_connections :: "(int \<Rightarrow> string \<Rightarrow> int list \<Rightarrow> int list \<Rightarrow> exn + rawconn list) answer"
  b_proc_net_connections :: "(int \<Rightarrow> int list \<Rightarrow> int list \<Rightarrow> exn + rawconn list) answer"
  b_sensors_battery :: "(exn + (int \<times> int \<times> int)) answer"
  b_cpu_temperature :: "(int \<Rightarrow> exn + (flt \<times> flt)) answer"
  b_boot_time :: "(exn + flt) answer"
  b_users :: "(exn + (string \<times> string \<times> string option \<times> flt \<times> int option) list) answer"
  b_pids :: "(exn + int list) answer"
  b_is_zombie :: "(int \<Rightarrow> exn + bool) answer"
  b_kinfo :: "(int \<Rightarrow> exn + bsd_kinfo) answer"
  b_proc_name :: "(int \<Rightarrow> exn + string) answer"
  b_proc_exe :: "(int \<Rightarrow> exn + string) answer"
  b_proc_cmdline :: "(int \<Rightarrow> exn + string list) answer"
  b_proc_environ :: "(int \<Rightarrow> exn + (string, string) dict) answer"
  b_which :: "(string \<Rightarrow> exn + string option) answer"
  b_proc_num_threads :: "(int \<Rightarrow> exn + int) answer"
  b_proc_threads :: "(int \<Rightarrow> exn + (int \<times> flt \<times> flt) list) answer"
  b_priority_set :: "(int \<Rightarrow> int \<Rightarrow> exn + unit) answer"
  b_proc_cwd :: "(int \<Rightarrow> exn + string) answer"
  b_proc_open_files :: "(int \<Rightarrow> exn + (string \<times> int) list) answer"
  b_proc_num_fds :: "(int \<Rightarrow> exn + int) answer"
  b_affinity_get :: "(int \<Rightarrow> exn + int list) answer"
  b_affinity_set :: "(int \<Rightarrow> int list \<Rightarrow> exn + unit) answer"
  b_memory_maps :: "(int \<Rightarrow> exn + (string \<times> string \<times> string \<times> int \<times> int \<times> int \<times> int) list) answer"
  b_getrlimit :: "(int \<Rightarrow> int \<Rightarrow> exn + (int \<times> int)) answer"
  b_setrlimit :: "(int \<Rightarrow> int \<Rightarrow> int \<Rightarrow> int \<Rightarrow> exn + unit) answer"

record bsd_cache =
  bc_kinfo :: "bsd_kinfo option"

text \<open>\<open>pid0_cache\<close> is what \<open>functools.lru_cache\<close> keeps for \<open>_pid_0_exists\<close>.\<close>

record bsys = "(bsd_ext, bsd_cache) esys" +
  pid0_cache :: "bool option"

definition bsd_of :: "('z bsys_scheme, bsd) py" where
  "bsd_of = gets (\<lambda>s. b_os (ext s))"

lemma bsd_of_run [simp, py_run]: "bsd_of s = (Inr (b_os (ext s)), s)"
  by (simp add: bsd_of_def)

definition PROC_STATUS_names :: "bsd \<Rightarrow> (string \<times> ProcessStatus) list" where
  "PROC_STATUS_names b = (case b of
     FREEBSD \<Rightarrow> [(''SIDL'', STATUS_IDLE), (''SRUN'', STATUS_RUNNING), (''SSLEEP'', STATUS_SLEEPING),
        (''SSTOP'', STATUS_STOPPED), (''SZOMB'', STATUS_ZOMBIE), (''SWAIT'', STATUS_WAITING), (''SLOCK'', STATUS_LOCKED)]
   | OPENBSD \<Rightarrow> [(''SIDL'', STATUS_IDLE), (''SSLEEP'', STATUS_SLEEPING), (''SSTOP'', STATUS_STOPPED),
        (''SDEAD'', STATUS_ZOMBIE), (''SZOMB'', STATUS_ZOMBIE), (''SRUN'', STATUS_WAKING), (''SONPROC'', STATUS_RUNNING)]
   | NETBSD \<Rightarrow> [(''SIDL'', STATUS_IDLE), (''SSLEEP'', STATUS_SLEEPING), (''SSTOP'', STATUS_STOPPED),
        (''SZOMB'', STATUS_ZOMBIE), (''SRUN'', STATUS_WAKING), (''SONPROC'', STATUS_RUNNING),
        (''SSUSPENDED'', STATUS_SUSPENDED)])"

section \<open>System\<close>

definition bsd_virtual_memory :: "('z bsys_scheme, bsd_svmem) py" where
  "bsd_virtual_memory = ext_try ''virtual_mem'' [] [] b_virtual_mem"

definition bsd_swap_memory :: "('z bsys_scheme, sswap) py" where
  "bsd_swap_memory = ext_try ''swap_mem'' [] [] b_swap_mem"

record bsd_scputimes =
  bct_user :: flt
  bct_system :: flt
  bct_idle :: flt
  bct_nice :: flt
  bct_irq :: flt

definition bsd_ct :: "flt5 \<Rightarrow> bsd_scputimes" where
  "bsd_ct t = (case t of (user, nice, system, idle, irq) \<Rightarrow>
     \<lparr>bct_user = user, bct_system = system, bct_idle = idle, bct_nice = nice, bct_irq = irq\<rparr>)"

definition bsd_cpu_times :: "('z bsys_scheme, bsd_scputimes) py" where
  "bsd_cpu_times = bnd (ext_try ''cpu_times'' [] [] b_cpu_times) (\<lambda>t. ret (bsd_ct t))"

definition bsd_per_cpu_times :: "('z bsys_scheme, bsd_scputimes list) py" where
  "bsd_per_cpu_times = bnd (ext_try ''per_cpu_times'' [] [] b_per_cpu_times) (\<lambda>ts. ret (map bsd_ct ts))"

definition bsd_cpu_count_logical :: "('z bsys_scheme, int option) py" where
  "bsd_cpu_count_logical = ext_try ''cpu_count_logical'' [] [] b_cpu_count_logical"

definition bsd_cpu_count_cores :: "('z bsys_scheme, int option) py" where
  "bsd_cpu_count_cores = bnd bsd_of (\<lambda>b. if b \<in> {OPENBSD, NETBSD}
     then bnd bsd_cpu_count_logical (\<lambda>n. ret (if n = Some 1 then Some 1 else None))
     else ext_try ''cpu_count_cores'' [] [] b_cpu_count_cores)"

text \<open>The first four values; traps, faults and forks are dropped.\<close>

definition bsd_cpu_stats :: "('z bsys_scheme, scpustats) py" where
  "bsd_cpu_stats = bnd (ext_try ''cpu_stats'' [] [] b_cpu_stats) (\<lambda>(ctxsw, intrs, soft_intrs, syscalls).
     ret \<lparr>cs_ctx_switches = Some ctxsw, cs_interrupts = Some intrs, cs_soft_interrupts = Some soft_intrs,
          cs_syscalls = syscalls\<rparr>)"

text \<open>\<open>int(s.split(' ')[i].split('/')[0])\<close>, or \<open>None\<close>.\<close>

definition freq_level :: "string \<Rightarrow> int \<Rightarrow> flt option" where
  "freq_level s i = (case bindE (item (split_on (CHR '' '') s) i) (\<lambda>w.
       bindE (item (split_on (CHR ''/'') w) 0) py_int) of Inr n \<Rightarrow> Some (of_int n) | Inl _ \<Rightarrow> None)"

definition freq_step :: "int \<Rightarrow> scpufreq list \<Rightarrow> ('z bsys_scheme, scpufreq list) py" where
  "freq_step cpu acc = try_else (ext_try ''cpu_freq'' [cpu] [] (\<lambda>x h. b_cpu_freq x h cpu))
     (\<lambda>e. if e = NotImplementedError then ret acc else raise e)
     (\<lambda>(current, available). ret (acc @
        [if available = [] then \<lparr>cf_current = current, cf_min = None, cf_max = None\<rparr>
         else \<lparr>cf_current = current, cf_min = freq_level available (-1), cf_max = freq_level available 0\<rparr>]))"

text \<open>\<open>range(n)\<close>; \<open>range(None)\<close> is a \<open>TypeError\<close>.\<close>

definition py_range :: "int option \<Rightarrow> exn + int list" where
  "py_range n = (case n of None \<Rightarrow> Inl TypeError | Some k \<Rightarrow> Inr (map int [0..<nat k]))"

definition bsd_cpu_freq :: "('z bsys_scheme, scpufreq list) py" where
  "bsd_cpu_freq = bnd bsd_of (\<lambda>b. case b of
     FREEBSD \<Rightarrow> bnd bsd_cpu_count_logical (\<lambda>n. bnd (liftE (py_range n)) (\<lambda>cpus. for_each cpus freq_step []))
   | OPENBSD \<Rightarrow> bnd (ext_try ''cpu_freq'' [] [] (\<lambda>x h. b_cpu_freq x h 0)) (\<lambda>(curr, available).
        ret [\<lparr>cf_current = curr, cf_min = Some 0, cf_max = Some 0\<rparr>])
   | NETBSD \<Rightarrow> raise AttributeError)"

definition bsd_disk_partitions :: "('z bsys_scheme, sdiskpart list) py" where
  "bsd_disk_partitions = bnd (ext_try ''disk_partitions'' [] [] b_disk_partitions) (\<lambda>ps.
     ret (map (\<lambda>(dev, mount, fstype, opts). \<lparr>dp_device = dev, dp_mountpoint = mount, dp_fstype = fstype,
        dp_opts = opts\<rparr>) ps))"

definition bsd_net_if_stats :: "('z bsys_scheme, (string, snicstats) dict) py" where
  "bsd_net_if_stats = bnd (ext_try ''net_io_counters'' [] [] b_net_io_counters) (\<lambda>d.
     for_each (map fst d) (if_stats_step
       (\<lambda>name. ext_try ''net_if_mtu'' [] [name] (\<lambda>x h. b_net_if_mtu x h name))
       (\<lambda>name. ext_try ''net_if_flags'' [] [name] (\<lambda>x h. b_net_if_flags x h name))
       (\<lambda>name. ext_try ''net_if_duplex_speed'' [] [name] (\<lambda>x h. b_net_if_duplex_speed x h name))) [])"

text \<open>
  The call differs: OpenBSD and NetBSD pass -1 for all pids, NetBSD the kind instead of the
  families and types.
\<close>

definition bsd_net_connections :: "string \<Rightarrow> ('z bsys_scheme, sconn list) py" where
  "bsd_net_connections kind = bnd (gets (\<lambda>s. (b_has_unix (ext s), const_dict (ext_const s) bsd_tcp_names))) (\<lambda>(unix, statuses).
     bnd (liftE (conn_kind unix kind)) (\<lambda>(families, types).
     bnd (ext_try ''net_connections'' (-1 # families @ types) [kind] (\<lambda>x h. b_net_connections x h (-1) kind families types)) (\<lambda>rawlist.
     ret (uniq (map (\<lambda>c. conn_to_ntuple (rc_fd c) (rc_fam c) (rc_type c) (rc_laddr c) (rc_raddr c) (rc_status c)
        statuses (rc_pid c)) rawlist)))))"

definition bsd_sensors_battery :: "('z bsys_scheme, sbattery option) py" where
  "bsd_sensors_battery = try_else (ext_try ''sensors_battery'' [] [] b_sensors_battery)
     (\<lambda>e. if e = NotImplementedError then ret None else raise e) (\<lambda>b. ret (Some (mk_battery b)))"

definition temp_step :: "int \<Rightarrow> shwtemp list \<Rightarrow> ('z bsys_scheme, shwtemp list) py" where
  "temp_step cpu acc = try_else (ext_try ''sensors_cpu_temperature'' [cpu] [] (\<lambda>x h. b_cpu_temperature x h cpu))
     (\<lambda>e. if e = NotImplementedError then ret acc else raise e)
     (\<lambda>(current, high). let hi = (if high \<le> 0 then None else Some high) in
        ret (acc @ [\<lparr>ht_label = ''Core '' @ int_str cpu, ht_current = Some current, ht_high = hi, ht_critical = hi\<rparr>]))"

text \<open>The \<open>defaultdict\<close> has the key \<open>coretemp\<close> once something was appended.\<close>

definition bsd_sensors_temperatures :: "('z bsys_scheme, (string, shwtemp list) dict) py" where
  "bsd_sensors_temperatures = bnd bsd_cpu_count_logical (\<lambda>n. bnd (liftE (py_range n)) (\<lambda>cpus.
     bnd (for_each cpus temp_step []) (\<lambda>l. ret (if l = [] then [] else [(''coretemp'', l)]))))"

definition bsd_boot_time :: "('z bsys_scheme, flt) py" where
  "bsd_boot_time = ext_try ''boot_time'' [] [] b_boot_time"

definition bsd_adjust_proc_create_time :: "flt \<Rightarrow> ('z bsys_scheme, flt) py" where
  "bsd_adjust_proc_create_time ctime = bnd (gets (\<lambda>s. b_init_boot_time (ext s))) (\<lambda>init.
     if init = 0 then ret ctime else bnd bsd_boot_time (\<lambda>now. ret (adjust_ctime init now ctime)))"

definition bsd_users :: "('z bsys_scheme, suser list) py" where
  "bsd_users = bnd (ext_try ''users'' [] [] b_users) (\<lambda>rawlist.
     ret (map (\<lambda>(user, tty, hostname, tstamp, pid). \<lparr>us_name = user,
             us_terminal = (if tty = [] then None else Some tty), us_host = hostname, us_started = tstamp, us_pid = pid\<rparr>)
          (filter (\<lambda>(user, tty, hostname, tstamp, pid). tty \<noteq> ''~'') rawlist)))"

end
