(* ===== verification/Bsd_Process.thy ===== *)
theory Bsd_Process
  imports Bsd
begin

text \<open>
  \<open>psutil/_psbsd.py\<close>: pids, the translation of errors and the class \<open>Process\<close>.
\<close>

section \<open>Errors\<close>

text \<open>\<open>wrap_exceptions\<close>; \<open>ps\<close> is \<open>pids()\<close>.\<close>

definition bsd_handler ::
  "('z bsys_scheme, int list) py \<Rightarrow> int \<times> string option \<times> int option \<Rightarrow> exn \<Rightarrow> ('z bsys_scheme, 'a) py" where
  "bsd_handler ps idn e = (case idn of (pid, name, ppid) \<Rightarrow>
     if is_ProcessLookupError e then
       bnd (ext_try ''proc_is_zombie'' [pid] [] (\<lambda>x h. b_is_zombie x h pid)) (\<lambda>z.
       if z then raise (mk_ZombieProcess pid name ppid None) else raise (mk_NoSuchProcess pid name None))
     else if is_PermissionError e then raise (mk_AccessDenied (Some pid) name None)
     else if e = CextZombieProcessError then raise (mk_ZombieProcess pid name ppid None)
     else if is_OSError e then
       (if pid = 0 then bnd ps (\<lambda>l. if 0 \<in> set l then raise (mk_AccessDenied (Some pid) name None) else raise e)
        else raise e)
     else raise e)"

definition bsd_wrap :: "('z bsys_scheme, int list) py \<Rightarrow> ('z bsys_scheme, 'a) py \<Rightarrow> ('z bsys_scheme, 'a) py" where
  "bsd_wrap ps m = bnd ident3 (\<lambda>idn. try_except m (bsd_handler ps idn))"

definition b_get :: "string \<Rightarrow> (bsd_ext \<Rightarrow> (int \<Rightarrow> exn + 'a) answer) \<Rightarrow> ('z bsys_scheme, 'a) py" where
  "b_get fn f = bnd (me x_pid) (\<lambda>pid. ext_try fn [pid] [] (\<lambda>x h. f x h pid))"

definition b_do :: "string \<Rightarrow> int list \<Rightarrow> (bsd_ext \<Rightarrow> (int \<Rightarrow> exn + 'a) answer) \<Rightarrow> ('z bsys_scheme, 'a) py" where
  "b_do fn is f = bnd (me x_pid) (\<lambda>pid. ext_do fn (pid # is) [] (\<lambda>x h. f x h pid))"

definition bsd_blank :: bsd_cache where "bsd_blank = \<lparr>bc_kinfo = None\<rparr>"

definition put_bc_kinfo :: "bsd_kinfo \<Rightarrow> bsd_cache \<Rightarrow> bsd_cache" where
  "put_bc_kinfo r c = c\<lparr>bc_kinfo := Some r\<rparr>"

interpretation bsd_kinfo_slot: memo_slot x_has "x_look bc_kinfo" "x_store put_bc_kinfo" "x_on bsd_blank" x_off
  by (rule x_slot) (simp_all add: put_bc_kinfo_def bsd_blank_def)

definition bsd_oneshot_enter :: "('z bsys_scheme, unit) py" where
  "bsd_oneshot_enter = modify (x_on bsd_blank)"

definition bsd_oneshot_exit :: "('z bsys_scheme, unit) py" where
  "bsd_oneshot_exit = modify x_off"

text \<open>\<open>oneshot\<close> and \<open>name\<close>, given \<open>pids()\<close>.\<close>

definition bsd_oneshot :: "('z bsys_scheme, int list) py \<Rightarrow> ('z bsys_scheme, bsd_kinfo) py" where
  "bsd_oneshot ps = bsd_wrap ps (memoize x_has (x_look bc_kinfo) (x_store put_bc_kinfo)
     (b_get ''proc_oneshot_kinfo'' b_kinfo))"

definition bsd_name :: "('z bsys_scheme, int list) py \<Rightarrow> ('z bsys_scheme, string) py" where
  "bsd_name ps = bsd_wrap ps (bnd (bsd_oneshot ps) (\<lambda>d.
     case bk_name d of Some name \<Rightarrow> ret name | None \<Rightarrow> b_get ''proc_name'' b_proc_name))"

section \<open>Pids\<close>

text \<open>\<open>_pid_0_exists\<close>, whose answer is cached.\<close>

definition pid_0_exists :: "('z bsys_scheme, int list) py \<Rightarrow> ('z bsys_scheme, bool) py" where
  "pid_0_exists ps = bnd (gets pid0_cache) (\<lambda>c. case c of Some b \<Rightarrow> ret b
     | None \<Rightarrow> bnd (try_else (on_new 0 (bsd_name ps))
           (\<lambda>e. if is_NoSuchProcess e then ret False else if is_AccessDenied e then ret True else raise e)
           (\<lambda>_. ret True)) (\<lambda>b.
         bnd (modify (\<lambda>s. s\<lparr>pid0_cache := Some b\<rparr>)) (\<lambda>_. ret b)))"

definition bsd_pids_with :: "('z bsys_scheme, bool) py \<Rightarrow> ('z bsys_scheme, int list) py" where
  "bsd_pids_with pid0 = bnd (ext_try ''pids'' [] [] b_pids) (\<lambda>l. bnd bsd_of (\<lambda>b.
     if b = OPENBSD \<and> 0 \<notin> set l then bnd pid0 (\<lambda>z. ret (if z then 0 # l else l)) else ret l))"

text \<open>
  \<open>pids()\<close> asks for the name of the process 0 on OpenBSD, and an error there makes the
  decorator call \<open>pids()\<close> again: \<open>n\<close> is how many more calls fit on the stack.
\<close>

fun bsd_pids_at :: "nat \<Rightarrow> ('z bsys_scheme, int list) py" where
  "bsd_pids_at 0 = raise RuntimeError"
| "bsd_pids_at (Suc n) = bsd_pids_with (pid_0_exists (bsd_pids_at n))"

definition bsd_pids :: "('z bsys_scheme, int list) py" where
  "bsd_pids = bnd (gets (\<lambda>s. b_depth (ext s))) bsd_pids_at"

abbreviation bsd_wrap_exceptions :: "('z bsys_scheme, 'a) py \<Rightarrow> ('z bsys_scheme, 'a) py" where
  "bsd_wrap_exceptions \<equiv> bsd_wrap bsd_pids"

abbreviation kinfo :: "('z bsys_scheme, bsd_kinfo) py" where
  "kinfo \<equiv> bsd_oneshot bsd_pids"

definition bsd_pid_exists :: "int \<Rightarrow> ('z bsys_scheme, bool) py" where
  "bsd_pid_exists pid = bnd bsd_of (\<lambda>b. case b of
     NETBSD \<Rightarrow> bnd (posix_pid_exists pid) (\<lambda>ex. if \<not> ex then bnd bsd_pids (\<lambda>l. ret (pid \<in> set l)) else ret True)
   | OPENBSD \<Rightarrow> bnd (posix_pid_exists pid) (\<lambda>ex. if \<not> ex then ret False else bnd bsd_pids (\<lambda>l. ret (pid \<in> set l)))
   | FREEBSD \<Rightarrow> posix_pid_exists pid)"

section \<open>Methods\<close>

definition assert_alive :: "('z bsys_scheme, unit) py" where
  "assert_alive = bnd (b_get ''proc_name'' b_proc_name) (\<lambda>_. ret ())"

definition bsd_cmdline :: "('z bsys_scheme, string list) py" where
  "bsd_cmdline = bsd_wrap_exceptions (bnd ident3 (\<lambda>(pid, name, ppid). bnd bsd_of (\<lambda>b.
     if b = OPENBSD \<and> pid = 0 then ret []
     else if b \<in> {NETBSD, OPENBSD} then
       try_except (b_get ''proc_cmdline'' b_proc_cmdline) (\<lambda>e.
         if is_OSError e \<and> errno_of e \<in> {Some EINVAL, Some EFAULT} then
           bnd (b_get ''proc_is_zombie'' b_is_zombie) (\<lambda>z.
           if z then raise (mk_ZombieProcess pid name ppid None)
           else bnd (bsd_pid_exists pid) (\<lambda>ex.
             if \<not> ex then raise (mk_NoSuchProcess pid name None) else ret []))
         else raise e)
     else b_get ''proc_cmdline'' b_proc_cmdline)))"

definition bsd_exe :: "('z bsys_scheme, string) py" where
  "bsd_exe = bsd_wrap_exceptions (bnd (me x_pid) (\<lambda>pid. bnd bsd_of (\<lambda>b.
     if b \<in> {FREEBSD, NETBSD} then (if pid = 0 then ret [] else b_get ''proc_exe'' b_proc_exe)
     else bnd bsd_cmdline (\<lambda>cmdline. case cmdline of
         [] \<Rightarrow> ret []
       | c # _ \<Rightarrow> bnd (ext_try ''which'' [] [c] (\<lambda>x h. b_which x h c)) (\<lambda>w.
           ret (case w of None \<Rightarrow> [] | Some p \<Rightarrow> p))))))"

definition bsd_environ :: "('z bsys_scheme, (string, string) dict) py" where
  "bsd_environ = bsd_wrap_exceptions (b_get ''proc_environ'' b_proc_environ)"

definition bsd_terminal :: "('z bsys_scheme, string option) py" where
  "bsd_terminal = bsd_wrap_exceptions (bnd kinfo (\<lambda>d. bnd (gets ext_const) (\<lambda>c.
     if bk_ttynr d = c ''NODEV'' then ret None else get_terminal (bk_ttynr d))))"

definition bsd_ppid :: "('z bsys_scheme, int) py" where
  "bsd_ppid = bsd_wrap_exceptions (bnd kinfo (\<lambda>d.
     bnd (modify (\<lambda>s. s\<lparr>xp := (xp s)\<lparr>x_ppid := Some (bk_ppid d)\<rparr>\<rparr>)) (\<lambda>_. ret (bk_ppid d))))"

definition bsd_uids :: "('z bsys_scheme, pids3) py" where
  "bsd_uids = bsd_wrap_exceptions (bnd kinfo (\<lambda>d.
     ret \<lparr>ids_real = bk_real_uid d, ids_effective = bk_effective_uid d, ids_saved = bk_saved_uid d\<rparr>))"

definition bsd_gids :: "('z bsys_scheme, pids3) py" where
  "bsd_gids = bsd_wrap_exceptions (bnd kinfo (\<lambda>d.
     ret \<lparr>ids_real = bk_real_gid d, ids_effective = bk_effective_gid d, ids_saved = bk_saved_gid d\<rparr>))"

definition bsd_proc_cpu_times :: "('z bsys_scheme, pcputimes4) py" where
  "bsd_proc_cpu_times = bsd_wrap_exceptions (bnd kinfo (\<lambda>d.
     ret \<lparr>pc4_user = bk_user_time d, pc4_system = bk_sys_time d, pc4_children_user = bk_ch_user_time d,
          pc4_children_system = bk_ch_sys_time d\<rparr>))"

definition bsd_cpu_num :: "('z bsys_scheme, int) py" where
  "bsd_cpu_num = bsd_wrap_exceptions (bnd kinfo (\<lambda>d. ret (bk_cpunum d)))"

record bsd_pmem =
  bpm_rss :: int
  bpm_vms :: int
  bpm_text :: int
  bpm_data :: int
  bpm_stack :: int
  bpm_peak_rss :: int

definition bsd_memory_info :: "('z bsys_scheme, bsd_pmem) py" where
  "bsd_memory_info = bsd_wrap_exceptions (bnd kinfo (\<lambda>d.
     ret \<lparr>bpm_rss = bk_rss d, bpm_vms = bk_vms d, bpm_text = bk_memtext d, bpm_data = bk_memdata d,
          bpm_stack = bk_memstack d, bpm_peak_rss = bk_peak_rss d\<rparr>))"

definition bsd_create_time :: "bool \<Rightarrow> ('z bsys_scheme, flt) py" where
  "bsd_create_time mono_clock = bsd_wrap_exceptions (bnd kinfo (\<lambda>d. bnd bsd_of (\<lambda>b.
     if b = NETBSD \<and> \<not> mono_clock then bsd_adjust_proc_create_time (bk_create_time d) else ret (bk_create_time d))))"

definition bsd_threads :: "('z bsys_scheme, pthread list) py" where
  "bsd_threads = bsd_wrap_exceptions (bnd (b_get ''proc_threads'' b_proc_threads) (\<lambda>rawlist. bnd bsd_of (\<lambda>b.
     bnd (if b = OPENBSD then assert_alive else ret ()) (\<lambda>_. ret (mk_threads rawlist)))))"

definition bsd_num_threads :: "('z bsys_scheme, int) py" where
  "bsd_num_threads = bsd_wrap_exceptions (bnd (gets (\<lambda>s. b_has_num_threads (ext s))) (\<lambda>h.
     if h then b_get ''proc_num_threads'' b_proc_num_threads else bnd bsd_threads (\<lambda>l. ret (int (length l)))))"

definition bsd_num_ctx_switches :: "('z bsys_scheme, pctxsw) py" where
  "bsd_num_ctx_switches = bsd_wrap_exceptions (bnd kinfo (\<lambda>d.
     ret \<lparr>cx_voluntary = bk_ctx_switches_vol d, cx_involuntary = bk_ctx_switches_unvol d\<rparr>))"

definition bsd_page_faults :: "('z bsys_scheme, ppagefaults) py" where
  "bsd_page_faults = bsd_wrap_exceptions (bnd kinfo (\<lambda>d. ret \<lparr>pf_minor = bk_min_faults d, pf_major = bk_maj_faults d\<rparr>))"

definition bsd_proc_net_connections :: "string \<Rightarrow> ('z bsys_scheme, sconn list) py" where
  "bsd_proc_net_connections kind = bsd_wrap_exceptions
     (bnd (gets (\<lambda>s. (b_has_unix (ext s), const_dict (ext_const s) bsd_tcp_names, b_os (ext s), x_pid (xp s)))) (\<lambda>(unix, statuses, b, pid).
      bnd (liftE (conn_kind unix kind)) (\<lambda>(families, types).
      bnd (if b \<in> {NETBSD, OPENBSD}
           then ext_try ''net_connections'' (pid # families @ types) [kind] (\<lambda>x h. b_net_connections x h pid kind families types)
           else ext_try ''proc_net_connections'' (pid # families @ types) [] (\<lambda>x h. b_proc_net_connections x h pid families types)) (\<lambda>rawlist.
      bnd assert_alive (\<lambda>_.
      ret (map (\<lambda>c. conn_to_ntuple (rc_fd c) (rc_fam c) (rc_type c) (rc_laddr c) (rc_raddr c) (rc_status c) statuses None)
        (filter (\<lambda>c. \<not> (b = FREEBSD \<and> (rc_fam c \<notin> set families \<or> rc_type c \<notin> set types))) rawlist)))))))"

definition bsd_wait ::
  "bool \<Rightarrow> bool \<Rightarrow> flt option \<Rightarrow> 'z bsys_scheme \<Rightarrow> ('z bsys_scheme, int option) result" where
  "bsd_wait can_pidfd can_kqueue timeout s = (case wait_pid can_pidfd can_kqueue (x_pid (xp s)) timeout s of
       None \<Rightarrow> None
     | Some (r, t) \<Rightarrow> Some (try_except (\<lambda>_. (r, t)) (bsd_handler bsd_pids (x_pid (xp s), x_name (xp s), x_ppid (xp s))) s))"

definition bsd_nice_get :: "('z bsys_scheme, int) py" where
  "bsd_nice_get = bsd_wrap_exceptions (bnd kinfo (\<lambda>d. ret (bk_nice d)))"

definition bsd_nice_set :: "int \<Rightarrow> ('z bsys_scheme, unit) py" where
  "bsd_nice_set v = bsd_wrap_exceptions (b_do ''proc_priority_set'' [v] (\<lambda>x h pid. b_priority_set x h pid v))"

text \<open>\<open>None\<close> stands for the string \<open>?\<close>.\<close>

definition bsd_status :: "('z bsys_scheme, ProcessStatus option) py" where
  "bsd_status = bsd_wrap_exceptions (bnd kinfo (\<lambda>d. bnd (gets (\<lambda>s. const_dict (ext_const s) (PROC_STATUS_names (b_os (ext s))))) (\<lambda>st.
     ret (map_of st (bk_status d)))))"

definition bsd_io_counters :: "('z bsys_scheme, pio4) py" where
  "bsd_io_counters = bsd_wrap_exceptions (bnd kinfo (\<lambda>d.
     ret \<lparr>pio4_read_count = bk_read_io_count d, pio4_write_count = bk_write_io_count d,
          pio4_read_bytes = -1, pio4_write_bytes = -1\<rparr>))"

definition bsd_cwd :: "('z bsys_scheme, string) py" where
  "bsd_cwd = bsd_wrap_exceptions (bnd (me x_pid) (\<lambda>pid. bnd bsd_of (\<lambda>b.
     if b = OPENBSD \<and> pid = 0 then ret [] else b_get ''proc_cwd'' b_proc_cwd)))"

definition bsd_open_files :: "('z bsys_scheme, popenfile2 list) py" where
  "bsd_open_files = bsd_wrap_exceptions (bnd (b_get ''proc_open_files'' b_proc_open_files) (\<lambda>l.
     ret (map (\<lambda>(path, fd). \<lparr>of2_path = path, of2_fd = fd\<rparr>) l)))"

definition bsd_num_fds :: "('z bsys_scheme, int) py" where
  "bsd_num_fds = bsd_wrap_exceptions (bnd (b_get ''proc_num_fds'' b_proc_num_fds) (\<lambda>n. bnd bsd_of (\<lambda>b.
     bnd (if b = NETBSD then assert_alive else ret ()) (\<lambda>_. ret n))))"

text \<open>FreeBSD only.\<close>

definition bsd_cpu_affinity_get :: "('z bsys_scheme, int list) py" where
  "bsd_cpu_affinity_get = bsd_wrap_exceptions (b_get ''proc_cpu_affinity_get'' b_affinity_get)"

definition bsd_cpu_affinity_set :: "int list \<Rightarrow> ('z bsys_scheme, unit) py" where
  "bsd_cpu_affinity_set cpus = bsd_wrap_exceptions (bnd bsd_per_cpu_times (\<lambda>ts.
     let allcpus = map int [0..<length ts] in
     if \<exists>cpu \<in> set cpus. cpu \<notin> set allcpus then raise ValueError
     else try_except (b_do ''proc_cpu_affinity_set'' cpus (\<lambda>x h pid. b_affinity_set x h pid cpus)) (\<lambda>e.
       if is_OSError e \<and> errno_of e \<in> {Some EINVAL, Some EDEADLK} \<and> (\<exists>cpu \<in> set cpus. cpu \<notin> set allcpus)
       then raise ValueError else raise e)))"

definition bsd_memory_maps :: "('z bsys_scheme, (string \<times> string \<times> string \<times> int \<times> int \<times> int \<times> int) list) py" where
  "bsd_memory_maps = bsd_wrap_exceptions (b_get ''proc_memory_maps'' b_memory_maps)"

definition bsd_rlimit :: "int \<Rightarrow> int list option \<Rightarrow> ('z bsys_scheme, (int \<times> int) option) py" where
  "bsd_rlimit resource limits = bsd_wrap_exceptions (case limits of
       None \<Rightarrow> bnd (b_get ''proc_getrlimit'' (\<lambda>x h pid. b_getrlimit x h pid resource)) (\<lambda>l. ret (Some l))
     | Some l \<Rightarrow> (case l of [soft, hard] \<Rightarrow>
           bnd (b_do ''proc_setrlimit'' [resource, soft, hard] (\<lambda>x h pid. b_setrlimit x h pid resource soft hard)) (\<lambda>_. ret None)
         | _ \<Rightarrow> raise ValueError))"

end
