(* ===== verification/Bsd_Facts.thy ===== *)
theory Bsd_Facts
  imports Bsd_Process
begin

text \<open>
  What the BSD module shows: the list of pids of OpenBSD when the process 0 cannot be read.
\<close>

section \<open>A system to start from\<close>

text \<open>On it every compiled function is missing; the witnesses supply those they need.\<close>

definition null_bsd :: bsd_ext where
  "null_bsd = \<lparr>b_os = FREEBSD, b_has_num_threads = False, b_has_unix = True, b_init_boot_time = 0, b_depth = 100,
     b_virtual_mem = (\<lambda>h. Inl NotImplementedError), b_swap_mem = (\<lambda>h. Inl NotImplementedError),
     b_cpu_times = (\<lambda>h. Inl NotImplementedError), b_per_cpu_times = (\<lambda>h. Inl NotImplementedError),
     b_cpu_count_logical = (\<lambda>h. Inl NotImplementedError), b_cpu_count_cores = (\<lambda>h. Inl NotImplementedError),
     b_cpu_stats = (\<lambda>h. Inl NotImplementedError), b_cpu_freq = (\<lambda>h a. Inl NotImplementedError),
     b_disk_partitions = (\<lambda>h. Inl NotImplementedError), b_net_io_counters = (\<lambda>h. Inl NotImplementedError),
     b_net_if_mtu = (\<lambda>h a. Inl NotImplementedError), b_net_if_flags = (\<lambda>h a. Inl NotImplementedError),
     b_net_if_duplex_speed = (\<lambda>h a. Inl NotImplementedError),
     b_net_connections = (\<lambda>h a b c d. Inl NotImplementedError), b_proc_net_connections = (\<lambda>h a b c. Inl NotImplementedError),
     b_sensors_battery = (\<lambda>h. Inl NotImplementedError), b_cpu_temperature = (\<lambda>h a. Inl NotImplementedError),
     b_boot_time = (\<lambda>h. Inl NotImplementedError), b_users = (\<lambda>h. Inl NotImplementedError),
     b_pids = (\<lambda>h. Inl NotImplementedError), b_is_zombie = (\<lambda>h a. Inl NotImplementedError),
     b_kinfo = (\<lambda>h a. Inl NotImplementedError), b_proc_name = (\<lambda>h a. Inl NotImplementedError),
     b_proc_exe = (\<lambda>h a. Inl NotImplementedError), b_proc_cmdline = (\<lambda>h a. Inl NotImplementedError),
     b_proc_environ = (\<lambda>h a. Inl NotImplementedError), b_which = (\<lambda>h a. Inl NotImplementedError),
     b_proc_num_threads = (\<lambda>h a. Inl NotImplementedError), b_proc_threads = (\<lambda>h a. Inl NotImplementedError),
     b_priority_set = (\<lambda>h a b. Inl NotImplementedError), b_proc_cwd = (\<lambda>h a. Inl NotImplementedError),
     b_proc_open_files = (\<lambda>h a. Inl NotImplementedError), b_proc_num_fds = (\<lambda>h a. Inl NotImplementedError),
     b_affinity_get = (\<lambda>h a. Inl NotImplementedError), b_affinity_set = (\<lambda>h a b. Inl NotImplementedError),
     b_memory_maps = (\<lambda>h a. Inl NotImplementedError), b_getrlimit = (\<lambda>h a b. Inl NotImplementedError),
     b_setrlimit = (\<lambda>h a b c d. Inl NotImplementedError)\<rparr>"

definition null_bsys :: "int \<Rightarrow> bsys" where
  "null_bsys pid = esys.extend (psx.extend null_psx (esys.fields null_bsd (\<lambda>_. 0) (xproc_init pid []))) (bsys.fields None)"

lemma null_bsys_simps [simp]:
  "sys_os (null_bsys pid) = null_os" "hist (null_bsys pid) = []" "ext (null_bsys pid) = null_bsd"
  "ext_const (null_bsys pid) = (\<lambda>_. 0)" "xp (null_bsys pid) = xproc_init pid []" "pid0_cache (null_bsys pid) = None"
  by (simp_all add: null_bsys_def null_psx_def null_sys_def sys.defs psx.defs esys.defs bsys.defs)

section \<open>Pids\<close>

lemma bsd_pids_at_other:
  assumes "b_os (ext s) \<noteq> OPENBSD" "n \<noteq> 0"
  shows "bsd_pids_at n s = (b_pids (ext s) (hist s), s\<lparr>hist := SExt ''pids'' [] [] # hist s\<rparr>)"
  using assms by (cases n) (auto simp: bsd_pids_with_def split: sum.splits)

text \<open>An error of the kernel that is not about permission or existence, for the process 0.\<close>

definition pid0_unreadable :: "bsd_ext \<Rightarrow> bool" where
  "pid0_unreadable x \<longleftrightarrow> b_os x = OPENBSD \<and> (\<forall>h. \<exists>l. b_pids x h = Inr l \<and> 0 \<notin> set l)
     \<and> (\<forall>h. \<exists>e. b_kinfo x h 0 = Inl (OSError e) \<and> e \<notin> {ESRCH, EPERM, EACCES})"

lemma bsd_pids_at_recursion:
  fixes s :: "'z bsys_scheme"
  assumes "pid0_unreadable (ext s)" "pid0_cache s = None"
  shows "\<exists>t. bsd_pids_at n s = (Inl RuntimeError, t)"
  using assms
proof (induction n arbitrary: s)
  case 0
  then show ?case by simp
next
  case (Suc n)
  let ?s1 = "s\<lparr>hist := SExt ''pids'' [] [] # hist s\<rparr>"
  let ?s2 = "?s1\<lparr>xp := xproc_init 0 (procfs_path s)\<rparr>"
  let ?s3 = "?s2\<lparr>hist := SExt ''proc_oneshot_kinfo'' [0] [] # hist ?s2\<rparr>"
  obtain l where l: "b_pids (ext s) (hist s) = Inr l" "0 \<notin> set l"
    using Suc.prems(1) unfolding pid0_unreadable_def by blast
  obtain e where e: "b_kinfo (ext s) (hist ?s1) 0 = Inl (OSError e)" "e \<notin> {ESRCH, EPERM, EACCES}"
    using Suc.prems(1) unfolding pid0_unreadable_def by blast
  obtain t where t: "bsd_pids_at n ?s3 = (Inl RuntimeError, t)"
    using Suc.IH [of ?s3] Suc.prems by auto
  have init: "xp ?s2 = xproc_init 0 (procfs_path s)" by simp
  have "bsd_oneshot (bsd_pids_at n) ?s2 = (Inl RuntimeError, t)"
    using e t by (simp add: bsd_oneshot_def bsd_wrap_def bsd_handler_def memoize_def b_get_def x_has_def xproc_init_def)
  then have "bsd_name (bsd_pids_at n) ?s2 = (Inl RuntimeError, t)"
    by (simp add: bsd_name_def bsd_wrap_def bsd_handler_def)
  then have "on_new 0 (bsd_name (bsd_pids_at n)) ?s1 = (Inl RuntimeError, t\<lparr>xp := xp s\<rparr>)"
    by (simp add: on_new_def)
  then have "pid_0_exists (bsd_pids_at n) ?s1 = (Inl RuntimeError, t\<lparr>xp := xp s\<rparr>)"
    using Suc.prems(2) by (simp add: pid_0_exists_def)
  then show ?case using l Suc.prems(1) by (simp add: bsd_pids_with_def pid0_unreadable_def)
qed

text \<open>
  C37: on OpenBSD, \<open>pids()\<close> and \<open>pid_exists\<close> of a live pid end in \<open>RecursionError\<close> when the kernel
  refuses to describe the process 0 with an error other than \<open>ESRCH\<close>, \<open>EPERM\<close> and \<open>EACCES\<close>: the
  question whether it exists makes \<open>wrap_exceptions\<close> ask for the pids again, without end.
\<close>

theorem openbsd_pids_recursion:
  fixes s :: "'z bsys_scheme"
  assumes "pid0_unreadable (ext s)" and "pid0_cache s = None"
  shows "fst (bsd_pids s) = Inl RuntimeError
     \<and> (fst (posix_pid_exists pid s) = Inr True \<longrightarrow> fst (bsd_pid_exists pid s) = Inl RuntimeError)"
proof -
  have pids: "\<exists>v. bsd_pids u = (Inl RuntimeError, v)"
    if "ext u = ext s" "pid0_cache u = None" for u :: "'z bsys_scheme"
    using bsd_pids_at_recursion [of u "b_depth (ext u)"] that assms(1) by (simp add: bsd_pids_def)
  have "fst (bsd_pid_exists pid s) = Inl RuntimeError" if "fst (posix_pid_exists pid s) = Inr True"
  proof -
    obtain t where t: "posix_pid_exists pid s = (Inr True, t)"
      using \<open>fst (posix_pid_exists pid s) = Inr True\<close> by (cases "posix_pid_exists pid s") simp
    have "t = s \<or> t = s\<lparr>hist := SKill pid 0 # hist s\<rparr>"
      using t by (auto simp: posix_pid_exists_def kill_call_def split: sum.splits if_splits)
    then have "ext t = ext s" "pid0_cache t = None" using assms(2) by auto
    from pids [OF this] t assms(1) show ?thesis by (auto simp: bsd_pid_exists_def pid0_unreadable_def)
  qed
  then show ?thesis using pids [OF refl assms(2)] by auto
qed

theorem openbsd_pids_recursion_witness:
  "fst (bsd_pids ((null_bsys 7)\<lparr>ext := null_bsd\<lparr>b_os := OPENBSD, b_pids := \<lambda>h. Inr [1, 7],
      b_kinfo := \<lambda>h pid. Inl (OSError EINVAL)\<rparr>\<rparr>)) = Inl RuntimeError"
proof -
  let ?s = "(null_bsys 7)\<lparr>ext := null_bsd\<lparr>b_os := OPENBSD, b_pids := \<lambda>h. Inr [1, 7],
      b_kinfo := \<lambda>h pid. Inl (OSError EINVAL)\<rparr>\<rparr>"
  have "pid0_unreadable (ext ?s)" by (simp add: pid0_unreadable_def)
  moreover have "pid0_cache ?s = None" by simp
  ultimately show ?thesis using openbsd_pids_recursion [of ?s] by blast
qed

end
