(* ===== verification/Osx.thy ===== *)
theory Osx
  imports Ext_Base
begin

text \<open>
  \<open>psutil/_psosx.py\<close>: macOS.
\<close>

section \<open>The extension\<close>

record osx_kinfo =
  ok_name :: "string option"
  ok_ppid :: int
  ok_ruid :: int
  ok_euid :: int
  ok_suid :: int
  ok_rgid :: int
  ok_egid :: int
  ok_sgid :: int
  ok_ttynr :: int
  ok_ctime :: flt
  ok_status :: int

record osx_taskinfo =
  ot_cpu_utime :: flt
  ot_cpu_stime :: flt
  ot_rss :: int
  ot_vms :: int
  ot_minor_faults :: int
  ot_major_faults :: int
  ot_volctxsw :: int
  ot_num_threads :: int

record osx_vmem =
  ov_total :: int
  ov_available :: int
  ov_used :: int
  ov_free :: int
  ov_active :: int
  ov_inactive :: int
  ov_wired :: int

record osx_swap =
  os_swap_total :: int
  os_swap_used :: int
  os_swap_free :: int
  os_swap_sin :: int
  os_swap_sout :: int

type_synonym flt4 = "flt \<times> flt \<times> flt \<times> flt"

text \<open>\<open>o_init_boot_time\<close> is \<open>INIT_BOOT_TIME\<close>.\<close>

record osx_ext =
  o_has_unix :: bool
  o_init_boot_time :: flt
  o_virtual_mem :: "(exn + osx_vmem) answer"
  o_swap_mem :: "(exn + osx_swap) answer"
  o_cpu_times :: "(exn + flt4) answer"
  o_per_cpu_times :: "(exn + flt4 list) answer"
  o_cpu_count_logical :: "(exn + int option) answer"
  o_cpu_count_cores :: "(exn + int option) answer"
  o_cpu_stats :: "(exn + (int \<times> int \<times> int \<times> int \<times> int)) answer"
  o_cpu_freq :: "(exn + (int \<times> int \<times> int) option) answer"
  o_disk_partitions :: "(exn + (string \<times> string \<times> string \<times> string) list) answer"
  o_sensors_battery :: "(exn + (int \<times> int \<times> int)) answer"
  o_net_io_counters :: "(exn + (string, int list) dict) answer"
  o_net_if_mtu :: "(string \<Rightarrow> exn + int) answer"
  o_net_if_flags :: "(string \<Rightarrow> exn + string list) answer"
  o_net_if_duplex_speed :: "(string \<Rightarrow> exn + (int \<times> int)) answer"
  o_boot_time :: "(exn + flt) answer"
  o_users :: "(exn + (string \<times> string \<times> string \<times> flt \<times> int option) list) answer"
  o_pids :: "(exn + int list) answer"
  o_is_zombie :: "(int \<Rightarrow> exn + bool) answer"
  o_kinfo :: "(int \<Rightarrow> exn + osx_kinfo) answer"
  o_taskinfo :: "(int \<Rightarrow> exn + osx_taskinfo) answer"
  o_proc_name :: "(int \<Rightarrow> exn + string) answer"
  o_proc_exe :: "(int \<Rightarrow> exn + string) answer"
  o_proc_cmdline :: "(int \<Rightarrow> exn + string list) answer"
  o_proc_environ :: "(int \<Rightarrow> exn + string) answer"
  o_proc_cwd :: "(int \<Rightarrow> exn + string) answer"
  o_memory_info_ex :: "(int \<Rightarrow> exn + (string, int) dict) answer"
  o_memory_uss :: "(int \<Rightarrow> exn + int) answer"
  o_open_files :: "(int \<Rightarrow> exn + (string \<times> int) list) answer"
  o_net_connections :: "(int \<Rightarrow> int list \<Rightarrow> int list \<Rightarrow> exn + rawconn list) answer"
  o_num_fds :: "(int \<Rightarrow> exn + int) answer"
  o_priority_get :: "(int \<Rightarrow> exn + int) answer"
  o_priority_set :: "(int \<Rightarrow> int \<Rightarrow> exn + unit) answer"
  o_threads :: "(int \<Rightarrow> exn + (int \<times> flt \<times> flt) list) answer"

record osx_cache =
  oc_kinfo :: "osx_kinfo option"
  oc_taskinfo :: "osx_taskinfo option"

type_synonym 'z mac_scheme = "(osx_ext, osx_cache, 'z) esys_scheme"

section \<open>System\<close>

record osx_svmem =
  ovm_total :: int
  ovm_available :: int
  ovm_percent :: flt
  ovm_used :: int
  ovm_free :: int
  ovm_active :: int
  ovm_inactive :: int
  ovm_wired :: int

definition osx_virtual_memory :: "('z mac_scheme, osx_svmem) py" where
  "osx_virtual_memory = bnd (ext_try ''virtual_mem'' [] [] o_virtual_mem) (\<lambda>d.
     ret \<lparr>ovm_total = ov_total d, ovm_available = ov_available d,
          ovm_percent = usage_percent (ov_total d - ov_available d) (ov_total d) (Some 1),
          ovm_used = ov_used d, ovm_free = ov_free d, ovm_active = ov_active d, ovm_inactive = ov_inactive d,
          ovm_wired = ov_wired d\<rparr>)"

definition osx_swap_memory :: "('z mac_scheme, sswap) py" where
  "osx_swap_memory = bnd (ext_try ''swap_mem'' [] [] o_swap_mem) (\<lambda>d.
     ret \<lparr>sw_total = os_swap_total d, sw_used = os_swap_used d, sw_free = os_swap_free d,
          sw_percent = usage_percent (os_swap_used d) (os_swap_total d) (Some 1),
          sw_sin = os_swap_sin d, sw_sout = os_swap_sout d\<rparr>)"

record osx_scputimes =
  oct_user :: flt
  oct_system :: flt
  oct_idle :: flt
  oct_nice :: flt

definition osx_ct :: "flt4 \<Rightarrow> osx_scputimes" where
  "osx_ct t = (case t of (user, nice, system, idle) \<Rightarrow>
     \<lparr>oct_user = user, oct_system = system, oct_idle = idle, oct_nice = nice\<rparr>)"

definition osx_cpu_times :: "('z mac_scheme, osx_scputimes) py" where
  "osx_cpu_times = bnd (ext_try ''cpu_times'' [] [] o_cpu_times) (\<lambda>t. ret (osx_ct t))"

definition osx_per_cpu_times :: "('z mac_scheme, osx_scputimes list) py" where
  "osx_per_cpu_times = bnd (ext_try ''per_cpu_times'' [] [] o_per_cpu_times) (\<lambda>ts. ret (map osx_ct ts))"

definition osx_cpu_count_logical :: "('z mac_scheme, int option) py" where
  "osx_cpu_count_logical = ext_try ''cpu_count_logical'' [] [] o_cpu_count_logical"

definition osx_cpu_count_cores :: "('z mac_scheme, int option) py" where
  "osx_cpu_count_cores = ext_try ''cpu_count_cores'' [] [] o_cpu_count_cores"

definition osx_cpu_stats :: "('z mac_scheme, scpustats) py" where
  "osx_cpu_stats = bnd (ext_try ''cpu_stats'' [] [] o_cpu_stats) (\<lambda>(ctx, intr, soft, sc, traps).
     ret \<lparr>cs_ctx_switches = Some ctx, cs_interrupts = Some intr, cs_soft_interrupts = Some soft, cs_syscalls = sc\<rparr>)"

definition osx_cpu_freq :: "('z mac_scheme, scpufreq list) py" where
  "osx_cpu_freq = bnd (ext_try ''cpu_freq'' [] [] o_cpu_freq) (\<lambda>r. case r of
       None \<Rightarrow> ret []
     | Some (cur, mn, mx) \<Rightarrow> ret [\<lparr>cf_current = fint cur, cf_min = Some (fint mn), cf_max = Some (fint mx)\<rparr>])"

definition osx_disk_partitions :: "bool \<Rightarrow> ('z mac_scheme, sdiskpart list) py" where
  "osx_disk_partitions all = bnd (ext_try ''disk_partitions'' [] [] o_disk_partitions) (\<lambda>ps.
     for_each ps (\<lambda>(dev0, mount, fstype, opts) acc.
       let dev = (if dev0 = ''none'' then [] else dev0);
           entry = \<lparr>dp_device = dev, dp_mountpoint = mount, dp_fstype = fstype, dp_opts = opts\<rparr> in
       if all then ret (acc @ [entry])
       else if \<not> startswith dev ''/'' then ret acc
       else bnd (path_exists dev) (\<lambda>ex. ret (if ex then acc @ [entry] else acc))) [])"

definition osx_sensors_battery :: "('z mac_scheme, sbattery option) py" where
  "osx_sensors_battery = try_else (ext_try ''sensors_battery'' [] [] o_sensors_battery)
     (\<lambda>e. if e = NotImplementedError then ret None else raise e) (\<lambda>b. ret (Some (mk_battery b)))"

definition osx_net_if_stats :: "('z mac_scheme, (string, snicstats) dict) py" where
  "osx_net_if_stats = bnd (ext_try ''net_io_counters'' [] [] o_net_io_counters) (\<lambda>d.
     for_each (map fst d) (if_stats_step
       (\<lambda>name. ext_try ''net_if_mtu'' [] [name] (\<lambda>x h. o_net_if_mtu x h name))
       (\<lambda>name. ext_try ''net_if_flags'' [] [name] (\<lambda>x h. o_net_if_flags x h name))
       (\<lambda>name. ext_try ''net_if_duplex_speed'' [] [name] (\<lambda>x h. o_net_if_duplex_speed x h name))) [])"

definition osx_boot_time :: "('z mac_scheme, flt) py" where
  "osx_boot_time = ext_try ''boot_time'' [] [] o_boot_time"

definition osx_adjust_proc_create_time :: "flt \<Rightarrow> ('z mac_scheme, flt) py" where
  "osx_adjust_proc_create_time ctime = bnd (gets (\<lambda>s. o_init_boot_time (ext s))) (\<lambda>init.
     if init = 0 then ret ctime else bnd osx_boot_time (\<lambda>now. ret (adjust_ctime init now ctime)))"

definition osx_users :: "('z mac_scheme, suser list) py" where
  "osx_users = bnd (ext_try ''users'' [] [] o_users) (\<lambda>rawlist.
     ret (map (\<lambda>(user, tty, hostname, tstamp, pid). \<lparr>us_name = user,
             us_terminal = (if tty = [] then None else Some tty),
             us_host = (if hostname = [] then None else Some hostname), us_started = tstamp, us_pid = pid\<rparr>)
          (filter (\<lambda>(user, tty, hostname, tstamp, pid). tty \<noteq> ''~'' \<and> tstamp \<noteq> 0) rawlist)))"

section \<open>The class \<open>Process\<close>\<close>

definition osx_handler :: "int \<times> string option \<times> int option \<Rightarrow> exn \<Rightarrow> ('z mac_scheme, 'a) py" where
  "osx_handler idn e = (case idn of (pid, name, ppid) \<Rightarrow>
     if is_ProcessLookupError e then
       bnd (ext_try ''proc_is_zombie'' [pid] [] (\<lambda>x h. o_is_zombie x h pid)) (\<lambda>z.
       if z then raise (mk_ZombieProcess pid name ppid None) else raise (mk_NoSuchProcess pid name None))
     else if is_PermissionError e then raise (mk_AccessDenied (Some pid) name None)
     else if e = CextZombieProcessError then raise (mk_ZombieProcess pid name ppid None)
     else raise e)"

definition osx_wrap_exceptions :: "('z mac_scheme, 'a) py \<Rightarrow> ('z mac_scheme, 'a) py" where
  "osx_wrap_exceptions m = bnd ident3 (\<lambda>idn. try_except m (osx_handler idn))"

definition o_get :: "string \<Rightarrow> (osx_ext \<Rightarrow> (int \<Rightarrow> exn + 'a) answer) \<Rightarrow> ('z mac_scheme, 'a) py" where
  "o_get fn f = bnd (me x_pid) (\<lambda>pid. ext_try fn [pid] [] (\<lambda>x h. f x h pid))"

definition osx_blank :: osx_cache where "osx_blank = \<lparr>oc_kinfo = None, oc_taskinfo = None\<rparr>"

definition put_oc_kinfo :: "osx_kinfo \<Rightarrow> osx_cache \<Rightarrow> osx_cache" where
  "put_oc_kinfo r c = c\<lparr>oc_kinfo := Some r\<rparr>"
definition put_oc_taskinfo :: "osx_taskinfo \<Rightarrow> osx_cache \<Rightarrow> osx_cache" where
  "put_oc_taskinfo r c = c\<lparr>oc_taskinfo := Some r\<rparr>"

interpretation osx_kinfo_slot: memo_slot x_has "x_look oc_kinfo" "x_store put_oc_kinfo" "x_on osx_blank" x_off
  by (rule x_slot) (simp_all add: put_oc_kinfo_def osx_blank_def)

interpretation osx_taskinfo_slot: memo_slot x_has "x_look oc_taskinfo" "x_store put_oc_taskinfo" "x_on osx_blank" x_off
  by (rule x_slot) (simp_all add: put_oc_taskinfo_def osx_blank_def)

definition osx_oneshot_enter :: "('z mac_scheme, unit) py" where
  "osx_oneshot_enter = bnd (modify (x_on osx_blank)) (\<lambda>_. modify (x_on osx_blank))"

definition osx_oneshot_exit :: "('z mac_scheme, unit) py" where
  "osx_oneshot_exit = bnd (modify x_off) (\<lambda>_. modify x_off)"

definition oneshot_kinfo :: "('z mac_scheme, osx_kinfo) py" where
  "oneshot_kinfo = osx_wrap_exceptions (memoize x_has (x_look oc_kinfo) (x_store put_oc_kinfo)
     (o_get ''proc_oneshot_kinfo'' o_kinfo))"

definition oneshot_pidtaskinfo :: "('z mac_scheme, osx_taskinfo) py" where
  "oneshot_pidtaskinfo = osx_wrap_exceptions (memoize x_has (x_look oc_taskinfo) (x_store put_oc_taskinfo)
     (o_get ''proc_oneshot_pidtaskinfo'' o_taskinfo))"

definition osx_name :: "('z mac_scheme, string) py" where
  "osx_name = osx_wrap_exceptions (bnd oneshot_kinfo (\<lambda>d.
     case ok_name d of Some name \<Rightarrow> ret name | None \<Rightarrow> o_get ''proc_name'' o_proc_name))"

definition osx_exe :: "('z mac_scheme, string) py" where
  "osx_exe = osx_wrap_exceptions (o_get ''proc_exe'' o_proc_exe)"

definition osx_cmdline :: "('z mac_scheme, string list) py" where
  "osx_cmdline = osx_wrap_exceptions (o_get ''proc_cmdline'' o_proc_cmdline)"

definition osx_environ :: "('z mac_scheme, (string, string) dict) py" where
  "osx_environ = osx_wrap_exceptions (bnd (o_get ''proc_environ'' o_proc_environ) (\<lambda>s. ret (parse_environ_block False s)))"

definition osx_ppid :: "('z mac_scheme, int) py" where
  "osx_ppid = osx_wrap_exceptions (bnd oneshot_kinfo (\<lambda>d.
     bnd (modify (\<lambda>s. s\<lparr>xp := (xp s)\<lparr>x_ppid := Some (ok_ppid d)\<rparr>\<rparr>)) (\<lambda>_. ret (ok_ppid d))))"

definition osx_cwd :: "('z mac_scheme, string) py" where
  "osx_cwd = osx_wrap_exceptions (o_get ''proc_cwd'' o_proc_cwd)"

definition osx_uids :: "('z mac_scheme, pids3) py" where
  "osx_uids = osx_wrap_exceptions (bnd oneshot_kinfo (\<lambda>d.
     ret \<lparr>ids_real = ok_ruid d, ids_effective = ok_euid d, ids_saved = ok_suid d\<rparr>))"

definition osx_gids :: "('z mac_scheme, pids3) py" where
  "osx_gids = osx_wrap_exceptions (bnd oneshot_kinfo (\<lambda>d.
     ret \<lparr>ids_real = ok_rgid d, ids_effective = ok_egid d, ids_saved = ok_sgid d\<rparr>))"

definition osx_terminal :: "('z mac_scheme, string option) py" where
  "osx_terminal = osx_wrap_exceptions (bnd oneshot_kinfo (\<lambda>d. bnd (gets ext_const) (\<lambda>c.
     if ok_ttynr d = c ''NODEV'' then ret None else get_terminal (ok_ttynr d))))"

definition osx_memory_info :: "('z mac_scheme, pmem2) py" where
  "osx_memory_info = osx_wrap_exceptions (bnd oneshot_pidtaskinfo (\<lambda>d. ret \<lparr>pm2_rss = ot_rss d, pm2_vms = ot_vms d\<rparr>))"

definition osx_memory_info_ex :: "('z mac_scheme, (string, int) dict) py" where
  "osx_memory_info_ex = osx_wrap_exceptions (o_get ''proc_memory_info_ex'' o_memory_info_ex)"

definition osx_memory_footprint :: "('z mac_scheme, int) py" where
  "osx_memory_footprint = osx_wrap_exceptions (o_get ''proc_memory_uss'' o_memory_uss)"

definition osx_page_faults :: "('z mac_scheme, ppagefaults) py" where
  "osx_page_faults = osx_wrap_exceptions (bnd oneshot_pidtaskinfo (\<lambda>d.
     ret \<lparr>pf_minor = ot_minor_faults d, pf_major = ot_major_faults d\<rparr>))"

definition osx_proc_cpu_times :: "('z mac_scheme, pcputimes4) py" where
  "osx_proc_cpu_times = osx_wrap_exceptions (bnd oneshot_pidtaskinfo (\<lambda>d.
     ret \<lparr>pc4_user = ot_cpu_utime d, pc4_system = ot_cpu_stime d, pc4_children_user = 0, pc4_children_system = 0\<rparr>))"

definition osx_create_time :: "bool \<Rightarrow> ('z mac_scheme, flt) py" where
  "osx_create_time mono_clock = osx_wrap_exceptions (bnd oneshot_kinfo (\<lambda>d.
     if \<not> mono_clock then osx_adjust_proc_create_time (ok_ctime d) else ret (ok_ctime d)))"

definition osx_num_ctx_switches :: "('z mac_scheme, pctxsw) py" where
  "osx_num_ctx_switches = osx_wrap_exceptions (bnd oneshot_pidtaskinfo (\<lambda>d.
     ret \<lparr>cx_voluntary = ot_volctxsw d, cx_involuntary = 0\<rparr>))"

definition osx_num_threads :: "('z mac_scheme, int) py" where
  "osx_num_threads = osx_wrap_exceptions (bnd oneshot_pidtaskinfo (\<lambda>d. ret (ot_num_threads d)))"

definition osx_open_files :: "('z mac_scheme, popenfile2 list) py" where
  "osx_open_files = osx_wrap_exceptions (bnd (me x_pid) (\<lambda>pid.
     if pid = 0 then ret []
     else bnd (o_get ''proc_open_files'' o_open_files) (\<lambda>l.
       for_each l (\<lambda>(path, fd) acc. bnd (isfile_strict path) (\<lambda>ok.
         ret (if ok then acc @ [\<lparr>of2_path = path, of2_fd = fd\<rparr>] else acc))) [])))"

definition osx_proc_net_connections :: "string \<Rightarrow> ('z mac_scheme, sconn list) py" where
  "osx_proc_net_connections kind = osx_wrap_exceptions
     (bnd (gets (\<lambda>s. (o_has_unix (ext s), const_dict (ext_const s) bsd_tcp_names, x_pid (xp s)))) (\<lambda>(unix, statuses, pid).
      bnd (liftE (conn_kind unix kind)) (\<lambda>(families, types).
      bnd (ext_try ''proc_net_connections'' (pid # families @ types) [] (\<lambda>x h. o_net_connections x h pid families types)) (\<lambda>rawlist.
      ret (map (\<lambda>c. conn_to_ntuple (rc_fd c) (rc_fam c) (rc_type c) (rc_laddr c) (rc_raddr c) (rc_status c) statuses None) rawlist)))))"

definition osx_num_fds :: "('z mac_scheme, int) py" where
  "osx_num_fds = osx_wrap_exceptions (bnd (me x_pid) (\<lambda>pid.
     if pid = 0 then ret 0 else o_get ''proc_num_fds'' o_num_fds))"

definition osx_wait ::
  "bool \<Rightarrow> bool \<Rightarrow> flt option \<Rightarrow> 'z mac_scheme \<Rightarrow> ('z mac_scheme, int option) result" where
  "osx_wait can_pidfd can_kqueue timeout s = (case wait_pid can_pidfd can_kqueue (x_pid (xp s)) timeout s of
       None \<Rightarrow> None
     | Some (r, t) \<Rightarrow> Some (try_except (\<lambda>_. (r, t)) (osx_handler (x_pid (xp s), x_name (xp s), x_ppid (xp s))) s))"

definition osx_nice_get :: "('z mac_scheme, int) py" where
  "osx_nice_get = osx_wrap_exceptions (o_get ''proc_priority_get'' o_priority_get)"

definition osx_nice_set :: "int \<Rightarrow> ('z mac_scheme, unit) py" where
  "osx_nice_set v = osx_wrap_exceptions (bnd (me x_pid) (\<lambda>pid.
     ext_do ''proc_priority_set'' [pid, v] [] (\<lambda>x h. o_priority_set x h pid v)))"

definition osx_statuses :: "(string \<times> ProcessStatus) list" where
  "osx_statuses = [(''SIDL'', STATUS_IDLE), (''SRUN'', STATUS_RUNNING), (''SSLEEP'', STATUS_SLEEPING),
     (''SSTOP'', STATUS_STOPPED), (''SZOMB'', STATUS_ZOMBIE)]"

text \<open>\<open>None\<close> stands for the string \<open>?\<close>.\<close>

definition osx_status :: "('z mac_scheme, ProcessStatus option) py" where
  "osx_status = osx_wrap_exceptions (bnd oneshot_kinfo (\<lambda>d. bnd (gets (\<lambda>s. const_dict (ext_const s) osx_statuses)) (\<lambda>st.
     ret (map_of st (ok_status d)))))"

definition osx_threads :: "('z mac_scheme, pthread list) py" where
  "osx_threads = osx_wrap_exceptions (bnd (o_get ''proc_threads'' o_threads) (\<lambda>l. ret (mk_threads l)))"

section \<open>Pids and sockets of all processes\<close>

definition osx_pids :: "('z mac_scheme, int list) py" where
  "osx_pids = bnd (ext_try ''pids'' [] [] o_pids) (\<lambda>ls.
     if 0 \<in> set ls then ret ls
     else try_else (on_new 0 (osx_create_time False))
       (\<lambda>e. if is_NoSuchProcess e then ret ls else if is_AccessDenied e then ret (0 # ls) else raise e)
       (\<lambda>_. ret (0 # ls)))"

definition osx_net_connections :: "string \<Rightarrow> ('z mac_scheme, sconn list) py" where
  "osx_net_connections kind = bnd osx_pids (\<lambda>ps. for_each ps (\<lambda>pid acc.
     try_else (on_new pid (osx_proc_net_connections kind))
       (\<lambda>e. if is_NoSuchProcess e then ret acc else raise e)
       (\<lambda>cons. ret (acc @ map (\<lambda>c. c\<lparr>cn_pid := Some pid\<rparr>) cons))) [])"

end
