(* ===== verification/Osx_Facts.thy ===== *)
theory Osx_Facts
  imports Osx
begin

text \<open>
  What the macOS module shows: how the creation time of a process follows the clock.
\<close>

section \<open>A system to start from\<close>

text \<open>On it every compiled function is missing; the witnesses supply those they need.\<close>

definition null_osx :: osx_ext where
  "null_osx = \<lparr>o_has_unix = True, o_init_boot_time = 0, o_virtual_mem = (\<lambda>h. Inl NotImplementedError),
     o_swap_mem = (\<lambda>h. Inl NotImplementedError), o_cpu_times = (\<lambda>h. Inl NotImplementedError),
     o_per_cpu_times = (\<lambda>h. Inl NotImplementedError), o_cpu_count_logical = (\<lambda>h. Inl NotImplementedError),
     o_cpu_count_cores = (\<lambda>h. Inl NotImplementedError), o_cpu_stats = (\<lambda>h. Inl NotImplementedError),
     o_cpu_freq = (\<lambda>h. Inl NotImplementedError), o_disk_partitions = (\<lambda>h. Inl NotImplementedError),
     o_sensors_battery = (\<lambda>h. Inl NotImplementedError), o_net_io_counters = (\<lambda>h. Inl NotImplementedError),
     o_net_if_mtu = (\<lambda>h a. Inl NotImplementedError), o_net_if_flags = (\<lambda>h a. Inl NotImplementedError),
     o_net_if_duplex_speed = (\<lambda>h a. Inl NotImplementedError), o_boot_time = (\<lambda>h. Inl NotImplementedError),
     o_users = (\<lambda>h. Inl NotImplementedError), o_pids = (\<lambda>h. Inl NotImplementedError),
     o_is_zombie = (\<lambda>h a. Inl NotImplementedError), o_kinfo = (\<lambda>h a. Inl NotImplementedError),
     o_taskinfo = (\<lambda>h a. Inl NotImplementedError), o_proc_name = (\<lambda>h a. Inl NotImplementedError),
     o_proc_exe = (\<lambda>h a. Inl NotImplementedError), o_proc_cmdline = (\<lambda>h a. Inl NotImplementedError),
     o_proc_environ = (\<lambda>h a. Inl NotImplementedError), o_proc_cwd = (\<lambda>h a. Inl NotImplementedError),
     o_memory_info_ex = (\<lambda>h a. Inl NotImplementedError), o_memory_uss = (\<lambda>h a. Inl NotImplementedError),
     o_open_files = (\<lambda>h a. Inl NotImplementedError), o_net_connections = (\<lambda>h a b c. Inl NotImplementedError),
     o_num_fds = (\<lambda>h a. Inl NotImplementedError), o_priority_get = (\<lambda>h a. Inl NotImplementedError),
     o_priority_set = (\<lambda>h a b. Inl NotImplementedError), o_threads = (\<lambda>h a. Inl NotImplementedError)\<rparr>"

type_synonym mac = "(osx_ext, osx_cache) esys"

definition null_mac :: "int \<Rightarrow> mac" where
  "null_mac pid = psx.extend null_psx (esys.fields null_osx (\<lambda>_. 0) (xproc_init pid []))"

lemma null_mac_simps [simp]:
  "sys_os (null_mac pid) = null_os" "hist (null_mac pid) = []" "ext (null_mac pid) = null_osx"
  "ext_const (null_mac pid) = (\<lambda>_. 0)" "xp (null_mac pid) = xproc_init pid []"
  by (simp_all add: null_mac_def null_psx_def null_sys_def sys.defs psx.defs esys.defs)

section \<open>Creation times\<close>

lemma adjust_ctime_cases:
  "adjust_ctime init now c = (if \<bar>fsub init now\<bar> < 1 then c else fadd c \<bar>fsub init now\<bar>)"
  by (auto simp: adjust_ctime_def Let_def fadd_def fsub_def)

lemma osx_wrap_Inr: "osx_wrap_exceptions m s = (Inr x, t) \<longleftrightarrow> m s = (Inr x, t)"
  by (auto simp: osx_wrap_exceptions_def osx_handler_def split: sum.splits prod.splits if_splits)

lemma pres_osx_wrap [pres_intros]: "pres xframe m \<Longrightarrow> pres xframe (osx_wrap_exceptions m)"
  unfolding osx_wrap_exceptions_def osx_handler_def ident3_def
  by (intro pres_intros) (auto split: prod.splits intro!: pres_intros)

lemma pres_oneshot_kinfo [pres_intros]: "pres xframe oneshot_kinfo"
  unfolding oneshot_kinfo_def o_get_def by (intro pres_intros)

text \<open>
  C40: the creation time that follows changes of the system clock is exactly this.  When the
  boot time could not be read at import, or the boot time the system gives now differs from
  the one seen then by less than a second, it is the recorded time; otherwise the size of the
  difference is added to the recorded time, also when the clock was set back and the recorded
  time is too late.  So it is never before the recorded time, a double.
\<close>

theorem osx_create_time_moves_forward:
  fixes s :: "'z mac_scheme"
  assumes "osx_create_time True s = (Inr c0, t0)" and "osx_create_time False s = (Inr c, t)" and "fl c0 = c0"
  shows "c0 \<le> c \<and> (if o_init_boot_time (ext s) = 0 then c = c0
     else \<exists>now. o_boot_time (ext s) (hist t0) = Inr now
       \<and> c = (if \<bar>fsub (o_init_boot_time (ext s)) now\<bar> < 1 then c0
              else fadd c0 \<bar>fsub (o_init_boot_time (ext s)) now\<bar>))"
proof -
  let ?init = "o_init_boot_time (ext s)"
  obtain d where d: "oneshot_kinfo s = (Inr d, t0)" "c0 = ok_ctime d"
    using assms(1) by (auto simp: osx_create_time_def osx_wrap_Inr bnd_Inr simp del: bnd_run)
  have "xframe s t0" using presD [OF pres_oneshot_kinfo d(1)] .
  then have x: "ext t0 = ext s" by (simp add: xframe_def)
  have run: "osx_adjust_proc_create_time c0 t0 = (Inr c, t)"
    using assms(2) d by (auto simp: osx_create_time_def osx_wrap_Inr)
  show ?thesis
  proof (cases "?init = 0")
    case True
    then show ?thesis using run x by (simp add: osx_adjust_proc_create_time_def)
  next
    case False
    obtain now where now: "o_boot_time (ext s) (hist t0) = Inr now" "c = adjust_ctime ?init now c0"
      using run x False by (auto simp: osx_adjust_proc_create_time_def osx_boot_time_def split: sum.splits)
    have "fl c0 \<le> fadd c0 \<bar>fsub ?init now\<bar>" unfolding fadd_def by (rule fl_mono) simp
    then have "c0 \<le> fadd c0 \<bar>fsub ?init now\<bar>" using assms(3) by simp
    then show ?thesis using now False by (simp add: adjust_ctime_cases)
  qed
qed

text \<open>A clock set back by an hour, from 5000 to 1400 seconds: 10000 becomes 13600, not 6400.\<close>

theorem osx_create_time_moves_forward_witness:
  "let info = \<lparr>ok_name = None, ok_ppid = 1, ok_ruid = 0, ok_euid = 0, ok_suid = 0, ok_rgid = 0, ok_egid = 0,
                ok_sgid = 0, ok_ttynr = 0, ok_ctime = 10000, ok_status = 0\<rparr>;
       s = (null_mac 7)\<lparr>ext := null_osx\<lparr>o_init_boot_time := 5000, o_boot_time := \<lambda>h. Inr 1400,
             o_kinfo := \<lambda>h pid. Inr info\<rparr>\<rparr>
   in fst (osx_create_time False s) = Inr 13600 \<and> fadd 10000 \<bar>fsub 5000 1400\<bar> = 13600"
proof -
  let ?info = "\<lparr>ok_name = None, ok_ppid = 1, ok_ruid = 0, ok_euid = 0, ok_suid = 0, ok_rgid = 0, ok_egid = 0,
                ok_sgid = 0, ok_ttynr = 0, ok_ctime = 10000, ok_status = 0\<rparr>"
  let ?s = "(null_mac 7)\<lparr>ext := null_osx\<lparr>o_init_boot_time := 5000, o_boot_time := \<lambda>h. Inr 1400,
             o_kinfo := \<lambda>h pid. Inr ?info\<rparr>\<rparr>"
  have f: "fl 10000 = 10000" "fl 3600 = 3600" "fl 13600 = 13600"
    using fl_of_int [of 10000] fl_of_int [of 3600] fl_of_int [of 13600] by simp_all
  obtain t0 where t0: "osx_create_time True ?s = (Inr 10000, t0)"
    by (simp add: osx_create_time_def osx_wrap_Inr oneshot_kinfo_def osx_wrap_exceptions_def memoize_def o_get_def
        x_has_def xproc_init_def)
  obtain t where t: "osx_create_time False ?s = (Inr 13600, t)"
    by (simp add: osx_create_time_def osx_wrap_Inr oneshot_kinfo_def osx_wrap_exceptions_def memoize_def o_get_def
        x_has_def xproc_init_def osx_adjust_proc_create_time_def osx_boot_time_def adjust_ctime_cases fsub_def fadd_def f)
  from osx_create_time_moves_forward [OF t0 t f(1)] t show ?thesis by (simp add: fsub_def f(2))
qed

end
