(* ===== verification/Sunos.thy ===== *)
theory Sunos
  imports Ext_Base Linux_Utils
begin

text \<open>
  \<open>psutil/_pssunos.py\<close>: SunOS.
\<close>

section \<open>The extension\<close>

text \<open>
  The tuple \<open>proc_oneshot\<close> returns, whose places \<open>proc_info_map\<close> names, and the one of
  \<open>proc_cred\<close>.
\<close>

record sun_info =
  si_ppid :: int
  si_rss :: int
  si_vms :: int
  si_create_time :: flt
  si_nice :: int
  si_num_threads :: int
  si_status :: int
  si_ttynr :: int
  si_uid :: int
  si_euid :: int
  si_gid :: int
  si_egid :: int

type_synonym cred = "int \<times> int \<times> int \<times> int \<times> int \<times> int"
type_synonym flt4 = "flt \<times> flt \<times> flt \<times> flt"

text \<open>
  \<open>s_run\<close> runs a command and gives its exit code and outputs; \<open>s_is_64_bit\<close> is
  \<open>IS_64_BIT\<close>, \<open>s_path\<close> is \<open>os.environ['PATH']\<close>.
\<close>

record sun_ext =
  s_is_64_bit :: bool
  s_page_size :: int
  s_path :: string
  s_sysconf :: "(string \<Rightarrow> exn + int) answer"
  s_run :: "(string list \<Rightarrow> exn + (int \<times> string \<times> string)) answer"
  s_swap_mem :: "(exn + (int \<times> int)) answer"
  s_per_cpu_times :: "(exn + flt4 list) answer"
  s_cpu_count_cores :: "(exn + int option) answer"
  s_cpu_stats :: "(exn + (int \<times> int \<times> int \<times> int)) answer"
  s_disk_partitions :: "(exn + (string \<times> string \<times> string \<times> string) list) answer"
  s_net_connections :: "(int \<Rightarrow> exn + rawconn list) answer"
  s_net_if_stats :: "(exn + (string, bool \<times> int \<times> int \<times> int) dict) answer"
  s_boot_time :: "(exn + flt) answer"
  s_users :: "(exn + (string \<times> string option \<times> string option \<times> flt \<times> int option) list) answer"
  s_islink :: "(string \<Rightarrow> exn + bool) answer"
  s_name_and_args :: "(int \<Rightarrow> string \<Rightarrow> exn + (string \<times> string list)) answer"
  s_oneshot :: "(int \<Rightarrow> string \<Rightarrow> exn + sun_info) answer"
  s_cred :: "(int \<Rightarrow> string \<Rightarrow> exn + cred) answer"
  s_environ :: "(int \<Rightarrow> string \<Rightarrow> exn + (string, string) dict) answer"
  s_priority_set :: "(int \<Rightarrow> int \<Rightarrow> exn + unit) answer"
  s_proc_cpu_times :: "(int \<Rightarrow> string \<Rightarrow> exn + flt4) answer"
  s_proc_cpu_num :: "(int \<Rightarrow> string \<Rightarrow> exn + int) answer"
  s_query_thread :: "(int \<Rightarrow> int \<Rightarrow> string \<Rightarrow> exn + (flt \<times> flt)) answer"
  s_memory_maps :: "(int \<Rightarrow> string \<Rightarrow> exn + (int \<times> int \<times> string \<times> string \<times> int \<times> int \<times> int) list) answer"
  s_num_ctx_switches :: "(int \<Rightarrow> string \<Rightarrow> exn + (int \<times> int)) answer"
  s_page_faults :: "(int \<Rightarrow> string \<Rightarrow> exn + (int \<times> int)) answer"

record sun_cache =
  scc_oneshot :: "sun_info option"
  scc_name_and_args :: "(string \<times> string list) option"
  scc_cred :: "cred option"

type_synonym 'z sun_scheme = "(sun_ext, sun_cache, 'z) esys_scheme"

definition sun_const :: "(sun_ext \<Rightarrow> 'a) \<Rightarrow> ('z sun_scheme, 'a) py" where
  "sun_const f = gets (\<lambda>s. f (ext s))"

lemma sun_const_run [simp, py_run]: "sun_const f s = (Inr (f (ext s)), s)"
  by (simp add: sun_const_def)

definition sun_sysconf :: "string \<Rightarrow> ('z sun_scheme, int) py" where
  "sun_sysconf name = ext_try ''sysconf'' [] [name] (\<lambda>x h. s_sysconf x h name)"

definition sun_run :: "string list \<Rightarrow> ('z sun_scheme, int \<times> string \<times> string) py" where
  "sun_run cmd = ext_try ''run'' [] cmd (\<lambda>x h. s_run x h cmd)"

section \<open>System\<close>

record svmem5 =
  vm5_total :: int
  vm5_available :: int
  vm5_percent :: flt
  vm5_used :: int
  vm5_free :: int

definition sun_virtual_memory :: "('z sun_scheme, svmem5) py" where
  "sun_virtual_memory = bnd (sun_const s_page_size) (\<lambda>page. bnd (sun_sysconf ''SC_PHYS_PAGES'') (\<lambda>phys.
     bnd (sun_sysconf ''SC_AVPHYS_PAGES'') (\<lambda>avphys.
     let tot = phys * page; free = avphys * page; used = tot - free in
     ret \<lparr>vm5_total = tot, vm5_available = free, vm5_percent = usage_percent used tot (Some 1),
          vm5_used = used, vm5_free = free\<rparr>)))"

text \<open>A line of \<open>swap -l\<close>: the fourth and fifth word, in blocks of 512 bytes.\<close>

definition swap_line :: "string \<Rightarrow> int \<times> int \<Rightarrow> exn + (int \<times> int)" where
  "swap_line line acc = (case take 2 (drop 3 (split_ws line)) of
       [t, f] \<Rightarrow> bindE (py_int t) (\<lambda>t. bindE (py_int f) (\<lambda>f. Inr (fst acc + t * 512, snd acc + f * 512)))
     | _ \<Rightarrow> Inl ValueError)"

definition sun_swap_memory :: "('z sun_scheme, sswap) py" where
  "sun_swap_memory = bnd (ext_try ''swap_mem'' [] [] s_swap_mem) (\<lambda>(sin_pages, sout_pages).
     bnd (sun_const (\<lambda>x. (s_path x, s_page_size x))) (\<lambda>(path, page).
     bnd (sun_run [''/usr/bin/env'', ''PATH=/usr/sbin:/sbin:'' @ path, ''swap'', ''-l'']) (\<lambda>(code, stdout, stderr).
     if code \<noteq> 0 then raise RuntimeError
     else let lines = drop 1 (split_on nl (strip stdout)) in
       if lines = [] then raise RuntimeError
       else bnd (liftE (foldE swap_line lines (0, 0))) (\<lambda>(tot, free).
         let used = tot - free in
         ret \<lparr>sw_total = tot, sw_used = used, sw_free = free, sw_percent = usage_percent used tot (Some 1),
              sw_sin = sin_pages * page, sw_sout = sout_pages * page\<rparr>))))"

record scputimes4 =
  ct4_user :: flt
  ct4_system :: flt
  ct4_idle :: flt
  ct4_iowait :: flt

definition mk_ct4 :: "flt4 \<Rightarrow> scputimes4" where
  "mk_ct4 t = (case t of (a, b, c, d) \<Rightarrow> \<lparr>ct4_user = a, ct4_system = b, ct4_idle = c, ct4_iowait = d\<rparr>)"

text \<open>\<open>scputimes(*[sum(x) for x in zip(*ret)])\<close>.\<close>

definition sum_ct4 :: "flt4 list \<Rightarrow> exn + scputimes4" where
  "sum_ct4 rows = (if rows = [] then Inl TypeError
     else let col = (\<lambda>f. foldl fadd 0 (map f rows)) in
       Inr \<lparr>ct4_user = col (\<lambda>(a, b, c, d). a), ct4_system = col (\<lambda>(a, b, c, d). b),
            ct4_idle = col (\<lambda>(a, b, c, d). c), ct4_iowait = col (\<lambda>(a, b, c, d). d)\<rparr>)"

definition sun_cpu_times :: "('z sun_scheme, scputimes4) py" where
  "sun_cpu_times = bnd (ext_try ''per_cpu_times'' [] [] s_per_cpu_times) (\<lambda>rows. liftE (sum_ct4 rows))"

definition sun_per_cpu_times :: "('z sun_scheme, scputimes4 list) py" where
  "sun_per_cpu_times = bnd (ext_try ''per_cpu_times'' [] [] s_per_cpu_times) (\<lambda>rows. ret (map mk_ct4 rows))"

definition sun_cpu_count_logical :: "('z sun_scheme, int option) py" where
  "sun_cpu_count_logical = try_else (sun_sysconf ''SC_NPROCESSORS_ONLN'')
     (\<lambda>e. if e = ValueError then ret None else raise e) (\<lambda>n. ret (Some n))"

definition sun_cpu_count_cores :: "('z sun_scheme, int option) py" where
  "sun_cpu_count_cores = ext_try ''cpu_count_cores'' [] [] s_cpu_count_cores"

definition sun_cpu_stats :: "('z sun_scheme, scpustats) py" where
  "sun_cpu_stats = bnd (ext_try ''cpu_stats'' [] [] s_cpu_stats) (\<lambda>(ctx, intr, sc, traps).
     ret \<lparr>cs_ctx_switches = Some ctx, cs_interrupts = Some intr, cs_soft_interrupts = Some 0, cs_syscalls = sc\<rparr>)"

definition sun_disk_partitions :: "bool \<Rightarrow> ('z sun_scheme, sdiskpart list) py" where
  "sun_disk_partitions all = bnd (ext_try ''disk_partitions'' [] [] s_disk_partitions) (\<lambda>ps.
     for_each ps (\<lambda>(dev0, mount, fstype, opts) acc.
       let entry = \<lparr>dp_device = (if dev0 = ''none'' then [] else dev0), dp_mountpoint = mount, dp_fstype = fstype,
                    dp_opts = opts\<rparr> in
       if all then ret (acc @ [entry])
       else try_else (disk_usage mount)
         (\<lambda>e. if is_OSError e then ret acc else raise e)
         (\<lambda>u. ret (if du_total u = 0 then acc else acc @ [entry]))) [])"

definition sun_tcp_names :: "(string \<times> ConnectionStatus) list" where
  "sun_tcp_names =
     [(''TCPS_ESTABLISHED'', CONN_ESTABLISHED), (''TCPS_SYN_SENT'', CONN_SYN_SENT), (''TCPS_SYN_RCVD'', CONN_SYN_RECV),
      (''TCPS_FIN_WAIT_1'', CONN_FIN_WAIT1), (''TCPS_FIN_WAIT_2'', CONN_FIN_WAIT2), (''TCPS_TIME_WAIT'', CONN_TIME_WAIT),
      (''TCPS_CLOSED'', CONN_CLOSE), (''TCPS_CLOSE_WAIT'', CONN_CLOSE_WAIT), (''TCPS_LAST_ACK'', CONN_LAST_ACK),
      (''TCPS_LISTEN'', CONN_LISTEN), (''TCPS_CLOSING'', CONN_CLOSING), (''PSUTIL_CONN_NONE'', CONN_NONE),
      (''TCPS_IDLE'', CONN_IDLE), (''TCPS_BOUND'', CONN_BOUND)]"

definition sun_conn :: "(int, ConnectionStatus) dict \<Rightarrow> int \<Rightarrow> rawconn \<Rightarrow> exn + sconn" where
  "sun_conn statuses pid c = bindE (of_option KeyError (map_of statuses (rc_status c))) (\<lambda>st.
     Inr \<lparr>cn_fd = rc_fd c, cn_family = sockfam_to_enum (rc_fam c), cn_type = socktype_to_enum (rc_type c),
          cn_laddr = rc_laddr c, cn_raddr = rc_raddr c, cn_status = st, cn_pid = (if pid = -1 then rc_pid c else None)\<rparr>)"

definition sun_net_connections :: "string \<Rightarrow> int \<Rightarrow> ('z sun_scheme, sconn list) py" where
  "sun_net_connections kind pid = bnd (liftE (conn_kind False kind)) (\<lambda>(families, types).
     bnd (ext_try ''net_connections'' [pid] [] (\<lambda>x h. s_net_connections x h pid)) (\<lambda>rawlist.
     bnd (gets (\<lambda>s. const_dict (ext_const s) sun_tcp_names)) (\<lambda>statuses.
     bnd (liftE (mapE (sun_conn statuses pid)
        (filter (\<lambda>c. rc_fam c \<in> set families \<and> rc_type c \<in> set types) rawlist))) (\<lambda>l. ret (uniq l)))))"

definition sun_net_if_stats :: "('z sun_scheme, (string, snicstats) dict) py" where
  "sun_net_if_stats = bnd (ext_try ''net_if_stats'' [] [] s_net_if_stats) (\<lambda>rawdict.
     for_each rawdict (\<lambda>(name, isup, duplex, speed, mtu) acc. bnd (liftE (nic_duplex duplex)) (\<lambda>d.
       ret (AList.update name \<lparr>ns_isup = isup, ns_duplex = d, ns_speed = speed, ns_mtu = mtu, ns_flags = []\<rparr> acc))) [])"

definition sun_boot_time :: "('z sun_scheme, flt) py" where
  "sun_boot_time = ext_try ''boot_time'' [] [] s_boot_time"

definition sun_users :: "('z sun_scheme, suser list) py" where
  "sun_users = bnd (ext_try ''users'' [] [] s_users) (\<lambda>rawlist. ret (map (\<lambda>(user, tty, hostname, tstamp, pid).
     \<lparr>us_name = user, us_terminal = tty, us_host = hostname, us_started = tstamp, us_pid = pid\<rparr>) rawlist))"

definition sun_pids :: "('z sun_scheme, int list) py" where
  "sun_pids = bnd get_procfs_path (\<lambda>path. bnd (listdir path) (\<lambda>xs.
     liftE (mapE py_int (filter str_isdigit xs))))"

definition sun_pid_exists :: "int \<Rightarrow> ('z sun_scheme, bool) py" where
  "sun_pid_exists pid = posix_pid_exists pid"

end
