(* ===== verification/Sunos_Process.thy ===== *)
theory Sunos_Process
  imports Sunos
begin

text \<open>
  \<open>psutil/_pssunos.py\<close>: the translation of errors and the class \<open>Process\<close>.
\<close>

section \<open>Errors\<close>

text \<open>\<open>wrap_exceptions\<close>: what its handlers do with an exception of the method.\<close>

definition sun_handler :: "int \<times> string option \<times> int option \<Rightarrow> exn \<Rightarrow> ('z sun_scheme, 'a) py" where
  "sun_handler idn e = (case idn of (pid, name, ppid) \<Rightarrow>
     if is_FileNotFoundError e \<or> is_ProcessLookupError e then
       bnd (sun_pid_exists pid) (\<lambda>ex.
       if \<not> ex then raise (mk_NoSuchProcess pid name None) else raise (mk_ZombieProcess pid name ppid None))
     else if is_PermissionError e then raise (mk_AccessDenied (Some pid) name None)
     else if is_OSError e then
       (if pid = 0 then bnd sun_pids (\<lambda>l. if 0 \<in> set l then raise (mk_AccessDenied (Some pid) name None) else raise e)
        else raise e)
     else raise e)"

definition sun_wrap_exceptions :: "('z sun_scheme, 'a) py \<Rightarrow> ('z sun_scheme, 'a) py" where
  "sun_wrap_exceptions m = bnd ident3 (\<lambda>idn. try_except m (sun_handler idn))"

text \<open>\<open>f"{self._procfs_path}/{self.pid}..."\<close>, and a call of the extension with both.\<close>

definition proc_path :: "string \<Rightarrow> 'c xproc \<Rightarrow> string" where
  "proc_path rest p = x_procfs p @ ''/'' @ int_str (x_pid p) @ rest"

definition s_get :: "string \<Rightarrow> (sun_ext \<Rightarrow> (int \<Rightarrow> string \<Rightarrow> exn + 'a) answer) \<Rightarrow> ('z sun_scheme, 'a) py" where
  "s_get fn f = bnd (me (\<lambda>p. (x_pid p, x_procfs p))) (\<lambda>(pid, procfs).
     ext_try fn [pid] [procfs] (\<lambda>x h. f x h pid procfs))"

definition sun_assert_alive :: "('z sun_scheme, unit) py" where
  "sun_assert_alive = bnd (me (proc_path [])) (\<lambda>p. bnd (stat_call p) (\<lambda>_. ret ()))"

section \<open>The cached calls\<close>

definition sun_blank :: sun_cache where
  "sun_blank = \<lparr>scc_oneshot = None, scc_name_and_args = None, scc_cred = None\<rparr>"

definition put_scc_oneshot :: "sun_info \<Rightarrow> sun_cache \<Rightarrow> sun_cache" where
  "put_scc_oneshot r c = c\<lparr>scc_oneshot := Some r\<rparr>"
definition put_scc_name_and_args :: "string \<times> string list \<Rightarrow> sun_cache \<Rightarrow> sun_cache" where
  "put_scc_name_and_args r c = c\<lparr>scc_name_and_args := Some r\<rparr>"
definition put_scc_cred :: "cred \<Rightarrow> sun_cache \<Rightarrow> sun_cache" where
  "put_scc_cred r c = c\<lparr>scc_cred := Some r\<rparr>"

interpretation sun_oneshot_slot: memo_slot x_has "x_look scc_oneshot" "x_store put_scc_oneshot" "x_on sun_blank" x_off
  by (rule x_slot) (simp_all add: put_scc_oneshot_def sun_blank_def)

interpretation sun_name_slot: memo_slot x_has "x_look scc_name_and_args" "x_store put_scc_name_and_args"
    "x_on sun_blank" x_off
  by (rule x_slot) (simp_all add: put_scc_name_and_args_def sun_blank_def)

interpretation sun_cred_slot: memo_slot x_has "x_look scc_cred" "x_store put_scc_cred" "x_on sun_blank" x_off
  by (rule x_slot) (simp_all add: put_scc_cred_def sun_blank_def)

text \<open>Each of the three calls of \<open>cache_activate\<close> starts an empty cache.\<close>

definition sun_oneshot_enter :: "('z sun_scheme, unit) py" where
  "sun_oneshot_enter = bnd (modify (x_on sun_blank)) (\<lambda>_. bnd (modify (x_on sun_blank)) (\<lambda>_. modify (x_on sun_blank)))"

definition sun_oneshot_exit :: "('z sun_scheme, unit) py" where
  "sun_oneshot_exit = bnd (modify x_off) (\<lambda>_. bnd (modify x_off) (\<lambda>_. modify x_off))"

definition sun_name_and_args :: "('z sun_scheme, string \<times> string list) py" where
  "sun_name_and_args = sun_wrap_exceptions (memoize x_has (x_look scc_name_and_args) (x_store put_scc_name_and_args)
     (s_get ''proc_name_and_args'' s_name_and_args))"

definition sun_oneshot :: "('z sun_scheme, sun_info) py" where
  "sun_oneshot = sun_wrap_exceptions (memoize x_has (x_look scc_oneshot) (x_store put_scc_oneshot)
     (bnd (me x_pid) (\<lambda>pid. bnd (me (proc_path ''/psinfo'')) (\<lambda>psinfo.
      bnd (if pid = 0 then bnd (path_exists psinfo) (\<lambda>ex. ret (\<not> ex)) else ret False) (\<lambda>hidden.
      if hidden then raise (mk_AccessDenied (Some pid) None None)
      else s_get ''proc_oneshot'' s_oneshot)))))"

definition sun_cred :: "('z sun_scheme, cred) py" where
  "sun_cred = sun_wrap_exceptions (memoize x_has (x_look scc_cred) (x_store put_scc_cred)
     (s_get ''proc_cred'' s_cred))"

section \<open>Methods\<close>

definition sun_name :: "('z sun_scheme, string) py" where
  "sun_name = sun_wrap_exceptions (bnd sun_name_and_args (\<lambda>r. ret (fst r)))"

definition sun_cmdline :: "('z sun_scheme, string list) py" where
  "sun_cmdline = sun_wrap_exceptions (bnd sun_name_and_args (\<lambda>r. ret (snd r)))"

definition sun_exe :: "('z sun_scheme, string) py" where
  "sun_exe = sun_wrap_exceptions (bnd (me (proc_path ''/path/a.out'')) (\<lambda>p.
     try_except (os_readlink_call p) (\<lambda>e.
       if is_OSError e then bnd sun_cmdline (\<lambda>_. ret []) else raise e)))"

definition sun_environ :: "('z sun_scheme, (string, string) dict) py" where
  "sun_environ = sun_wrap_exceptions (s_get ''proc_environ'' s_environ)"

definition sun_create_time :: "('z sun_scheme, flt) py" where
  "sun_create_time = sun_wrap_exceptions (bnd sun_oneshot (\<lambda>d. ret (si_create_time d)))"

definition sun_num_threads :: "('z sun_scheme, int) py" where
  "sun_num_threads = sun_wrap_exceptions (bnd sun_oneshot (\<lambda>d. ret (si_num_threads d)))"

definition sun_nice_get :: "('z sun_scheme, int) py" where
  "sun_nice_get = sun_wrap_exceptions (bnd sun_oneshot (\<lambda>d. ret (si_nice d)))"

definition sun_nice_set :: "int \<Rightarrow> ('z sun_scheme, unit) py" where
  "sun_nice_set v = sun_wrap_exceptions (bnd ident3 (\<lambda>(pid, name, ppid).
     if pid \<in> {2, 3} then raise (mk_AccessDenied (Some pid) name None)
     else ext_do ''proc_priority_set'' [pid, v] [] (\<lambda>x h. s_priority_set x h pid v)))"

definition sun_ppid :: "('z sun_scheme, int) py" where
  "sun_ppid = sun_wrap_exceptions (bnd sun_oneshot (\<lambda>d.
     bnd (modify (\<lambda>s. s\<lparr>xp := (xp s)\<lparr>x_ppid := Some (si_ppid d)\<rparr>\<rparr>)) (\<lambda>_. ret (si_ppid d))))"

text \<open>\<open>puids\<close> and \<open>pgids\<close> where the saved id may be \<open>None\<close>.\<close>

record ids_unsaved =
  iu_real :: int
  iu_effective :: int
  iu_saved :: "int option"

definition sun_uids :: "('z sun_scheme, ids_unsaved) py" where
  "sun_uids = sun_wrap_exceptions (try_else sun_cred
     (\<lambda>e. if is_AccessDenied e then
          bnd sun_oneshot (\<lambda>d1. bnd sun_oneshot (\<lambda>d2.
            ret \<lparr>iu_real = si_uid d1, iu_effective = si_euid d2, iu_saved = None\<rparr>))
        else raise e)
     (\<lambda>(real, effective, saved, _, _, _). ret \<lparr>iu_real = real, iu_effective = effective, iu_saved = Some saved\<rparr>))"

definition sun_gids :: "('z sun_scheme, ids_unsaved) py" where
  "sun_gids = sun_wrap_exceptions (try_else sun_cred
     (\<lambda>e. if is_AccessDenied e then
          bnd sun_oneshot (\<lambda>d1. bnd sun_oneshot (\<lambda>d2.
            ret \<lparr>iu_real = si_gid d1, iu_effective = si_egid d2, iu_saved = None\<rparr>))
        else raise e)
     (\<lambda>(_, _, _, real, effective, saved). ret \<lparr>iu_real = real, iu_effective = effective, iu_saved = Some saved\<rparr>))"

text \<open>\<open>err.errno == errno.EOVERFLOW and not IS_64_BIT\<close>: a 64-bit process seen from a 32-bit Python.\<close>

definition too_wide :: "bool \<Rightarrow> exn \<Rightarrow> bool" where
  "too_wide is_64_bit e \<longleftrightarrow> is_OSError e \<and> errno_of e = Some EOVERFLOW \<and> \<not> is_64_bit"

definition sun_proc_cpu_times :: "('z sun_scheme, pcputimes4) py" where
  "sun_proc_cpu_times = sun_wrap_exceptions (bnd (sun_const s_is_64_bit) (\<lambda>is_64_bit.
     bnd (try_except (s_get ''proc_cpu_times'' s_proc_cpu_times)
            (\<lambda>e. if too_wide is_64_bit e then ret (0, 0, 0, 0) else raise e)) (\<lambda>(u, y, cu, cs).
     ret \<lparr>pc4_user = u, pc4_system = y, pc4_children_user = cu, pc4_children_system = cs\<rparr>)))"

definition sun_cpu_num :: "('z sun_scheme, int) py" where
  "sun_cpu_num = sun_wrap_exceptions (s_get ''proc_cpu_num'' s_proc_cpu_num)"

text \<open>
  In \<open>terminal\<close>, \<open>tty\<close> is \<open>wrap_exceptions(...)\<close> applied to the number of the terminal, which is
  a function, so it is different from \<open>PRNODEV\<close> whatever the number is.
\<close>

fun tty_loop :: "int list \<Rightarrow> bool \<Rightarrow> ('z sun_scheme, string option) py" where
  "tty_loop [] hit_enoent = (if hit_enoent then bnd sun_assert_alive (\<lambda>_. ret None) else ret None)"
| "tty_loop (x # xs) hit_enoent = bnd (me (proc_path (''/path/'' @ int_str x))) (\<lambda>p.
     try_else (os_readlink_call p)
       (\<lambda>e. if is_FileNotFoundError e then tty_loop xs True else raise e) (\<lambda>t. ret (Some t)))"

definition sun_terminal :: "('z sun_scheme, string option) py" where
  "sun_terminal = sun_wrap_exceptions (bnd sun_oneshot (\<lambda>_. tty_loop [0, 1, 2, 255] False))"

definition sun_cwd :: "('z sun_scheme, string) py" where
  "sun_cwd = sun_wrap_exceptions (bnd (me (proc_path ''/path/cwd'')) (\<lambda>p.
     try_except (os_readlink_call p) (\<lambda>e.
       if is_FileNotFoundError e then bnd sun_assert_alive (\<lambda>_. ret []) else raise e)))"

definition sun_memory_info :: "('z sun_scheme, pmem2) py" where
  "sun_memory_info = sun_wrap_exceptions (bnd sun_oneshot (\<lambda>d.
     ret \<lparr>pm2_rss = si_rss d * 1024, pm2_vms = si_vms d * 1024\<rparr>))"

definition sun_statuses :: "(string \<times> ProcessStatus) list" where
  "sun_statuses = [(''SSLEEP'', STATUS_SLEEPING), (''SRUN'', STATUS_RUNNING), (''SZOMB'', STATUS_ZOMBIE),
     (''SSTOP'', STATUS_STOPPED), (''SIDL'', STATUS_IDLE), (''SONPROC'', STATUS_RUNNING), (''SWAIT'', STATUS_WAITING)]"

text \<open>\<open>None\<close> stands for the string \<open>?\<close>.\<close>

definition sun_status :: "('z sun_scheme, ProcessStatus option) py" where
  "sun_status = sun_wrap_exceptions (bnd sun_oneshot (\<lambda>d. bnd (gets (\<lambda>s. const_dict (ext_const s) sun_statuses)) (\<lambda>st.
     ret (map_of st (si_status d)))))"

definition thread_step ::
  "bool \<Rightarrow> string \<Rightarrow> pthread list \<times> bool \<Rightarrow> ('z sun_scheme, pthread list \<times> bool) py" where
  "thread_step is_64_bit tid0 acc = (case acc of (l, hit_enoent) \<Rightarrow>
     bnd (liftE (py_int tid0)) (\<lambda>tid.
     try_else (s_get ''query_process_thread'' (\<lambda>x h pid procfs. s_query_thread x h pid tid procfs))
       (\<lambda>e. if too_wide is_64_bit e then ret acc
          else if is_OSError e \<and> errno_of e = Some ENOENT then ret (l, True) else raise e)
       (\<lambda>(utime, stime). ret (l @ [\<lparr>th_id = tid, th_user_time = utime, th_system_time = stime\<rparr>], hit_enoent))))"

definition sun_threads :: "('z sun_scheme, pthread list) py" where
  "sun_threads = sun_wrap_exceptions (bnd (me (proc_path ''/lwp'')) (\<lambda>p. bnd (listdir p) (\<lambda>tids.
     bnd (sun_const s_is_64_bit) (\<lambda>is_64_bit.
     bnd (for_each tids (thread_step is_64_bit) ([], False)) (\<lambda>(l, hit_enoent).
     bnd (if hit_enoent then sun_assert_alive else ret ()) (\<lambda>_. ret l))))))"

definition sun_islink :: "string \<Rightarrow> ('z sun_scheme, bool) py" where
  "sun_islink path = ext_try ''islink'' [] [path] (\<lambda>x h. s_islink x h path)"

definition sun_open_files :: "('z sun_scheme, popenfile2 list) py" where
  "sun_open_files = sun_wrap_exceptions (bnd (me (proc_path ''/path'')) (\<lambda>pathdir. bnd (me (proc_path ''/fd'')) (\<lambda>p.
     bnd (listdir p) (\<lambda>fds.
     bnd (for_each fds (\<lambda>fd (l, hit_enoent).
       let path = pjoin pathdir fd in
       bnd (sun_islink path) (\<lambda>link. if \<not> link then ret (l, hit_enoent)
       else try_else (os_readlink_call path)
         (\<lambda>e. if is_FileNotFoundError e then ret (l, True) else raise e)
         (\<lambda>file. bnd (isfile_strict file) (\<lambda>ok.
            if ok then bnd (liftE (py_int fd)) (\<lambda>n. ret (l @ [\<lparr>of2_path = file, of2_fd = n\<rparr>], hit_enoent))
            else ret (l, hit_enoent))))) ([], False)) (\<lambda>(l, hit_enoent).
     bnd (if hit_enoent then sun_assert_alive else ret ()) (\<lambda>_. ret l))))))"

section \<open>UNIX sockets from the output of \<open>pfiles\<close>\<close>

text \<open>
  The blocks of lines that follow a descriptor that is a socket, newest first; the flag says
  that \<open>cur\<close> is the newest one, not \<open>None\<close>.
\<close>

definition pfiles_line ::
  "string \<Rightarrow> bool \<times> (int \<times> string list) list \<Rightarrow> exn + (bool \<times> (int \<times> string list) list)" where
  "pfiles_line raw acc = (case acc of (cur, blocks) \<Rightarrow>
     let line = strip raw;
         (first, rest) = (case split1 (CHR '':'') line of None \<Rightarrow> (line, []) | Some p \<Rightarrow> p) in
     if str_isdigit first \<and> startswith (lstrip rest) ''S_IF'' then
       (if contains rest ''S_IFSOCK'' then bindE (py_int first) (\<lambda>fd. Inr (True, (fd, []) # blocks))
        else Inr (False, blocks))
     else if cur then (case blocks of (fd, ls) # bs \<Rightarrow> Inr (True, (fd, ls @ [line]) # bs) | [] \<Rightarrow> Inr acc)
     else Inr acc)"

definition sock_line :: "string option \<times> int \<Rightarrow> string \<Rightarrow> string option \<times> int" where
  "sock_line acc line = (case acc of (path, ty) \<Rightarrow>
     if startswith line ''sockname: AF_UNIX''
     then (Some (strip (drop (length ''sockname: AF_UNIX'') line)), ty)
     else if startswith line ''SOCK_STREAM'' then (path, SOCK_STREAM)
     else if startswith line ''SOCK_DGRAM'' then (path, SOCK_DGRAM)
     else acc)"

definition sock_of :: "int \<times> string list \<Rightarrow> sconn option" where
  "sock_of b = (case foldl sock_line (None, -1) (snd b) of
       (None, _) \<Rightarrow> None
     | (Some path, ty) \<Rightarrow> Some \<lparr>cn_fd = fst b, cn_family = AF_UNIX, cn_type = ty, cn_laddr = UnixPath path,
         cn_raddr = UnixPath [], cn_status = CONN_NONE, cn_pid = None\<rparr>)"

definition pfiles_sockets :: "string \<Rightarrow> exn + sconn list" where
  "pfiles_sockets out = bindE (foldE pfiles_line (split_on nl out) (False, [])) (\<lambda>(cur, blocks).
     Inr (List.map_filter sock_of (rev blocks)))"

definition sun_unix_sockets :: "int \<Rightarrow> ('z sun_scheme, sconn list) py" where
  "sun_unix_sockets p = bnd (sun_run [''pfiles'', int_str p]) (\<lambda>(code, out, err).
     bnd ident3 (\<lambda>(pid, name, ppid).
     if code \<noteq> 0 then
       (if contains (str_lower err) ''permission denied'' then raise (mk_AccessDenied (Some pid) name None)
        else if contains (str_lower err) ''no such process'' then raise (mk_NoSuchProcess pid name None)
        else bnd sun_status (\<lambda>st. bnd ident3 (\<lambda>(pid, name, ppid).
          if st = Some STATUS_ZOMBIE then raise (mk_ZombieProcess pid name ppid None) else raise RuntimeError)))
     else liftE (pfiles_sockets out)))"

definition sun_proc_net_connections :: "string \<Rightarrow> ('z sun_scheme, sconn list) py" where
  "sun_proc_net_connections kind = sun_wrap_exceptions (bnd (me x_pid) (\<lambda>pid.
     bnd (sun_net_connections kind pid) (\<lambda>l.
     bnd (if l = [] then sun_assert_alive else ret ()) (\<lambda>_.
     if kind \<in> {''all'', ''unix''} then bnd (sun_unix_sockets pid) (\<lambda>u. ret (l @ u)) else ret l))))"

section \<open>Memory maps\<close>

definition strip_char :: "char \<Rightarrow> string \<Rightarrow> string" where
  "strip_char c s = rev (dropWhile (\<lambda>x. x = c) (rev (dropWhile (\<lambda>x. x = c) s)))"

definition toaddr :: "int \<Rightarrow> int \<Rightarrow> string" where
  "toaddr start end' = strip_char (CHR ''L'') (drop 2 (py_hex start)) @ ''-''
     @ strip_char (CHR ''L'') (drop 2 (py_hex end'))"

type_synonym sun_map = "string \<times> string \<times> string \<times> int \<times> int \<times> int"

definition map_step ::
  "int \<times> int \<times> string \<times> string \<times> int \<times> int \<times> int \<Rightarrow> sun_map list \<times> bool \<Rightarrow> ('z sun_scheme, sun_map list \<times> bool) py" where
  "map_step row acc = (case (row, acc) of ((addr, addrsize, perm, name, rss, anon, locked), (l, hit_enoent)) \<Rightarrow>
     let add = (\<lambda>name hit. (l @ [(toaddr addr addrsize, perm, name, rss, anon, locked)], hit)) in
     if \<not> startswith name ''['' then
       bnd (me (proc_path (''/path/'' @ name))) (\<lambda>p.
       try_else (os_readlink_call p)
         (\<lambda>e. if is_OSError e \<and> errno_of e = Some ENOENT then ret (add p True) else raise e)
         (\<lambda>target. ret (add target hit_enoent)))
     else ret (add name hit_enoent))"

definition sun_memory_maps :: "('z sun_scheme, sun_map list) py" where
  "sun_memory_maps = sun_wrap_exceptions (bnd (sun_const s_is_64_bit) (\<lambda>is_64_bit.
     try_else (s_get ''proc_memory_maps'' s_memory_maps)
       (\<lambda>e. if too_wide is_64_bit e then ret [] else raise e)
       (\<lambda>rawlist. bnd (for_each rawlist map_step ([], False)) (\<lambda>(l, hit_enoent).
          bnd (if hit_enoent then sun_assert_alive else ret ()) (\<lambda>_. ret l)))))"

section \<open>The other counters and waiting\<close>

definition sun_num_fds :: "('z sun_scheme, int) py" where
  "sun_num_fds = sun_wrap_exceptions (bnd (me (proc_path ''/fd'')) (\<lambda>p. bnd (listdir p) (\<lambda>l. ret (int (length l)))))"

definition sun_num_ctx_switches :: "('z sun_scheme, pctxsw) py" where
  "sun_num_ctx_switches = sun_wrap_exceptions (bnd (s_get ''proc_num_ctx_switches'' s_num_ctx_switches) (\<lambda>(v, i).
     ret \<lparr>cx_voluntary = v, cx_involuntary = i\<rparr>))"

definition sun_page_faults :: "('z sun_scheme, ppagefaults) py" where
  "sun_page_faults = sun_wrap_exceptions (bnd (s_get ''proc_page_faults'' s_page_faults) (\<lambda>(mi, ma).
     ret \<lparr>pf_minor = mi, pf_major = ma\<rparr>))"

definition sun_wait ::
  "bool \<Rightarrow> bool \<Rightarrow> flt option \<Rightarrow> 'z sun_scheme \<Rightarrow> ('z sun_scheme, int option) result" where
  "sun_wait can_pidfd can_kqueue timeout s = (case wait_pid can_pidfd can_kqueue (x_pid (xp s)) timeout s of
       None \<Rightarrow> None
     | Some (r, t) \<Rightarrow> Some (try_except (\<lambda>_. (r, t)) (sun_handler (x_pid (xp s), x_name (xp s), x_ppid (xp s))) s))"

end
