(* ===== verification/Sunos_Facts.thy ===== *)
theory Sunos_Facts
  imports Sunos_Process
begin

text \<open>
  What the SunOS module shows: the UNIX sockets that \<open>pfiles\<close> prints are read back.
\<close>

section \<open>A writer of the output of \<open>pfiles\<close>\<close>

text \<open>
  One entry for each open descriptor: a UNIX socket with its path and type, or anything else,
  with the mode that follows \<open>S_IF\<close> and the lines below.
\<close>

datatype pf_entry = PfUnix nat string bool | PfOther nat string "string list"

definition pf_head :: "nat \<Rightarrow> string \<Rightarrow> string" where
  "pf_head fd mode = ''   '' @ nat_str fd @ '': S_IF'' @ mode"

definition unix_mode :: string where
  "unix_mode = ''SOCK mode:0666 dev:545,0 ino:18 uid:0 gid:0 size:0''"

fun pf_text :: "pf_entry \<Rightarrow> string list" where
  "pf_text (PfUnix fd path stream) =
     [pf_head fd unix_mode, ''      O_RDWR'',
      ''        '' @ (if stream then ''SOCK_STREAM'' else ''SOCK_DGRAM''), ''        sockname: AF_UNIX '' @ path]"
| "pf_text (PfOther fd mode body) = pf_head fd mode # body"

definition pf_output :: "string list \<Rightarrow> pf_entry list \<Rightarrow> string" where
  "pf_output header es = concat (map (\<lambda>l. l @ [nl]) (header @ concat (map pf_text es)))"

text \<open>The lines that start an entry.\<close>

definition fd_line :: "string \<Rightarrow> bool" where
  "fd_line l \<longleftrightarrow> (\<exists>n rest. strip l = n @ CHR '':'' # rest \<and> str_isdigit n \<and> startswith (lstrip rest) ''S_IF'')"

definition plain_line :: "string \<Rightarrow> bool" where
  "plain_line l \<longleftrightarrow> nl \<notin> set l \<and> \<not> fd_line l"

definition ends_dark :: "string \<Rightarrow> bool" where
  "ends_dark s \<longleftrightarrow> s \<noteq> [] \<and> \<not> ws (last s)"

fun pf_ok :: "pf_entry \<Rightarrow> bool" where
  "pf_ok (PfUnix fd path stream) \<longleftrightarrow> nl \<notin> set path \<and> ends_dark path \<and> \<not> ws (hd path)"
| "pf_ok (PfOther fd mode body) \<longleftrightarrow> nl \<notin> set mode \<and> (mode = [] \<or> ends_dark mode) \<and> (\<forall>l \<in> set body. plain_line l)
     \<and> (contains ('' S_IF'' @ mode) ''S_IFSOCK'' \<longrightarrow> (\<forall>l \<in> set body. \<not> startswith (strip l) ''sockname: AF_UNIX''))"

fun pf_sock :: "pf_entry \<Rightarrow> sconn option" where
  "pf_sock (PfUnix fd path stream) = Some \<lparr>cn_fd = int fd, cn_family = AF_UNIX,
     cn_type = (if stream then SOCK_STREAM else SOCK_DGRAM), cn_laddr = UnixPath path, cn_raddr = UnixPath [],
     cn_status = CONN_NONE, cn_pid = None\<rparr>"
| "pf_sock (PfOther fd mode body) = None"

section \<open>Lines\<close>

lemma rstrip_dark: "ends_dark s \<Longrightarrow> rstrip s = s"
  by (cases s rule: rev_cases) (simp_all add: ends_dark_def rstrip_def)

lemma strip_dark: "ends_dark s \<Longrightarrow> \<not> ws (hd s) \<Longrightarrow> strip s = s"
  by (cases s) (simp_all add: strip_def rstrip_dark lstrip_def ends_dark_def rstrip_dark [unfolded ends_dark_def])

lemma strip_indent: "list_all ws b \<Longrightarrow> strip (b @ s) = strip s"
  by (simp add: strip_def lstrip_blanks)

lemma split_on_lines: "\<forall>l \<in> set ls. c \<notin> set l \<Longrightarrow> split_on c (concat (map (\<lambda>l. l @ [c]) ls)) = ls @ [[]]"
  by (induction ls) (simp_all add: split_on_append)

lemma digits_no_colon: "str_isdigit n \<Longrightarrow> CHR '':'' \<notin> set n"
  by (auto simp: str_isdigit_def list_all_iff dest: is_digit_not_special)

lemma not_fd_line: "strip l = [] \<or> \<not> is_digit (hd (strip l)) \<Longrightarrow> \<not> fd_line l"
  by (auto simp: fd_line_def str_isdigit_def neq_Nil_conv)

lemma split1_Some:
  assumes "split1 c s = Some (a, b)"
  shows "s = a @ c # b"
proof -
  have c: "c \<in> set s" "a = takeWhile (\<lambda>x. x \<noteq> c) s" "b = tl (dropWhile (\<lambda>x. x \<noteq> c) s)"
    using assms by (auto simp: split1_def split: if_splits)
  then have ne: "dropWhile (\<lambda>x. x \<noteq> c) s \<noteq> []" by auto
  then have "hd (dropWhile (\<lambda>x. x \<noteq> c) s) = c" using hd_dropWhile by blast
  with c ne show ?thesis using takeWhile_dropWhile_id [of "\<lambda>x. x \<noteq> c" s] by (metis list.collapse)
qed

lemma pf_head_strip:
  assumes "mode = [] \<or> ends_dark mode"
  shows "strip (pf_head fd mode) = nat_str fd @ '': S_IF'' @ mode"
proof -
  have "ends_dark (nat_str fd @ '': S_IF'' @ mode)" using assms by (auto simp: ends_dark_def ws_def)
  moreover have "\<not> ws (hd (nat_str fd @ '': S_IF'' @ mode))"
    using nat_str_digits [of fd] is_digit_not_ws by (cases "nat_str fd") auto
  ultimately have "strip (nat_str fd @ '': S_IF'' @ mode) = nat_str fd @ '': S_IF'' @ mode" by (rule strip_dark)
  moreover have "list_all ws ''   ''" by (simp add: ws_def)
  ultimately show ?thesis unfolding pf_head_def by (simp only: strip_indent)
qed

section \<open>Reading one line\<close>

lemma pfiles_line_head:
  assumes "mode = [] \<or> ends_dark mode"
  shows "pfiles_line (pf_head fd mode) (cur, blocks)
     = Inr (if contains ('' S_IF'' @ mode) ''S_IFSOCK'' then (True, (int fd, []) # blocks) else (False, blocks))"
proof -
  have "split1 (CHR '':'') (nat_str fd @ '': S_IF'' @ mode) = Some (nat_str fd, '' S_IF'' @ mode)"
    using split1_append [of "CHR '':''" "nat_str fd" "'' S_IF'' @ mode"] digits_no_colon [OF str_isdigit_nat_str]
    by simp
  moreover have "py_int (nat_str fd) = Inr (int fd)"
    using py_int_int_str [of "int fd"] by (simp add: int_str_def)
  ultimately show ?thesis
    by (simp add: pfiles_line_def pf_head_strip [OF assms] str_isdigit_nat_str lstrip_def ws_def startswith_def bindE_def)
qed

lemma pfiles_line_plain:
  assumes "\<not> fd_line l"
  shows "pfiles_line l (False, bs) = Inr (False, bs)"
    and "pfiles_line l (True, (fd, ls) # bs) = Inr (True, (fd, ls @ [strip l]) # bs)"
proof -
  obtain first rest where p: "(case split1 (CHR '':'') (strip l) of None \<Rightarrow> (strip l, []) | Some p \<Rightarrow> p) = (first, rest)"
    by fastforce
  have "\<not> (str_isdigit first \<and> startswith (lstrip rest) ''S_IF'')"
  proof (cases "split1 (CHR '':'') (strip l)")
    case None
    then show ?thesis using p by (auto simp: lstrip_def startswith_def)
  next
    case (Some q)
    then have "strip l = first @ CHR '':'' # rest" using p split1_Some by fastforce
    then show ?thesis using assms unfolding fd_line_def by blast
  qed
  then show "pfiles_line l (False, bs) = Inr (False, bs)"
    "pfiles_line l (True, (fd, ls) # bs) = Inr (True, (fd, ls @ [strip l]) # bs)"
    using p by (auto simp: pfiles_line_def)
qed

lemma pfiles_line_blank:
  "pfiles_line [] (cur, bs) = Inr (cur, bs) \<or> (\<exists>fd ls bs'. bs = (fd, ls) # bs' \<and> cur
     \<and> pfiles_line [] (cur, bs) = Inr (True, (fd, ls @ [[]]) # bs'))"
  by (cases bs) (auto simp: pfiles_line_def split1_def str_isdigit_def strip_def lstrip_def rstrip_def)

lemma pfiles_body_off:
  "\<forall>l \<in> set body. \<not> fd_line l \<Longrightarrow> foldE pfiles_line body (False, bs) = Inr (False, bs)"
  by (induction body) (simp_all add: pfiles_line_plain bindE_def)

lemma pfiles_body_on:
  "\<forall>l \<in> set body. \<not> fd_line l \<Longrightarrow>
   foldE pfiles_line body (True, (fd, ls) # bs) = Inr (True, (fd, ls @ map strip body) # bs)"
  by (induction body arbitrary: ls) (simp_all add: pfiles_line_plain bindE_def)

section \<open>Reading one entry\<close>

lemma sock_lines_none:
  "\<forall>l \<in> set ls. \<not> startswith l ''sockname: AF_UNIX'' \<Longrightarrow> fst (foldl sock_line (None, ty) ls) = None"
  by (induction ls arbitrary: ty) (simp_all add: sock_line_def)

lemma unix_lines:
  assumes "pf_ok (PfUnix fd path stream)"
  shows "map strip (tl (pf_text (PfUnix fd path stream)))
     = [''O_RDWR'', if stream then ''SOCK_STREAM'' else ''SOCK_DGRAM'', ''sockname: AF_UNIX '' @ path]"
proof -
  have "ends_dark (''sockname: AF_UNIX '' @ path)" using assms by (simp add: ends_dark_def)
  then have "strip (''sockname: AF_UNIX '' @ path) = ''sockname: AF_UNIX '' @ path"
    by (rule strip_dark) (simp add: ws_def)
  moreover have "list_all ws ''        ''" by (simp add: ws_def)
  ultimately have "strip (''        '' @ ''sockname: AF_UNIX '' @ path) = ''sockname: AF_UNIX '' @ path"
    by (simp only: strip_indent)
  then show ?thesis by (simp add: strip_def lstrip_def rstrip_def ws_def)
qed

lemma unix_sock_of:
  assumes "pf_ok (PfUnix fd path stream)"
  shows "sock_of (int fd, map strip (tl (pf_text (PfUnix fd path stream)))) = pf_sock (PfUnix fd path stream)"
proof -
  have p: "strip (CHR '' '' # path) = path"
    using strip_indent [of "'' ''" path] strip_dark [of path] assms by (simp add: ws_def)
  show ?thesis unfolding unix_lines [OF assms]
    by (simp add: sock_of_def sock_line_def startswith_def p)
qed

lemma pfiles_entry:
  assumes "pf_ok e"
  shows "\<exists>cur bs. foldE pfiles_line (pf_text e) (c, blocks) = Inr (cur, bs @ blocks)
     \<and> List.map_filter sock_of (rev bs) = (case pf_sock e of None \<Rightarrow> [] | Some x \<Rightarrow> [x])"
proof (cases e)
  case (PfUnix fd path stream)
  have ok: "pf_ok (PfUnix fd path stream)" using assms PfUnix by simp
  define body where "body = tl (pf_text e)"
  have lns: "pf_text e = pf_head fd unix_mode # body" using PfUnix by (simp add: body_def)
  have body: "\<forall>l \<in> set body. \<not> fd_line l"
  proof
    fix l assume "l \<in> set body"
    then have "strip l \<in> set (map strip body)" by simp
    then have "hd (strip l) \<in> {CHR ''O'', CHR ''S'', CHR ''s''}"
      unfolding body_def PfUnix unix_lines [OF ok] by auto
    then have "\<not> is_digit (hd (strip l))" by (auto simp: is_digit_def)
    then show "\<not> fd_line l" by (intro not_fd_line) simp
  qed
  have "contains ('' S_IF'' @ unix_mode) ''S_IFSOCK''" by (simp add: unix_mode_def contains_def startswith_def)
  moreover have "ends_dark unix_mode" by (simp add: unix_mode_def ends_dark_def ws_def)
  ultimately have "pfiles_line (pf_head fd unix_mode) (c, blocks) = Inr (True, (int fd, []) # blocks)"
    by (simp add: pfiles_line_head)
  then have run: "foldE pfiles_line (pf_text e) (c, blocks) = Inr (True, [(int fd, map strip body)] @ blocks)"
    by (simp add: lns pfiles_body_on [OF body] bindE_def)
  have "sock_of (int fd, map strip body) = pf_sock e" using unix_sock_of [OF ok] PfUnix by (simp add: body_def)
  then have "List.map_filter sock_of (rev [(int fd, map strip body)]) = (case pf_sock e of None \<Rightarrow> [] | Some x \<Rightarrow> [x])"
    using PfUnix by (simp add: List.map_filter_def)
  with run show ?thesis by blast
next
  case (PfOther fd mode body)
  then have m: "mode = [] \<or> ends_dark mode" and b: "\<forall>l \<in> set body. \<not> fd_line l"
    using assms by (auto simp: plain_line_def)
  show ?thesis
  proof (cases "contains ('' S_IF'' @ mode) ''S_IFSOCK''")
    case True
    then have "\<forall>l \<in> set (map strip body). \<not> startswith l ''sockname: AF_UNIX''" using assms PfOther by simp
    then have "sock_of (int fd, map strip body) = None"
      using sock_lines_none [of "map strip body" "-1"] by (auto simp: sock_of_def split: prod.splits option.splits)
    then have "List.map_filter sock_of (rev [(int fd, map strip body)]) = []" by (simp add: List.map_filter_def)
    moreover have "foldE pfiles_line (pf_text e) (c, blocks) = Inr (True, [(int fd, map strip body)] @ blocks)"
      using True by (simp add: PfOther pfiles_line_head [OF m] bindE_def pfiles_body_on [OF b])
    ultimately show ?thesis using PfOther by fastforce
  next
    case False
    then have "foldE pfiles_line (pf_text e) (c, blocks) = Inr (False, [] @ blocks)"
      by (simp add: PfOther pfiles_line_head [OF m] bindE_def pfiles_body_off [OF b])
    moreover have "List.map_filter sock_of (rev []) = []" by (simp add: List.map_filter_def)
    ultimately show ?thesis using PfOther by fastforce
  qed
qed

lemma pfiles_entries:
  assumes "\<forall>e \<in> set es. pf_ok e"
  shows "\<exists>cur bs. foldE pfiles_line (concat (map pf_text es)) (c, blocks) = Inr (cur, bs @ blocks)
     \<and> List.map_filter sock_of (rev bs) = List.map_filter pf_sock es"
  using assms
proof (induction es arbitrary: c blocks)
  case Nil
  then show ?case by (simp add: List.map_filter_def)
next
  case (Cons e es)
  obtain cur bs where e: "foldE pfiles_line (pf_text e) (c, blocks) = Inr (cur, bs @ blocks)"
    "List.map_filter sock_of (rev bs) = (case pf_sock e of None \<Rightarrow> [] | Some x \<Rightarrow> [x])"
    using pfiles_entry [of e c blocks] Cons.prems by auto
  obtain cur' bs' where es: "foldE pfiles_line (concat (map pf_text es)) (cur, bs @ blocks) = Inr (cur', bs' @ bs @ blocks)"
    "List.map_filter sock_of (rev bs') = List.map_filter pf_sock es"
    using Cons.IH [of cur "bs @ blocks"] Cons.prems by auto
  have "foldE pfiles_line (concat (map pf_text (e # es))) (c, blocks) = Inr (cur', (bs' @ bs) @ blocks)"
    using e(1) es(1) by (simp add: foldE_append bindE_def)
  moreover have "List.map_filter sock_of (rev (bs' @ bs)) = List.map_filter pf_sock (e # es)"
    using e(2) es(2) by (simp add: List.map_filter_def split: option.splits)
  ultimately show ?case by blast
qed

lemma pf_output_lines:
  assumes "\<forall>l \<in> set header. nl \<notin> set l" "\<forall>e \<in> set es. pf_ok e"
  shows "split_on nl (pf_output header es) = header @ concat (map pf_text es) @ [[]]"
proof -
  have "nl \<notin> set l" if "e \<in> set es" "l \<in> set (pf_text e)" for e l
  proof -
    have "pf_ok e" using assms(2) \<open>e \<in> set es\<close> by blast
    moreover have "nl \<notin> set (nat_str fd)" for fd using set_nat_str is_digit_not_special by blast
    ultimately show ?thesis using \<open>l \<in> set (pf_text e)\<close>
      by (cases e) (auto simp: pf_head_def unix_mode_def plain_line_def split: if_splits)
  qed
  then have "\<forall>l \<in> set (header @ concat (map pf_text es)). nl \<notin> set l" using assms(1) by auto
  from split_on_lines [OF this] show ?thesis unfolding pf_output_def by simp
qed

text \<open>
  C38: from the output of \<open>pfiles\<close>, \<open>_get_unix_sockets\<close> reads exactly the UNIX sockets that are
  open, in their order, each with its descriptor, path and type, whatever other descriptors and
  lines stand between them.
\<close>

theorem pfiles_roundtrip:
  assumes "s_run (ext s) (hist s) [''pfiles'', int_str pid] = Inr (0, pf_output header es, err)"
    and "\<forall>l \<in> set header. plain_line l" and "\<forall>e \<in> set es. pf_ok e"
  shows "fst (sun_unix_sockets pid s) = Inr (List.map_filter pf_sock es)"
proof -
  obtain cur bs where run: "foldE pfiles_line (concat (map pf_text es)) (False, []) = Inr (cur, bs)"
    "List.map_filter sock_of (rev bs) = List.map_filter pf_sock es"
    using pfiles_entries [OF assms(3), of False "[]"] by auto
  have "pfiles_line [] (cur, bs) = Inr (cur, bs) \<or> (\<exists>fd ls bs'. bs = (fd, ls) # bs' \<and> cur
     \<and> pfiles_line [] (cur, bs) = Inr (True, (fd, ls @ [[]]) # bs'))"
    by (rule pfiles_line_blank)
  then obtain cur' bs' where last: "pfiles_line [] (cur, bs) = Inr (cur', bs')"
    "List.map_filter sock_of (rev bs') = List.map_filter sock_of (rev bs)"
  proof (elim disjE exE conjE)
    fix fd ls bs1 assume b: "bs = (fd, ls) # bs1" "pfiles_line [] (cur, bs) = Inr (True, (fd, ls @ [[]]) # bs1)"
    have "sock_of (fd, ls @ [[]]) = sock_of (fd, ls)"
      by (cases "foldl sock_line (None, -1) ls") (simp add: sock_of_def sock_line_def startswith_def split: option.splits)
    with b that show ?thesis by (simp add: List.map_filter_def)
  qed (use that in blast)
  have "foldE pfiles_line header (False, []) = Inr (False, [])"
    using assms(2) by (intro pfiles_body_off) (simp add: plain_line_def)
  then have "pfiles_sockets (pf_output header es) = Inr (List.map_filter pf_sock es)"
    using run last assms(2,3) by (simp add: pfiles_sockets_def pf_output_lines plain_line_def foldE_append bindE_def)
  then show ?thesis using assms(1) by (simp add: sun_unix_sockets_def sun_run_def)
qed

definition null_sun :: sun_ext where
  "null_sun = \<lparr>s_is_64_bit = True, s_page_size = 4096, s_path = [], s_sysconf = (\<lambda>h a. Inl NotImplementedError),
     s_run = (\<lambda>h a. Inl NotImplementedError), s_swap_mem = (\<lambda>h. Inl NotImplementedError),
     s_per_cpu_times = (\<lambda>h. Inl NotImplementedError), s_cpu_count_cores = (\<lambda>h. Inl NotImplementedError),
     s_cpu_stats = (\<lambda>h. Inl NotImplementedError), s_disk_partitions = (\<lambda>h. Inl NotImplementedError),
     s_net_connections = (\<lambda>h a. Inl NotImplementedError), s_net_if_stats = (\<lambda>h. Inl NotImplementedError),
     s_boot_time = (\<lambda>h. Inl NotImplementedError), s_users = (\<lambda>h. Inl NotImplementedError),
     s_islink = (\<lambda>h a. Inl NotImplementedError), s_name_and_args = (\<lambda>h a b. Inl NotImplementedError),
     s_oneshot = (\<lambda>h a b. Inl NotImplementedError), s_cred = (\<lambda>h a b. Inl NotImplementedError),
     s_environ = (\<lambda>h a b. Inl NotImplementedError), s_priority_set = (\<lambda>h a b. Inl NotImplementedError),
     s_proc_cpu_times = (\<lambda>h a b. Inl NotImplementedError), s_proc_cpu_num = (\<lambda>h a b. Inl NotImplementedError),
     s_query_thread = (\<lambda>h a b c. Inl NotImplementedError), s_memory_maps = (\<lambda>h a b. Inl NotImplementedError),
     s_num_ctx_switches = (\<lambda>h a b. Inl NotImplementedError), s_page_faults = (\<lambda>h a b. Inl NotImplementedError)\<rparr>"

type_synonym sun = "(sun_ext, sun_cache) esys"

definition null_sunsys :: "int \<Rightarrow> sun" where
  "null_sunsys pid = psx.extend null_psx (esys.fields null_sun (\<lambda>_. 0) (xproc_init pid ''/proc''))"

lemma null_sunsys_simps [simp]:
  "sys_os (null_sunsys pid) = null_os" "hist (null_sunsys pid) = []" "ext (null_sunsys pid) = null_sun"
  "xp (null_sunsys pid) = xproc_init pid ''/proc''"
  by (simp_all add: null_sunsys_def null_psx_def null_sys_def sys.defs psx.defs esys.defs)

theorem pfiles_roundtrip_witness:
  "let es = [PfOther 0 ''CHR mode:0620'' [''      O_RDWR''], PfUnix 4 ''/var/run/x'' True];
       s = (null_sunsys 7)\<lparr>ext := null_sun\<lparr>s_run := \<lambda>h c. Inr (0, pf_output [''7: sh''] es, [])\<rparr>\<rparr>
   in fst (sun_unix_sockets 7 s) = Inr [\<lparr>cn_fd = 4, cn_family = AF_UNIX, cn_type = SOCK_STREAM,
        cn_laddr = UnixPath ''/var/run/x'', cn_raddr = UnixPath [], cn_status = CONN_NONE, cn_pid = None\<rparr>]"
proof -
  let ?es = "[PfOther 0 ''CHR mode:0620'' [''      O_RDWR''], PfUnix 4 ''/var/run/x'' True]"
  let ?s = "(null_sunsys 7)\<lparr>ext := null_sun\<lparr>s_run := \<lambda>h c. Inr (0, pf_output [''7: sh''] ?es, [])\<rparr>\<rparr>"
  have run: "s_run (ext ?s) (hist ?s) [''pfiles'', int_str 7] = Inr (0, pf_output [''7: sh''] ?es, [])" by simp
  have "\<not> fd_line ''7: sh''"
  proof
    assume "fd_line ''7: sh''"
    then obtain n r where "''7: sh'' = n @ CHR '':'' # r" "startswith (lstrip r) ''S_IF''"
      by (auto simp: fd_line_def strip_def lstrip_def rstrip_def ws_def)
    then show False by (auto simp: Cons_eq_append_conv startswith_def lstrip_def ws_def)
  qed
  then have h: "\<forall>l \<in> set [''7: sh'']. plain_line l" by (simp add: plain_line_def)
  have "\<not> fd_line ''      O_RDWR''"
    by (rule not_fd_line) (simp add: strip_def lstrip_def rstrip_def ws_def is_digit_def)
  then have e: "\<forall>e \<in> set ?es. pf_ok e"
    by (simp add: plain_line_def ends_dark_def ws_def contains_def startswith_def)
  from pfiles_roundtrip [OF run h e] show ?thesis by (simp add: List.map_filter_def)
qed

end
