(* ===== verification/Aix.thy ===== *)
theory Aix
  imports Sunos_Process
begin

text \<open>
  \<open>psutil/_psaix.py\<close>: AIX.  Its named tuples for memory and CPU times are those of SunOS.
\<close>

section \<open>The extension\<close>

record aix_info =
  ai_ppid :: int
  ai_rss :: int
  ai_vms :: int
  ai_create_time :: flt
  ai_nice :: int
  ai_num_threads :: int
  ai_status :: int
  ai_ttynr :: int

text \<open>\<open>a_path\<close> is \<open>os.environ['PATH']\<close>, \<open>a_run\<close> runs a command, \<open>a_getcwd\<close> is \<open>os.getcwd()\<close>.\<close>

record aix_ext =
  a_has_unix :: bool
  a_path :: string
  a_getcwd :: "(exn + string) answer"
  a_sysconf :: "(string \<Rightarrow> exn + int) answer"
  a_run :: "(string list \<Rightarrow> exn + (int \<times> string \<times> string)) answer"
  a_virtual_mem :: "(exn + (int \<times> int \<times> int \<times> int \<times> int)) answer"
  a_swap_mem :: "(exn + (int \<times> int \<times> int \<times> int)) answer"
  a_per_cpu_times :: "(exn + flt4 list) answer"
  a_cpu_stats :: "(exn + (int \<times> int \<times> int \<times> int)) answer"
  a_disk_partitions :: "(exn + (string \<times> string \<times> string \<times> string) list) answer"
  a_net_connections :: "(int \<Rightarrow> exn + rawconn list) answer"
  a_net_if_addrs :: "(exn + (string \<times> int \<times> string option \<times> string option \<times> string option \<times> string option) list) answer"
  a_net_if_mtu :: "(string \<Rightarrow> exn + int) answer"
  a_net_if_flags :: "(string \<Rightarrow> exn + string list) answer"
  a_boot_time :: "(exn + flt) answer"
  a_users :: "(exn + (string \<times> string option \<times> string \<times> flt \<times> bool \<times> int option) list) answer"
  a_oneshot :: "(int \<Rightarrow> string \<Rightarrow> exn + aix_info) answer"
  a_cred :: "(int \<Rightarrow> string \<Rightarrow> exn + cred) answer"
  a_proc_name :: "(int \<Rightarrow> string \<Rightarrow> exn + string) answer"
  a_proc_args :: "(int \<Rightarrow> exn + string list) answer"
  a_environ :: "(int \<Rightarrow> exn + (string, string) dict) answer"
  a_threads :: "(int \<Rightarrow> exn + (int \<times> flt \<times> flt) list) answer"
  a_priority_get :: "(int \<Rightarrow> exn + int) answer"
  a_priority_set :: "(int \<Rightarrow> int \<Rightarrow> exn + unit) answer"
  a_proc_cpu_times :: "(int \<Rightarrow> string \<Rightarrow> exn + flt4) answer"
  a_num_ctx_switches :: "(int \<Rightarrow> exn + (int \<times> int)) answer"
  a_io_counters :: "(int \<Rightarrow> exn + (int \<times> int \<times> int \<times> int)) answer"

record aix_cache =
  ac_oneshot :: "aix_info option"
  ac_cred :: "cred option"

type_synonym 'z aix_scheme = "(aix_ext, aix_cache, 'z) esys_scheme"

definition aix_run :: "string list \<Rightarrow> ('z aix_scheme, int \<times> string \<times> string) py" where
  "aix_run cmd = ext_try ''run'' [] cmd (\<lambda>x h. a_run x h cmd)"

section \<open>System\<close>

definition aix_virtual_memory :: "('z aix_scheme, svmem5) py" where
  "aix_virtual_memory = bnd (ext_try ''virtual_mem'' [] [] a_virtual_mem) (\<lambda>(tot, avail, free, pinned, inuse).
     ret \<lparr>vm5_total = tot, vm5_available = avail, vm5_percent = usage_percent (tot - avail) tot (Some 1),
          vm5_used = inuse, vm5_free = free\<rparr>)"

definition aix_swap_memory :: "('z aix_scheme, sswap) py" where
  "aix_swap_memory = bnd (ext_try ''swap_mem'' [] [] a_swap_mem) (\<lambda>(tot, free, si, so).
     let used = tot - free in
     ret \<lparr>sw_total = tot, sw_used = used, sw_free = free, sw_percent = usage_percent used tot (Some 1),
          sw_sin = si, sw_sout = so\<rparr>)"

definition aix_cpu_times :: "('z aix_scheme, scputimes4) py" where
  "aix_cpu_times = bnd (ext_try ''per_cpu_times'' [] [] a_per_cpu_times) (\<lambda>rows. liftE (sum_ct4 rows))"

definition aix_per_cpu_times :: "('z aix_scheme, scputimes4 list) py" where
  "aix_per_cpu_times = bnd (ext_try ''per_cpu_times'' [] [] a_per_cpu_times) (\<lambda>rows. ret (map mk_ct4 rows))"

definition aix_cpu_count_logical :: "('z aix_scheme, int option) py" where
  "aix_cpu_count_logical = try_else (ext_try ''sysconf'' [] [''SC_NPROCESSORS_ONLN''] (\<lambda>x h. a_sysconf x h ''SC_NPROCESSORS_ONLN''))
     (\<lambda>e. if e = ValueError then ret None else raise e) (\<lambda>n. ret (Some n))"

text \<open>\<open>s.splitlines()\<close>, for the line boundaries of ASCII.\<close>

definition line_break :: "char \<Rightarrow> bool" where
  "line_break c \<longleftrightarrow> c \<in> set [CHR 0x0A, CHR 0x0B, CHR 0x0C, CHR 0x0D, CHR 0x1C, CHR 0x1D, CHR 0x1E]"

fun splitlines :: "string \<Rightarrow> string \<Rightarrow> string list" where
  "splitlines cur [] = (if cur = [] then [] else [rev cur])"
| "splitlines cur (c # cs) =
     (if c = CHR 0x0D \<and> startswith cs [nl] then rev cur # splitlines [] (tl cs)
      else if line_break c then rev cur # splitlines [] cs
      else splitlines (c # cur) cs)"

definition aix_cpu_count_cores :: "('z aix_scheme, int option) py" where
  "aix_cpu_count_cores = bnd (aix_run [''lsdev'', ''-Cc'', ''processor'']) (\<lambda>(code, stdout, stderr).
     if code \<noteq> 0 then raise RuntimeError
     else let n = length (splitlines [] (strip stdout)) in ret (if n = 0 then None else Some (int n)))"

definition aix_cpu_stats :: "('z aix_scheme, scpustats) py" where
  "aix_cpu_stats = bnd (ext_try ''cpu_stats'' [] [] a_cpu_stats) (\<lambda>(ctx, intr, soft, sc).
     ret \<lparr>cs_ctx_switches = Some ctx, cs_interrupts = Some intr, cs_soft_interrupts = Some soft, cs_syscalls = sc\<rparr>)"

definition aix_disk_partitions :: "bool \<Rightarrow> ('z aix_scheme, sdiskpart list) py" where
  "aix_disk_partitions all = bnd (ext_try ''disk_partitions'' [] [] a_disk_partitions) (\<lambda>ps.
     for_each ps (\<lambda>(dev0, mount, fstype, opts) acc.
       let entry = \<lparr>dp_device = (if dev0 = ''none'' then [] else dev0), dp_mountpoint = mount, dp_fstype = fstype,
                    dp_opts = opts\<rparr> in
       if all then ret (acc @ [entry])
       else bnd (disk_usage mount) (\<lambda>u. ret (if du_total u = 0 then acc else acc @ [entry]))) [])"

definition aix_tcp_names :: "(string \<times> ConnectionStatus) list" where
  "aix_tcp_names =
     [(''TCPS_ESTABLISHED'', CONN_ESTABLISHED), (''TCPS_SYN_SENT'', CONN_SYN_SENT), (''TCPS_SYN_RCVD'', CONN_SYN_RECV),
      (''TCPS_FIN_WAIT_1'', CONN_FIN_WAIT1), (''TCPS_FIN_WAIT_2'', CONN_FIN_WAIT2), (''TCPS_TIME_WAIT'', CONN_TIME_WAIT),
      (''TCPS_CLOSED'', CONN_CLOSE), (''TCPS_CLOSE_WAIT'', CONN_CLOSE_WAIT), (''TCPS_LAST_ACK'', CONN_LAST_ACK),
      (''TCPS_LISTEN'', CONN_LISTEN), (''TCPS_CLOSING'', CONN_CLOSING), (''PSUTIL_CONN_NONE'', CONN_NONE)]"

definition aix_net_connections :: "string \<Rightarrow> int \<Rightarrow> ('z aix_scheme, sconn list) py" where
  "aix_net_connections kind pid = bnd (gets (\<lambda>s. (a_has_unix (ext s), const_dict (ext_const s) aix_tcp_names))) (\<lambda>(unix, statuses).
     bnd (liftE (conn_kind unix kind)) (\<lambda>(families, types).
     bnd (ext_try ''net_connections'' [pid] [] (\<lambda>x h. a_net_connections x h pid)) (\<lambda>rawlist.
     ret (map (\<lambda>c. conn_to_ntuple (rc_fd c) (rc_fam c) (rc_type c) (rc_laddr c) (rc_raddr c) (rc_status c) statuses
                    (if pid = -1 then rc_pid c else None))
       (filter (\<lambda>c. rc_fam c \<in> set families \<and> rc_type c \<in> set types) rawlist)))))"

text \<open>
  \<open>re.search(r"Running: (\d+) Mbps.*?(\w+) Duplex", stdout)\<close>: the lazy \<open>.*?\<close> gives up one
  more character at a time, up to the end of the line.
\<close>

definition is_word :: "char \<Rightarrow> bool" where
  "is_word c \<longleftrightarrow> is_digit c \<or> c = CHR ''_'' \<or> (let n = (of_char (to_lower c) :: nat) in 97 \<le> n \<and> n \<le> 122)"

fun duplex_after :: "string \<Rightarrow> string option" where
  "duplex_after s = (case rmatch (rgroup (rplus is_word) @ rlit '' Duplex'') None s of
       Some (g # _, _) \<Rightarrow> Some g
     | _ \<Rightarrow> (case s of [] \<Rightarrow> None | c # t \<Rightarrow> if rdot c then duplex_after t else None))"

declare duplex_after.simps [simp del]

fun entstat_search :: "string \<Rightarrow> (string \<times> string) option" where
  "entstat_search s =
     (case (case rmatch (rlit ''Running: '' @ rgroup (rplus is_digit) @ rlit '' Mbps'') None s of
              Some (speed # _, r) \<Rightarrow> map_option (\<lambda>d. (speed, d)) (duplex_after r)
            | _ \<Rightarrow> None) of
        Some m \<Rightarrow> Some m
      | None \<Rightarrow> (case s of [] \<Rightarrow> None | c # t \<Rightarrow> entstat_search t))"

declare entstat_search.simps [simp del]

definition aix_if_step :: "string \<Rightarrow> (string, snicstats) dict \<Rightarrow> ('z aix_scheme, (string, snicstats) dict) py" where
  "aix_if_step name acc =
     bnd (ext_try ''net_if_mtu'' [] [name] (\<lambda>x h. a_net_if_mtu x h name)) (\<lambda>mtu.
     bnd (ext_try ''net_if_flags'' [] [name] (\<lambda>x h. a_net_if_flags x h name)) (\<lambda>flags.
     bnd (aix_run [''/usr/bin/entstat'', ''-d'', name]) (\<lambda>(code, stdout, stderr).
     bnd (case (if code = 0 then entstat_search stdout else None) of
            None \<Rightarrow> ret (0, [])
          | Some (speed, duplex) \<Rightarrow> bnd (liftE (py_int speed)) (\<lambda>n. ret (n, duplex))) (\<lambda>(speed, duplex).
     ret (AList.update name \<lparr>ns_isup = (''running'' \<in> set flags),
            ns_duplex = (if duplex = ''Full'' then NIC_DUPLEX_FULL else if duplex = ''Half'' then NIC_DUPLEX_HALF
                         else NIC_DUPLEX_UNKNOWN),
            ns_speed = speed, ns_mtu = mtu, ns_flags = join '','' flags\<rparr> acc)))))"

definition aix_net_if_stats :: "('z aix_scheme, (string, snicstats) dict) py" where
  "aix_net_if_stats = bnd (ext_try ''net_if_addrs'' [] [] a_net_if_addrs) (\<lambda>rows.
     for_each (uniq (map fst rows)) aix_if_step [])"

definition aix_boot_time :: "('z aix_scheme, flt) py" where
  "aix_boot_time = ext_try ''boot_time'' [] [] a_boot_time"

definition aix_users :: "('z aix_scheme, suser list) py" where
  "aix_users = bnd (ext_try ''users'' [] [] a_users) (\<lambda>rawlist.
     ret (map (\<lambda>(user, tty, hostname, tstamp, user_process, pid). \<lparr>us_name = user, us_terminal = tty,
             us_host = Some (if hostname \<in> {'':0.0'', '':0''} then ''localhost'' else hostname),
             us_started = tstamp, us_pid = pid\<rparr>)
          (filter (\<lambda>(user, tty, hostname, tstamp, user_process, pid). user_process) rawlist)))"

definition aix_pids :: "('z aix_scheme, int list) py" where
  "aix_pids = bnd get_procfs_path (\<lambda>path. bnd (listdir path) (\<lambda>xs. liftE (mapE py_int (filter str_isdigit xs))))"

definition aix_pid_exists :: "int \<Rightarrow> ('z aix_scheme, bool) py" where
  "aix_pid_exists pid = bnd get_procfs_path (\<lambda>path. path_exists (pjoin (pjoin path (int_str pid)) ''psinfo''))"

end
