(* ===== verification/Aix_Process.thy ===== *)
theory Aix_Process
  imports Aix
begin

text \<open>
  \<open>psutil/_psaix.py\<close>: the translation of errors and the class \<open>Process\<close>.
\<close>

unbundle bit_operations_syntax

section \<open>Errors\<close>

definition aix_handler :: "int \<times> string option \<times> int option \<Rightarrow> exn \<Rightarrow> ('z aix_scheme, 'a) py" where
  "aix_handler idn e = (case idn of (pid, name, ppid) \<Rightarrow>
     if is_FileNotFoundError e \<or> is_ProcessLookupError e then
       bnd (aix_pid_exists pid) (\<lambda>ex.
       if \<not> ex then raise (mk_NoSuchProcess pid name None) else raise (mk_ZombieProcess pid name ppid None))
     else if is_PermissionError e then raise (mk_AccessDenied (Some pid) name None)
     else raise e)"

definition aix_wrap_exceptions :: "('z aix_scheme, 'a) py \<Rightarrow> ('z aix_scheme, 'a) py" where
  "aix_wrap_exceptions m = bnd ident3 (\<lambda>idn. try_except m (aix_handler idn))"

text \<open>A call of the extension with the pid, or with the pid and \<open>_procfs_path\<close>.\<close>

definition a_get :: "string \<Rightarrow> (aix_ext \<Rightarrow> (int \<Rightarrow> exn + 'a) answer) \<Rightarrow> ('z aix_scheme, 'a) py" where
  "a_get fn f = bnd (me x_pid) (\<lambda>pid. ext_try fn [pid] [] (\<lambda>x h. f x h pid))"

definition a_get2 :: "string \<Rightarrow> (aix_ext \<Rightarrow> (int \<Rightarrow> string \<Rightarrow> exn + 'a) answer) \<Rightarrow> ('z aix_scheme, 'a) py" where
  "a_get2 fn f = bnd (me (\<lambda>p. (x_pid p, x_procfs p))) (\<lambda>(pid, procfs).
     ext_try fn [pid] [procfs] (\<lambda>x h. f x h pid procfs))"

definition aix_stat_self :: "('z aix_scheme, unit) py" where
  "aix_stat_self = bnd (me (proc_path [])) (\<lambda>p. bnd (stat_call p) (\<lambda>_. ret ()))"

section \<open>The cached calls\<close>

definition aix_blank :: aix_cache where
  "aix_blank = \<lparr>ac_oneshot = None, ac_cred = None\<rparr>"

definition put_ac_oneshot :: "aix_info \<Rightarrow> aix_cache \<Rightarrow> aix_cache" where
  "put_ac_oneshot r c = c\<lparr>ac_oneshot := Some r\<rparr>"
definition put_ac_cred :: "cred \<Rightarrow> aix_cache \<Rightarrow> aix_cache" where
  "put_ac_cred r c = c\<lparr>ac_cred := Some r\<rparr>"

interpretation aix_oneshot_slot: memo_slot x_has "x_look ac_oneshot" "x_store put_ac_oneshot" "x_on aix_blank" x_off
  by (rule x_slot) (simp_all add: put_ac_oneshot_def aix_blank_def)

interpretation aix_cred_slot: memo_slot x_has "x_look ac_cred" "x_store put_ac_cred" "x_on aix_blank" x_off
  by (rule x_slot) (simp_all add: put_ac_cred_def aix_blank_def)

definition aix_oneshot_enter :: "('z aix_scheme, unit) py" where
  "aix_oneshot_enter = bnd (modify (x_on aix_blank)) (\<lambda>_. modify (x_on aix_blank))"

definition aix_oneshot_exit :: "('z aix_scheme, unit) py" where
  "aix_oneshot_exit = bnd (modify x_off) (\<lambda>_. modify x_off)"

definition aix_proc_oneshot :: "('z aix_scheme, aix_info) py" where
  "aix_proc_oneshot = aix_wrap_exceptions (memoize x_has (x_look ac_oneshot) (x_store put_ac_oneshot)
     (a_get2 ''proc_oneshot'' a_oneshot))"

definition aix_proc_cred :: "('z aix_scheme, cred) py" where
  "aix_proc_cred = aix_wrap_exceptions (memoize x_has (x_look ac_cred) (x_store put_ac_cred)
     (a_get2 ''proc_cred'' a_cred))"

section \<open>Paths\<close>

text \<open>\<open>os.path.normpath\<close> and \<open>os.path.abspath\<close> of POSIX.\<close>

definition norm_comp :: "bool \<Rightarrow> string list \<Rightarrow> string \<Rightarrow> string list" where
  "norm_comp rooted comps c =
     (if c = [] \<or> c = ''.'' then comps
      else if c \<noteq> ''..'' \<or> (\<not> rooted \<and> comps = []) \<or> (comps \<noteq> [] \<and> last comps = ''..'') then comps @ [c]
      else butlast comps)"

definition posix_root :: "string \<Rightarrow> string" where
  "posix_root p = (if \<not> startswith p ''/'' then []
     else if startswith p ''//'' \<and> \<not> startswith p ''///'' then ''//'' else ''/'')"

definition posix_normpath :: "string \<Rightarrow> string" where
  "posix_normpath p = (if p = [] then ''.'' else
     let rt = posix_root p;
         res = rt @ join ''/'' (foldl (norm_comp (rt \<noteq> [])) [] (split_on (CHR ''/'') (drop (length rt) p)))
     in if res = [] then ''.'' else res)"

definition posix_isabs :: "string \<Rightarrow> bool" where
  "posix_isabs p = startswith p ''/''"

definition aix_abspath :: "string \<Rightarrow> ('z aix_scheme, string) py" where
  "aix_abspath p = (if posix_isabs p then ret (posix_normpath p)
     else bnd (ext_try ''getcwd'' [] [] a_getcwd) (\<lambda>cwd. ret (posix_normpath (pjoin cwd p))))"

text \<open>\<open>os.path.isfile(p) and os.access(p, os.X_OK)\<close>.\<close>

definition is_program :: "string \<Rightarrow> ('z aix_scheme, bool) py" where
  "is_program p = bnd (path_isfile p) (\<lambda>f. if \<not> f then ret False else sys_ask (SAccessX p) (\<lambda>os h. os_access_x os h p))"

section \<open>Methods\<close>

definition rstrip_char :: "char \<Rightarrow> string \<Rightarrow> string" where
  "rstrip_char c s = rev (dropWhile (\<lambda>x. x = c) (rev s))"

definition aix_name :: "('z aix_scheme, string) py" where
  "aix_name = aix_wrap_exceptions (bnd (me x_pid) (\<lambda>pid.
     if pid = 0 then ret ''swapper''
     else bnd (a_get2 ''proc_name'' a_proc_name) (\<lambda>name. ret (rstrip_char nul name))))"

definition aix_cmdline :: "('z aix_scheme, string list) py" where
  "aix_cmdline = aix_wrap_exceptions (a_get ''proc_args'' a_proc_args)"

definition aix_cwd :: "('z aix_scheme, string) py" where
  "aix_cwd = aix_wrap_exceptions (bnd (me (proc_path ''/cwd'')) (\<lambda>p.
     try_except (bnd (os_readlink_call p) (\<lambda>result. ret (rstrip_char (CHR ''/'') result)))
       (\<lambda>e. if is_FileNotFoundError e then bnd aix_stat_self (\<lambda>_. ret []) else raise e)))"

text \<open>The loop over \<open>PATH\<close>.\<close>

fun search_path :: "string \<Rightarrow> string list \<Rightarrow> ('z aix_scheme, string) py" where
  "search_path exe [] = ret []"
| "search_path exe (path # paths) = bnd (aix_abspath (pjoin path exe)) (\<lambda>possible_exe.
     bnd (is_program possible_exe) (\<lambda>ok. if ok then ret possible_exe else search_path exe paths))"

text \<open>A name with a directory is tried where it is, before the search with its last part.\<close>

definition exe_with_dir :: "string list \<Rightarrow> string \<Rightarrow> ('z aix_scheme, string) py" where
  "exe_with_dir paths exe0 =
     bnd (if \<not> posix_isabs exe0 then bnd aix_cwd (\<lambda>cwd. aix_abspath (pjoin cwd exe0)) else ret exe0) (\<lambda>exe.
     bnd (if posix_isabs exe then is_program exe else ret False) (\<lambda>ok.
     if ok then ret exe else search_path (basename exe) paths))"

definition aix_exe :: "('z aix_scheme, string) py" where
  "aix_exe = aix_wrap_exceptions (bnd aix_cmdline (\<lambda>cmdline. bnd (gets (\<lambda>s. split_on (CHR '':'') (a_path (ext s)))) (\<lambda>paths.
     case cmdline of [] \<Rightarrow> ret []
     | exe # _ \<Rightarrow> if CHR ''/'' \<in> set exe then exe_with_dir paths exe else search_path exe paths)))"

definition aix_environ :: "('z aix_scheme, (string, string) dict) py" where
  "aix_environ = aix_wrap_exceptions (a_get ''proc_environ'' a_environ)"

definition aix_create_time :: "('z aix_scheme, flt) py" where
  "aix_create_time = aix_wrap_exceptions (bnd aix_proc_oneshot (\<lambda>d. ret (ai_create_time d)))"

definition aix_num_threads :: "('z aix_scheme, int) py" where
  "aix_num_threads = aix_wrap_exceptions (bnd aix_proc_oneshot (\<lambda>d. ret (ai_num_threads d)))"

definition aix_threads :: "('z aix_scheme, pthread list) py" where
  "aix_threads = aix_wrap_exceptions (bnd (a_get ''proc_threads'' a_threads) (\<lambda>rawlist.
     let retlist = mk_threads rawlist in
     bnd (if retlist = [] then aix_stat_self else ret ()) (\<lambda>_. ret retlist)))"

definition aix_proc_net_connections :: "string \<Rightarrow> ('z aix_scheme, sconn list) py" where
  "aix_proc_net_connections kind = aix_wrap_exceptions (bnd (me x_pid) (\<lambda>pid.
     bnd (aix_net_connections kind pid) (\<lambda>l. bnd (if l = [] then aix_stat_self else ret ()) (\<lambda>_. ret l))))"

definition aix_nice_get :: "('z aix_scheme, int) py" where
  "aix_nice_get = aix_wrap_exceptions (a_get ''proc_priority_get'' a_priority_get)"

definition aix_nice_set :: "int \<Rightarrow> ('z aix_scheme, unit) py" where
  "aix_nice_set v = aix_wrap_exceptions (bnd (me x_pid) (\<lambda>pid.
     ext_do ''proc_priority_set'' [pid, v] [] (\<lambda>x h. a_priority_set x h pid v)))"

definition aix_ppid :: "('z aix_scheme, int) py" where
  "aix_ppid = aix_wrap_exceptions (bnd aix_proc_oneshot (\<lambda>d.
     bnd (modify (\<lambda>s. s\<lparr>xp := (xp s)\<lparr>x_ppid := Some (ai_ppid d)\<rparr>\<rparr>)) (\<lambda>_. ret (ai_ppid d))))"

definition aix_uids :: "('z aix_scheme, pids3) py" where
  "aix_uids = aix_wrap_exceptions (bnd aix_proc_cred (\<lambda>(real, effective, saved, _, _, _).
     ret \<lparr>ids_real = real, ids_effective = effective, ids_saved = saved\<rparr>))"

text \<open>\<open>gids\<close> returns a \<open>puids\<close>, which has the same fields as \<open>pgids\<close>.\<close>

definition aix_gids :: "('z aix_scheme, pids3) py" where
  "aix_gids = aix_wrap_exceptions (bnd aix_proc_cred (\<lambda>(_, _, _, real, effective, saved).
     ret \<lparr>ids_real = real, ids_effective = effective, ids_saved = saved\<rparr>))"

definition aix_proc_cpu_times :: "('z aix_scheme, pcputimes4) py" where
  "aix_proc_cpu_times = aix_wrap_exceptions (bnd (a_get2 ''proc_cpu_times'' a_proc_cpu_times) (\<lambda>(u, y, cu, cs).
     ret \<lparr>pc4_user = u, pc4_system = y, pc4_children_user = cu, pc4_children_system = cs\<rparr>))"

text \<open>The 32-bit number of a device from the 64-bit one.\<close>

definition dev32 :: "int \<Rightarrow> int" where
  "dev32 ttydev = drop_bit 16 (ttydev AND 0x0000FFFF00000000) OR (ttydev AND 0xFFFF)"

fun find_dev :: "int \<Rightarrow> string list \<Rightarrow> ('z aix_scheme, string option) py" where
  "find_dev ttydev [] = ret None"
| "find_dev ttydev (dev # devs) = bnd (stat_call dev) (\<lambda>st.
     if st_rdev st = ttydev then ret (Some dev) else find_dev ttydev devs)"

definition aix_terminal :: "('z aix_scheme, string option) py" where
  "aix_terminal = aix_wrap_exceptions (bnd aix_proc_oneshot (\<lambda>d.
     bnd (glob_call ''/dev/**/*'') (find_dev (dev32 (ai_ttynr d)))))"

definition aix_memory_info :: "('z aix_scheme, pmem2) py" where
  "aix_memory_info = aix_wrap_exceptions (bnd aix_proc_oneshot (\<lambda>d.
     ret \<lparr>pm2_rss = ai_rss d * 1024, pm2_vms = ai_vms d * 1024\<rparr>))"

definition aix_statuses :: "(string \<times> ProcessStatus) list" where
  "aix_statuses = [(''SIDL'', STATUS_IDLE), (''SZOMB'', STATUS_ZOMBIE), (''SACTIVE'', STATUS_RUNNING),
     (''SSWAP'', STATUS_RUNNING), (''SSTOP'', STATUS_STOPPED)]"

text \<open>\<open>None\<close> stands for the string \<open>?\<close>.\<close>

definition aix_status :: "('z aix_scheme, ProcessStatus option) py" where
  "aix_status = aix_wrap_exceptions (bnd aix_proc_oneshot (\<lambda>d. bnd (gets (\<lambda>s. const_dict (ext_const s) aix_statuses)) (\<lambda>st.
     ret (map_of st (ai_status d)))))"

text \<open>\<open>re.findall(r"(\d+): S_IFREG.*name:(.*)\n", stdout)\<close> on the output of \<open>procfiles\<close>.\<close>

definition procfiles_re :: "ratom list" where
  "procfiles_re = rgroup (rplus is_digit) @ rlit '': S_IFREG'' @ [RStar rdot] @ rlit ''name:''
     @ rgroup [RStar rdot] @ rlit [nl]"

definition procfiles_step :: "string list \<Rightarrow> popenfile2 list \<Rightarrow> exn + popenfile2 list" where
  "procfiles_step m acc = (case m of [fd, path0] \<Rightarrow>
       let path1 = strip path0;
           path = (if startswith path1 ''//'' then drop 1 path1 else path1) in
       if str_lower path = ''cannot be retrieved'' then Inr acc
       else bindE (py_int fd) (\<lambda>n. Inr (acc @ [\<lparr>of2_path = path, of2_fd = n\<rparr>]))
     | _ \<Rightarrow> Inl ValueError)"

text \<open>This method is not decorated with \<open>wrap_exceptions\<close>.\<close>

definition aix_open_files :: "('z aix_scheme, popenfile2 list) py" where
  "aix_open_files = bnd ident3 (\<lambda>(pid, name, ppid).
     bnd (aix_run [''/usr/bin/procfiles'', ''-n'', int_str pid]) (\<lambda>(code, stdout, stderr).
     if contains (str_lower stderr) ''no such process'' then raise (mk_NoSuchProcess pid name None)
     else liftE (foldE procfiles_step (rfindall procfiles_re stdout) [])))"

definition aix_num_fds :: "('z aix_scheme, int) py" where
  "aix_num_fds = aix_wrap_exceptions (bnd (me x_pid) (\<lambda>pid.
     if pid = 0 then ret 0
     else bnd (me (proc_path ''/fd'')) (\<lambda>p. bnd (listdir p) (\<lambda>l. ret (int (length l))))))"

definition aix_num_ctx_switches :: "('z aix_scheme, pctxsw) py" where
  "aix_num_ctx_switches = aix_wrap_exceptions (bnd (a_get ''proc_num_ctx_switches'' a_num_ctx_switches) (\<lambda>(v, i).
     ret \<lparr>cx_voluntary = v, cx_involuntary = i\<rparr>))"

definition aix_io_counters :: "('z aix_scheme, pio4) py" where
  "aix_io_counters = aix_wrap_exceptions (bnd ident3 (\<lambda>(pid, name, ppid).
     bnd (try_except (a_get ''proc_io_counters'' a_io_counters) (\<lambda>e.
            if is_OSError e then bnd (aix_pid_exists pid) (\<lambda>ex.
              if \<not> ex then raise (mk_NoSuchProcess pid name None) else raise e)
            else raise e)) (\<lambda>(rc, wc, rb, wb).
     ret \<lparr>pio4_read_count = rc, pio4_write_count = wc, pio4_read_bytes = rb, pio4_write_bytes = wb\<rparr>)))"

definition aix_wait ::
  "bool \<Rightarrow> bool \<Rightarrow> flt option \<Rightarrow> 'z aix_scheme \<Rightarrow> ('z aix_scheme, int option) result" where
  "aix_wait can_pidfd can_kqueue timeout s = (case wait_pid can_pidfd can_kqueue (x_pid (xp s)) timeout s of
       None \<Rightarrow> None
     | Some (r, t) \<Rightarrow> Some (try_except (\<lambda>_. (r, t)) (aix_handler (x_pid (xp s), x_name (xp s), x_ppid (xp s))) s))"

end
