(* ===== verification/Aix_Facts.thy ===== *)
theory Aix_Facts
  imports Aix_Process
begin

text \<open>
  What the AIX module shows: the path that \<open>exe\<close> guesses is that of a program.
\<close>

section \<open>What is left alone\<close>

lemma pres_path_isfile_xframe [pres_intros]: "pres xframe (path_isfile p :: (('x, 'c, 'z) esys_scheme, bool) py)"
  by (rule pres_xframe_confined [OF pres_path_isfile])

lemma pres_path_exists_xframe [pres_intros]: "pres xframe (path_exists p :: (('x, 'c, 'z) esys_scheme, bool) py)"
  by (rule pres_xframe_confined [OF pres_path_exists])

lemma pres_aix_wrap [pres_intros]: "pres xframe m \<Longrightarrow> pres xframe (aix_wrap_exceptions m)"
  unfolding aix_wrap_exceptions_def aix_handler_def ident3_def aix_pid_exists_def get_procfs_path_def
  by (intro pres_intros) (auto split: prod.splits intro!: pres_intros)

lemma pres_a_get [pres_intros]: "pres xframe (a_get fn f)" "pres xframe (a_get2 fn g)"
  unfolding a_get_def a_get2_def by (auto intro!: pres_intros split: prod.splits)

lemma pres_aix_paths [pres_intros]:
  "pres xframe (aix_abspath p)" "pres xframe (is_program p)" "pres xframe aix_cmdline" "pres xframe aix_cwd"
  unfolding aix_abspath_def is_program_def aix_cmdline_def aix_cwd_def aix_stat_self_def os_readlink_call_def stat_call_def
  by (intro pres_intros)+

lemma aix_wrap_Inr: "aix_wrap_exceptions m s = (Inr x, t) \<longleftrightarrow> m s = (Inr x, t)"
  by (auto simp: aix_wrap_exceptions_def aix_handler_def split: sum.splits prod.splits if_splits)

section \<open>Paths\<close>

lemma posix_normpath_abs:
  assumes "posix_isabs p"
  shows "posix_isabs (posix_normpath p)"
proof -
  have "p \<noteq> []" using assms by (auto simp: posix_isabs_def startswith_def)
  moreover have "posix_root p = ''/'' \<or> posix_root p = ''//''"
    using assms by (simp add: posix_root_def posix_isabs_def)
  ultimately show ?thesis by (auto simp: posix_normpath_def posix_isabs_def Let_def startswith_def)
qed

lemma posix_join_abs: "posix_isabs p \<Longrightarrow> posix_isabs (pjoin p q)"
  by (cases p) (auto simp: posix_isabs_def pjoin_def startswith_def)

lemma aix_abspath_abs:
  assumes "aix_abspath p s = (Inr q, t)" and "\<forall>h c. a_getcwd (ext s) h = Inr c \<longrightarrow> posix_isabs c"
  shows "posix_isabs q"
proof (cases "posix_isabs p")
  case True
  then show ?thesis using assms(1) by (auto simp: aix_abspath_def posix_normpath_abs)
next
  case False
  then show ?thesis using assms
    by (auto simp: aix_abspath_def posix_normpath_abs posix_join_abs split: sum.splits)
qed

text \<open>
  What a call that started with the history \<open>h0\<close> and ended with \<open>hs\<close> has seen of a path: its
  last two calls asked for its status and whether it may be executed, and were told that it is
  a regular file and that it may.
\<close>

definition program_seen :: "os \<Rightarrow> syscall list \<Rightarrow> syscall list \<Rightarrow> string \<Rightarrow> bool" where
  "program_seen os h0 hs p \<longleftrightarrow> (\<exists>d st. hs = SAccessX p # SStat p # d @ h0
     \<and> os_stat os (d @ h0) p = Inr st \<and> st_isreg st \<and> os_access_x os (SStat p # d @ h0) p)"

lemma is_program_run:
  assumes "is_program p s = (Inr True, t)" and "hist s = d @ h0"
  shows "program_seen (sys_os s) h0 (hist t) p"
  using assms unfolding program_seen_def
  by (cases "os_stat (sys_os s) (hist s) p") (auto simp: is_program_def sys_defs split: if_splits)

lemma xframe_hist: "xframe s t \<Longrightarrow> \<exists>d. hist t = d @ hist s"
  by (auto simp: xframe_def)

lemma program_seen_since: "program_seen os (d @ h0) hs p \<Longrightarrow> program_seen os h0 hs p"
  unfolding program_seen_def by (metis append_assoc)

lemma search_path_run:
  assumes "search_path exe paths s = (Inr q, t)" and "\<forall>h c. a_getcwd (ext s) h = Inr c \<longrightarrow> posix_isabs c"
  shows "q = [] \<or> posix_isabs q \<and> program_seen (sys_os s) (hist s) (hist t) q"
  using assms
proof (induction paths arbitrary: s)
  case Nil
  then show ?case by simp
next
  case (Cons path paths)
  obtain p u where p: "aix_abspath (pjoin path exe) s = (Inr p, u)"
    using Cons.prems(1) by (auto simp: bnd_Inr simp del: bnd_run)
  obtain ok v where ok: "is_program p u = (Inr ok, v)"
    using Cons.prems(1) p by (auto simp: bnd_Inr simp del: bnd_run)
  have u: "xframe s u" using p by (rule presD [OF pres_aix_paths(1)])
  moreover have v: "xframe u v" using ok by (rule presD [OF pres_aix_paths(2)])
  ultimately have f: "xframe s v" by (rule xframe_trans)
  show ?case
  proof (cases ok)
    case True
    then have q: "q = p" "t = v" using Cons.prems(1) p ok by simp_all
    obtain d where d: "hist u = d @ hist s" using xframe_hist [OF u] by blast
    have "program_seen (sys_os u) (hist s) (hist t) p" using is_program_run [OF _ d] ok True q by simp
    moreover have "posix_isabs p" using p Cons.prems(2) by (rule aix_abspath_abs)
    ultimately show ?thesis using u q by (simp add: xframe_def)
  next
    case False
    then have "search_path exe paths v = (Inr q, t)" using Cons.prems(1) p ok by simp
    with Cons.IH [of v] Cons.prems(2) f have "q = [] \<or> posix_isabs q \<and> program_seen (sys_os s) (hist v) (hist t) q"
      by (simp add: xframe_def)
    then show ?thesis using xframe_hist [OF f] program_seen_since by metis
  qed
qed

lemma exe_with_dir_run:
  assumes "exe_with_dir paths exe0 s = (Inr q, t)" and "\<forall>h c. a_getcwd (ext s) h = Inr c \<longrightarrow> posix_isabs c"
  shows "q = [] \<or> posix_isabs q \<and> program_seen (sys_os s) (hist s) (hist t) q"
proof -
  let ?m = "if \<not> posix_isabs exe0 then bnd aix_cwd (\<lambda>cwd. aix_abspath (pjoin cwd exe0)) else ret exe0"
  obtain e v where e: "?m s = (Inr e, v)"
    and "bnd (if posix_isabs e then is_program e else ret False) (\<lambda>ok.
      if ok then ret e else search_path (basename e) paths) v = (Inr q, t)"
    using assms(1) unfolding exe_with_dir_def by (rule bndE)
  then obtain ok w where ok: "(if posix_isabs e then is_program e else ret False) v = (Inr ok, w)"
    and fin: "(if ok then ret e else search_path (basename e) paths) w = (Inr q, t)"
    by (meson bndE)
  have v: "xframe s v" using e by (rule presD [rotated]) (intro pres_intros)
  have "xframe v w" using ok by (rule presD [rotated]) (intro pres_intros)
  with v have w: "xframe s w" by (rule xframe_trans)
  show ?thesis
  proof (cases ok)
    case True
    then have e: "posix_isabs e" "is_program e v = (Inr True, w)" "q = e" "t = w"
      using ok fin by (auto split: if_splits)
    obtain d where "hist v = d @ hist s" using xframe_hist [OF v] by blast
    from is_program_run [OF e(2) this] show ?thesis using e v by (simp add: xframe_def)
  next
    case False
    then have "q = [] \<or> posix_isabs q \<and> program_seen (sys_os s) (hist w) (hist t) q"
      using fin search_path_run [of "basename e" paths w q t] w assms(2) by (simp add: xframe_def)
    then show ?thesis using xframe_hist [OF w] program_seen_since by metis
  qed
qed

text \<open>
  C39: \<open>exe\<close> of AIX, which guesses from the command line, the directory of the process and
  \<open>PATH\<close>, answers with nothing or with an absolute path, and in the second case the last two
  calls it made asked for the status of just this path and whether it may be executed, and
  the system answered that it is a regular file and that it may.
\<close>

theorem aix_exe_is_program:
  fixes s :: "'z aix_scheme"
  assumes "aix_exe s = (Inr q, t)" and "\<forall>h c. a_getcwd (ext s) h = Inr c \<longrightarrow> posix_isabs c"
  shows "q = [] \<or> posix_isabs q \<and> program_seen (sys_os s) (hist s) (hist t) q"
proof -
  obtain args u where args: "aix_cmdline s = (Inr args, u)"
    using assms(1) by (auto simp: aix_exe_def aix_wrap_Inr bnd_Inr simp del: bnd_run)
  have "xframe s u" using args by (rule presD [OF pres_aix_paths(3)])
  then obtain d where u: "sys_os u = sys_os s" "ext u = ext s" "hist u = d @ hist s" by (auto simp: xframe_def)
  let ?paths = "split_on (CHR '':'') (a_path (ext s))"
  show ?thesis
  proof (cases args)
    case Nil
    then show ?thesis using assms(1) args by (simp add: aix_exe_def aix_wrap_Inr)
  next
    case (Cons exe rest)
    then have "(if CHR ''/'' \<in> set exe then exe_with_dir ?paths exe else search_path exe ?paths) u = (Inr q, t)"
      using assms(1) args u by (simp add: aix_exe_def aix_wrap_Inr split: if_splits)
    then have "q = [] \<or> posix_isabs q \<and> program_seen (sys_os s) (hist u) (hist t) q"
      using exe_with_dir_run [of ?paths exe u q t] search_path_run [of exe ?paths u q t] u(1,2) assms(2)
      by (simp split: if_splits)
    then show ?thesis unfolding u(3) using program_seen_since by blast
  qed
qed

section \<open>A system to start from\<close>

definition null_aix :: aix_ext where
  "null_aix = \<lparr>a_has_unix = True, a_path = ''/usr/bin:/etc'', a_getcwd = (\<lambda>h. Inl NotImplementedError),
     a_sysconf = (\<lambda>h a. Inl NotImplementedError), a_run = (\<lambda>h a. Inl NotImplementedError),
     a_virtual_mem = (\<lambda>h. Inl NotImplementedError), a_swap_mem = (\<lambda>h. Inl NotImplementedError),
     a_per_cpu_times = (\<lambda>h. Inl NotImplementedError), a_cpu_stats = (\<lambda>h. Inl NotImplementedError),
     a_disk_partitions = (\<lambda>h. Inl NotImplementedError), a_net_connections = (\<lambda>h a. Inl NotImplementedError),
     a_net_if_addrs = (\<lambda>h. Inl NotImplementedError), a_net_if_mtu = (\<lambda>h a. Inl NotImplementedError),
     a_net_if_flags = (\<lambda>h a. Inl NotImplementedError), a_boot_time = (\<lambda>h. Inl NotImplementedError),
     a_users = (\<lambda>h. Inl NotImplementedError), a_oneshot = (\<lambda>h a b. Inl NotImplementedError),
     a_cred = (\<lambda>h a b. Inl NotImplementedError), a_proc_name = (\<lambda>h a b. Inl NotImplementedError),
     a_proc_args = (\<lambda>h a. Inl NotImplementedError), a_environ = (\<lambda>h a. Inl NotImplementedError),
     a_threads = (\<lambda>h a. Inl NotImplementedError), a_priority_get = (\<lambda>h a. Inl NotImplementedError),
     a_priority_set = (\<lambda>h a b. Inl NotImplementedError), a_proc_cpu_times = (\<lambda>h a b. Inl NotImplementedError),
     a_num_ctx_switches = (\<lambda>h a. Inl NotImplementedError), a_io_counters = (\<lambda>h a. Inl NotImplementedError)\<rparr>"

type_synonym aix = "(aix_ext, aix_cache) esys"

definition null_aixsys :: "int \<Rightarrow> aix" where
  "null_aixsys pid = psx.extend null_psx (esys.fields null_aix (\<lambda>_. 0) (xproc_init pid ''/proc''))"

lemma null_aixsys_simps [simp]:
  "sys_os (null_aixsys pid) = null_os" "hist (null_aixsys pid) = []" "ext (null_aixsys pid) = null_aix"
  "xp (null_aixsys pid) = xproc_init pid ''/proc''"
  by (simp_all add: null_aixsys_def null_psx_def null_sys_def sys.defs psx.defs esys.defs)

text \<open>A process started as \<open>cron\<close>, which is found as the second entry of \<open>PATH\<close>.\<close>

theorem aix_exe_is_program_witness:
  "let os = null_os\<lparr>os_stat := \<lambda>h p. if p = ''/etc/cron'' then Inr \<lparr>st_isreg = True, st_dev = (0, 1), st_rdev = 0\<rparr>
                        else Inl ENOENT, os_access_x := \<lambda>h p. True\<rparr>;
       s = (null_aixsys 7)\<lparr>sys_os := os, ext := null_aix\<lparr>a_proc_args := \<lambda>h pid. Inr [''cron'', ''-f'']\<rparr>\<rparr>
   in \<exists>t. aix_exe s = (Inr ''/etc/cron'', t) \<and> program_seen os [] (hist t) ''/etc/cron''"
proof -
  let ?os = "null_os\<lparr>os_stat := \<lambda>h p. if p = ''/etc/cron'' then Inr \<lparr>st_isreg = True, st_dev = (0, 1), st_rdev = 0\<rparr>
                        else Inl ENOENT, os_access_x := \<lambda>h p. True\<rparr>"
  let ?s = "(null_aixsys 7)\<lparr>sys_os := ?os, ext := null_aix\<lparr>a_proc_args := \<lambda>h pid. Inr [''cron'', ''-f'']\<rparr>\<rparr>"
  have paths: "split_on (CHR '':'') (a_path null_aix) = [''/usr/bin'', ''/etc'']" by (simp add: null_aix_def)
  have n: "posix_normpath ''/usr/bin/cron'' = ''/usr/bin/cron''" "posix_normpath ''/etc/cron'' = ''/etc/cron''"
    by (simp_all add: posix_normpath_def posix_root_def startswith_def norm_comp_def)
  obtain t where t: "aix_exe ?s = (Inr ''/etc/cron'', t)"
    by (simp add: aix_exe_def aix_wrap_Inr aix_cmdline_def aix_wrap_exceptions_def a_get_def xproc_init_def paths
        aix_abspath_def posix_isabs_def pjoin_def startswith_def endswith_def n is_program_def sys_defs)
  have "\<forall>h c. a_getcwd (ext ?s) h = Inr c \<longrightarrow> posix_isabs c" by (simp add: null_aix_def)
  from aix_exe_is_program [OF t this] t show ?thesis by (simp add: Let_def)
qed

end
