(* ===== verification/Init_Platform.thy ===== *)
theory Init_Platform
  imports Init_Process Win_Facts Bsd_Facts Osx_Facts Sunos_Facts Aix_Facts
begin

text \<open>
  The class \<open>Process\<close> of \<open>psutil/__init__.py\<close> on the other platforms: the branches of its
  identity, of the check against pid reuse and of the signals that differ from Linux, put
  together with the platform modules.  A \<open>platform\<close> holds the methods of the platform module
  these branches call; \<open>windows\<close>, \<open>bsd_platform\<close>, \<open>macos\<close>, \<open>sunos\<close> and \<open>aix\<close> fill it in.  As
  on Linux, objects live in a store and are known by their address; they have here the
  attributes the modelled methods use.  The values \<open>process_iter\<close> prefetches and the cache of
  \<open>oneshot\<close> are those of the Linux model and are left out: what is modelled is a method of an
  object without them.
\<close>

section \<open>Platforms\<close>

text \<open>
  How \<open>_get_ident\<close> finds the creation time: the fast method of Windows, the monotonic time
  of NetBSD and macOS, or not at all.
\<close>

datatype ident_kind = FastTime | MonotonicTime | PidOnly

text \<open>
  How signals are sent: by four methods of the platform module (\<open>send_signal\<close>, \<open>suspend\<close>,
  \<open>resume\<close>, \<open>kill\<close>) on Windows, and by \<open>os.kill\<close> on POSIX, with the platform's numbers for
  \<open>SIGSTOP\<close> and \<open>SIGCONT\<close>; OpenBSD then also asks \<open>pid_exists\<close>.
\<close>

datatype 's signalling =
    Native "int \<Rightarrow> ('s, unit) py" "('s, unit) py" "('s, unit) py" "('s, unit) py"
  | PosixKill int int "(int \<Rightarrow> ('s, bool) py) option"

record 's platform =
  pf_kind :: ident_kind
  pf_ident_time :: "('s, flt) py"
  pf_create_time :: "('s, flt) py"
  pf_pids :: "('s, int list) py"
  pf_ppid :: "('s, int) py"
  pf_signals :: "'s signalling"

definition windows :: "'z wsys_scheme platform" where
  "windows = \<lparr>pf_kind = FastTime, pf_ident_time = win_create_time True,
     pf_create_time = win_create_time False, pf_pids = ext_try ''pids'' [] [] w_pids, pf_ppid = win_ppid,
     pf_signals = Native win_send_signal win_suspend win_resume win_kill\<rparr>"

definition bsd_platform :: "bsd \<Rightarrow> 'z bsys_scheme platform" where
  "bsd_platform b = \<lparr>pf_kind = (if b = NETBSD then MonotonicTime else PidOnly),
     pf_ident_time = bsd_create_time True, pf_create_time = bsd_create_time False,
     pf_pids = bsd_pids, pf_ppid = bsd_ppid,
     pf_signals = PosixKill 17 19 (if b = OPENBSD then Some bsd_pid_exists else None)\<rparr>"

definition macos :: "'z mac_scheme platform" where
  "macos = \<lparr>pf_kind = MonotonicTime, pf_ident_time = osx_create_time True,
     pf_create_time = osx_create_time False, pf_pids = osx_pids, pf_ppid = osx_ppid, pf_signals = PosixKill 17 19 None\<rparr>"

definition sunos :: "'z sun_scheme platform" where
  "sunos = \<lparr>pf_kind = PidOnly, pf_ident_time = sun_create_time, pf_create_time = sun_create_time,
     pf_pids = sun_pids, pf_ppid = sun_ppid, pf_signals = PosixKill 23 25 None\<rparr>"

definition aix :: "'z aix_scheme platform" where
  "aix = \<lparr>pf_kind = PidOnly, pf_ident_time = aix_create_time, pf_create_time = aix_create_time,
     pf_pids = aix_pids, pf_ppid = aix_ppid, pf_signals = PosixKill 17 19 None\<rparr>"

section \<open>Objects\<close>

record 'c pobj =
  po_pid :: int
  po_name :: "string option"
  po_create_time :: "flt option"
  po_gone :: bool
  po_pid_reused :: bool
  po_ppid :: "int option"
  po_ident :: ident
  po_impl :: "'c xproc"

record ('x, 'c, 'z) ostate =
  pl :: "('x, 'c, 'z) esys_scheme"
  pobjs :: "nat \<Rightarrow> 'c pobj"
  pnext :: nat
  preused :: "int list"
  plowest :: "int option"

type_synonym ('x, 'c, 'z, 'a) opy = "(('x, 'c, 'z) ostate, 'a) py"
type_synonym ('x, 'c, 'z) oplatform = "('x, 'c, 'z) esys_scheme platform"

text \<open>A function of the platform module, and a method of the object's \<open>_proc\<close>.\<close>

definition on_pl :: "(('x, 'c, 'z) esys_scheme, 'a) py \<Rightarrow> ('x, 'c, 'z, 'a) opy" where
  "on_pl m = (\<lambda>s. case m (pl s) of (x, t) \<Rightarrow> (x, s\<lparr>pl := t\<rparr>))"

definition upd_pobj :: "nat \<Rightarrow> ('c pobj \<Rightarrow> 'c pobj) \<Rightarrow> ('x, 'c, 'z) ostate \<Rightarrow> ('x, 'c, 'z) ostate" where
  "upd_pobj r f s = s\<lparr>pobjs := (pobjs s)(r := f (pobjs s r))\<rparr>"

definition pimpl :: "nat \<Rightarrow> (('x, 'c, 'z) esys_scheme, 'a) py \<Rightarrow> ('x, 'c, 'z, 'a) opy" where
  "pimpl r m = (\<lambda>s. case m ((pl s)\<lparr>xp := po_impl (pobjs s r)\<rparr>) of
     (x, t) \<Rightarrow> (x, upd_pobj r (\<lambda>p. p\<lparr>po_impl := xp t\<rparr>) (s\<lparr>pl := t\<rparr>)))"

definition pobj :: "nat \<Rightarrow> ('c pobj \<Rightarrow> 'a) \<Rightarrow> ('x, 'c, 'z, 'a) opy" where
  "pobj r f = gets (\<lambda>s. f (pobjs s r))"

definition set_pobj :: "nat \<Rightarrow> ('c pobj \<Rightarrow> 'c pobj) \<Rightarrow> ('x, 'c, 'z, unit) opy" where
  "set_pobj r f = modify (upd_pobj r f)"

section \<open>Identity\<close>

definition any_create_time :: "('x, 'c, 'z) oplatform \<Rightarrow> nat \<Rightarrow> ('x, 'c, 'z, flt) opy" where
  "any_create_time P r = bnd (pobj r po_create_time) (\<lambda>c. case c of
       Some t \<Rightarrow> ret t
     | None \<Rightarrow> bnd (pimpl r (pf_create_time P)) (\<lambda>t.
         bnd (set_pobj r (\<lambda>p. p\<lparr>po_create_time := Some t\<rparr>)) (\<lambda>_. ret t)))"

definition any_get_ident :: "('x, 'c, 'z) oplatform \<Rightarrow> nat \<Rightarrow> ('x, 'c, 'z, ident) opy" where
  "any_get_ident P r = bnd (pobj r po_pid) (\<lambda>pid. case pf_kind P of
       FastTime \<Rightarrow> bnd (pimpl r (pf_ident_time P)) (\<lambda>t.
         bnd (set_pobj r (\<lambda>p. p\<lparr>po_create_time := Some t\<rparr>)) (\<lambda>_. ret (pid, Some t)))
     | MonotonicTime \<Rightarrow> bnd (pimpl r (pf_ident_time P)) (\<lambda>t. ret (pid, Some t))
     | PidOnly \<Rightarrow> bnd (any_create_time P r) (\<lambda>_. ret (pid, None)))"

definition blank_pobj :: "int \<Rightarrow> 'c xproc \<Rightarrow> 'c pobj" where
  "blank_pobj pid i = \<lparr>po_pid = pid, po_name = None, po_create_time = None, po_gone = False,
     po_pid_reused = False, po_ppid = None, po_ident = (pid, None), po_impl = i\<rparr>"

definition any_init_ident :: "('x, 'c, 'z) oplatform \<Rightarrow> nat \<Rightarrow> int \<Rightarrow> bool \<Rightarrow> ('x, 'c, 'z, unit) opy" where
  "any_init_ident P r pid ignore_nsp = try_else (any_get_ident P r)
     (\<lambda>e. if is_AccessDenied e then ret ()
          else if is_ZombieProcess e then ret ()
          else if is_NoSuchProcess e then
            (if \<not> ignore_nsp then raise (mk_NoSuchProcess pid None (Some ''process PID not found''))
             else set_pobj r (\<lambda>p. p\<lparr>po_gone := True\<rparr>))
          else raise e)
     (\<lambda>i. set_pobj r (\<lambda>p. p\<lparr>po_ident := i\<rparr>))"

definition any_init :: "('x, 'c, 'z) oplatform \<Rightarrow> nat \<Rightarrow> int option \<Rightarrow> bool \<Rightarrow> ('x, 'c, 'z, unit) opy" where
  "any_init P r pid0 ignore_nsp = bnd (on_pl (init_pid pid0)) (\<lambda>pid.
     bnd (gets (\<lambda>s. xproc_init pid (procfs_path (pl s)))) (\<lambda>i.
     bnd (set_pobj r (\<lambda>_. blank_pobj pid i)) (\<lambda>_. any_init_ident P r pid ignore_nsp)))"

definition any_alloc :: "('x, 'c, 'z, nat) opy" where
  "any_alloc = bnd (gets pnext) (\<lambda>r. bnd (modify (\<lambda>s. s\<lparr>pnext := Suc r\<rparr>)) (\<lambda>_. ret r))"

definition any_new_process :: "('x, 'c, 'z) oplatform \<Rightarrow> int option \<Rightarrow> ('x, 'c, 'z, nat) opy" where
  "any_new_process P pid0 = bnd any_alloc (\<lambda>r. bnd (any_init P r pid0 False) (\<lambda>_. ret r))"

definition any_eq :: "'c pobj \<Rightarrow> 'c pobj \<Rightarrow> bool" where
  "any_eq p q \<longleftrightarrow> cmp_idents (po_ident p) (po_ident q) \<noteq> Different"

text \<open>\<open>__ne__\<close>, which \<open>is_running\<close> uses.\<close>

definition any_ne :: "'c pobj \<Rightarrow> 'c pobj \<Rightarrow> bool" where
  "any_ne p q \<longleftrightarrow> \<not> any_eq p q"

definition any_is_running :: "('x, 'c, 'z) oplatform \<Rightarrow> nat \<Rightarrow> ('x, 'c, 'z, bool) opy" where
  "any_is_running P r = bnd (pobj r (\<lambda>p. po_gone p \<or> po_pid_reused p)) (\<lambda>over.
     if over then ret False
     else try_except
       (bnd (pobj r po_pid) (\<lambda>pid. bnd (any_new_process P (Some pid)) (\<lambda>other.
        bnd (gets (\<lambda>s. any_ne (pobjs s r) (pobjs s other))) (\<lambda>reused.
        bnd (set_pobj r (\<lambda>p. p\<lparr>po_pid_reused := reused\<rparr>)) (\<lambda>_.
        if reused then bnd (modify (\<lambda>s. s\<lparr>preused := List.insert pid (preused s)\<rparr>)) (\<lambda>_.
          raise (mk_NoSuchProcess pid None None))
        else ret True)))))
       (\<lambda>e. if is_ZombieProcess e then ret True
            else if is_NoSuchProcess e then bnd (set_pobj r (\<lambda>p. p\<lparr>po_gone := True\<rparr>)) (\<lambda>_. ret False)
            else raise e))"

definition any_raise_if_pid_reused :: "('x, 'c, 'z) oplatform \<Rightarrow> nat \<Rightarrow> ('x, 'c, 'z, unit) opy" where
  "any_raise_if_pid_reused P r = bnd (pobj r po_pid_reused) (\<lambda>b.
     bnd (if b then ret True
          else bnd (any_is_running P r) (\<lambda>running. if running then ret False else pobj r po_pid_reused)) (\<lambda>reused.
     if reused then bnd (pobj r (\<lambda>p. p)) (\<lambda>p. raise (mk_NoSuchProcess (po_pid p) (po_name p)
         (Some ''process no longer exists and its PID has been reused'')))
     else ret ()))"

section \<open>Parents\<close>

text \<open>\<open>ppid\<close>, which only Windows caches; a cached 0 is asked for again.\<close>

definition any_ppid :: "('x, 'c, 'z) oplatform \<Rightarrow> nat \<Rightarrow> ('x, 'c, 'z, int) opy" where
  "any_ppid P r = bnd (any_raise_if_pid_reused P r) (\<lambda>_.
     if pf_kind P \<noteq> FastTime then pimpl r (pf_ppid P)
     else bnd (pobj r po_ppid) (\<lambda>c. if c \<noteq> None \<and> c \<noteq> Some 0 then ret (the c)
       else bnd (pimpl r (pf_ppid P)) (\<lambda>v. bnd (set_pobj r (\<lambda>p. p\<lparr>po_ppid := Some v\<rparr>)) (\<lambda>_. ret v))))"

definition any_pids :: "('x, 'c, 'z) oplatform \<Rightarrow> ('x, 'c, 'z, int list) opy" where
  "any_pids P = bnd (on_pl (pf_pids P)) (\<lambda>ps. let ls = sort ps in
     bnd (liftE (item ls 0)) (\<lambda>low. bnd (modify (\<lambda>s. s\<lparr>plowest := Some low\<rparr>)) (\<lambda>_. ret ls)))"

text \<open>\<open>_ppid_map\<close> where the platform module has no faster one.\<close>

definition any_ppid_map :: "('x, 'c, 'z) oplatform \<Rightarrow> ('x, 'c, 'z, (int, int) dict) opy" where
  "any_ppid_map P = bnd (any_pids P) (\<lambda>ps. for_each ps (\<lambda>pid d.
     try_else (on_pl (on_new pid (pf_ppid P)))
       (\<lambda>e. if is_NoSuchProcess e \<or> is_ZombieProcess e then ret d else raise e)
       (\<lambda>v. ret (AList.update pid v d))) [])"

section \<open>Signals\<close>

text \<open>
  \<open>_send_signal\<close>.  \<open>psutil.pid_exists\<close> passes a positive pid on to the platform module.
\<close>

definition posix_send_signal ::
  "('x, 'c, 'z) oplatform \<Rightarrow> (int \<Rightarrow> (('x, 'c, 'z) esys_scheme, bool) py) option \<Rightarrow> nat \<Rightarrow> int \<Rightarrow> ('x, 'c, 'z, unit) opy" where
  "posix_send_signal P openbsd r sig = bnd (pobj r po_pid) (\<lambda>pid. bnd (assert_py (\<not> pid < 0)) (\<lambda>_.
     bnd (any_raise_if_pid_reused P r) (\<lambda>_. bnd (pobj r (\<lambda>p. (po_ppid p, po_name p))) (\<lambda>(ppid, nm).
     if pid = 0 then raise ValueError
     else try_except (on_pl (kill_call pid sig))
       (\<lambda>e. if is_ProcessLookupError e then
              bnd (case openbsd of None \<Rightarrow> ret False | Some ex \<Rightarrow> on_pl (ex pid)) (\<lambda>zombie.
              if zombie then raise (mk_ZombieProcess pid nm ppid None)
              else bnd (set_pobj r (\<lambda>p. p\<lparr>po_gone := True\<rparr>)) (\<lambda>_. raise (mk_NoSuchProcess pid nm None)))
            else if is_PermissionError e then raise (mk_AccessDenied (Some pid) nm None)
            else raise e)))))"

definition any_send_signal :: "('x, 'c, 'z) oplatform \<Rightarrow> nat \<Rightarrow> int \<Rightarrow> ('x, 'c, 'z, unit) opy" where
  "any_send_signal P r sig = (case pf_signals P of
       PosixKill _ _ openbsd \<Rightarrow> posix_send_signal P openbsd r sig
     | Native send _ _ _ \<Rightarrow> bnd (any_raise_if_pid_reused P r) (\<lambda>_.
         bnd (if sig \<noteq> Init_Process.SIGTERM then bnd (any_is_running P r) (\<lambda>b. ret (\<not> b)) else ret False) (\<lambda>over.
         if over then bnd (pobj r (\<lambda>p. p)) (\<lambda>p.
           raise (mk_NoSuchProcess (po_pid p) (po_name p) (Some ''process no longer exists'')))
         else pimpl r (send sig))))"

definition any_suspend :: "('x, 'c, 'z) oplatform \<Rightarrow> nat \<Rightarrow> ('x, 'c, 'z, unit) opy" where
  "any_suspend P r = (case pf_signals P of
       PosixKill stop _ openbsd \<Rightarrow> posix_send_signal P openbsd r stop
     | Native _ susp _ _ \<Rightarrow> bnd (any_raise_if_pid_reused P r) (\<lambda>_. pimpl r susp))"

definition any_resume :: "('x, 'c, 'z) oplatform \<Rightarrow> nat \<Rightarrow> ('x, 'c, 'z, unit) opy" where
  "any_resume P r = (case pf_signals P of
       PosixKill _ cont openbsd \<Rightarrow> posix_send_signal P openbsd r cont
     | Native _ _ res _ \<Rightarrow> bnd (any_raise_if_pid_reused P r) (\<lambda>_. pimpl r res))"

definition any_terminate :: "('x, 'c, 'z) oplatform \<Rightarrow> nat \<Rightarrow> ('x, 'c, 'z, unit) opy" where
  "any_terminate P r = (case pf_signals P of
       PosixKill _ _ openbsd \<Rightarrow> posix_send_signal P openbsd r Init_Process.SIGTERM
     | Native _ _ _ kil \<Rightarrow> bnd (any_raise_if_pid_reused P r) (\<lambda>_. pimpl r kil))"

definition any_kill :: "('x, 'c, 'z) oplatform \<Rightarrow> nat \<Rightarrow> ('x, 'c, 'z, unit) opy" where
  "any_kill P r = (case pf_signals P of
       PosixKill _ _ openbsd \<Rightarrow> posix_send_signal P openbsd r SIGKILL
     | Native _ _ _ kil \<Rightarrow> bnd (any_raise_if_pid_reused P r) (\<lambda>_. pimpl r kil))"

section \<open>What the platform modules leave alone\<close>

text \<open>
  \<open>quiet\<close>: nothing was changed or sent; \<open>os.kill(pid, 0)\<close> only looks, and the object is
  still for the same pid.
\<close>

definition harmless :: "syscall \<Rightarrow> bool" where
  "harmless c \<longleftrightarrow> read_only c \<or> (\<exists>p. c = SKill p 0)"

lemma read_only_harmless: "list_all read_only d \<Longrightarrow> list_all harmless d"
  by (auto simp: harmless_def list_all_iff)

definition quiet :: "('x, 'c, 'z) esys_scheme \<Rightarrow> ('x, 'c, 'z) esys_scheme \<Rightarrow> bool" where
  "quiet s t \<longleftrightarrow> x_pid (xp t) = x_pid (xp s) \<and> (\<exists>d. hist t = d @ hist s \<and> list_all harmless d)"

lemma quiet_refl: "quiet s s"
  by (simp add: quiet_def)

lemma quiet_trans: "quiet s t \<Longrightarrow> quiet t u \<Longrightarrow> quiet s u"
  by (fastforce simp: quiet_def)

interpretation qf: preserved quiet
  by unfold_locales (auto intro: quiet_refl quiet_trans)

lemma pres_quiet_confined: "pres (confined read_calls) m \<Longrightarrow> pres quiet (m :: (('x, 'c, 'z) esys_scheme, 'a) py)"
proof (rule presI)
  fix s r and t :: "('x, 'c, 'z) esys_scheme"
  assume "pres (confined read_calls) m" "m s = (r, t)"
  then have c: "confined read_calls s t" by (rule presD)
  then have "xframe s t" by (rule xframe_confined)
  with c show "quiet s t"
    by (auto simp: quiet_def confined_def xframe_def list_all_iff harmless_def)
qed

lemma pres_quiet_calls [pres_intros]:
  "pres quiet (ext_try fn is ss f)" "pres quiet (me g)" "pres quiet ident3"
  by (rule presI, auto simp: quiet_def harmless_def)+

lemma pres_quiet_memo [pres_intros]:
  "pres quiet m \<Longrightarrow> pres quiet (memoize x_has (x_look sel) (x_store put) m)"
  unfolding memoize_def
  by (intro pres_intros, auto split: option.splits intro!: pres_intros qf.pres_modify simp: quiet_def x_store_def)

lemma pres_quiet_on_new [pres_intros]: "pres quiet m \<Longrightarrow> pres quiet (on_new pid m)"
  by (rule presI) (auto simp: on_new_run quiet_def dest: presD split: prod.splits)

lemma pres_quiet_posix_pid_exists [pres_intros]:
  "pres quiet (posix_pid_exists pid :: (('x, 'c, 'z) esys_scheme, bool) py)"
proof -
  have "pres quiet (kill_call pid 0 :: (('x, 'c, 'z) esys_scheme, unit) py)"
    by (rule presI) (auto simp: kill_call_def quiet_def harmless_def)
  then show ?thesis unfolding posix_pid_exists_def by (intro pres_intros)
qed

subsection \<open>Windows\<close>

lemma pres_quiet_windows: "pres quiet (win_create_time fast)"
  unfolding win_create_time_def Let_def win_wrap_exceptions_def or_if_denied_def win_oneshot_def w_get_def
  by (intro pres_intros) (auto split: prod.splits intro!: pres_intros)

subsection \<open>BSD\<close>

lemma pres_quiet_bsd_wrap:
  "pres quiet ps \<Longrightarrow> pres quiet m \<Longrightarrow> pres quiet (bsd_wrap ps m)"
  unfolding bsd_wrap_def bsd_handler_def
  by (intro pres_intros) (auto split: prod.splits intro!: pres_intros)

lemma pres_quiet_bsd_oneshot: "pres quiet ps \<Longrightarrow> pres quiet (bsd_oneshot ps)"
  unfolding bsd_oneshot_def b_get_def by (intro pres_quiet_bsd_wrap pres_intros)

lemma pres_quiet_pid_0: "pres quiet ps \<Longrightarrow> pres quiet (pid_0_exists ps)"
  unfolding pid_0_exists_def bsd_name_def b_get_def
  by (intro pres_intros, auto split: option.splits
      intro!: pres_intros qf.pres_modify pres_quiet_bsd_wrap pres_quiet_bsd_oneshot simp: quiet_def)

lemma pres_quiet_bsd_pids_at: "pres quiet (bsd_pids_at n)"
proof (induction n)
  case 0
  show ?case unfolding bsd_pids_at.simps by (rule qf.pres_raise)
next
  case (Suc n)
  then show ?case unfolding bsd_pids_at.simps bsd_pids_with_def bsd_of_def
    by (intro pres_intros pres_quiet_pid_0)
qed

lemma pres_quiet_bsd_pids [pres_intros]: "pres quiet bsd_pids"
  unfolding bsd_pids_def by (intro pres_intros pres_quiet_bsd_pids_at)

lemma pres_quiet_bsd: "pres quiet (bsd_create_time m)"
  unfolding bsd_create_time_def bsd_of_def bsd_adjust_proc_create_time_def bsd_boot_time_def
  by (intro pres_quiet_bsd_wrap pres_quiet_bsd_oneshot pres_intros)

subsection \<open>macOS\<close>

lemma pres_quiet_osx_wrap [pres_intros]: "pres quiet m \<Longrightarrow> pres quiet (osx_wrap_exceptions m)"
  unfolding osx_wrap_exceptions_def osx_handler_def
  by (intro pres_intros) (auto split: prod.splits intro!: pres_intros)

lemma pres_quiet_osx: "pres quiet (osx_create_time m)"
  unfolding osx_create_time_def oneshot_kinfo_def o_get_def osx_adjust_proc_create_time_def osx_boot_time_def
  by (intro pres_intros)

subsection \<open>SunOS and AIX\<close>

lemma pres_quiet_files [pres_intros]:
  "pres quiet (path_exists p :: (('x, 'c, 'z) esys_scheme, bool) py)"
  "pres quiet (get_procfs_path :: (('x, 'c, 'z) esys_scheme, string) py)"
  "pres quiet (listdir p :: (('x, 'c, 'z) esys_scheme, string list) py)"
  by (intro pres_quiet_confined pres_intros)+

lemma pres_quiet_sun_wrap [pres_intros]: "pres quiet m \<Longrightarrow> pres quiet (sun_wrap_exceptions m)"
  unfolding sun_wrap_exceptions_def sun_handler_def sun_pid_exists_def sun_pids_def
  by (intro pres_intros) (auto split: prod.splits intro!: pres_intros)

lemma pres_quiet_sunos: "pres quiet sun_create_time"
  unfolding sun_create_time_def sun_oneshot_def s_get_def
  by (intro pres_intros) (auto split: prod.splits intro!: pres_intros)

lemma pres_quiet_aix_wrap [pres_intros]: "pres quiet m \<Longrightarrow> pres quiet (aix_wrap_exceptions m)"
  unfolding aix_wrap_exceptions_def aix_handler_def aix_pid_exists_def
  by (intro pres_intros) (auto split: prod.splits intro!: pres_intros)

lemma pres_quiet_aix: "pres quiet aix_create_time"
  unfolding aix_create_time_def aix_proc_oneshot_def a_get2_def
  by (intro pres_intros) (auto split: prod.splits intro!: pres_intros)

section \<open>Runs\<close>

lemma pobj_run [simp]: "pobj r f s = (Inr (f (pobjs s r)), s)"
  by (simp add: pobj_def)

lemma set_pobj_run [simp]: "set_pobj r f s = (Inr (), upd_pobj r f s)"
  by (simp add: set_pobj_def)

lemma any_alloc_run [simp]: "any_alloc s = (Inr (pnext s), s\<lparr>pnext := Suc (pnext s)\<rparr>)"
  by (simp add: any_alloc_def)

lemma upd_pobj_simps [simp]:
  "pl (upd_pobj r f s) = pl s" "pnext (upd_pobj r f s) = pnext s" "preused (upd_pobj r f s) = preused s"
  "plowest (upd_pobj r f s) = plowest s" "pobjs (upd_pobj r f s) = (pobjs s)(r := f (pobjs s r))"
  by (simp_all add: upd_pobj_def)

lemma upd_pobj_same: "f (pobjs s r) = pobjs s r \<Longrightarrow> upd_pobj r f s = s"
  by (simp add: upd_pobj_def)

lemma on_pl_run: "m (pl s) = (x, t) \<Longrightarrow> on_pl m s = (x, s\<lparr>pl := t\<rparr>)"
  by (simp add: on_pl_def)

lemma pimpl_run:
  "m ((pl s)\<lparr>xp := po_impl (pobjs s r)\<rparr>) = (x, t) \<Longrightarrow>
     pimpl r m s = (x, upd_pobj r (\<lambda>p. p\<lparr>po_impl := xp t\<rparr>) (s\<lparr>pl := t\<rparr>))"
  by (simp add: pimpl_def)

text \<open>
  \<open>oframe R\<close>: only harmless calls, objects are only added, and of the old ones only those in
  \<open>R\<close> may have changed.
\<close>

definition calm :: "('x, 'c, 'z) ostate \<Rightarrow> ('x, 'c, 'z) ostate \<Rightarrow> bool" where
  "calm s t \<longleftrightarrow> (\<exists>d. hist (pl t) = d @ hist (pl s) \<and> list_all harmless d)"

definition oframe :: "nat set \<Rightarrow> ('x, 'c, 'z) ostate \<Rightarrow> ('x, 'c, 'z) ostate \<Rightarrow> bool" where
  "oframe R s t \<longleftrightarrow> calm s t \<and> pnext s \<le> pnext t \<and> (\<forall>q < pnext s. q \<notin> R \<longrightarrow> pobjs t q = pobjs s q)"

lemma calm_refl: "calm s s"
  by (simp add: calm_def)

lemma calm_trans: "calm s t \<Longrightarrow> calm t u \<Longrightarrow> calm s u"
  by (fastforce simp: calm_def)

interpretation of: preserved "oframe R" for R
  by unfold_locales (fastforce simp: oframe_def intro: calm_refl calm_trans)+

lemma oframe_old: "oframe R s t \<Longrightarrow> q < pnext s \<Longrightarrow> q \<notin> R \<Longrightarrow> pobjs t q = pobjs s q"
  by (simp add: oframe_def)

lemma pres_on_pl [pres_intros]: "pres quiet m \<Longrightarrow> pres (oframe R) (on_pl m)"
  by (rule presI) (auto simp: on_pl_def oframe_def calm_def quiet_def dest: presD split: prod.splits)

lemma pres_pimpl:
  assumes "pres quiet m" "r \<in> R"
  shows "pres (oframe R) (pimpl r m)"
proof (rule presI)
  fix s x t
  assume "pimpl r m s = (x, t)"
  moreover obtain y u where u: "m ((pl s)\<lparr>xp := po_impl (pobjs s r)\<rparr>) = (y, u)"
    by (cases "m ((pl s)\<lparr>xp := po_impl (pobjs s r)\<rparr>)")
  moreover have "quiet ((pl s)\<lparr>xp := po_impl (pobjs s r)\<rparr>) u" using presD [OF assms(1) u] .
  ultimately show "oframe R s t"
    using assms(2) by (auto simp: pimpl_run oframe_def calm_def quiet_def)
qed

lemma pres_pobj [pres_intros]: "pres (oframe R) (pobj r f)"
  unfolding pobj_def by (rule of.pres_gets)

lemma pres_set_pobj: "r \<in> R \<Longrightarrow> pres (oframe R) (set_pobj r f)"
  by (rule presI) (auto simp: oframe_def calm_def)

lemma pres_quiet_init_pid: "pres quiet (init_pid pid0 :: (('x, 'c, 'z) esys_scheme, int) py)"
proof -
  have "pres quiet (sys_ask SGetpid os_getpid :: (('x, 'c, 'z) esys_scheme, int) py)"
    "pres quiet (check_pid_range pid :: (('x, 'c, 'z) esys_scheme, unit) py)" for pid
    by (rule presI, auto simp: check_pid_range_def quiet_def harmless_def)+
  then show ?thesis unfolding init_pid_def by (cases pid0) (auto intro!: pres_intros)
qed

text \<open>
  A look at a pid: it was made by constructing an object, and found the process, a zombie, or
  no process, but none with another identity than \<open>idn\<close>.
\<close>

definition not_another ::
  "('x, 'c, 'z) oplatform \<Rightarrow> int \<Rightarrow> ident \<Rightarrow> ('x, 'c, 'z) ostate \<Rightarrow> ('x, 'c, 'z) ostate \<Rightarrow> bool" where
  "not_another P pid idn s u \<longleftrightarrow> (\<exists>y. any_new_process P (Some pid) s = (y, u)
     \<and> (\<forall>q. y = Inr q \<longrightarrow> cmp_idents idn (po_ident (pobjs u q)) \<noteq> Different)
     \<and> (\<forall>e. y = Inl e \<longrightarrow> is_NoSuchProcess e))"

lemma any_is_running_over:
  "po_gone (pobjs s r) \<or> po_pid_reused (pobjs s r) \<Longrightarrow> any_is_running P r s = (Inr False, s)"
  by (simp add: any_is_running_def)

section \<open>A platform whose creation times are only looked up\<close>

locale quiet_platform =
  fixes P :: "('x, 'c, 'z) oplatform"
  assumes ident_quiet: "pres quiet (pf_ident_time P)"
    and create_quiet: "pres quiet (pf_create_time P)"
begin

lemma ctime_oframe: "r \<in> R \<Longrightarrow> pres (oframe R) (any_create_time P r)"
  unfolding any_create_time_def
  by (intro pres_intros) (auto split: option.splits intro!: pres_intros pres_pimpl pres_set_pobj create_quiet)

lemma ident_oframe: "r \<in> R \<Longrightarrow> pres (oframe R) (any_get_ident P r)"
  unfolding any_get_ident_def
  by (intro pres_intros)
    (auto split: ident_kind.splits intro!: pres_intros pres_pimpl pres_set_pobj ident_quiet ctime_oframe)

lemma init_oframe: "r \<in> R \<Longrightarrow> pres (oframe R) (any_init P r pid0 i)"
  unfolding any_init_def any_init_ident_def
  by (intro pres_intros pres_quiet_init_pid pres_set_pobj ident_oframe)

lemma look_frame: "pres (oframe {}) (any_new_process P pid0)"
proof (rule presI)
  fix s x t
  assume run: "any_new_process P pid0 s = (x, t)"
  let ?r = "pnext s"
  obtain y u where y: "any_init P ?r pid0 False (s\<lparr>pnext := Suc ?r\<rparr>) = (y, u)"
    by (cases "any_init P ?r pid0 False (s\<lparr>pnext := Suc ?r\<rparr>)")
  have "oframe {?r} (s\<lparr>pnext := Suc ?r\<rparr>) u" by (rule presD [OF init_oframe y]) simp
  moreover have "t = u" using run y by (auto simp: any_new_process_def split: sum.splits)
  ultimately show "oframe {} s t" by (auto simp: oframe_def calm_def)
qed

lemma look_check:
  assumes "\<not> po_gone (pobjs s r)" "\<not> po_pid_reused (pobjs s r)" "r < pnext s"
    and np: "any_new_process P (Some (po_pid (pobjs s r))) s = (y, u)"
  shows "any_is_running P r s = (case y of
      Inl e \<Rightarrow> if is_ZombieProcess e then (Inr True, u)
               else if is_NoSuchProcess e then (Inr False, upd_pobj r (\<lambda>p. p\<lparr>po_gone := True\<rparr>) u) else (Inl e, u)
    | Inr q \<Rightarrow> if any_eq (pobjs s r) (pobjs u q) then (Inr True, u)
               else (Inr False, upd_pobj r (\<lambda>p. p\<lparr>po_pid_reused := True, po_gone := True\<rparr>)
                 (u\<lparr>preused := List.insert (po_pid (pobjs s r)) (preused u)\<rparr>)))"
proof -
  have r: "pobjs u r = pobjs s r" using presD [OF look_frame np] assms(3) by (rule oframe_old) simp
  show ?thesis
  proof (cases y)
    case (Inl e)
    then show ?thesis using assms by (simp add: any_is_running_def)
  next
    case (Inr q)
    have same: "upd_pobj r (\<lambda>p. p\<lparr>po_pid_reused := False\<rparr>) u = u"
      using assms(2) r by (intro upd_pobj_same) simp
    show ?thesis
    proof (cases "any_eq (pobjs s r) (pobjs u q)")
      case True
      then show ?thesis using assms Inr r same by (simp add: any_is_running_def any_ne_def)
    next
      case False
      then show ?thesis using assms Inr r
        by (simp add: any_is_running_def any_ne_def mk_NoSuchProcess_def mk_NoSuchProcess_opt_def upd_pobj_def)
    qed
  qed
qed

text \<open>The check before a signal, on an object that is not marked gone.\<close>

lemma guard_outcome:
  assumes run: "any_raise_if_pid_reused P r s = (x, v)" and "r < pnext s" "\<not> po_gone (pobjs s r)"
  shows "calm s v \<and> ((\<exists>e. x = Inl e) \<or> x = Inr () \<and> (\<exists>u. not_another P (po_pid (pobjs s r)) (po_ident (pobjs s r)) s u
     \<and> pl v = pl u \<and> (pobjs v r)\<lparr>po_gone := False\<rparr> = pobjs s r))"
proof (cases "po_pid_reused (pobjs s r)")
  case True
  then show ?thesis using run by (auto simp: any_raise_if_pid_reused_def calm_refl)
next
  case False
  obtain y u where np: "any_new_process P (Some (po_pid (pobjs s r))) s = (y, u)"
    by (cases "any_new_process P (Some (po_pid (pobjs s r))) s")
  have f: "oframe {} s u" by (rule presD [OF look_frame np])
  then have c: "calm s u" and r: "pobjs u r = pobjs s r" using assms(2) by (auto simp: oframe_def)
  have keep: "(pobjs s r)\<lparr>po_gone := False\<rparr> = pobjs s r" using assms(3) by simp
  note chk = look_check [OF assms(3) False assms(2) np]
  show ?thesis
  proof (cases y)
    case (Inl e)
    show ?thesis
    proof (cases "is_NoSuchProcess e \<or> is_ZombieProcess e")
      case True
      then have "is_NoSuchProcess e" by (cases e) auto
      then have "not_another P (po_pid (pobjs s r)) (po_ident (pobjs s r)) s u"
        using np Inl by (simp add: not_another_def)
      then show ?thesis using run chk Inl False True c r keep
        by (auto simp: any_raise_if_pid_reused_def calm_def split: if_splits)
    next
      case other: False
      then show ?thesis using run chk Inl False c by (auto simp: any_raise_if_pid_reused_def)
    qed
  next
    case (Inr q)
    show ?thesis
    proof (cases "any_eq (pobjs s r) (pobjs u q)")
      case True
      then have "not_another P (po_pid (pobjs s r)) (po_ident (pobjs s r)) s u"
        using np Inr by (simp add: not_another_def any_eq_def)
      then show ?thesis using run chk Inr False True c r keep by (auto simp: any_raise_if_pid_reused_def)
    next
      case other: False
      then show ?thesis using run chk Inr False c by (auto simp: any_raise_if_pid_reused_def calm_def)
    qed
  qed
qed

text \<open>A guarded call on the platform object.\<close>

lemma guarded_outcome:
  assumes run: "bnd (any_raise_if_pid_reused P r) (\<lambda>_. m) s = (x, t)" and "r < pnext s" "\<not> po_gone (pobjs s r)"
  shows "calm s t \<or> (\<exists>u v. not_another P (po_pid (pobjs s r)) (po_ident (pobjs s r)) s u \<and> calm s u
     \<and> pl v = pl u \<and> (pobjs v r)\<lparr>po_gone := False\<rparr> = pobjs s r \<and> m v = (x, t))"
proof -
  obtain y v where v: "any_raise_if_pid_reused P r s = (y, v)" by (cases "any_raise_if_pid_reused P r s")
  from guard_outcome [OF v assms(2,3)] run v show ?thesis
    by (cases y) (auto simp: calm_def)
qed

end

interpretation win_quiet: quiet_platform windows
  by unfold_locales (simp_all add: windows_def pres_quiet_windows)

interpretation bsd_quiet: quiet_platform "bsd_platform b" for b
  by unfold_locales (simp_all add: bsd_platform_def pres_quiet_bsd)

interpretation osx_quiet: quiet_platform macos
  by unfold_locales (simp_all add: macos_def pres_quiet_osx)

interpretation sun_quiet: quiet_platform sunos
  by unfold_locales (simp_all add: sunos_def pres_quiet_sunos)

interpretation aix_quiet: quiet_platform aix
  by unfold_locales (simp_all add: aix_def pres_quiet_aix)

section \<open>Signals on Windows\<close>

lemma win_do_hist:
  "win_wrap_exceptions (w_do fn is f) s = (x, t) \<Longrightarrow> hist t = SExtSet fn (x_pid (xp s) # is) [] # hist s"
  by (auto simp: win_wrap_exceptions_def w_do_def split: sum.splits prod.splits)

lemma win_signal_hist:
  "win_suspend s = (x, t) \<Longrightarrow> hist t = SExtSet ''proc_suspend_or_resume'' [x_pid (xp s), 1] [] # hist s"
  "win_resume s = (x, t) \<Longrightarrow> hist t = SExtSet ''proc_suspend_or_resume'' [x_pid (xp s), 0] [] # hist s"
  "win_kill s = (x, t) \<Longrightarrow> hist t = SExtSet ''proc_kill'' [x_pid (xp s)] [] # hist s"
  "win_send_signal Init_Process.SIGTERM s = (x, t) \<Longrightarrow> hist t = SExtSet ''proc_kill'' [x_pid (xp s)] [] # hist s"
  by (simp_all add: win_suspend_def win_resume_def win_kill_def win_send_signal_def Init_Process.SIGTERM_def
      Win_Process.SIGTERM_def win_do_hist)

lemma windows_ops:
  "any_suspend windows r = bnd (any_raise_if_pid_reused windows r) (\<lambda>_. pimpl r win_suspend)"
  "any_resume windows r = bnd (any_raise_if_pid_reused windows r) (\<lambda>_. pimpl r win_resume)"
  "any_terminate windows r = bnd (any_raise_if_pid_reused windows r) (\<lambda>_. pimpl r win_kill)"
  "any_kill windows r = bnd (any_raise_if_pid_reused windows r) (\<lambda>_. pimpl r win_kill)"
  "any_send_signal windows r Init_Process.SIGTERM =
     bnd (any_raise_if_pid_reused windows r) (\<lambda>_. pimpl r (win_send_signal Init_Process.SIGTERM))"
proof -
  have sig: "pf_signals windows = Native win_send_signal win_suspend win_resume win_kill"
    by (simp add: windows_def)
  show "any_suspend windows r = bnd (any_raise_if_pid_reused windows r) (\<lambda>_. pimpl r win_suspend)"
    "any_resume windows r = bnd (any_raise_if_pid_reused windows r) (\<lambda>_. pimpl r win_resume)"
    "any_terminate windows r = bnd (any_raise_if_pid_reused windows r) (\<lambda>_. pimpl r win_kill)"
    "any_kill windows r = bnd (any_raise_if_pid_reused windows r) (\<lambda>_. pimpl r win_kill)"
    "any_send_signal windows r Init_Process.SIGTERM =
       bnd (any_raise_if_pid_reused windows r) (\<lambda>_. pimpl r (win_send_signal Init_Process.SIGTERM))"
    by (simp_all add: sig any_suspend_def any_resume_def any_terminate_def any_kill_def any_send_signal_def
        ret_bnd del: bnd_run)
qed

lemma pimpl_hist:
  assumes "pimpl r m v = (x, t)" and "x_pid (po_impl (pobjs v r)) = pid"
    and "\<And>u y w. m u = (y, w) \<Longrightarrow> hist w = SExtSet fn (x_pid (xp u) # is) [] # hist u"
  shows "hist (pl t) = SExtSet fn (pid # is) [] # hist (pl v)"
proof -
  obtain y w where w: "m ((pl v)\<lparr>xp := po_impl (pobjs v r)\<rparr>) = (y, w)"
    by (cases "m ((pl v)\<lparr>xp := po_impl (pobjs v r)\<rparr>)")
  from assms(3) [OF this] pimpl_run [of m v r, OF w] assms(1,2) show ?thesis by auto
qed

lemma win_guarded:
  assumes run: "bnd (any_raise_if_pid_reused windows r) (\<lambda>_. pimpl r m) s = (x, t)"
    and obj: "r < pnext s" "\<not> po_gone (pobjs s r)" "x_pid (po_impl (pobjs s r)) = po_pid (pobjs s r)"
    and m: "\<And>u y w. m u = (y, w) \<Longrightarrow> hist w = SExtSet fn (x_pid (xp u) # is) [] # hist u"
  shows "calm s t \<or> (\<exists>u. not_another windows (po_pid (pobjs s r)) (po_ident (pobjs s r)) s u \<and> calm s u
     \<and> hist (pl t) = SExtSet fn (po_pid (pobjs s r) # is) [] # hist (pl u))"
  using win_quiet.guarded_outcome [OF run obj(1,2)]
proof (elim disjE exE conjE)
  fix u v
  assume u: "not_another windows (po_pid (pobjs s r)) (po_ident (pobjs s r)) s u" "calm s u" "pl v = pl u"
    and keep: "(pobjs v r)\<lparr>po_gone := False\<rparr> = pobjs s r" and v: "pimpl r m v = (x, t)"
  have "po_impl ((pobjs v r)\<lparr>po_gone := False\<rparr>) = po_impl (pobjs v r)" by simp
  then have "x_pid (po_impl (pobjs v r)) = po_pid (pobjs s r)" using obj(3) keep by simp
  from pimpl_hist [OF v this m] u show ?thesis by auto
qed simp

text \<open>
  C4: on Windows, \<open>suspend\<close>, \<open>resume\<close>, \<open>terminate\<close>, \<open>kill\<close> and \<open>send_signal(SIGTERM)\<close> through an
  object that is not marked gone either change nothing, or make the one call of the extension
  for the object's pid, right after a look at that pid which found no process with another
  identity.
\<close>

theorem windows_signal_checked:
  assumes call: "(op, fn, args) \<in> {(any_suspend windows r, ''proc_suspend_or_resume'', [1]),
        (any_resume windows r, ''proc_suspend_or_resume'', [0]), (any_terminate windows r, ''proc_kill'', []),
        (any_kill windows r, ''proc_kill'', []), (any_send_signal windows r Init_Process.SIGTERM, ''proc_kill'', [])}"
    and run: "op s = (x, t)"
    and obj: "r < pnext s" "\<not> po_gone (pobjs s r)" "x_pid (po_impl (pobjs s r)) = po_pid (pobjs s r)"
  shows "calm s t \<or> (\<exists>u. not_another windows (po_pid (pobjs s r)) (po_ident (pobjs s r)) s u \<and> calm s u
     \<and> hist (pl t) = SExtSet fn (po_pid (pobjs s r) # args) [] # hist (pl u))"
proof -
  obtain m where "op = bnd (any_raise_if_pid_reused windows r) (\<lambda>_. pimpl r m)"
    and "\<And>u y w. m u = (y, w) \<Longrightarrow> hist w = SExtSet fn (x_pid (xp u) # args) [] # hist u"
    using call win_signal_hist by (auto simp only: windows_ops insert_iff prod.inject empty_iff)
  then show ?thesis using win_guarded [OF _ obj] run by blast
qed

text \<open>A state with one object, whose pid is 42, for the witnesses.\<close>

definition demo_objs :: "('x, 'c, 'z) esys_scheme \<Rightarrow> flt option \<Rightarrow> ('x, 'c, 'z) ostate" where
  "demo_objs w c = \<lparr>pl = w, pobjs = (\<lambda>_. (blank_pobj 42 (xproc_init 42 []))\<lparr>po_ident := (42, c)\<rparr>),
     pnext = 1, preused = [], plowest = None\<rparr>"

definition win_demo :: wsys where
  "win_demo = (null_wsys 42)\<lparr>ext := null_win\<lparr>w_proc_times := \<lambda>h pid. Inr (0, 0, 7), w_proc_kill := \<lambda>h pid. Inr ()\<rparr>\<rparr>"

lemma win_demo_new:
  "\<exists>t. any_new_process windows (Some 42) (demo_objs win_demo (Some 7)) = (Inr 1, t)
   \<and> po_ident (pobjs t 1) = (42, Some 7) \<and> pobjs t 0 = pobjs (demo_objs win_demo (Some 7)) 0
   \<and> ext (pl t) = ext win_demo"
  by (simp add: any_new_process_def any_init_def init_pid_def check_pid_range_def demo_objs_def win_demo_def
      any_init_ident_def any_get_ident_def windows_def pimpl_def on_pl_def win_create_time_def
      win_wrap_exceptions_def w_get_def blank_pobj_def xproc_init_def upd_pobj_def null_os_def)

lemma demo_objs_simps [simp]:
  "pobjs (demo_objs w c) r = (blank_pobj 42 (xproc_init 42 []))\<lparr>po_ident := (42, c)\<rparr>"
  "pnext (demo_objs w c) = 1" "pl (demo_objs w c) = w"
  by (simp_all add: demo_objs_def)

lemma win_demo_kill:
  "\<exists>t d. any_kill windows 0 (demo_objs win_demo (Some 7)) = (Inr (), t)
     \<and> hist (pl t) = SExtSet ''proc_kill'' [42] [] # d"
proof -
  let ?s = "demo_objs win_demo (Some 7)"
  obtain t where t: "any_new_process windows (Some 42) ?s = (Inr 1, t)" "po_ident (pobjs t 1) = (42, Some 7)"
    "pobjs t 0 = pobjs ?s 0" "ext (pl t) = ext win_demo"
    using win_demo_new by blast
  have "any_is_running windows 0 ?s = (Inr True, t)"
    using win_quiet.look_check [of ?s 0 "Inr 1" t] t
    by (simp add: blank_pobj_def any_eq_def cmp_idents_def ctime_true_def)
  then show ?thesis using t
    by (simp add: windows_ops any_raise_if_pid_reused_def blank_pobj_def pimpl_def win_kill_def
        win_wrap_exceptions_def w_do_def xproc_init_def win_demo_def)
qed

theorem windows_signal_checked_witness:
  "\<exists>t u. any_kill windows 0 (demo_objs win_demo (Some 7)) = (Inr (), t)
     \<and> not_another windows 42 (42, Some 7) (demo_objs win_demo (Some 7)) u
     \<and> hist (pl t) = SExtSet ''proc_kill'' [42] [] # hist (pl u)"
proof -
  let ?s = "demo_objs win_demo (Some 7)"
  obtain t d where t: "any_kill windows 0 ?s = (Inr (), t)" "hist (pl t) = SExtSet ''proc_kill'' [42] [] # d"
    using win_demo_kill by blast
  have "hist (pl ?s) = []" by (simp add: win_demo_def)
  then have "\<not> calm ?s t" using t(2) by (auto simp: calm_def harmless_def)
  then show ?thesis
    using windows_signal_checked [of "any_kill windows 0" "''proc_kill''" "[]" 0 ?s "Inr ()" t] t(1)
    by (auto simp: blank_pobj_def xproc_init_def)
qed

text \<open>
  An object that is marked gone: \<open>send_signal\<close> with another signal than \<open>SIGTERM\<close> raises, but
  \<open>terminate\<close> and \<open>kill\<close> go through without a look at the pid.
\<close>

lemma windows_gone_signals:
  assumes "po_gone (pobjs s r)" and "\<not> po_pid_reused (pobjs s r)"
  shows "sig \<noteq> Init_Process.SIGTERM \<Longrightarrow> any_send_signal windows r sig s =
      (Inl (mk_NoSuchProcess (po_pid (pobjs s r)) (po_name (pobjs s r)) (Some ''process no longer exists'')), s)"
    and "any_kill windows r s = pimpl r win_kill s" "any_terminate windows r s = pimpl r win_kill s"
proof -
  have sig: "pf_signals windows = Native win_send_signal win_suspend win_resume win_kill"
    by (simp add: windows_def)
  have g: "any_raise_if_pid_reused windows r s = (Inr (), s)"
    using assms any_is_running_over [of s r windows] by (simp add: any_raise_if_pid_reused_def)
  show "sig \<noteq> Init_Process.SIGTERM \<Longrightarrow> any_send_signal windows r sig s =
      (Inl (mk_NoSuchProcess (po_pid (pobjs s r)) (po_name (pobjs s r)) (Some ''process no longer exists'')), s)"
    using g assms any_is_running_over [of s r windows]
    by (simp add: any_send_signal_def sig mk_NoSuchProcess_def mk_NoSuchProcess_opt_def)
  show "any_kill windows r s = pimpl r win_kill s" "any_terminate windows r s = pimpl r win_kill s"
    using g by (simp_all add: windows_ops)
qed

section \<open>Platforms without creation times\<close>

lemma pimpl_objs:
  "pimpl r m s = (x, t) \<Longrightarrow> \<exists>i. pobjs t = (pobjs s)(r := (pobjs s r)\<lparr>po_impl := i\<rparr>)"
  by (auto simp: pimpl_def split: prod.splits)

lemma pid_only_get_ident:
  assumes "any_get_ident P r s = (x, t)" and "pf_kind P = PidOnly"
  shows "po_ident (pobjs t r) = po_ident (pobjs s r)" "x = Inr i \<Longrightarrow> i = (po_pid (pobjs s r), None)"
proof -
  obtain y u where y: "pimpl r (pf_create_time P) s = (y, u)" by (cases "pimpl r (pf_create_time P) s")
  from pimpl_objs [OF y] assms y
  show "po_ident (pobjs t r) = po_ident (pobjs s r)" "x = Inr i \<Longrightarrow> i = (po_pid (pobjs s r), None)"
    by (auto simp: any_get_ident_def any_create_time_def split: option.splits sum.splits)
qed

lemma pid_only_init_ident:
  assumes "any_init_ident P r pid False s = (Inr (), t)" and "pf_kind P = PidOnly"
    and "po_pid (pobjs s r) = pid" "po_ident (pobjs s r) = (pid, None)"
  shows "po_ident (pobjs t r) = (pid, None)"
proof -
  obtain x u where x: "any_get_ident P r s = (x, u)" by (cases "any_get_ident P r s")
  from pid_only_get_ident [OF x assms(2)] assms x show ?thesis
    by (cases x) (auto simp: any_init_ident_def split: if_splits)
qed

lemma pid_only_new_process:
  assumes run: "any_new_process P (Some pid) s = (Inr q, t)" and only: "pf_kind P = PidOnly"
  shows "po_ident (pobjs t q) = (pid, None)"
proof -
  obtain p u where p: "on_pl (init_pid (Some pid)) (s\<lparr>pnext := Suc (pnext s)\<rparr>) = (Inr p, u)"
    and init: "any_init_ident P q p False (upd_pobj q (\<lambda>_. blank_pobj p (xproc_init p (procfs_path (pl u)))) u) = (Inr (), t)"
    using run by (auto simp: any_new_process_def any_init_def bnd_Inr simp del: bnd_run)
  have "p = pid" using p
    by (simp add: on_pl_def init_pid_def try_else_Inr split: if_splits prod.splits del: try_else_run)
  with pid_only_init_ident [OF init only] show ?thesis by (simp add: blank_pobj_def)
qed

text \<open>
  Objects have no creation time, and as long as any process has its pid an object that is not
  marked yet is said to run.
\<close>

definition reuse_blind :: "('x, 'c, 'z) oplatform \<Rightarrow> bool" where
  "reuse_blind P \<longleftrightarrow>
     (\<forall>pid s q t. any_new_process P (Some pid) s = (Inr q, t) \<longrightarrow> po_ident (pobjs t q) = (pid, None))
   \<and> (\<forall>s r q u. r < pnext s \<and> po_ident (pobjs s r) = (po_pid (pobjs s r), None)
        \<and> \<not> po_gone (pobjs s r) \<and> \<not> po_pid_reused (pobjs s r)
        \<and> any_new_process P (Some (po_pid (pobjs s r))) s = (Inr q, u)
        \<longrightarrow> any_is_running P r s = (Inr True, u))"

context quiet_platform begin

lemma pid_only_blind: "pf_kind P = PidOnly \<Longrightarrow> reuse_blind P"
  unfolding reuse_blind_def
  using pid_only_new_process look_check
  by (fastforce simp: any_eq_def cmp_idents_def ctime_true_def)

end

text \<open>
  C5: FreeBSD, OpenBSD, SunOS and AIX do not notice pid reuse: an object gets no creation time
  in its identity, and as long as \<open>Process(pid)\<close> can be made for its pid, whatever process that
  is, \<open>is_running\<close> of an object not already marked gone or reused says yes.
\<close>

theorem pid_only_reuse_blind:
  "reuse_blind (bsd_platform FREEBSD) \<and> reuse_blind (bsd_platform OPENBSD) \<and> reuse_blind sunos \<and> reuse_blind aix"
  using bsd_quiet.pid_only_blind [of FREEBSD] bsd_quiet.pid_only_blind [of OPENBSD]
    sun_quiet.pid_only_blind aix_quiet.pid_only_blind
  by (simp add: bsd_platform_def sunos_def aix_def)

section \<open>Zombies of OpenBSD\<close>

text \<open>
  C6: on OpenBSD, when \<open>os.kill\<close> does not find a zombie whatever the signal, \<open>_send_signal\<close> raises
  \<open>NoSuchProcess\<close> for it and marks the object gone: \<open>pid_exists\<close>, which is asked to tell zombies
  apart, asks the same \<open>os.kill\<close>, and the list of pids is not looked at.
\<close>

theorem openbsd_zombie_taken_for_gone:
  fixes s u :: "(bsd_ext, bsd_cache, 'z bsys_ext) ostate"
  assumes guard: "any_raise_if_pid_reused (bsd_platform OPENBSD) r s = (Inr (), u)"
    and obj: "r < pnext s" "\<not> po_gone (pobjs s r)" "0 < po_pid (pobjs s r)"
    and os: "b_os (ext (pl u)) = OPENBSD" "\<And>h sig. os_kill (sys_os (pl u)) h (po_pid (pobjs s r)) sig = Inl ESRCH"
  shows "\<exists>t. any_send_signal (bsd_platform OPENBSD) r sig s
        = (Inl (mk_NoSuchProcess (po_pid (pobjs s r)) (po_name (pobjs s r)) None), t)
     \<and> po_gone (pobjs t r) \<and> hist (pl t) = SKill (po_pid (pobjs s r)) 0 # SKill (po_pid (pobjs s r)) sig # hist (pl u)"
proof -
  have keep: "(pobjs u r)\<lparr>po_gone := False\<rparr> = pobjs s r"
    using bsd_quiet.guard_outcome [OF guard obj(1,2)] by auto
  have "po_name ((pobjs u r)\<lparr>po_gone := False\<rparr>) = po_name (pobjs u r)" by simp
  then have nm: "po_name (pobjs u r) = po_name (pobjs s r)" using keep by simp
  show ?thesis using guard obj os nm
    by (simp add: any_send_signal_def bsd_platform_def [of OPENBSD] posix_send_signal_def on_pl_def kill_call_def
        bsd_pid_exists_def posix_pid_exists_def mk_NoSuchProcess_def mk_NoSuchProcess_opt_def)
qed

definition zombie_demo :: bsys where
  "zombie_demo = (null_bsys 42)\<lparr>sys_os := null_os\<lparr>os_kill := \<lambda>h pid sig. Inl ESRCH\<rparr>,
     ext := null_bsd\<lparr>b_os := OPENBSD, b_kinfo := \<lambda>h pid. Inl (OSError EACCES)\<rparr>\<rparr>"

lemma zombie_demo_new:
  "\<exists>t. any_new_process (bsd_platform OPENBSD) (Some 42) (demo_objs zombie_demo None) = (Inr 1, t)
   \<and> po_ident (pobjs t 1) = (42, None) \<and> ext (pl t) = ext zombie_demo \<and> sys_os (pl t) = sys_os zombie_demo"
  by (simp add: any_new_process_def any_init_def init_pid_def check_pid_range_def demo_objs_def zombie_demo_def
      any_init_ident_def any_get_ident_def any_create_time_def bsd_platform_def pimpl_def on_pl_def bsd_create_time_def
      bsd_oneshot_def bsd_wrap_def bsd_handler_def b_get_def memoize_def x_has_def
      blank_pobj_def xproc_init_def upd_pobj_def null_os_def mk_AccessDenied_def)

theorem openbsd_zombie_taken_for_gone_witness:
  "\<exists>t. any_send_signal (bsd_platform OPENBSD) 0 9 (demo_objs zombie_demo None) = (Inl (mk_NoSuchProcess 42 None None), t)
     \<and> po_gone (pobjs t 0)"
proof -
  let ?P = "bsd_platform OPENBSD" and ?s = "demo_objs zombie_demo None"
  obtain t where t: "any_new_process ?P (Some 42) ?s = (Inr 1, t)" "po_ident (pobjs t 1) = (42, None)"
    "ext (pl t) = ext zombie_demo" "sys_os (pl t) = sys_os zombie_demo"
    using zombie_demo_new by blast
  have "any_is_running ?P 0 ?s = (Inr True, t)"
    using bsd_quiet.look_check [of ?s 0 OPENBSD "Inr 1" t] t
    by (simp add: blank_pobj_def any_eq_def cmp_idents_def ctime_true_def)
  then have g: "any_raise_if_pid_reused ?P 0 ?s = (Inr (), t)"
    by (simp add: any_raise_if_pid_reused_def blank_pobj_def)
  have "b_os (ext (pl t)) = OPENBSD" "\<And>h sig. os_kill (sys_os (pl t)) h (po_pid (pobjs ?s 0)) sig = Inl ESRCH"
    by (simp_all add: t zombie_demo_def)
  from openbsd_zombie_taken_for_gone [OF g _ _ _ this, of 9] show ?thesis
    by (auto simp: blank_pobj_def)
qed

end
