(* ===== verification/Spec2Isabelle.thy ===== *)
theory Spec2Isabelle
  imports Common_Utils Wrap_Numbers Memoize Ntuples Posix_Wait Posix_Files Linux_Utils Linux_Memory
    Linux_Cpu Linux_System Linux_Net Linux_Disk Linux_Sensors Linux_Process Linux_Process_Ops
    Init_State Init_Process Init_System Init_Net Init_Cpu Init_Methods Init_Frames Init_Tree
    Init_Iter Init_Wait Ext_Base Py_Ntpath Win_System Win_Process Win_Facts Bsd Bsd_Process Bsd_Facts
    Osx Osx_Facts Sunos Sunos_Process Sunos_Facts Aix Aix_Process Aix_Facts
    Init_Platform
begin

text \<open>
  psutil (\<open>psutil/\<close>): processes and system utilization, the package on Linux and the modules of all
  its platforms.

  \<^bold>\<open>The program.\<close>  The package \<open>psutil/__init__.py\<close> is what users import.  It keeps the
  \<open>Process\<close> objects and the caches, and calls one platform module: \<open>psutil/_pslinux.py\<close>, which
  reads \<open>/proc\<close> and \<open>/sys\<close> and parses their text, or \<open>_pswindows.py\<close>, \<open>_psbsd.py\<close>, \<open>_psosx.py\<close>,
  \<open>_pssunos.py\<close> and \<open>_psaix.py\<close>, which rely on compiled functions.  Each translates \<open>OSError\<close> into
  the exceptions of the library.  All use \<open>psutil/_common.py\<close> (exceptions,
  percentages, counters that wrap, memoization), \<open>psutil/_psposix.py\<close> (waiting, disk usage,
  terminals), \<open>psutil/_enums.py\<close> and \<open>psutil/_ntuples.py\<close>.  The compiled extension and the
  kernel are below.

  \<^bold>\<open>How it is modelled.\<close>  A statement that may raise is a function of type
  \<open>('s, 'a) py = 's \<Rightarrow> (exn + 'a) \<times> 's\<close> (\<open>Py_Base\<close>); exceptions are the datatype \<open>exn\<close>, with an
  errno for each \<open>OSError\<close>.  The state is a record extended layer by layer: \<open>sys\<close> (\<open>Sys\<close>: the
  oracle of the operating system, the calls made so far and \<open>PROCFS_PATH\<close>), \<open>psx\<close>
  (\<open>Posix_Files\<close>: the cached map of terminals), \<open>lsys\<close> (\<open>Linux_Process\<close>: the Linux
  \<open>Process\<close> object in use) and \<open>ustate\<close> (\<open>Init_State\<close>: the heap of \<open>Process\<close> objects and the
  globals of \<open>__init__.py\<close>); for the other platforms \<open>esys\<close> (\<open>Ext_Base\<close>) extends \<open>psx\<close> by a record
  of the compiled functions, by their constants and by the \<open>Process\<close> object in use, and \<open>wsys\<close> and
  \<open>bsys\<close> add the caches of the Windows and BSD modules.  The oracle \<open>os\<close> stands for the kernel, the Python functions that
  reach it and the C extension: it may answer anything, and answers depend on the list of
  earlier calls, so files change or vanish between two reads.  A theorem about a run therefore
  holds for every interleaving with the rest of the system.  The oracle's field \<open>os_blocks\<close> says where
  a call that may block never returns: \<open>waitpid\<close>, \<open>poll\<close>, \<open>kevent\<close> (\<open>may_block\<close>, \<open>Posix_Wait\<close>) and the
  \<open>proc_wait\<close> of the Windows extension.  What needs more of the system says so in a premise:
  \<open>clock_advances\<close> of the clock, \<open>timed_waits\<close>, which adds that the three calls return when they are
  asked not to wait, are given a timeout or were told that the process has terminated, and
  \<open>bounded_proc_wait\<close> for Windows, where a call with finite milliseconds returns.

  \<^bold>\<open>The language\<close>: \<open>Py_Base\<close> (exceptions, \<open>try\<close>, loops, dicts), \<open>Py_Float\<close> (doubles as
  rationals that are rounded after each operation) with \<open>Py_Float_Error\<close>, \<open>Py_Str\<close> (bytes,
  strings, \<open>int()\<close>, \<open>split\<close>), \<open>Py_Regex\<close> (the regular expressions), \<open>Py_Ipaddress\<close> (IPv4
  networks), \<open>Py_Ntpath\<close> (\<open>os.path\<close> of Windows).

  \<^bold>\<open>The components\<close>, each with its operations named as in the code:
  \<^item> \<open>Common_Utils\<close>, \<open>Wrap_Numbers\<close>, \<open>Memoize\<close>: \<open>_common.py\<close>.  \<open>_WrapNumbers\<close> is shown to
    refine an abstract counter that adds what was lost at each wrap; \<open>memoize_when_activated\<close>
    is a locale over a slot of the state, interpreted for each cached method of both layers.
  \<^item> \<open>Ntuples\<close>: \<open>_enums.py\<close> and \<open>_ntuples.py\<close> as datatypes and records.
  \<^item> \<open>Posix_Wait\<close>, \<open>Posix_Files\<close>: \<open>_psposix.py\<close>.  The three ways to wait for a process meet one
    contract, the locale \<open>waiter\<close>.
  \<^item> \<open>Linux_Utils\<close>, \<open>Linux_Memory\<close>, \<open>Linux_Cpu\<close>, \<open>Linux_System\<close>, \<open>Linux_Net\<close>, \<open>Linux_Disk\<close>,
    \<open>Linux_Sensors\<close>: the system-wide functions of \<open>_pslinux.py\<close>, with the parsers proved against
    writers of the kernel's text formats.
  \<^item> \<open>Linux_Process\<close>, \<open>Linux_Process_Ops\<close>: its class \<open>Process\<close>, the decorator
    \<open>wrap_exceptions\<close> and the caches of \<open>oneshot\<close>.
  \<^item> \<open>Init_State\<close>, \<open>Init_Process\<close>: the objects of \<open>__init__.py\<close>, identity, pid reuse and
    signals.  \<open>Init_Methods\<close>, \<open>Init_Frames\<close>: getters, \<open>oneshot\<close> and \<open>as_dict\<close>, and what they leave
    alone.  \<open>Init_Tree\<close>: \<open>parent\<close>, \<open>parents\<close>, \<open>children\<close>.  \<open>Init_Iter\<close>: the generator
    \<open>process_iter\<close>.  \<open>Init_Wait\<close>: \<open>Process.wait\<close>, \<open>Popen\<close>, \<open>wait_procs\<close>.
  \<^item> \<open>Init_System\<close>, \<open>Init_Net\<close>, \<open>Init_Cpu\<close>: the system-wide functions of \<open>__init__.py\<close>, on Linux.
  \<^item> \<open>Ext_Base\<close>: calls of the compiled functions and the \<open>Process\<close> objects of the platforms that
    rely on them; every cached method is an interpretation of \<open>memo_slot\<close>, and what a call leaves
    alone is the interpretation \<open>xf\<close> of \<open>preserved\<close>.
  \<^item> \<open>Win_System\<close>, \<open>Win_Process\<close>: \<open>_pswindows.py\<close>; \<open>Win_Facts\<close>: its retries, CPU masks, DOS paths
    with their cache, and \<open>wait\<close>.
  \<^item> \<open>Bsd\<close>, \<open>Bsd_Process\<close>: \<open>_psbsd.py\<close>; \<open>Bsd_Facts\<close>: the pids of OpenBSD.  \<open>Osx\<close>: \<open>_psosx.py\<close>;
    \<open>Osx_Facts\<close>: creation times.
  \<^item> \<open>Sunos\<close>, \<open>Sunos_Process\<close>: \<open>_pssunos.py\<close>; \<open>Sunos_Facts\<close>: the parser of \<open>pfiles\<close>.  \<open>Aix\<close>,
    \<open>Aix_Process\<close>: \<open>_psaix.py\<close>; \<open>Aix_Facts\<close>: the search for the executable.
  \<^item> \<open>Init_Platform\<close>: identity, pid reuse and signals of \<open>__init__.py\<close> over these modules: what
    Windows checks before a signal, the platforms that do not notice pid reuse, OpenBSD's zombies.

  \<^bold>\<open>What is shown.\<close>  Invariants of the state (the table of \<open>process_iter\<close>, the three dicts of
  \<open>_WrapNumbers\<close>, the caches); what each operation leaves alone (the locale \<open>preserved\<close> with its
  interpretations \<open>confined\<close>, \<open>lframe\<close>, \<open>uframe\<close>, \<open>keeps\<close>, \<open>wframe\<close>, \<open>xframe\<close>,
  \<open>quiet\<close>, \<open>oframe\<close>; \<open>quiet_platform\<close> is the contract of the platform modules); the safety of the
  signal methods against pid reuse, and the case where the code lets it through; the contracts of
  \<open>children\<close>, \<open>process_iter\<close> (the trace \<open>entries_run\<close> of a whole iteration), \<open>wait_procs\<close> and
  \<open>as_dict\<close> (the trace \<open>getters_run\<close> of its getters); bounds of the percentages under
  rounding; round trips of the parsers; error translation; termination of the waits.

  \<^bold>\<open>Loops that may not end\<close> are \<open>partial_function (option)\<close>, \<open>None\<close> being a run that never
  returns: \<open>poll_gone\<close>, \<open>wait_loop\<close>, \<open>wait_rounds\<close>, \<open>parents_loop\<close> and \<open>win_poll\<close>.  The waits
  are proved to return when a timeout is given, the clock advances and the calls that are told how
  long to wait do not block for ever; a wait that passed no timeout on, or dropped \<open>WNOHANG\<close>, would
  be \<open>None\<close> on such a system.  Every other recursion is total.  \<open>bsd_pids_at\<close> counts the nested calls of \<open>pids()\<close> that the interpreter allows, a constant
  \<open>b_depth\<close> of the model: running out is not a bound of the model but \<open>RecursionError\<close>.

  \<^bold>\<open>Witnesses\<close> run on concrete systems: \<open>null_os\<close> (\<open>Sys\<close>), where nothing exists, and oracles that
  override some of its answers, such as \<open>demo_os\<close> (\<open>Init_Process\<close>), \<open>tree_os\<close> (\<open>Init_Tree\<close>) and
  \<open>child_os\<close> (\<open>Init_Wait\<close>).

  \<^bold>\<open>Conventions.\<close>  A dict is an association list in insertion order.  A Python set that is
  iterated over is a list in the order of the iteration.  \<open>sum()\<close> of floats adds from the left,
  as it does before CPython 3.12.  A \<open>with self._lock\<close> block is one step.

  \<^bold>\<open>Not modelled\<close>: the C sources; of the class \<open>Process\<close> on other platforms than Linux, what
  \<open>Init_Platform\<close> does not name (the getters, \<open>oneshot\<close> and \<open>as_dict\<close> are the Linux ones over another
  platform object), and the system-wide functions there; names that a module
  binds to a function of the extension, which have no code; the PyPy branch of \<open>exe\<close> on Windows;
  the text of messages
  (\<open>__str__\<close>, \<open>__repr__\<close>, \<open>_pprint_secs\<close>), warnings, \<open>debug\<close> output and \<open>print_color\<close>, which have
  no effect on results; the context manager and attribute lookup of \<open>Popen\<close>, which pass on to
  \<open>subprocess.Popen\<close>; \<open>throw()\<close> into the generator of \<open>process_iter\<close>; infinities and NaN.
\<close>

end
